(* ===== verification/Prelude.thy ===== *)
theory Prelude
  imports "HOL-Library.Word"
begin

text \<open>
  Shared vocabulary of the development: the machine integers of the 32-bit build
  (\<^verbatim>\<open>unsigned long\<close> is \<open>u32\<close>), the bit-field idioms of the sources
  (\<^verbatim>\<open>(w >> n) & m\<close> and \<^verbatim>\<open>w & (1 << n)\<close>), the C \<^verbatim>\<open>switch\<close> over
  integer labels, the result type of operations that can stop in the debugger, and
  the generic facts on words and lists that the component theories share.
\<close>

unbundle bit_operations_syntax

named_theorems word_field \<open>equations and bounds for bit fields of machine words\<close>
named_theorems trap_simps \<open>unfolding of the result type of trapping operations\<close>

section \<open>Machine integers\<close>

type_synonym u8 = "8 word"
type_synonym u16 = "16 word"
type_synonym u32 = "32 word"

text \<open>The idioms \<^verbatim>\<open>(w >> n) & m\<close> and \<^verbatim>\<open>w & (1 << n)\<close> (as a truth value).\<close>

definition fld :: "u32 \<Rightarrow> nat \<Rightarrow> u32 \<Rightarrow> u32" where
  "fld w n m = drop_bit n w AND m"

definition flag_at :: "u32 \<Rightarrow> nat \<Rightarrow> bool" where
  "flag_at w n = (w AND push_bit n 1 \<noteq> 0)"

text \<open>\<^verbatim>\<open>(unsigned)-(signed)w\<close> and the arithmetic right shift of a \<^verbatim>\<open>signed long\<close>.\<close>

definition sar :: "u32 \<Rightarrow> nat \<Rightarrow> u32" where
  "sar w n = signed_drop_bit n w"

lemma flag_at_bit [word_field]: "flag_at w n = bit w n"
  by (simp only: flag_at_def bit_iff_and_push_bit_not_eq_0)

lemma bit_fld: "bit (fld w n m) i = (bit w (n + i) \<and> bit m i)"
  by (simp add: fld_def bit_simps)

lemma fld_le [word_field]: "fld w n m \<le> m"
  by (simp add: fld_def word_and_le1)

lemma fld_lt16 [word_field]: "fld w n 0xF < 16"
  using fld_le [of w n "0xF"] by (rule order_le_less_trans) simp

lemma fld_lt8 [word_field]: "fld w n 7 < 8"
  using fld_le [of w n 7] by (rule order_le_less_trans) simp

lemma fld_lt8_16 [word_field]: "fld w n 7 < 16"
  using fld_le [of w n 7] by (rule order_le_less_trans) simp

lemma unat_pow2: "n < 32 \<Longrightarrow> unat ((2::u32) ^ n) = 2 ^ n"
proof -
  assume n: "n < 32"
  have "unat (word_of_nat (2 ^ n) :: u32) = 2 ^ n"
    using power_strict_increasing [OF n, of "2::nat"] n
    by (simp only: unsigned_of_nat take_bit_nat_eq_self) simp
  then show ?thesis by simp
qed

lemma bit_below:
  assumes "(w::u32) < 2 ^ n" "n < 32" "bit w i"
  shows "i < n"
proof -
  have "unat w < 2 ^ n" using assms by (simp add: word_less_nat_alt unat_pow2)
  then have "take_bit n (unat w) = unat w" by (rule take_bit_nat_eq_self)
  moreover have "bit (unat w) i" using assms(3) bit_imp_le_length [OF assms(3)]
    by (simp add: bit_unsigned_iff)
  ultimately show ?thesis by (metis bit_take_bit_iff)
qed

text \<open>Exhaustive case splits over small fields.\<close>

lemma u32_below_cases:
  assumes "(k::u32) < 16"
  shows "k \<in> {0, 1, 2, 3, 4, 5, 6, 7, 8, 9, 10, 11, 12, 13, 14, 15}"
proof -
  have "unat k < 16" using assms by (simp add: word_less_nat_alt)
  then have "unat k \<in> set [0..<16]" by simp
  also have "[0..<16::nat] = [0,1,2,3,4,5,6,7,8,9,10,11,12,13,14,15]" by (simp add: upt_rec)
  finally have "word_of_nat (unat k) \<in> (word_of_nat :: nat \<Rightarrow> u32) ` set [0,1,2,3,4,5,6,7,8,9,10,11,12,13,14,15]"
    by (rule imageI)
  then show ?thesis by simp
qed

text \<open>Two words are equal if their 32 bits are; the bit numbers are then numerals.\<close>

lemma u32_eqI:
  assumes "list_all (\<lambda>i. bit a i = bit (b::u32) i)
    [0, 1, 2, 3, 4, 5, 6, 7, 8, 9, 10, 11, 12, 13, 14, 15,
     16, 17, 18, 19, 20, 21, 22, 23, 24, 25, 26, 27, 28, 29, 30, 31]"
  shows "a = b"
proof (rule bit_word_eqI)
  fix i assume "i < LENGTH(32)"
  then have "i \<in> set [0..<32]" by simp
  also have "[0..<32] = [0, 1, 2, 3, 4, 5, 6, 7, 8, 9, 10, 11, 12, 13, 14, 15,
     16, 17, 18, 19, 20, 21, 22, 23, 24, 25, 26, 27, 28, 29, 30, 31::nat]"
    by (simp add: upt_rec)
  finally show "bit a i = bit b i"
    using assms unfolding list_all_iff by (rule bspec [rotated])
qed

lemma fld_cases:
  "fld w n 7 \<in> {0, 1, 2, 3, 4, 5, 6, 7}"
  "fld w n 3 \<in> {0, 1, 2, 3}"
  "fld w n 0xF \<in> {0, 1, 2, 3, 4, 5, 6, 7, 8, 9, 10, 11, 12, 13, 14, 15}"
  "fld w n 0xB \<in> {0, 1, 2, 3, 8, 9, 10, 11}"
proof -
  have idem: "fld w n m AND m = fld w n m" for m :: u32
    by (simp add: fld_def and.assoc)
  have small: "m < 16 \<Longrightarrow> fld w n m < 16" for m :: u32
    using fld_le [of w n m] by (rule order_le_less_trans)
  show "fld w n 7 \<in> {0, 1, 2, 3, 4, 5, 6, 7}"
    using idem [of 7] u32_below_cases [OF small [of 7]] by auto
  show "fld w n 3 \<in> {0, 1, 2, 3}"
    using idem [of 3] u32_below_cases [OF small [of 3]] by auto
  show "fld w n 0xF \<in> {0, 1, 2, 3, 4, 5, 6, 7, 8, 9, 10, 11, 12, 13, 14, 15}"
    using u32_below_cases [OF small [of "0xF"]] by simp
  show "fld w n 0xB \<in> {0, 1, 2, 3, 8, 9, 10, 11}"
    using idem [of "0xB"] u32_below_cases [OF small [of "0xB"]] by auto
qed

lemma fld_17_cases:
  "fld w n 0x17 \<in> {0x00, 0x01, 0x02, 0x03, 0x04, 0x05, 0x06, 0x07,
                    0x10, 0x11, 0x12, 0x13, 0x14, 0x15, 0x16, 0x17}"
proof -
  have idem: "fld w n 0x17 AND 0x17 = fld w n 0x17"
    by (simp add: fld_def and.assoc)
  show ?thesis
  proof (cases "fld w n 0x17 < 16")
    case True
    then show ?thesis using idem u32_below_cases [OF True] by auto
  next
    case False
    then have "fld w n 0x17 - 16 < 16"
      using fld_le [of w n "0x17"] by unat_arith
    from u32_below_cases [OF this] have "fld w n 0x17 \<in> (+) 16 ` {0, 1, 2, 3, 4, 5, 6, 7, 8, 9, 10, 11, 12, 13, 14, 15}"
      by (simp add: image_iff diff_eq_eq add.commute)
    then show ?thesis using idem by auto
  qed
qed

section \<open>The C switch statement\<close>

text \<open>
  \<^verbatim>\<open>switch (k) { case a: v; ... default: d }\<close> where every case ends in
  \<^verbatim>\<open>break\<close> or \<^verbatim>\<open>return\<close>; fall-through is written out by the user.
\<close>

fun switch :: "'k \<Rightarrow> ('k \<times> 'v) list \<Rightarrow> 'v \<Rightarrow> 'v" where
  "switch k [] d = d"
| "switch k ((a, v) # cs) d = (if k = a then v else switch k cs d)"

lemma switch_cases:
  assumes "\<And>v. v \<in> snd ` set cs \<Longrightarrow> P v" and "P d"
  shows "P (switch k cs d)"
  using assms by (induction k cs d rule: switch.induct) auto

lemma switch_map: "f (switch k cs d) = switch k (map (\<lambda>(a, v). (a, f v)) cs) (f d)"
  by (induction k cs d rule: switch.induct) auto

lemma switch_total:
  assumes "k \<in> fst ` set cs"
  shows "switch k cs d = switch k cs d'"
  using assms by (induction k cs d rule: switch.induct) auto

lemma switch_rel:
  assumes "k = k'"
    and "list_all2 (\<lambda>(a, v) (a', v'). a = a' \<and> R v v') cs cs'"
    and "k \<notin> fst ` set cs \<Longrightarrow> R d d'"
  shows "R (switch k cs d) (switch k' cs' d')"
proof -
  have "\<lbrakk>list_all2 (\<lambda>(a, v) (a', v'). a = a' \<and> R v v') cs cs'; k \<notin> fst ` set cs \<Longrightarrow> R d d'\<rbrakk>
    \<Longrightarrow> R (switch k cs d) (switch k cs' d')"
  proof (induction cs arbitrary: cs')
    case (Cons x cs)
    then show ?case by (cases x) (auto simp: list_all2_Cons1)
  qed simp
  then show ?thesis using assms by blast
qed

lemma if_rel:
  assumes "b = b'" and "b \<Longrightarrow> R x x'" and "\<not> b \<Longrightarrow> R y y'"
  shows "R (if b then x else y) (if b' then x' else y')"
  using assms by simp

section \<open>Operations that can stop in the debugger\<close>

text \<open>
  \<^verbatim>\<open>DebugBreak_()\<close> emits a trapping instruction: the emulated processor stops in
  the debugger and the operation does not go on by itself. An operation that can reach
  it returns \<open>Inl\<close> with the reason; the state at the stop is part of the reason only
  where the code has already changed it.
\<close>

datatype trap =
    Invalid_Read u32
  | Invalid_Write u32
  | Invalid_Branch u32
  | Debug_Break string

type_synonym 'a res = "trap + 'a"

definition rbind :: "'e + 'a \<Rightarrow> ('a \<Rightarrow> 'e + 'b) \<Rightarrow> 'e + 'b" where
  "rbind m f = (case m of Inl e \<Rightarrow> Inl e | Inr x \<Rightarrow> f x)"

lemma rbind_simps [simp, trap_simps]:
  "rbind (Inl e) f = Inl e"
  "rbind (Inr x) f = f x"
  by (simp_all add: rbind_def)

lemma rbind_assoc [trap_simps]: "rbind (rbind m f) g = rbind m (\<lambda>x. rbind (f x) g)"
  by (simp add: rbind_def split: sum.splits)

lemma rbind_Inr_iff [trap_simps]:
  "rbind m f = Inr y \<longleftrightarrow> (\<exists>x. m = Inr x \<and> f x = Inr y)"
  by (cases m) auto

end
