(* ===== verification/Isa.thy ===== *)
theory Isa
  imports Prelude
begin

text \<open>
  The instruction set vocabulary of \<^verbatim>\<open>Core/Disassembler.h\<close>: the instruction
  codes, conditions, shifts, addressing and extension modes, and the decoder's context
  record with the field extractors its sub-decoders share.
\<close>

section \<open>Instruction codes\<close>

text \<open>
  \<^verbatim>\<open>INST::CODE\<close> is a C enumeration that the code also uses as an index
  (\<^verbatim>\<open>INST::strings[ctx.instruction]\<close>, \<^verbatim>\<open>funcs[INST::STR_I]\<close>), so a code is a
  wrapped number and every enumerator a name for its number, in the source's order.
\<close>

datatype inst = INST (inst_code: nat)

abbreviation UD :: inst where "UD \<equiv> INST 0"
abbreviation DEBUG :: inst where "DEBUG \<equiv> INST 1"
abbreviation UNKNOWN :: inst where "UNKNOWN \<equiv> INST 2"
abbreviation STR_I :: inst where "STR_I \<equiv> INST 3"
abbreviation LDR_I :: inst where "LDR_I \<equiv> INST 4"
abbreviation STR_IW :: inst where "STR_IW \<equiv> INST 5"
abbreviation LDR_IW :: inst where "LDR_IW \<equiv> INST 6"
abbreviation STRB_I :: inst where "STRB_I \<equiv> INST 7"
abbreviation LDRB_I :: inst where "LDRB_I \<equiv> INST 8"
abbreviation STRB_IW :: inst where "STRB_IW \<equiv> INST 9"
abbreviation LDRB_IW :: inst where "LDRB_IW \<equiv> INST 10"
abbreviation STR_IP :: inst where "STR_IP \<equiv> INST 11"
abbreviation LDR_IP :: inst where "LDR_IP \<equiv> INST 12"
abbreviation STR_IPW :: inst where "STR_IPW \<equiv> INST 13"
abbreviation LDR_IPW :: inst where "LDR_IPW \<equiv> INST 14"
abbreviation STRB_IP :: inst where "STRB_IP \<equiv> INST 15"
abbreviation LDRB_IP :: inst where "LDRB_IP \<equiv> INST 16"
abbreviation STRB_IPW :: inst where "STRB_IPW \<equiv> INST 17"
abbreviation LDRB_IPW :: inst where "LDRB_IPW \<equiv> INST 18"
abbreviation STR_R :: inst where "STR_R \<equiv> INST 19"
abbreviation LDR_R :: inst where "LDR_R \<equiv> INST 20"
abbreviation STR_RW :: inst where "STR_RW \<equiv> INST 21"
abbreviation LDR_RW :: inst where "LDR_RW \<equiv> INST 22"
abbreviation STRB_R :: inst where "STRB_R \<equiv> INST 23"
abbreviation LDRB_R :: inst where "LDRB_R \<equiv> INST 24"
abbreviation STRB_RW :: inst where "STRB_RW \<equiv> INST 25"
abbreviation LDRB_RW :: inst where "LDRB_RW \<equiv> INST 26"
abbreviation STR_RP :: inst where "STR_RP \<equiv> INST 27"
abbreviation LDR_RP :: inst where "LDR_RP \<equiv> INST 28"
abbreviation STR_RPW :: inst where "STR_RPW \<equiv> INST 29"
abbreviation LDR_RPW :: inst where "LDR_RPW \<equiv> INST 30"
abbreviation STRB_RP :: inst where "STRB_RP \<equiv> INST 31"
abbreviation LDRB_RP :: inst where "LDRB_RP \<equiv> INST 32"
abbreviation STRB_RPW :: inst where "STRB_RPW \<equiv> INST 33"
abbreviation LDRB_RPW :: inst where "LDRB_RPW \<equiv> INST 34"
abbreviation AND_I :: inst where "AND_I \<equiv> INST 35"
abbreviation EOR_I :: inst where "EOR_I \<equiv> INST 36"
abbreviation SUB_I :: inst where "SUB_I \<equiv> INST 37"
abbreviation RSB_I :: inst where "RSB_I \<equiv> INST 38"
abbreviation ADD_I :: inst where "ADD_I \<equiv> INST 39"
abbreviation ADC_I :: inst where "ADC_I \<equiv> INST 40"
abbreviation SBC_I :: inst where "SBC_I \<equiv> INST 41"
abbreviation RSC_I :: inst where "RSC_I \<equiv> INST 42"
abbreviation TST_I :: inst where "TST_I \<equiv> INST 43"
abbreviation TEQ_I :: inst where "TEQ_I \<equiv> INST 44"
abbreviation CMP_I :: inst where "CMP_I \<equiv> INST 45"
abbreviation CMN_I :: inst where "CMN_I \<equiv> INST 46"
abbreviation ORR_I :: inst where "ORR_I \<equiv> INST 47"
abbreviation MOV_I :: inst where "MOV_I \<equiv> INST 48"
abbreviation BIC_I :: inst where "BIC_I \<equiv> INST 49"
abbreviation MVN_I :: inst where "MVN_I \<equiv> INST 50"
abbreviation MSR_CPSR_I :: inst where "MSR_CPSR_I \<equiv> INST 51"
abbreviation MSR_SPSR_I :: inst where "MSR_SPSR_I \<equiv> INST 52"
abbreviation AND_R :: inst where "AND_R \<equiv> INST 53"
abbreviation EOR_R :: inst where "EOR_R \<equiv> INST 54"
abbreviation SUB_R :: inst where "SUB_R \<equiv> INST 55"
abbreviation RSB_R :: inst where "RSB_R \<equiv> INST 56"
abbreviation ADD_R :: inst where "ADD_R \<equiv> INST 57"
abbreviation ADC_R :: inst where "ADC_R \<equiv> INST 58"
abbreviation SBC_R :: inst where "SBC_R \<equiv> INST 59"
abbreviation RSC_R :: inst where "RSC_R \<equiv> INST 60"
abbreviation TST_R :: inst where "TST_R \<equiv> INST 61"
abbreviation TEQ_R :: inst where "TEQ_R \<equiv> INST 62"
abbreviation CMP_R :: inst where "CMP_R \<equiv> INST 63"
abbreviation CMN_R :: inst where "CMN_R \<equiv> INST 64"
abbreviation ORR_R :: inst where "ORR_R \<equiv> INST 65"
abbreviation MOV_R :: inst where "MOV_R \<equiv> INST 66"
abbreviation BIC_R :: inst where "BIC_R \<equiv> INST 67"
abbreviation MVN_R :: inst where "MVN_R \<equiv> INST 68"
abbreviation AND_RR :: inst where "AND_RR \<equiv> INST 69"
abbreviation EOR_RR :: inst where "EOR_RR \<equiv> INST 70"
abbreviation SUB_RR :: inst where "SUB_RR \<equiv> INST 71"
abbreviation RSB_RR :: inst where "RSB_RR \<equiv> INST 72"
abbreviation ADD_RR :: inst where "ADD_RR \<equiv> INST 73"
abbreviation ADC_RR :: inst where "ADC_RR \<equiv> INST 74"
abbreviation SBC_RR :: inst where "SBC_RR \<equiv> INST 75"
abbreviation RSC_RR :: inst where "RSC_RR \<equiv> INST 76"
abbreviation TST_RR :: inst where "TST_RR \<equiv> INST 77"
abbreviation TEQ_RR :: inst where "TEQ_RR \<equiv> INST 78"
abbreviation CMP_RR :: inst where "CMP_RR \<equiv> INST 79"
abbreviation CMN_RR :: inst where "CMN_RR \<equiv> INST 80"
abbreviation ORR_RR :: inst where "ORR_RR \<equiv> INST 81"
abbreviation MOV_RR :: inst where "MOV_RR \<equiv> INST 82"
abbreviation BIC_RR :: inst where "BIC_RR \<equiv> INST 83"
abbreviation MVN_RR :: inst where "MVN_RR \<equiv> INST 84"
abbreviation MSR_CPSR_R :: inst where "MSR_CPSR_R \<equiv> INST 85"
abbreviation MSR_SPSR_R :: inst where "MSR_SPSR_R \<equiv> INST 86"
abbreviation MRS_CPSR :: inst where "MRS_CPSR \<equiv> INST 87"
abbreviation MRS_SPSR :: inst where "MRS_SPSR \<equiv> INST 88"
abbreviation CLZ :: inst where "CLZ \<equiv> INST 89"
abbreviation BKPT :: inst where "BKPT \<equiv> INST 90"
abbreviation SWI :: inst where "SWI \<equiv> INST 91"
abbreviation BX :: inst where "BX \<equiv> INST 92"
abbreviation BLX :: inst where "BLX \<equiv> INST 93"
abbreviation B :: inst where "B \<equiv> INST 94"
abbreviation BL :: inst where "BL \<equiv> INST 95"
abbreviation MRC :: inst where "MRC \<equiv> INST 96"
abbreviation MCR :: inst where "MCR \<equiv> INST 97"
abbreviation STM :: inst where "STM \<equiv> INST 98"
abbreviation LDM :: inst where "LDM \<equiv> INST 99"
abbreviation STM_W :: inst where "STM_W \<equiv> INST 100"
abbreviation LDM_W :: inst where "LDM_W \<equiv> INST 101"
abbreviation STRX_I :: inst where "STRX_I \<equiv> INST 102"
abbreviation LDRX_I :: inst where "LDRX_I \<equiv> INST 103"
abbreviation STRX_IW :: inst where "STRX_IW \<equiv> INST 104"
abbreviation LDRX_IW :: inst where "LDRX_IW \<equiv> INST 105"
abbreviation STRX_IP :: inst where "STRX_IP \<equiv> INST 106"
abbreviation LDRX_IP :: inst where "LDRX_IP \<equiv> INST 107"
abbreviation STRX_IPW :: inst where "STRX_IPW \<equiv> INST 108"
abbreviation LDRX_IPW :: inst where "LDRX_IPW \<equiv> INST 109"
abbreviation STRX_R :: inst where "STRX_R \<equiv> INST 110"
abbreviation LDRX_R :: inst where "LDRX_R \<equiv> INST 111"
abbreviation STRX_RW :: inst where "STRX_RW \<equiv> INST 112"
abbreviation LDRX_RW :: inst where "LDRX_RW \<equiv> INST 113"
abbreviation STRX_RP :: inst where "STRX_RP \<equiv> INST 114"
abbreviation LDRX_RP :: inst where "LDRX_RP \<equiv> INST 115"
abbreviation STRX_RPW :: inst where "STRX_RPW \<equiv> INST 116"
abbreviation LDRX_RPW :: inst where "LDRX_RPW \<equiv> INST 117"
abbreviation BPRE :: inst where "BPRE \<equiv> INST 118"
abbreviation MUL_R :: inst where "MUL_R \<equiv> INST 119"
abbreviation MLA_R :: inst where "MLA_R \<equiv> INST 120"
abbreviation UMULL :: inst where "UMULL \<equiv> INST 121"
abbreviation UMLAL :: inst where "UMLAL \<equiv> INST 122"
abbreviation SMULL :: inst where "SMULL \<equiv> INST 123"
abbreviation SMLAL :: inst where "SMLAL \<equiv> INST 124"
abbreviation SWP :: inst where "SWP \<equiv> INST 125"
abbreviation SWPB :: inst where "SWPB \<equiv> INST 126"
abbreviation BLX_I :: inst where "BLX_I \<equiv> INST 127"
abbreviation LDRD_R :: inst where "LDRD_R \<equiv> INST 128"
abbreviation LDRD_RW :: inst where "LDRD_RW \<equiv> INST 129"
abbreviation LDRD_RI :: inst where "LDRD_RI \<equiv> INST 130"
abbreviation LDRD_RIW :: inst where "LDRD_RIW \<equiv> INST 131"
abbreviation LDRD_RP :: inst where "LDRD_RP \<equiv> INST 132"
abbreviation LDRD_RPW :: inst where "LDRD_RPW \<equiv> INST 133"
abbreviation LDRD_RIP :: inst where "LDRD_RIP \<equiv> INST 134"
abbreviation LDRD_RIPW :: inst where "LDRD_RIPW \<equiv> INST 135"
abbreviation PLD_I :: inst where "PLD_I \<equiv> INST 136"
abbreviation PLD_R :: inst where "PLD_R \<equiv> INST 137"
abbreviation MAX_INSTRUCTIONS :: nat where "MAX_INSTRUCTIONS \<equiv> 138"

section \<open>Conditions, shifts and modes\<close>

datatype condition = EQ | NE | CS | CC | MI | PL | VS | VC | HI | LS | GE | LT | GT | LE | AL | NV

datatype shift_op = LSL | LSR | ASR | ROR | RRX

datatype extend_mode = EM_INVALID | EM_H | EM_SB | EM_SH

datatype addressing_mode = DA | IA | DB | IB

text \<open>
  The casts \<^verbatim>\<open>(CONDITION::CODE)w\<close>, \<^verbatim>\<open>(SHIFT::CODE)w\<close>,
  \<^verbatim>\<open>(EXTEND_MODE::CODE)w\<close> and \<^verbatim>\<open>(ADDRESSING_MODE::CODE)w\<close>; the decoder
  applies them to a field of 4, 2, 2 and 2 bits.
\<close>

definition condition_of :: "u32 \<Rightarrow> condition" where
  "condition_of w = switch w [(0, EQ), (1, NE), (2, CS), (3, CC), (4, MI), (5, PL), (6, VS),
     (7, VC), (8, HI), (9, LS), (10, GE), (11, LT), (12, GT), (13, LE), (14, AL)] NV"

definition shift_of :: "u32 \<Rightarrow> shift_op" where
  "shift_of w = switch w [(0, LSL), (1, LSR), (2, ASR), (3, ROR)] RRX"

definition extend_mode_of :: "u32 \<Rightarrow> extend_mode" where
  "extend_mode_of w = switch w [(0, EM_INVALID), (1, EM_H), (2, EM_SB)] EM_SH"

definition addressing_mode_of :: "u32 \<Rightarrow> addressing_mode" where
  "addressing_mode_of w = switch w [(0, DA), (1, IA), (2, DB)] IB"

section \<open>Decoder context\<close>

text \<open>
  \<^verbatim>\<open>disassembler::context\<close> without the output cursor (\<^verbatim>\<open>fmt\<close>,
  \<^verbatim>\<open>buffer\<close>), which belongs to the text formatter. The C++ object is not
  initialised: a decode starts from whatever the fields held, so every decoder function
  here takes the incoming context.
\<close>

record dctx =
  c_instruction :: inst
  c_cond :: condition
  c_shift :: shift_op
  c_amode :: addressing_mode
  c_emode :: extend_mode
  c_flags :: u32
  c_imm :: u32
  c_rd :: u32
  c_rn :: u32
  c_rm :: u32
  c_rs :: u32
  c_cp_num :: u32
  c_cp_op1 :: u32
  c_cp_op2 :: u32
  c_op :: u32
  c_addr :: u32

abbreviation S_BIT :: u32 where "S_BIT \<equiv> 1"
abbreviation U_BIT :: u32 where "U_BIT \<equiv> 2"
abbreviation S_CONSUMING :: u32 where "S_CONSUMING \<equiv> 8"

text \<open>\<^verbatim>\<open>ctx.instruction = i\<close> and \<^verbatim>\<open>ctx.flags |= f\<close>.\<close>

definition set_inst :: "inst \<Rightarrow> dctx \<Rightarrow> dctx" where
  "set_inst i c = c\<lparr>c_instruction := i\<rparr>"

definition or_flags :: "u32 \<Rightarrow> dctx \<Rightarrow> dctx" where
  "or_flags f c = c\<lparr>c_flags := c_flags c OR f\<rparr>"

definition decode_reg :: "nat \<Rightarrow> dctx \<Rightarrow> u32" where
  "decode_reg n c = fld (c_op c) n 0xF"

definition decode_regt :: "nat \<Rightarrow> dctx \<Rightarrow> u32" where
  "decode_regt n c = fld (c_op c) n 0x7"

definition decode_condition :: "dctx \<Rightarrow> dctx" where
  "decode_condition c = c\<lparr>c_cond := condition_of (drop_bit 28 (c_op c))\<rparr>"

definition decode_shift :: "dctx \<Rightarrow> dctx" where
  "decode_shift c =
    (let c = c\<lparr>c_shift := shift_of (fld (c_op c) 5 0x3)\<rparr>;
         c = c\<lparr>c_imm := fld (c_op c) 7 0x1F\<rparr>
     in if c_imm c = 0 \<and> c_shift c \<noteq> LSL
        then (if c_shift c = ROR then c\<lparr>c_shift := RRX\<rparr> else c\<lparr>c_imm := 32\<rparr>)
        else c)"

definition decode_shift_reg :: "dctx \<Rightarrow> dctx" where
  "decode_shift_reg c =
    (let c = c\<lparr>c_shift := shift_of (fld (c_op c) 5 0x3)\<rparr>
     in c\<lparr>c_rs := decode_reg 8 c\<rparr>)"

definition inst_ud :: "dctx \<Rightarrow> dctx" where
  "inst_ud c = set_inst UD c"

definition inst_debug :: "dctx \<Rightarrow> dctx" where
  "inst_debug c = set_inst DEBUG c"

definition inst_unknown :: "dctx \<Rightarrow> dctx" where
  "inst_unknown c = set_inst UNKNOWN c"

definition decode_simm24 :: "dctx \<Rightarrow> dctx" where
  "decode_simm24 c =
    (let a = c_op c AND 0x00FFFFFF
     in c\<lparr>c_imm := sar (push_bit 8 a) 6 + c_addr c + 8\<rparr>)"

definition decode_imm_shifter :: "dctx \<Rightarrow> dctx" where
  "decode_imm_shifter c =
    (let imm8 = c_op c AND 0xFF;
         rot = fld (c_op c) 7 0x1E
     in c\<lparr>c_imm := word_rotr (unat rot) imm8\<rparr>)"

lemmas ctx_step_defs = set_inst_def or_flags_def inst_ud_def inst_debug_def inst_unknown_def

end
