(* ===== verification/Decode_Arm.thy ===== *)
theory Decode_Arm
  imports Isa
begin

text \<open>
  The ARM decoder of \<^verbatim>\<open>Core/Disassembler.h\<close>: one definition per sub-decoder,
  in the order the calls need, each from context to context. A sub-decoder that leaves a
  field alone leaves the incoming value, as the C++ object does.
\<close>

section \<open>Miscellaneous space (figure 3.3)\<close>

definition decode_misc :: "dctx \<Rightarrow> dctx" where
  "decode_misc c =
    (let sub_op = fld (c_op c) 21 0x3 in
     if flag_at (c_op c) 7 then inst_ud c
     else switch (fld (c_op c) 4 0x7)
      [(0x0,
         if c_rs c \<noteq> 0 then inst_unknown c
         else switch sub_op
          [(0x0, if c_rn c \<noteq> 0xF then inst_unknown c else set_inst MRS_CPSR c),
           (0x1, if c_rd c \<noteq> 0xF then inst_unknown c else set_inst MSR_CPSR_R c),
           (0x2, if c_rn c \<noteq> 0xF then inst_unknown c else set_inst MRS_SPSR c)]
          (if c_rd c \<noteq> 0xF then inst_unknown c else set_inst MSR_SPSR_R c)),
       (0x1,
         if c_rn c \<noteq> 0xF \<or> c_rs c \<noteq> 0xF then inst_unknown c
         else switch sub_op
          [(0x1, if c_rd c \<noteq> 0xF then inst_unknown c else set_inst BX c),
           (0x3, set_inst CLZ c)]
          (inst_ud c)),
       (0x2, inst_ud c),
       (0x3,
         if sub_op \<noteq> 0x1 then inst_ud c
         else if c_rn c \<noteq> 0xF \<or> c_rd c \<noteq> 0xF \<or> c_rs c \<noteq> 0xF then inst_unknown c
         else set_inst BLX c),
       (0x4, inst_ud c),
       (0x5, inst_ud c),
       (0x6, inst_ud c),
       (0x7,
         if sub_op \<noteq> 0x1 then inst_ud c
         else if c_cond c \<noteq> AL then inst_unknown c
         else inst_debug (set_inst BKPT
           (c\<lparr>c_imm := (c_op c AND 0xF) OR drop_bit 4 (c_op c AND 0xFFF00)\<rparr>)))]
      c)"

definition decode_misc2 :: "dctx \<Rightarrow> dctx" where
  "decode_misc2 c = (let c = c\<lparr>c_rs := decode_reg 8 c\<rparr> in decode_misc c)"

section \<open>Multiplies, swaps, extra loads and stores\<close>

definition inst_ldrd :: "dctx \<Rightarrow> dctx" where
  "inst_ldrd c = switch (fld (c_op c) 21 0xB)
     [(0x0, set_inst LDRD_R c), (0x1, set_inst LDRD_RW c),
      (0x2, set_inst LDRD_RI c), (0x3, set_inst LDRD_RIW c),
      (0x8, set_inst LDRD_RP c), (0x9, set_inst LDRD_RPW c),
      (0xA, set_inst LDRD_RIP c), (0xB, set_inst LDRD_RIPW c)] c"

definition decode_00000_mula :: "dctx \<Rightarrow> dctx" where
  "decode_00000_mula c =
    (if flag_at (c_op c) 22 then inst_ud c
     else
      let c = c\<lparr>c_rs := decode_reg 8 c\<rparr>;
          c = c\<lparr>c_rn := decode_reg 12 c\<rparr>;
          c = c\<lparr>c_rd := decode_reg 16 c\<rparr>;
          c = (if flag_at (c_op c) 20 then or_flags S_BIT c else c)
      in switch (fld (c_op c) 20 0x3)
          [(0x0, if c_rn c \<noteq> 0 then inst_unknown c else set_inst MUL_R c),
           (0x1, let c = or_flags S_BIT c
                 in if c_rn c \<noteq> 0 then inst_unknown c else set_inst MUL_R c),
           (0x2, set_inst MLA_R c),
           (0x3, set_inst MLA_R (or_flags S_BIT c))]
          (inst_ud c))"

definition decode_00001_mulal :: "dctx \<Rightarrow> dctx" where
  "decode_00001_mulal c =
    (let c = c\<lparr>c_rs := decode_reg 8 c\<rparr>;
         c = (if flag_at (c_op c) 20 then or_flags S_BIT c else c)
     in switch (fld (c_op c) 21 0x3)
         [(0, set_inst UMULL c), (1, set_inst UMLAL c),
          (2, set_inst SMULL c), (3, set_inst SMLAL c)] c)"

definition decode_00010_swap :: "dctx \<Rightarrow> dctx" where
  "decode_00010_swap c =
    switch (fld (c_op c) 20 0x7) [(0, set_inst SWP c), (4, set_inst SWPB c)] (inst_ud c)"

definition decode_000_mulswap :: "dctx \<Rightarrow> dctx" where
  "decode_000_mulswap c =
    switch (fld (c_op c) 23 0x3)
      [(0x0, decode_00000_mula c), (0x1, decode_00001_mulal c), (0x2, decode_00010_swap c)]
      (inst_ud c)"

text \<open>\<^verbatim>\<open>ctx.instruction = i; ctx.imm = 0; ctx.shift = SHIFT::LSL\<close>\<close>

definition set_inst_reg :: "inst \<Rightarrow> dctx \<Rightarrow> dctx" where
  "set_inst_reg i c = c\<lparr>c_instruction := i, c_imm := 0, c_shift := LSL\<rparr>"

definition decode_000_mul_extraloadstore :: "dctx \<Rightarrow> dctx" where
  "decode_000_mul_extraloadstore c =
    (let i = drop_bit 4 (c_op c AND 0xF00) OR c_rm c;
         c = (if flag_at (c_op c) 23
              then or_flags U_BIT (c\<lparr>c_imm := i\<rparr>)
              else c\<lparr>c_imm := - i\<rparr>);
         c = c\<lparr>c_emode := extend_mode_of (fld (c_op c) 5 0x3)\<rparr>
     in if c_emode c = EM_INVALID then decode_000_mulswap c
        else if c_emode c = EM_SB \<and> fld (c_op c) 20 1 = 0 then inst_ldrd c
        else switch (fld (c_op c) 20 0x17)
          [(0x00, set_inst_reg STRX_R c), (0x01, set_inst_reg LDRX_R c),
           (0x02, set_inst_reg STRX_RW c), (0x03, set_inst_reg LDRX_RW c),
           (0x04, set_inst STRX_I c), (0x05, set_inst LDRX_I c),
           (0x06, set_inst STRX_IW c), (0x07, set_inst LDRX_IW c),
           (0x10, set_inst_reg STRX_RP c), (0x11, set_inst_reg LDRX_RP c),
           (0x12, set_inst_reg STRX_RPW c), (0x13, set_inst_reg LDRX_RPW c),
           (0x14, set_inst STRX_IP c), (0x15, set_inst LDRX_IP c),
           (0x16, set_inst STRX_IPW c), (0x17, set_inst LDRX_IPW c)] c)"

section \<open>Data processing\<close>

definition decode_000_regs :: "dctx \<Rightarrow> dctx" where
  "decode_000_regs c =
    (if flag_at (c_op c) 7 then decode_000_mul_extraloadstore c
     else
      let sbit = flag_at (c_op c) 20;
          c = (if sbit then or_flags S_BIT c else c);
          c = decode_shift_reg c
      in switch (fld (c_op c) 21 0xF)
          [(0x0, set_inst AND_RR c), (0x1, set_inst EOR_RR c),
           (0x2, set_inst SUB_RR c), (0x3, set_inst RSB_RR c),
           (0x4, set_inst ADD_RR c),
           (0x5, or_flags S_CONSUMING (set_inst ADC_RR c)),
           (0x6, or_flags S_CONSUMING (set_inst SBC_RR c)),
           (0x7, set_inst RSC_RR c),
           (0x8, if sbit then set_inst TST_RR c else decode_misc c),
           (0x9, if sbit then set_inst TEQ_RR c else decode_misc c),
           (0xA, if sbit then set_inst CMP_RR c else decode_misc c),
           (0xB, if sbit then set_inst CMN_RR c else decode_misc c),
           (0xC, set_inst ORR_RR c), (0xD, set_inst MOV_RR c),
           (0xE, set_inst BIC_RR c), (0xF, set_inst MVN_RR c)] c)"

definition decode_000_imms :: "dctx \<Rightarrow> dctx" where
  "decode_000_imms c =
    (let sbit = flag_at (c_op c) 20;
         c = (if sbit then or_flags S_BIT c else c);
         c = decode_shift c
     in switch (fld (c_op c) 21 0xF)
         [(0x0, set_inst AND_R c), (0x1, set_inst EOR_R c),
          (0x2, set_inst SUB_R c), (0x3, set_inst RSB_R c),
          (0x4, set_inst ADD_R c),
          (0x5, or_flags S_CONSUMING (set_inst ADC_R c)),
          (0x6, or_flags S_CONSUMING (set_inst SBC_R c)),
          (0x7, set_inst RSC_R c),
          (0x8, if sbit then set_inst TST_R c else decode_misc2 c),
          (0x9, if sbit then set_inst TEQ_R c else decode_misc2 c),
          (0xA, if sbit then set_inst CMP_R c else decode_misc2 c),
          (0xB, if sbit then set_inst CMN_R c else decode_misc2 c),
          (0xC, set_inst ORR_R c), (0xD, set_inst MOV_R c),
          (0xE, set_inst BIC_R c), (0xF, set_inst MVN_R c)] c)"

definition decode_000_data_reg :: "dctx \<Rightarrow> dctx" where
  "decode_000_data_reg c =
    (let c = c\<lparr>c_rn := decode_reg 16 c\<rparr>;
         c = c\<lparr>c_rd := decode_reg 12 c\<rparr>;
         c = c\<lparr>c_rm := decode_reg 0 c\<rparr>
     in if flag_at (c_op c) 4 then decode_000_regs c else decode_000_imms c)"

definition decode_001_data_imm :: "dctx \<Rightarrow> dctx" where
  "decode_001_data_imm c =
    (let c = c\<lparr>c_rn := decode_reg 16 c\<rparr>;
         c = c\<lparr>c_rd := decode_reg 12 c\<rparr>;
         c = decode_imm_shifter c;
         sbit = flag_at (c_op c) 20;
         c = (if sbit then or_flags S_BIT c else c)
     in switch (fld (c_op c) 21 0xF)
         [(0x0, set_inst AND_I c), (0x1, set_inst EOR_I c),
          (0x2, set_inst SUB_I c), (0x3, set_inst RSB_I c),
          (0x4, set_inst ADD_I c),
          (0x5, or_flags S_CONSUMING (set_inst ADC_I c)),
          (0x6, or_flags S_CONSUMING (set_inst SBC_I c)),
          (0x7, set_inst RSC_I c),
          (0x8, if sbit then set_inst TST_I c else inst_ud c),
          (0x9, if sbit then set_inst TEQ_I c
                else if c_rd c \<noteq> 0xF then inst_unknown c
                else set_inst MSR_CPSR_I c),
          (0xA, if sbit then set_inst CMP_I c else inst_ud c),
          (0xB, if sbit then set_inst CMN_I c
                else if c_rd c \<noteq> 0 then inst_unknown c
                else set_inst MSR_SPSR_I c),
          (0xC, set_inst ORR_I c), (0xD, set_inst MOV_I c),
          (0xE, set_inst BIC_I c), (0xF, set_inst MVN_I c)]
         (inst_ud c))"

section \<open>Loads and stores\<close>

definition decode_addressingmode2 :: "dctx \<Rightarrow> dctx" where
  "decode_addressingmode2 c =
    (let c = c\<lparr>c_rn := decode_reg 16 c\<rparr>;
         c = c\<lparr>c_rd := decode_reg 12 c\<rparr>
     in if flag_at (c_op c) 23
        then or_flags U_BIT (c\<lparr>c_imm := c_op c AND 0xFFF\<rparr>)
        else c\<lparr>c_imm := - (c_op c AND 0xFFF)\<rparr>)"

definition decode_010_loadstore_imm :: "dctx \<Rightarrow> dctx" where
  "decode_010_loadstore_imm c =
    (let c = decode_addressingmode2 c
     in switch (fld (c_op c) 20 0x17)
         [(0x00, set_inst STR_I c), (0x01, set_inst LDR_I c),
          (0x02, set_inst STR_IW c), (0x03, set_inst LDR_IW c),
          (0x04, set_inst STRB_I c), (0x05, set_inst LDRB_I c),
          (0x06, set_inst STRB_IW c), (0x07, set_inst LDRB_IW c),
          (0x10, set_inst STR_IP c), (0x11, set_inst LDR_IP c),
          (0x12, set_inst STR_IPW c), (0x13, set_inst LDR_IPW c),
          (0x14, set_inst STRB_IP c), (0x15, set_inst LDRB_IP c),
          (0x16, set_inst STRB_IPW c), (0x17, set_inst LDRB_IPW c)]
         (inst_ud c))"

definition decode_011_loadstore_reg :: "dctx \<Rightarrow> dctx" where
  "decode_011_loadstore_reg c =
    (if flag_at (c_op c) 4 then inst_ud c
     else
      let c = (if flag_at (c_op c) 23 then or_flags U_BIT c else c);
          c = c\<lparr>c_rn := decode_reg 16 c\<rparr>;
          c = c\<lparr>c_rd := decode_reg 12 c\<rparr>;
          c = c\<lparr>c_rm := decode_reg 0 c\<rparr>;
          c = decode_shift c
      in switch (fld (c_op c) 20 0x17)
          [(0x00, set_inst STR_R c), (0x01, set_inst LDR_R c),
           (0x02, set_inst STR_RW c), (0x03, set_inst LDR_RW c),
           (0x04, set_inst STRB_R c), (0x05, set_inst LDRB_R c),
           (0x06, set_inst STRB_RW c), (0x07, set_inst LDRB_RW c),
           (0x10, set_inst STR_RP c), (0x11, set_inst LDR_RP c),
           (0x12, set_inst STR_RPW c), (0x13, set_inst LDR_RPW c),
           (0x14, set_inst STRB_RP c), (0x15, set_inst LDRB_RP c),
           (0x16, set_inst STRB_RPW c), (0x17, set_inst LDRB_RPW c)]
          (inst_ud c))"

definition decode_100_loadstoremultiple :: "dctx \<Rightarrow> dctx" where
  "decode_100_loadstoremultiple c =
    (let c = c\<lparr>c_rn := decode_reg 16 c\<rparr>;
         c = c\<lparr>c_imm := c_op c AND 0xFFFF\<rparr>;
         c = (if flag_at (c_op c) 22 then or_flags S_BIT c else c);
         c = c\<lparr>c_amode := addressing_mode_of (fld (c_op c) 23 0x3)\<rparr>
     in switch (fld (c_op c) 20 0x3)
         [(0, set_inst STM c), (1, set_inst LDM c),
          (2, set_inst STM_W c), (3, set_inst LDM_W c)] c)"

section \<open>Branches, software interrupts, coprocessors\<close>

definition decode_101_branch :: "dctx \<Rightarrow> dctx" where
  "decode_101_branch c =
    (let c = decode_simm24 c
     in if flag_at (c_op c) 24 then set_inst BL c else set_inst B c)"

definition decode_110 :: "dctx \<Rightarrow> dctx" where
  "decode_110 c = inst_ud c"

definition decode_swi :: "dctx \<Rightarrow> dctx" where
  "decode_swi c = set_inst SWI (c\<lparr>c_imm := c_op c AND 0xFFFFFF\<rparr>)"

definition decode_coproc :: "dctx \<Rightarrow> dctx" where
  "decode_coproc c =
    (let c = c\<lparr>c_rn := decode_reg 16 c\<rparr>;
         c = c\<lparr>c_rd := decode_reg 12 c\<rparr>;
         c = c\<lparr>c_cp_num := decode_reg 8 c\<rparr>;
         c = c\<lparr>c_rm := decode_reg 0 c\<rparr>;
         c = c\<lparr>c_cp_op2 := fld (c_op c) 5 0x7\<rparr>
     in if flag_at (c_op c) 4
        then (let c = c\<lparr>c_cp_op1 := fld (c_op c) 21 0x7\<rparr>
              in if flag_at (c_op c) 20 then set_inst MRC c else set_inst MCR c)
        else set_inst UD (c\<lparr>c_cp_op1 := fld (c_op c) 20 0xF\<rparr>))"

definition decode_111 :: "dctx \<Rightarrow> dctx" where
  "decode_111 c = (if flag_at (c_op c) 24 then decode_swi c else decode_coproc c)"

section \<open>The decoder\<close>

definition decode_instruction_NV :: "dctx \<Rightarrow> dctx" where
  "decode_instruction_NV c =
    (if c_op c AND 0x0D700000 = 0x5500000
     then (let c = decode_addressingmode2 c
           in if c_rd c = 0xF
              then (if flag_at (c_op c) 25 then set_inst PLD_I c else set_inst PLD_R c)
              else inst_ud c)
     else inst_ud c)"

definition decode_instruction :: "dctx \<Rightarrow> dctx" where
  "decode_instruction c =
    (if c_cond c = NV then decode_instruction_NV c
     else switch (fld (c_op c) 25 0x7)
       [(0x0, decode_000_data_reg c),
        (0x1, decode_001_data_imm c),
        (0x2, decode_010_loadstore_imm c),
        (0x3, decode_011_loadstore_reg c),
        (0x4, decode_100_loadstoremultiple c),
        (0x5, decode_101_branch c),
        (0x6, decode_110 c),
        (0x7, decode_111 c)]
       (inst_ud c))"

text \<open>\<^verbatim>\<open>disassembler::decode<IS_ARM>\<close>\<close>

definition decode_arm :: "u32 \<Rightarrow> u32 \<Rightarrow> dctx \<Rightarrow> dctx" where
  "decode_arm op addr c =
    (let c = c\<lparr>c_op := op\<rparr>;
         c = c\<lparr>c_flags := 0\<rparr>;
         c = c\<lparr>c_addr := addr\<rparr>;
         c = c\<lparr>c_shift := LSL\<rparr>;
         c = decode_condition c
     in decode_instruction c)"

end
