(* ===== verification/Decode_Thumb.thy ===== *)
theory Decode_Thumb
  imports Isa
begin

text \<open>
  The Thumb decoder of \<^verbatim>\<open>Core/Disassembler.h\<close>: it fills the same context with
  ARM instruction codes, so the compiler and the text formatter need no second
  instruction set.
\<close>

section \<open>Shifts, additions and immediates\<close>

definition decode_t000 :: "dctx \<Rightarrow> dctx" where
  "decode_t000 c =
    (let c = or_flags S_BIT c;
         c = c\<lparr>c_rd := decode_regt 0 c\<rparr>;
         c = c\<lparr>c_rn := decode_regt 3 c\<rparr>;
         c = c\<lparr>c_imm := 0, c_shift := LSL\<rparr>;
         imm5 = fld (c_op c) 6 0x1F
     in switch (fld (c_op c) 11 0x3)
      [(0x0, set_inst MOV_R (c\<lparr>c_rm := c_rn c, c_imm := imm5\<rparr>)),
       (0x1, set_inst MOV_R (c\<lparr>c_rm := c_rn c, c_imm := (if imm5 = 0 then 32 else imm5),
               c_shift := LSR\<rparr>)),
       (0x2, set_inst MOV_R (c\<lparr>c_rm := c_rn c, c_imm := (if imm5 = 0 then 32 else imm5),
               c_shift := ASR\<rparr>)),
       (0x3, let c = c\<lparr>c_rm := decode_regt 6 c\<rparr> in
             switch (fld (c_op c) 9 0x3)
              [(0x0, set_inst ADD_R c), (0x1, set_inst SUB_R c),
               (0x2, set_inst ADD_I (c\<lparr>c_imm := c_rm c\<rparr>)),
               (0x3, set_inst SUB_I (c\<lparr>c_imm := c_rm c\<rparr>))]
              (inst_ud c))]
      (inst_ud c))"

definition decode_t001 :: "dctx \<Rightarrow> dctx" where
  "decode_t001 c =
    (let reg = decode_regt 8 c;
         c = c\<lparr>c_imm := c_op c AND 0xFF, c_rd := reg, c_rn := reg\<rparr>;
         c = or_flags S_BIT c
     in switch (fld (c_op c) 11 0x3)
         [(0x0, set_inst MOV_I c), (0x1, set_inst CMP_I c),
          (0x2, set_inst ADD_I c), (0x3, set_inst SUB_I c)]
         (inst_ud c))"

section \<open>Register loads and stores, literals, high registers\<close>

definition decode_t0101_loadstore_reg :: "dctx \<Rightarrow> dctx" where
  "decode_t0101_loadstore_reg c =
    (let c = c\<lparr>c_rd := decode_regt 0 c\<rparr>;
         c = c\<lparr>c_rn := decode_regt 3 c\<rparr>;
         c = c\<lparr>c_rm := decode_regt 6 c\<rparr>;
         c = c\<lparr>c_shift := LSL, c_imm := 0\<rparr>;
         c = or_flags U_BIT c
     in switch (fld (c_op c) 9 0x7)
         [(0x0, set_inst STR_RP c),
          (0x1, (set_inst STRX_RP c)\<lparr>c_emode := EM_H\<rparr>),
          (0x2, set_inst STRB_RP c),
          (0x3, inst_ud c),
          (0x4, set_inst LDR_RP c),
          (0x5, (set_inst LDRX_RP c)\<lparr>c_emode := EM_H\<rparr>),
          (0x6, set_inst LDRB_RP c),
          (0x7, (set_inst LDRX_RP c)\<lparr>c_emode := EM_SH\<rparr>)]
         (inst_ud c))"

definition decode_t01001_loadliteral :: "dctx \<Rightarrow> dctx" where
  "decode_t01001_loadliteral c =
    (let c = c\<lparr>c_rd := decode_regt 8 c\<rparr>;
         c = c\<lparr>c_imm := push_bit 2 (c_op c AND 0xFF)\<rparr>;
         c = set_inst LDR_IP c;
         c = or_flags U_BIT c
     in c\<lparr>c_rn := 15\<rparr>)"

definition decode_t010001_sdata_b :: "dctx \<Rightarrow> dctx" where
  "decode_t010001_sdata_b c =
    (let c = c\<lparr>c_rm := decode_reg 3 c\<rparr>;
         c = c\<lparr>c_rd := decode_regt 0 c OR (drop_bit 4 (c_op c) AND 0x8)\<rparr>;
         c = c\<lparr>c_imm := 0, c_shift := LSL\<rparr>
     in switch (fld (c_op c) 8 0x3)
         [(0x0, set_inst ADD_R (c\<lparr>c_rn := c_rd c\<rparr>)),
          (0x1, set_inst CMP_R (c\<lparr>c_rn := c_rd c\<rparr>)),
          (0x2, set_inst MOV_R c),
          (0x3, let c = (if flag_at (c_op c) 7 then set_inst BLX c else set_inst BX c)
                in if decode_regt 0 c \<noteq> 0 then inst_unknown c else c)]
         (inst_ud c))"

text \<open>The two operand patterns of the 010000 group: \<open>rd = rn\<close>, second register in
  \<open>rm\<close>; and \<open>rd = rm\<close>, shift count in \<open>rs\<close>.\<close>

definition t_alu :: "inst \<Rightarrow> dctx \<Rightarrow> dctx" where
  "t_alu i c =
    (let c = c\<lparr>c_rd := decode_regt 0 c\<rparr>;
         c = c\<lparr>c_rn := c_rd c\<rparr>;
         c = c\<lparr>c_rm := decode_regt 3 c\<rparr>
     in set_inst i c)"

definition t_shift :: "shift_op \<Rightarrow> dctx \<Rightarrow> dctx" where
  "t_shift s c =
    (let c = c\<lparr>c_rd := decode_regt 0 c\<rparr>;
         c = c\<lparr>c_rm := c_rd c\<rparr>;
         c = c\<lparr>c_rs := decode_regt 3 c\<rparr>;
         c = c\<lparr>c_shift := s\<rparr>
     in set_inst MOV_RR c)"

definition decode_t010000_dataproc :: "dctx \<Rightarrow> dctx" where
  "decode_t010000_dataproc c =
    (let c = c\<lparr>c_rd := decode_regt 0 c\<rparr>;
         c = c\<lparr>c_rn := decode_regt 3 c\<rparr>;
         c = c\<lparr>c_shift := LSL, c_imm := 0\<rparr>;
         c = or_flags S_BIT c
     in switch (fld (c_op c) 6 0xF)
      [(0x0, t_alu AND_R c),
       (0x1, t_alu EOR_R c),
       (0x2, t_shift LSL c),
       (0x3, t_shift LSR c),
       (0x4, t_shift ASR c),
       (0x5, or_flags S_CONSUMING (t_alu ADC_R c)),
       (0x6, t_alu SBC_R c),
       (0x7, t_shift ROR c),
       (0x8, set_inst TST_R (c\<lparr>c_rn := decode_regt 0 c, c_rm := decode_regt 3 c\<rparr>)),
       (0x9, set_inst RSB_I (c\<lparr>c_rd := decode_regt 0 c, c_rn := decode_regt 3 c\<rparr>)),
       (0xA, set_inst CMP_R (c\<lparr>c_rn := decode_regt 0 c, c_rm := decode_regt 3 c\<rparr>)),
       (0xB, inst_ud c),
       (0xC, t_alu ORR_R c),
       (0xD, let c = c\<lparr>c_rd := decode_regt 0 c\<rparr>;
                 c = c\<lparr>c_rm := decode_regt 3 c\<rparr>;
                 c = c\<lparr>c_rs := c_rd c\<rparr>
             in set_inst MUL_R c),
       (0xE, t_alu BIC_R c),
       (0xF, set_inst MVN_R (c\<lparr>c_rd := decode_regt 0 c, c_rm := decode_regt 3 c\<rparr>))]
      (inst_ud c))"

definition decode_t010 :: "dctx \<Rightarrow> dctx" where
  "decode_t010 c =
    (if flag_at (c_op c) 12 then decode_t0101_loadstore_reg c
     else if flag_at (c_op c) 11 then decode_t01001_loadliteral c
     else if flag_at (c_op c) 10 then decode_t010001_sdata_b c
     else decode_t010000_dataproc c)"

section \<open>Immediate loads and stores, stack\<close>

definition decode_t011 :: "dctx \<Rightarrow> dctx" where
  "decode_t011 c =
    (let c = c\<lparr>c_rd := decode_regt 0 c\<rparr>;
         c = c\<lparr>c_rn := decode_regt 3 c\<rparr>;
         c = or_flags U_BIT c
     in switch (fld (c_op c) 11 0x3)
         [(0x0, set_inst STR_IP (c\<lparr>c_imm := fld (c_op c) 4 0x7C\<rparr>)),
          (0x1, set_inst LDR_IP (c\<lparr>c_imm := fld (c_op c) 4 0x7C\<rparr>)),
          (0x2, set_inst STRB_IP (c\<lparr>c_imm := fld (c_op c) 6 0x1F\<rparr>)),
          (0x3, set_inst LDRB_IP (c\<lparr>c_imm := fld (c_op c) 6 0x1F\<rparr>))] c)"

definition decode_t1001_loadstore_stack :: "dctx \<Rightarrow> dctx" where
  "decode_t1001_loadstore_stack c =
    (let c = c\<lparr>c_imm := push_bit 2 (c_op c AND 0xFF)\<rparr>;
         c = c\<lparr>c_rd := decode_regt 8 c\<rparr>;
         c = c\<lparr>c_rn := 13\<rparr>;
         c = or_flags U_BIT c
     in if flag_at (c_op c) 11 then set_inst LDR_IP c else set_inst STR_IP c)"

definition decode_t100 :: "dctx \<Rightarrow> dctx" where
  "decode_t100 c =
    (if flag_at (c_op c) 12 then decode_t1001_loadstore_stack c
     else
      let c = c\<lparr>c_rd := decode_regt 0 c\<rparr>;
          c = c\<lparr>c_rn := decode_regt 3 c\<rparr>;
          c = c\<lparr>c_imm := fld (c_op c) 5 0x3E\<rparr>;
          c = c\<lparr>c_emode := EM_H\<rparr>;
          c = or_flags U_BIT c
      in if flag_at (c_op c) 11 then set_inst LDRX_IP c else set_inst STRX_IP c)"

text \<open>Figure 6.2. Cases 5 and D fall through to 4 and C after adding the link register
  or the program counter to the mask.\<close>

definition decode_t1011_misc :: "dctx \<Rightarrow> dctx" where
  "decode_t1011_misc c =
    (let c = c\<lparr>c_imm := c_op c AND 0xFF\<rparr>;
         k = fld (c_op c) 8 0xF;
         push_regs = (\<lambda>c. (set_inst STM_W c)\<lparr>c_amode := DB, c_rn := 13\<rparr>);
         pop_regs = (\<lambda>c. (set_inst LDM_W c)\<lparr>c_amode := IA, c_rn := 13\<rparr>)
     in switch k
      [(0x0, if flag_at (c_op c) 7
             then (set_inst SUB_I (c\<lparr>c_imm := push_bit 2 (c_imm c AND 0x7F)\<rparr>))
                    \<lparr>c_rd := 13, c_rn := 13\<rparr>
             else (set_inst ADD_I (c\<lparr>c_imm := push_bit 2 (c_imm c AND 0x7F)\<rparr>))
                    \<lparr>c_rd := 13, c_rn := 13\<rparr>),
       (0x5, push_regs (c\<lparr>c_imm := c_imm c OR push_bit 14 1\<rparr>)),
       (0x4, push_regs c),
       (0xD, pop_regs (c\<lparr>c_imm := c_imm c OR push_bit 15 1\<rparr>)),
       (0xC, pop_regs c),
       (0xE, set_inst BKPT c)]
      (inst_ud c))"

definition decode_t1010_add_sp_pc :: "dctx \<Rightarrow> dctx" where
  "decode_t1010_add_sp_pc c =
    (let c = c\<lparr>c_rd := decode_regt 8 c\<rparr>;
         c = c\<lparr>c_imm := push_bit 2 (c_op c AND 0xFF)\<rparr>;
         c = (if flag_at (c_op c) 11 then c\<lparr>c_rn := 13\<rparr> else c\<lparr>c_rn := 15\<rparr>)
     in set_inst ADD_I c)"

definition decode_t101 :: "dctx \<Rightarrow> dctx" where
  "decode_t101 c =
    (if flag_at (c_op c) 12 then decode_t1011_misc c else decode_t1010_add_sp_pc c)"

section \<open>Branches and multiple transfers\<close>

definition decode_t1101_bcond_swi :: "dctx \<Rightarrow> dctx" where
  "decode_t1101_bcond_swi c =
    (let c = c\<lparr>c_cond := condition_of (fld (c_op c) 8 0xF)\<rparr>;
         imm = c_op c AND 0xFF
     in case c_cond c of
          AL \<Rightarrow> inst_ud c
        | NV \<Rightarrow> set_inst SWI (c\<lparr>c_imm := imm\<rparr>)
        | _ \<Rightarrow> set_inst B (c\<lparr>c_imm := c_addr c + sar (push_bit 24 imm) 23 + 4\<rparr>))"

definition decode_t1100_loadstore_multiple :: "dctx \<Rightarrow> dctx" where
  "decode_t1100_loadstore_multiple c =
    (let c = c\<lparr>c_rn := decode_regt 8 c\<rparr>;
         c = c\<lparr>c_imm := c_op c AND 0xFF\<rparr>;
         c = c\<lparr>c_amode := IA\<rparr>
     in if flag_at (c_op c) 11 then set_inst LDM_W c else set_inst STM_W c)"

definition decode_t110 :: "dctx \<Rightarrow> dctx" where
  "decode_t110 c =
    (if flag_at (c_op c) 12 then decode_t1101_bcond_swi c
     else decode_t1100_loadstore_multiple c)"

definition decode_t111 :: "dctx \<Rightarrow> dctx" where
  "decode_t111 c =
    (let c = c\<lparr>c_imm := c_op c AND 0x7FF\<rparr>
     in switch (fld (c_op c) 11 0x3)
      [(0x0, set_inst B (c\<lparr>c_imm := c_addr c + 4 + sar (push_bit 21 (c_imm c)) 20\<rparr>)),
       (0x1, if flag_at (c_op c) 0 then inst_ud c
             else set_inst BLX_I (c\<lparr>c_imm := push_bit 1 (c_imm c)\<rparr>)),
       (0x2, set_inst BPRE (c\<lparr>c_imm := c_addr c + 4 + sar (push_bit 21 (c_imm c)) 9\<rparr>)),
       (0x3, set_inst BL (c\<lparr>c_imm := push_bit 1 (c_imm c)\<rparr>))] c)"

section \<open>The decoder\<close>

definition decode_instruction_thumb :: "dctx \<Rightarrow> dctx" where
  "decode_instruction_thumb c =
    (let c = c\<lparr>c_instruction := DEBUG, c_cond := AL, c_imm := 0\<rparr>
     in switch (drop_bit 13 (c_op c))
      [(0x0, decode_t000 c),
       (0x1, decode_t001 c),
       (0x2, decode_t010 c),
       (0x3, decode_t011 c),
       (0x4, decode_t100 c),
       (0x5, decode_t101 c),
       (0x6, decode_t110 c),
       (0x7, decode_t111 c)]
      (inst_ud c))"

text \<open>\<^verbatim>\<open>disassembler::decode<IS_THUMB>\<close>\<close>

definition decode_thumb :: "u32 \<Rightarrow> u32 \<Rightarrow> dctx \<Rightarrow> dctx" where
  "decode_thumb op addr c =
    (let c = c\<lparr>c_op := op AND 0xFFFF\<rparr>;
         c = c\<lparr>c_flags := 0\<rparr>;
         c = c\<lparr>c_addr := addr\<rparr>;
         c = c\<lparr>c_shift := LSL\<rparr>
     in decode_instruction_thumb c)"

end
