(* ===== verification/Disasm_Text.thy ===== *)
theory Disasm_Text
  imports Decode_Arm Decode_Thumb
begin

text \<open>
  The text formatter of \<^verbatim>\<open>Core/Disassembler.h\<close> (\<^verbatim>\<open>get_str\<close> and the
  \<^verbatim>\<open>cat\<close> functions) over the lower-case string tables of
  \<^verbatim>\<open>Core/Disassembler.cpp\<close> (the upper-case ones are compiled only under
  \<^verbatim>\<open>UPCASE\<close>, which nothing defines). The output buffer is the list of the
  characters written; \<open>None\<close> is a read outside a string or table.
\<close>

section \<open>String tables\<close>

definition inst_strings :: "string list" where
  "inst_strings =
   [
     ''ud'',
     ''%?debug'',
     ''unknown'',
     ''str%c %Rd,[%-%Rn],#0x%I'',
     ''ldr%c %Rd,[%-%Rn],#0x%I'',
     ''str%ct %Rd,[%-%Rn],#0x%I'',
     ''ldr%ct %Rd,[%-%Rn],#0x%I'',
     ''str%cb %Rd,[%-%Rn],#0x%I'',
     ''ldr%cb %Rd,[%-%Rn],#0x%I'',
     ''str%cbt [%Rd],%-%Rn,#0x%I'',
     ''ldr%cbt [%Rd],%-%Rn,#0x%I'',
     ''str%c %Rd,[%-%Rn,#0x%I]'',
     ''ldr%c %Rd,[%-%Rn,#0x%I]'',
     ''str%c %Rd,[%-%Rn,#0x%I]!'',
     ''ldr%c %Rd,[%-%Rn,#0x%I]!'',
     ''str%cb %Rd,[%-%Rn,#0x%I]'',
     ''ldr%cb %Rd,[%-%Rn,#0x%I]'',
     ''str%cb %Rd,[%-%Rn,#0x%I]!'',
     ''ldr%cb %Rd,[%-%Rn,#0x%I]!'',
     ''str%c %Rd,[%-%Rn],%Rm %S#0x%I'',
     ''ldr%c %Rd,[%-%Rn],%Rm %S#0x%I'',
     ''str%ct %Rd,[%-%Rn],%Rm %S#0x%I'',
     ''ldr%ct %Rd,[%-%Rn],%Rm %S#0x%I'',
     ''str%cb %Rd,[%-%Rn],%Rm %S#0x%I'',
     ''ldr%cb %Rd,[%-%Rn],%Rm %S#0x%I'',
     ''str%cbt %Rd,[%-%Rn],%Rm %S#0x%I'',
     ''ldr%cbt %Rd,[%-%Rn],%Rm %S#0x%I'',
     ''str%c %Rd,[%-%Rn,%Rm %S#0x%I]'',
     ''ldr%c %Rd,[%-%Rn,%Rm %S#0x%I]'',
     ''str%c %Rd,[%-%Rn,%Rm %S#0x%I]!'',
     ''ldr%c %Rd,[%-%Rn,%Rm %S#0x%I]!'',
     ''str%cb %Rd,[%-%Rn,%Rm %S#0x%I]'',
     ''ldr%cb %Rd,[%-%Rn,%Rm %S#0x%I]'',
     ''str%cb %Rd,[%-%Rn,%Rm %S#0x%I]!'',
     ''ldr%cb %Rd,[%-%Rn,%Rm %S#0x%I]!'',
     ''and%c%s %Rd,%Rn,#0x%I'',
     ''eor%c%s %Rd,%Rn,#0x%I'',
     ''sub%c%s %Rd,%Rn,#0x%I'',
     ''rsb%c%s %Rd,%Rn,#0x%I'',
     ''add%c%s %Rd,%Rn,#0x%I'',
     ''adc%c%s %Rd,%Rn,#0x%I'',
     ''sbc%c%s %Rd,%Rn,#0x%I'',
     ''rsc%c%s %Rd,%Rn,#0x%I'',
     ''tst%c %Rn,#0x%I'',
     ''teq%c %Rn,#0x%I'',
     ''cmp%c %Rn,#0x%I'',
     ''cmn%c %Rn,#0x%I'',
     ''orr%c%s %Rd,%Rn,#0x%I'',
     ''mov%c%s %Rd,#0x%I'',
     ''bic%c%s %Rd,%Rn,#0x%I'',
     ''mvn%c%s %Rd,#0x%I'',
     ''msr cpsr_%F,#0x%I'',
     ''msr spsr_%F,#0x%I'',
     ''and%c%s %Rd,%Rn,%Rm,%S#0x%I'',
     ''eor%c%s %Rd,%Rn,%Rm,%S#0x%I'',
     ''sub%c%s %Rd,%Rn,%Rm,%S#0x%I'',
     ''rsb%c%s %Rd,%Rn,%Rm,%S#0x%I'',
     ''add%c%s %Rd,%Rn,%Rm,%S#0x%I'',
     ''adc%c%s %Rd,%Rn,%Rm,%S#0x%I'',
     ''sbc%c%s %Rd,%Rn,%Rm,%S#0x%I'',
     ''rsc%c%s %Rd,%Rn,%Rm,%S#0x%I'',
     ''tst%c %Rn,%Rm,%S#0x%I'',
     ''teq%c %Rn,%Rm,%S#0x%I'',
     ''cmp%c %Rn,%Rm,%S#0x%I'',
     ''cmn%c %Rn,%Rm,%S#0x%I'',
     ''orr%c%s %Rd,%Rn,%Rm,%S#0x%I'',
     ''mov%c%s %Rd,%Rm,%S#0x%I'',
     ''bic%c%s %Rd,%Rn,%Rm,%S#0x%I'',
     ''mvn%c%s %Rd,%Rm,%S#0x%I'',
     ''and%c%s %Rd,%Rn,%Rm,%S %Rs'',
     ''eor%c%s %Rd,%Rn,%Rm,%S %Rs'',
     ''sub%c%s %Rd,%Rn,%Rm,%S %Rs'',
     ''rsb%c%s %Rd,%Rn,%Rm,%S %Rs'',
     ''add%c%s %Rd,%Rn,%Rm,%S %Rs'',
     ''adc%c%s %Rd,%Rn,%Rm,%S %Rs'',
     ''sbc%c%s %Rd,%Rn,%Rm,%S %Rs'',
     ''rsc%c%s %Rd,%Rn,%Rm,%S %Rs'',
     ''tst%c %Rn,%Rm,%S %Rs'',
     ''teq%c %Rn,%Rm,%S %Rs'',
     ''cmp%c %Rn,%Rm,%S %Rs'',
     ''cmn%c %Rn,%Rm,%S %Rs'',
     ''orr%c%s %Rd,%Rn,%Rm,%S %Rs'',
     ''mov%c%s %Rd,%Rm,%S %Rs'',
     ''%?bic%c%s %Rd,%Rn,%Rm,%S %Rs'',
     ''mvn%c%s %Rd,%Rm,%S %Rs'',
     ''msr%c cpsr_%F,%Rm'',
     ''msr%c spsr_%F,%Rm'',
     ''msr%c %Rd,cpsr'',
     ''mrs%c %Rd,spsr'',
     ''clz%c %Rd,%Rm'',
     ''bkpt #0x%I'',
     ''swi #0x%I'',
     ''bx%c %Rm'',
     ''blx%c %Rm'',
     ''b%c #0x%A'',
     ''bl%c #0x%A'',
     ''mrc%c %Cp,%C1,%Rd,%CRn,%CRm,%C2'',
     ''mcr%c %Cp,%C1,%Rd,%CRn,%CRm,%C2'',
     ''stm%c%M %Rn,{%RL}%^'',
     ''ldm%c%M %Rn,{%RL}%^'',
     ''stm%c%M %Rn!,{%RL}%^'',
     ''ldm%c%M %Rn!,{%RL}%^'',
     ''str%c%E %Rd,[%-%Rn],#0x%I'',
     ''ldr%c%E %Rd,[%-%Rn],#0x%I'',
     ''str%c%E %Rd,[%-%Rn],#0x%I!'',
     ''ldr%c%E %Rd,[%-%Rn],#0x%I!'',
     ''str%c%E %Rd,[%-%Rn,#0x%I]'',
     ''ldr%c%E %Rd,[%-%Rn,#0x%I]'',
     ''str%c%E %Rd,[%-%Rn,#0x%I]!'',
     ''ldr%c%E %Rd,[%-%Rn,#0x%I]!'',
     ''str%c%E %Rd,[%-%Rn],%Rm'',
     ''ldr%c%E %Rd,[%-%Rn],%Rm'',
     ''str%c%E %Rd,[%-%Rn],%Rm!'',
     ''ldr%c%E %Rd,[%-%Rn],%Rm!'',
     ''str%c%E %Rd,[%-%Rn,%Rm]'',
     ''ldr%c%E %Rd,[%-%Rn,%Rm]'',
     ''str%c%E %Rd,[%-%Rn,%Rm]!'',
     ''ldr%c%E %Rd,[%-%Rn,%Rm]!'',
     ''bpre #0x%A'',
     ''mul%c%s %Rd,%Rm,%Rs'',
     ''mla%c%s %Rd,%Rm,%Rs,%Rn'',
     ''umull%c%s %Rd,%Rn,%Rm,%Rs'',
     ''umlal%c%s %Rd,%Rn,%Rm,%R'',
     ''smull%c%s %Rd,%Rn,%Rm,%Rs'',
     ''smlal%c%s %Rd,%Rn,%Rm,%Rs'',
     ''swp%c %Rd,%Rm,[%Rn]'',
     ''swpb%c %Rd,%Rm,[%Rn]'',
     ''blx%c #0x%A'',
     ''? ldr%cd_R %Rd,[%-%Rn]'',
     ''? ldr%cd_RW %Rd,[%-%Rn]'',
     ''ldr%cd %Rd,[%Rn],%I'',
     ''? ldr%cd_RIW %Rd,[%-%Rn]'',
     ''? ldr%cd_RP %Rd,[%-%Rn]'',
     ''? ldr%cd_RPW %Rd,[%-%Rn]'',
     ''? ldr%cd_RIP %Rd,[%-%Rn]'',
     ''? ldr%cd_RIPW %Rd,[%-%Rn]'',
     ''pld [%Rn,#%-%I]'',
     ''? pld [%Rn]'']"

definition sr_mask_strings :: "string list" where
  "sr_mask_strings = [[], ''c'', ''x'', ''xc'', ''s'', ''sc'', ''sx'', ''sxc'',
     ''f'', ''fc'', ''fx'', ''fxc'', ''fs'', ''fsc'', ''fsx'', ''fsxc'']"


definition condition_string :: "condition \<Rightarrow> string" where
  "condition_string k = (case k of
     EQ \<Rightarrow> ''eq'' | NE \<Rightarrow> ''ne'' | CS \<Rightarrow> ''cs'' | CC \<Rightarrow> ''cc''
   | MI \<Rightarrow> ''mi'' | PL \<Rightarrow> ''pl'' | VS \<Rightarrow> ''vc'' | VC \<Rightarrow> ''vc''
   | HI \<Rightarrow> ''hi'' | LS \<Rightarrow> ''ls'' | GE \<Rightarrow> ''ge'' | LT \<Rightarrow> ''lt''
   | GT \<Rightarrow> ''gt'' | LE \<Rightarrow> ''le'' | AL \<Rightarrow> [] | NV \<Rightarrow> ''nv'')"

definition shift_string :: "shift_op \<Rightarrow> string" where
  "shift_string k = (case k of
     LSL \<Rightarrow> ''lsl'' | LSR \<Rightarrow> ''lsr'' | ASR \<Rightarrow> ''asr'' | ROR \<Rightarrow> ''ror'' | RRX \<Rightarrow> ''rrx'')"

definition addressing_mode_string :: "addressing_mode \<Rightarrow> string" where
  "addressing_mode_string k = (case k of DA \<Rightarrow> ''da'' | IA \<Rightarrow> ''ia'' | DB \<Rightarrow> ''db'' | IB \<Rightarrow> ''ib'')"

definition extend_mode_string :: "extend_mode \<Rightarrow> string" where
  "extend_mode_string k = (case k of EM_INVALID \<Rightarrow> [] | EM_H \<Rightarrow> ''h'' | EM_SB \<Rightarrow> ''sb'' | EM_SH \<Rightarrow> ''sh'')"

text \<open>\<^verbatim>\<open>STRINGS::R_PREFIX\<close> and \<^verbatim>\<open>STRINGS::S_BIT\<close>\<close>

definition R_PREFIX :: char where "R_PREFIX = CHR ''r''"

definition S_BIT_CHAR :: char where "S_BIT_CHAR = CHR ''s''"

section \<open>Writing to the buffer\<close>

text \<open>\<^verbatim>\<open>nibbles[nibble & 0xF]\<close> and the hexadecimal writers.\<close>

definition nibbles :: string where
  "nibbles = ''0123456789ABCDEF''"

definition cat_nibble :: "u32 \<Rightarrow> string \<Rightarrow> string" where
  "cat_nibble n out = out @ [nibbles ! unat (n AND 0xF)]"

definition cat_hex8 :: "u32 \<Rightarrow> string \<Rightarrow> string" where
  "cat_hex8 val out =
    (let out = cat_nibble (drop_bit 28 val) out;
         out = cat_nibble (drop_bit 24 val) out;
         out = cat_nibble (drop_bit 20 val) out;
         out = cat_nibble (drop_bit 16 val) out;
         out = cat_nibble (drop_bit 12 val) out;
         out = cat_nibble (drop_bit 8 val) out;
         out = cat_nibble (drop_bit 4 val) out
     in cat_nibble val out)"

function cat_hex :: "u32 \<Rightarrow> string \<Rightarrow> string" where
  "cat_hex val out =
    (let nval = drop_bit 4 val;
         out = (if nval \<noteq> 0 then cat_hex nval out else out)
     in cat_nibble val out)"
  by pat_completeness auto

lemma drop_bit4_less: "drop_bit 4 (v::u32) \<noteq> 0 \<Longrightarrow> unat (drop_bit 4 v) < unat v"
  by (cases "v = 0") (simp_all add: unat_drop_bit_eq drop_bit_eq_div [of 4 "unat v"] unat_gt_0)

termination cat_hex
  by (relation "measure (unat \<circ> fst)") (auto simp: drop_bit4_less)

declare cat_hex.simps [simp del]

text \<open>\<^verbatim>\<open>ints[i]\<close> has sixteen entries and no bounds check.\<close>

definition ints :: "string list" where
  "ints = [''0'', ''1'', ''2'', ''3'', ''4'', ''5'', ''6'', ''7'',
     ''8'', ''9'', ''10'', ''11'', ''12'', ''13'', ''14'', ''15'']"

definition tab_at :: "'a list \<Rightarrow> nat \<Rightarrow> 'a option" where
  "tab_at xs i = (if i < length xs then Some (xs ! i) else None)"

definition cat_i16 :: "u32 \<Rightarrow> string \<Rightarrow> string option" where
  "cat_i16 i out = map_option (\<lambda>s. out @ s) (tab_at ints (unat i))"

section \<open>The format interpreter\<close>

text \<open>The register list of \<^verbatim>\<open>%RL\<close>: it drops the prefix already written,
  writes a register and a comma for every set bit, and drops the last comma.\<close>

fun reg_list_loop :: "nat \<Rightarrow> nat \<Rightarrow> u32 \<Rightarrow> string \<Rightarrow> string option" where
  "reg_list_loop 0 i tmp out = Some out"
| "reg_list_loop (Suc n) i tmp out =
    (if tmp AND 1 \<noteq> 0
     then Option.bind (cat_i16 (of_nat i) (out @ [R_PREFIX]))
            (\<lambda>out. reg_list_loop n (Suc i) (drop_bit 1 tmp) (out @ '',''))
     else reg_list_loop n (Suc i) (drop_bit 1 tmp) out)"

definition cat_reg_list :: "u32 \<Rightarrow> string \<Rightarrow> string option" where
  "cat_reg_list imm out =
    (let out = butlast out
     in if imm \<noteq> 0 then map_option butlast (reg_list_loop 16 0 imm out) else Some out)"

text \<open>The \<^verbatim>\<open>DecodeReg\<close> label: one more format character.\<close>

definition cat_reg :: "dctx \<Rightarrow> char \<Rightarrow> string \<Rightarrow> string option" where
  "cat_reg c e out = switch e
     [(CHR ''d'', cat_i16 (c_rd c) out), (CHR ''n'', cat_i16 (c_rn c) out),
      (CHR ''m'', cat_i16 (c_rm c) out), (CHR ''s'', cat_i16 (c_rs c) out),
      (CHR ''L'', cat_reg_list (c_imm c) out)] (Some out)"

text \<open>\<^verbatim>\<open>%Cp\<close>, \<^verbatim>\<open>%C1\<close>, \<^verbatim>\<open>%C2\<close>\<close>

definition cat_coproc :: "dctx \<Rightarrow> char \<Rightarrow> string \<Rightarrow> string option" where
  "cat_coproc c e out = switch e
     [(CHR ''p'', cat_i16 (c_cp_num c) (out @ ''p'')), (CHR ''1'', cat_i16 (c_cp_op1 c) out),
      (CHR ''2'', cat_i16 (c_cp_op2 c) out)] (Some out)"

text \<open>The directives without a second character; an unknown one writes itself.\<close>

definition cat_directive :: "dctx \<Rightarrow> char \<Rightarrow> string \<Rightarrow> string option" where
  "cat_directive c e out = switch e
     [(CHR ''^'', Some (if c_flags c AND S_BIT \<noteq> 0 then out @ ''^'' else out)),
      (CHR ''-'', Some (if c_flags c AND U_BIT = 0 then out @ ''-'' else out)),
      (CHR ''?'', Some (out @ ''???'')),
      (CHR ''c'', Some (out @ condition_string (c_cond c))),
      (CHR ''s'', Some (if c_flags c AND S_BIT \<noteq> 0 then out @ [S_BIT_CHAR] else out)),
      (CHR ''F'', map_option (\<lambda>s. out @ s) (tab_at sr_mask_strings (unat (c_rn c)))),
      (CHR ''S'', Some (out @ shift_string (c_shift c))),
      (CHR ''M'', Some (out @ addressing_mode_string (c_amode c))),
      (CHR ''E'', Some (out @ extend_mode_string (c_emode c))),
      (CHR ''I'', Some (cat_hex (c_imm c) out)),
      (CHR ''A'', Some (cat_hex8 (c_imm c) out))]
     (Some (out @ [e]))"

text \<open>\<^verbatim>\<open>get_str\<close>: the loop over the format. A format that ends inside a
  directive makes the code read on behind its terminating zero, \<open>None\<close>.\<close>

fun get_str_go :: "dctx \<Rightarrow> string \<Rightarrow> string \<Rightarrow> string option" where
  "get_str_go c [] out = Some out"
| "get_str_go c (x # p) out =
    (if x \<noteq> CHR ''%'' then get_str_go c p (out @ [x])
     else (case p of
        [] \<Rightarrow> None
      | e # p1 \<Rightarrow>
         if e = CHR ''R'' then
          (case p1 of [] \<Rightarrow> None
           | r # p2 \<Rightarrow> Option.bind (cat_reg c r (out @ [R_PREFIX])) (\<lambda>out. get_str_go c p2 out))
         else if e = CHR ''C'' then
          (case p1 of [] \<Rightarrow> None
           | r # p2 \<Rightarrow>
             if r = CHR ''R'' then
              (case p2 of [] \<Rightarrow> None
               | r' # p3 \<Rightarrow> Option.bind (cat_reg c r' (out @ ''c'')) (\<lambda>out. get_str_go c p3 out))
             else Option.bind (cat_coproc c r out) (\<lambda>out. get_str_go c p2 out))
         else Option.bind (cat_directive c e out) (\<lambda>out. get_str_go c p1 out)))"

definition get_str :: "dctx \<Rightarrow> string option" where
  "get_str c = Option.bind (tab_at inst_strings (inst_code (c_instruction c)))
     (\<lambda>fmt. get_str_go c fmt [])"

section \<open>What a format means\<close>

text \<open>
  The meaning of a format, independent of the buffer: a list of items, each of which
  denotes a text of the context. The interpreter above writes the concatenation of the
  items' texts, provided the table indices they use are in range.
\<close>

datatype item =
    Lit char | Caret | Minus | Quest | Cond | SBit | Mask | Shift | AMode | EMode | Imm | Addr
  | Reg char char | RegList | CpNum | CpOp1 | CpOp2

definition reg_sel :: "dctx \<Rightarrow> char \<Rightarrow> u32" where
  "reg_sel c e = switch e
     [(CHR ''d'', c_rd c), (CHR ''n'', c_rn c), (CHR ''m'', c_rm c), (CHR ''s'', c_rs c)] 0"

definition is_reg_sel :: "char \<Rightarrow> bool" where
  "is_reg_sel e = (e \<in> {CHR ''d'', CHR ''n'', CHR ''m'', CHR ''s''})"

definition directive_item :: "char \<Rightarrow> item" where
  "directive_item e = switch e
     [(CHR ''^'', Caret), (CHR ''-'', Minus), (CHR ''?'', Quest), (CHR ''c'', Cond),
      (CHR ''s'', SBit), (CHR ''F'', Mask), (CHR ''S'', Shift), (CHR ''M'', AMode),
      (CHR ''E'', EMode), (CHR ''I'', Imm), (CHR ''A'', Addr)] (Lit e)"

definition coproc_item :: "char \<Rightarrow> item option" where
  "coproc_item e = switch e
     [(CHR ''p'', Some CpNum), (CHR ''1'', Some CpOp1), (CHR ''2'', Some CpOp2)] None"

definition reg_item :: "char \<Rightarrow> char \<Rightarrow> item option" where
  "reg_item pre e =
    (if is_reg_sel e then Some (Reg pre e)
     else if e = CHR ''L'' \<and> pre = R_PREFIX then Some RegList else None)"

fun parse_fmt :: "string \<Rightarrow> item list option" where
  "parse_fmt [] = Some []"
| "parse_fmt (x # p) =
    (if x \<noteq> CHR ''%'' then map_option (Cons (Lit x)) (parse_fmt p)
     else (case p of
        [] \<Rightarrow> None
      | e # p1 \<Rightarrow>
         if e = CHR ''R'' then
          (case p1 of [] \<Rightarrow> None
           | r # p2 \<Rightarrow> Option.bind (reg_item R_PREFIX r) (\<lambda>i. map_option (Cons i) (parse_fmt p2)))
         else if e = CHR ''C'' then
          (case p1 of [] \<Rightarrow> None
           | r # p2 \<Rightarrow>
             if r = CHR ''R'' then
              (case p2 of [] \<Rightarrow> None
               | r' # p3 \<Rightarrow> Option.bind (reg_item (CHR ''c'') r') (\<lambda>i. map_option (Cons i) (parse_fmt p3)))
             else Option.bind (coproc_item r) (\<lambda>i. map_option (Cons i) (parse_fmt p2)))
         else map_option (Cons (directive_item e)) (parse_fmt p1)))"

text \<open>The text of a register list: the set bits in ascending order, comma separated.\<close>

definition reg_name :: "nat \<Rightarrow> string" where
  "reg_name i = R_PREFIX # ints ! i"

definition reg_list_text :: "u32 \<Rightarrow> string" where
  "reg_list_text w = butlast (concat (map (\<lambda>i. reg_name i @ '','') (filter (bit w) [0..<16])))"

fun item_text :: "dctx \<Rightarrow> item \<Rightarrow> string" where
  "item_text c (Lit x) = [x]"
| "item_text c Caret = (if c_flags c AND S_BIT \<noteq> 0 then ''^'' else [])"
| "item_text c Minus = (if c_flags c AND U_BIT = 0 then ''-'' else [])"
| "item_text c Quest = ''???''"
| "item_text c Cond = condition_string (c_cond c)"
| "item_text c SBit = (if c_flags c AND S_BIT \<noteq> 0 then [S_BIT_CHAR] else [])"
| "item_text c Mask = sr_mask_strings ! unat (c_rn c)"
| "item_text c Shift = shift_string (c_shift c)"
| "item_text c AMode = addressing_mode_string (c_amode c)"
| "item_text c EMode = extend_mode_string (c_emode c)"
| "item_text c Imm = cat_hex (c_imm c) []"
| "item_text c Addr = cat_hex8 (c_imm c) []"
| "item_text c (Reg pre e) = pre # ints ! unat (reg_sel c e)"
| "item_text c RegList = reg_list_text (c_imm c)"
| "item_text c CpNum = CHR ''p'' # ints ! unat (c_cp_num c)"
| "item_text c CpOp1 = ints ! unat (c_cp_op1 c)"
| "item_text c CpOp2 = ints ! unat (c_cp_op2 c)"

fun item_ok :: "dctx \<Rightarrow> item \<Rightarrow> bool" where
  "item_ok c Mask = (c_rn c < 16)"
| "item_ok c (Reg pre e) = (is_reg_sel e \<and> reg_sel c e < 16)"
| "item_ok c RegList = (c_imm c < 0x10000)"
| "item_ok c CpNum = (c_cp_num c < 16)"
| "item_ok c CpOp1 = (c_cp_op1 c < 16)"
| "item_ok c CpOp2 = (c_cp_op2 c < 16)"
| "item_ok c _ = True"

text \<open>The most characters an item can write.\<close>

fun item_width :: "item \<Rightarrow> nat" where
  "item_width (Lit x) = 1"
| "item_width Caret = 1"
| "item_width Minus = 1"
| "item_width Quest = 3"
| "item_width Cond = 2"
| "item_width SBit = 1"
| "item_width Mask = 4"
| "item_width Shift = 3"
| "item_width AMode = 2"
| "item_width EMode = 2"
| "item_width Imm = 8"
| "item_width Addr = 8"
| "item_width (Reg pre e) = 3"
| "item_width RegList = 64"
| "item_width CpNum = 3"
| "item_width CpOp1 = 2"
| "item_width CpOp2 = 2"

section \<open>The writers append\<close>

lemma ints_at: "i < 16 \<Longrightarrow> tab_at ints i = Some (ints ! i)"
  by (simp add: tab_at_def ints_def)

lemma cat_i16_ok: "i < 16 \<Longrightarrow> cat_i16 i out = Some (out @ ints ! unat i)"
  by (simp add: cat_i16_def ints_at word_less_nat_alt)

lemma sr_mask_at: "(i::u32) < 16 \<Longrightarrow> tab_at sr_mask_strings (unat i) = Some (sr_mask_strings ! unat i)"
  by (simp add: tab_at_def sr_mask_strings_def word_less_nat_alt)

lemma cat_hex_append: "cat_hex val out = out @ cat_hex val []"
proof (induction val out rule: cat_hex.induct)
  case (1 val out)
  show ?case
    by (subst (1 2) cat_hex.simps) (use 1 in \<open>simp add: Let_def cat_nibble_def\<close>)
qed

lemma cat_hex8_append: "cat_hex8 val out = out @ cat_hex8 val []"
  by (simp add: cat_hex8_def cat_nibble_def)

lemma length_cat_hex:
  "unat val < 16 ^ Suc n \<Longrightarrow> length (cat_hex val []) \<le> Suc n"
proof (induction n arbitrary: val)
  case 0
  then have "drop_bit 4 val = 0"
    by (simp add: unat_eq_0 [symmetric] unat_drop_bit_eq drop_bit_eq_div [of 4 "unat val"])
  then show ?case by (subst cat_hex.simps) (simp add: cat_nibble_def)
next
  case (Suc n)
  have "unat (drop_bit 4 val) < 16 ^ Suc n"
    using Suc.prems by (simp add: unat_drop_bit_eq drop_bit_eq_div [of 4 "unat val"] div_less_iff_less_mult)
  from Suc.IH [OF this] show ?case
    by (subst cat_hex.simps) (simp add: cat_nibble_def cat_hex_append [of _ "cat_hex _ []"] Let_def)
qed

lemma length_cat_hex8: "length (cat_hex8 val []) = 8"
  by (simp add: cat_hex8_def cat_nibble_def)

lemma reg_list_loop_text:
  "i + n \<le> 16 \<Longrightarrow> reg_list_loop n i tmp out =
     Some (out @ concat (map (\<lambda>j. reg_name j @ '','') (filter (\<lambda>j. bit tmp (j - i)) [i..<i + n])))"
proof (induction n i tmp out rule: reg_list_loop.induct)
  case (1 i tmp out)
  then show ?case by simp
next
  case (2 n i tmp out)
  have shift: "filter (\<lambda>j. bit (drop_bit 1 tmp) (j - Suc i)) [Suc i..<Suc (i + n)] =
      filter (\<lambda>j. bit tmp (j - i)) [Suc i..<Suc (i + n)]"
    by (rule filter_cong) (auto simp: bit_drop_bit_eq Suc_diff_Suc Suc_le_eq)
  have split: "[i..<Suc (i + n)] = i # [Suc i..<Suc (i + n)]"
    by (simp add: upt_rec [of i])
  have i: "unat (word_of_nat i :: u32) = i" using 2 by (simp add: unat_of_nat)
  then have c: "cat_i16 (word_of_nat i) o' = Some (o' @ ints ! i)" for o'
    using 2 by (simp add: cat_i16_def ints_at)
  have ev: "(tmp AND 1 \<noteq> 0) = bit tmp 0"
    by (simp add: bit_0 and_one_eq odd_iff_mod_2_eq_one)
  show ?case
    using 2 by (auto simp add: ev c split shift reg_name_def simp del: upt_Suc One_nat_def)
qed

lemma filter_bit_Nil: "(w::u32) < 0x10000 \<Longrightarrow> w \<noteq> 0 \<Longrightarrow> filter (bit w) [0..<16] \<noteq> []"
proof
  assume w: "w < 0x10000" "w \<noteq> 0" and f: "filter (bit w) [0..<16] = []"
  have "\<not> bit w i" for i
  proof (cases "i < 16")
    case True then show ?thesis using f by (auto simp: filter_empty_conv)
  next
    case False
    then show ?thesis using bit_below [of w 16 i] w by auto
  qed
  then show False using w by (simp add: bit_eq_iff)
qed

lemma cat_reg_list_text:
  assumes "imm < 0x10000"
  shows "cat_reg_list imm (out @ [x]) = Some (out @ reg_list_text imm)"
  using filter_bit_Nil [OF assms]
  by (cases "imm = 0")
    (auto simp: cat_reg_list_def reg_list_text_def reg_list_loop_text butlast_append)

section \<open>The interpreter writes the meaning of its format\<close>

lemma cat_reg_item:
  "reg_item pre r = Some i \<Longrightarrow> item_ok c i \<Longrightarrow>
    cat_reg c r (out @ [pre]) = Some (out @ item_text c i)"
  by (auto simp: reg_item_def is_reg_sel_def reg_sel_def cat_reg_def cat_i16_ok
        cat_reg_list_text split: if_splits)

lemma cat_coproc_item:
  "coproc_item r = Some i \<Longrightarrow> item_ok c i \<Longrightarrow> cat_coproc c r out = Some (out @ item_text c i)"
  by (auto simp: coproc_item_def cat_coproc_def cat_i16_ok split: if_splits)

lemma cat_directive_item:
  "item_ok c (directive_item e) \<Longrightarrow> cat_directive c e out = Some (out @ item_text c (directive_item e))"
  by (auto simp: directive_item_def cat_directive_def sr_mask_at cat_hex_append [of _ out]
        cat_hex8_append [of _ out] split: if_splits)

lemma get_str_go_text:
  "parse_fmt fmt = Some is \<Longrightarrow> \<forall>i \<in> set is. item_ok c i \<Longrightarrow>
    get_str_go c fmt out = Some (out @ concat (map (item_text c) is))"
proof (induction fmt arbitrary: "is" out rule: parse_fmt.induct)
  case 1
  then show ?case by simp
next
  case (2 x p)
  note IH = 2(1-5) and parse = 2(6) and ok = 2(7)
  show ?case
  proof (cases "x = CHR ''%''")
    case False
    then show ?thesis using parse ok by (auto simp: IH(1))
  next
    case x: True
    then obtain e p1 where p: "p = e # p1" using parse by (cases p) auto
    consider (R) "e = CHR ''R''" | (C) "e = CHR ''C''" | (D) "e \<noteq> CHR ''R''" "e \<noteq> CHR ''C''" by blast
    then show ?thesis
    proof cases
      case R
      then obtain r p2 i js where p1: "p1 = r # p2" and i: "reg_item R_PREFIX r = Some i"
        and js: "parse_fmt p2 = Some js" "is = i # js"
        using parse x p by (auto simp: bind_eq_Some_conv split: list.splits)
      show ?thesis using x p R p1 ok i js
        by (simp add: cat_reg_item IH(2)[of e p1 r p2])
    next
      case C
      then obtain r p2 where p1: "p1 = r # p2"
        using parse x p by (auto split: list.splits)
      show ?thesis
      proof (cases "r = CHR ''R''")
        case True
        then obtain r' p3 i js where p2: "p2 = r' # p3" and i: "reg_item (CHR ''c'') r' = Some i"
          and js: "parse_fmt p3 = Some js" "is = i # js"
          using parse x p C p1 by (auto simp: bind_eq_Some_conv split: list.splits)
        show ?thesis using x p C p1 p2 ok i js True
          by (simp add: cat_reg_item IH(3)[of e p1 r p2 r' p3])
      next
        case False
        then obtain i js where i: "coproc_item r = Some i"
          and js: "parse_fmt p2 = Some js" "is = i # js"
          using parse x p C p1 by (auto simp: bind_eq_Some_conv)
        show ?thesis using x p C p1 ok i js False
          by (simp add: cat_coproc_item IH(4)[of e p1 r p2])
      qed
    next
      case D
      then obtain js where js: "parse_fmt p1 = Some js" "is = directive_item e # js"
        using parse x p by auto
      show ?thesis using x p D ok js
        by (simp add: cat_directive_item IH(5))
    qed
  qed
qed

text \<open>Every format of the table but the one of \<^verbatim>\<open>UMLAL\<close> parses.\<close>

definition inst_items :: "item list option list" where
  "inst_items = map parse_fmt inst_strings"

definition fmt_items :: "inst \<Rightarrow> item list option" where
  "fmt_items i = inst_items ! inst_code i"

definition text_width :: "item list \<Rightarrow> nat" where
  "text_width is = sum_list (map item_width is)"

lemma length_inst_strings: "length inst_strings = MAX_INSTRUCTIONS"
  by (simp add: inst_strings_def)

end
