(* ===== verification/Decode_Text.thy ===== *)
theory Decode_Text
  imports Disasm_Text
begin

text \<open>
  What the decoders promise to the text formatter: for every instruction word the
  fields the instruction's format prints have been set, and are in the range of the
  tables they index.
\<close>

section \<open>The fields an instruction prints\<close>

abbreviation (input) R_d :: item where "R_d \<equiv> Reg (CHR ''r'') (CHR ''d'')"
abbreviation (input) R_n :: item where "R_n \<equiv> Reg (CHR ''r'') (CHR ''n'')"
abbreviation (input) R_m :: item where "R_m \<equiv> Reg (CHR ''r'') (CHR ''m'')"
abbreviation (input) R_s :: item where "R_s \<equiv> Reg (CHR ''r'') (CHR ''s'')"
abbreviation (input) CR_n :: item where "CR_n \<equiv> Reg (CHR ''c'') (CHR ''n'')"
abbreviation (input) CR_m :: item where "CR_m \<equiv> Reg (CHR ''c'') (CHR ''m'')"

definition needs :: "item list \<Rightarrow> item list" where
  "needs is = filter (\<lambda>i. case i of Lit _ \<Rightarrow> False | Quest \<Rightarrow> False | _ \<Rightarrow> True) is"

definition inst_needs :: "item list option list" where
  "inst_needs =
   [
     Some [],
     Some [],
     Some [],
     Some [Cond, R_d, Minus, R_n, Imm],
     Some [Cond, R_d, Minus, R_n, Imm],
     Some [Cond, R_d, Minus, R_n, Imm],
     Some [Cond, R_d, Minus, R_n, Imm],
     Some [Cond, R_d, Minus, R_n, Imm],
     Some [Cond, R_d, Minus, R_n, Imm],
     Some [Cond, R_d, Minus, R_n, Imm],
     Some [Cond, R_d, Minus, R_n, Imm],
     Some [Cond, R_d, Minus, R_n, Imm],
     Some [Cond, R_d, Minus, R_n, Imm],
     Some [Cond, R_d, Minus, R_n, Imm],
     Some [Cond, R_d, Minus, R_n, Imm],
     Some [Cond, R_d, Minus, R_n, Imm],
     Some [Cond, R_d, Minus, R_n, Imm],
     Some [Cond, R_d, Minus, R_n, Imm],
     Some [Cond, R_d, Minus, R_n, Imm],
     Some [Cond, R_d, Minus, R_n, R_m, Shift, Imm],
     Some [Cond, R_d, Minus, R_n, R_m, Shift, Imm],
     Some [Cond, R_d, Minus, R_n, R_m, Shift, Imm],
     Some [Cond, R_d, Minus, R_n, R_m, Shift, Imm],
     Some [Cond, R_d, Minus, R_n, R_m, Shift, Imm],
     Some [Cond, R_d, Minus, R_n, R_m, Shift, Imm],
     Some [Cond, R_d, Minus, R_n, R_m, Shift, Imm],
     Some [Cond, R_d, Minus, R_n, R_m, Shift, Imm],
     Some [Cond, R_d, Minus, R_n, R_m, Shift, Imm],
     Some [Cond, R_d, Minus, R_n, R_m, Shift, Imm],
     Some [Cond, R_d, Minus, R_n, R_m, Shift, Imm],
     Some [Cond, R_d, Minus, R_n, R_m, Shift, Imm],
     Some [Cond, R_d, Minus, R_n, R_m, Shift, Imm],
     Some [Cond, R_d, Minus, R_n, R_m, Shift, Imm],
     Some [Cond, R_d, Minus, R_n, R_m, Shift, Imm],
     Some [Cond, R_d, Minus, R_n, R_m, Shift, Imm],
     Some [Cond, SBit, R_d, R_n, Imm],
     Some [Cond, SBit, R_d, R_n, Imm],
     Some [Cond, SBit, R_d, R_n, Imm],
     Some [Cond, SBit, R_d, R_n, Imm],
     Some [Cond, SBit, R_d, R_n, Imm],
     Some [Cond, SBit, R_d, R_n, Imm],
     Some [Cond, SBit, R_d, R_n, Imm],
     Some [Cond, SBit, R_d, R_n, Imm],
     Some [Cond, R_n, Imm],
     Some [Cond, R_n, Imm],
     Some [Cond, R_n, Imm],
     Some [Cond, R_n, Imm],
     Some [Cond, SBit, R_d, R_n, Imm],
     Some [Cond, SBit, R_d, Imm],
     Some [Cond, SBit, R_d, R_n, Imm],
     Some [Cond, SBit, R_d, Imm],
     Some [Mask, Imm],
     Some [Mask, Imm],
     Some [Cond, SBit, R_d, R_n, R_m, Shift, Imm],
     Some [Cond, SBit, R_d, R_n, R_m, Shift, Imm],
     Some [Cond, SBit, R_d, R_n, R_m, Shift, Imm],
     Some [Cond, SBit, R_d, R_n, R_m, Shift, Imm],
     Some [Cond, SBit, R_d, R_n, R_m, Shift, Imm],
     Some [Cond, SBit, R_d, R_n, R_m, Shift, Imm],
     Some [Cond, SBit, R_d, R_n, R_m, Shift, Imm],
     Some [Cond, SBit, R_d, R_n, R_m, Shift, Imm],
     Some [Cond, R_n, R_m, Shift, Imm],
     Some [Cond, R_n, R_m, Shift, Imm],
     Some [Cond, R_n, R_m, Shift, Imm],
     Some [Cond, R_n, R_m, Shift, Imm],
     Some [Cond, SBit, R_d, R_n, R_m, Shift, Imm],
     Some [Cond, SBit, R_d, R_m, Shift, Imm],
     Some [Cond, SBit, R_d, R_n, R_m, Shift, Imm],
     Some [Cond, SBit, R_d, R_m, Shift, Imm],
     Some [Cond, SBit, R_d, R_n, R_m, Shift, R_s],
     Some [Cond, SBit, R_d, R_n, R_m, Shift, R_s],
     Some [Cond, SBit, R_d, R_n, R_m, Shift, R_s],
     Some [Cond, SBit, R_d, R_n, R_m, Shift, R_s],
     Some [Cond, SBit, R_d, R_n, R_m, Shift, R_s],
     Some [Cond, SBit, R_d, R_n, R_m, Shift, R_s],
     Some [Cond, SBit, R_d, R_n, R_m, Shift, R_s],
     Some [Cond, SBit, R_d, R_n, R_m, Shift, R_s],
     Some [Cond, R_n, R_m, Shift, R_s],
     Some [Cond, R_n, R_m, Shift, R_s],
     Some [Cond, R_n, R_m, Shift, R_s],
     Some [Cond, R_n, R_m, Shift, R_s],
     Some [Cond, SBit, R_d, R_n, R_m, Shift, R_s],
     Some [Cond, SBit, R_d, R_m, Shift, R_s],
     Some [Cond, SBit, R_d, R_n, R_m, Shift, R_s],
     Some [Cond, SBit, R_d, R_m, Shift, R_s],
     Some [Cond, Mask, R_m],
     Some [Cond, Mask, R_m],
     Some [Cond, R_d],
     Some [Cond, R_d],
     Some [Cond, R_d, R_m],
     Some [Imm],
     Some [Imm],
     Some [Cond, R_m],
     Some [Cond, R_m],
     Some [Cond, Addr],
     Some [Cond, Addr],
     Some [Cond, CpNum, CpOp1, R_d, CR_n, CR_m, CpOp2],
     Some [Cond, CpNum, CpOp1, R_d, CR_n, CR_m, CpOp2],
     Some [Cond, AMode, R_n, RegList, Caret],
     Some [Cond, AMode, R_n, RegList, Caret],
     Some [Cond, AMode, R_n, RegList, Caret],
     Some [Cond, AMode, R_n, RegList, Caret],
     Some [Cond, EMode, R_d, Minus, R_n, Imm],
     Some [Cond, EMode, R_d, Minus, R_n, Imm],
     Some [Cond, EMode, R_d, Minus, R_n, Imm],
     Some [Cond, EMode, R_d, Minus, R_n, Imm],
     Some [Cond, EMode, R_d, Minus, R_n, Imm],
     Some [Cond, EMode, R_d, Minus, R_n, Imm],
     Some [Cond, EMode, R_d, Minus, R_n, Imm],
     Some [Cond, EMode, R_d, Minus, R_n, Imm],
     Some [Cond, EMode, R_d, Minus, R_n, R_m],
     Some [Cond, EMode, R_d, Minus, R_n, R_m],
     Some [Cond, EMode, R_d, Minus, R_n, R_m],
     Some [Cond, EMode, R_d, Minus, R_n, R_m],
     Some [Cond, EMode, R_d, Minus, R_n, R_m],
     Some [Cond, EMode, R_d, Minus, R_n, R_m],
     Some [Cond, EMode, R_d, Minus, R_n, R_m],
     Some [Cond, EMode, R_d, Minus, R_n, R_m],
     Some [Addr],
     Some [Cond, SBit, R_d, R_m, R_s],
     Some [Cond, SBit, R_d, R_m, R_s, R_n],
     Some [Cond, SBit, R_d, R_n, R_m, R_s],
     None,
     Some [Cond, SBit, R_d, R_n, R_m, R_s],
     Some [Cond, SBit, R_d, R_n, R_m, R_s],
     Some [Cond, R_d, R_m, R_n],
     Some [Cond, R_d, R_m, R_n],
     Some [Cond, Addr],
     Some [Cond, R_d, Minus, R_n],
     Some [Cond, R_d, Minus, R_n],
     Some [Cond, R_d, R_n, Imm],
     Some [Cond, R_d, Minus, R_n],
     Some [Cond, R_d, Minus, R_n],
     Some [Cond, R_d, Minus, R_n],
     Some [Cond, R_d, Minus, R_n],
     Some [Cond, R_d, Minus, R_n],
     Some [R_n, Minus, Imm],
     Some [R_n]
   ]"

lemma inst_needs_items: "inst_needs = map (map_option needs) inst_items"
  by code_simp

lemma inst_items_width:
  "list_all (\<lambda>is. case is of None \<Rightarrow> True | Some is \<Rightarrow> text_width is < 128) inst_items"
  by code_simp

section \<open>Contexts that print alike\<close>

definition alike :: "dctx \<Rightarrow> dctx \<Rightarrow> item \<Rightarrow> bool" where
  "alike c c' i = (item_text c i = item_text c' i \<and> item_ok c i \<and> item_ok c' i)"

definition prints_alike :: "dctx \<Rightarrow> dctx \<Rightarrow> bool" where
  "prints_alike c c' =
    (c_instruction c = c_instruction c' \<and> inst_code (c_instruction c) < MAX_INSTRUCTIONS \<and>
     (case inst_needs ! inst_code (c_instruction c) of
        None \<Rightarrow> True | Some is \<Rightarrow> list_all (alike c c') is))"

text \<open>What the decoder has fixed before it dispatches.\<close>

definition same_input :: "dctx \<Rightarrow> dctx \<Rightarrow> bool" where
  "same_input c c' = (c_op c = c_op c' \<and> c_addr c = c_addr c' \<and> c_flags c = c_flags c' \<and>
     c_cond c = c_cond c' \<and> c_shift c = c_shift c')"

lemmas alike_simps = prints_alike_def alike_def reg_sel_def is_reg_sel_def set_inst_def or_flags_def
  set_inst_reg_def inst_ud_def inst_unknown_def inst_debug_def decode_reg_def decode_regt_def fld_lt16
  fld_lt8_16 switch.simps inst_needs_def same_input_def

declare switch.simps [simp del]

lemma pair_alike: "prints_alike v v' \<Longrightarrow> (\<lambda>(a, v) (a', v'). a = a' \<and> prints_alike v v') (a, v) (a, v')"
  by simp

lemmas alike_rel = switch_rel [where R = prints_alike] if_rel [where R = prints_alike]
  pair_alike list.rel_intros

lemma let_alike:
  assumes "P a a'" and "\<And>x x'. P x x' \<Longrightarrow> prints_alike (f x) (f' x')"
  shows "prints_alike (Let a f) (Let a' f')"
  using assms by (simp add: Let_def)

lemmas let_flag = let_alike [where P = "(=) :: bool \<Rightarrow> bool \<Rightarrow> bool"]

lemma and_mask_less: "(w::u32) AND 0xFFFF < 0x10000" "(w::u32) AND 0xFF < 0x10000"
  by (rule order_le_less_trans [OF word_and_le1], simp)+

section \<open>Contexts that print alike give the same text\<close>

lemma length_ints: "i < 16 \<Longrightarrow> length (ints ! i) \<le> 2"
proof -
  have "list_all (\<lambda>s. length s \<le> 2) ints" by code_simp
  then show "i < 16 \<Longrightarrow> length (ints ! i) \<le> 2"
    by (simp add: list_all_length) (simp add: ints_def)
qed

lemma length_sr_mask: "i < 16 \<Longrightarrow> length (sr_mask_strings ! i) \<le> 4"
proof -
  have "list_all (\<lambda>s. length s \<le> 4) sr_mask_strings" by code_simp
  then show "i < 16 \<Longrightarrow> length (sr_mask_strings ! i) \<le> 4"
    by (simp add: list_all_length) (simp add: sr_mask_strings_def)
qed

lemma sum_list_filter_le: "sum_list (map f (filter P xs)) \<le> sum_list (map (f :: _ \<Rightarrow> nat) xs)"
  by (induction xs) auto

lemma length_reg_list: "length (reg_list_text w) \<le> 64"
proof -
  let ?n = "\<lambda>i. reg_name i @ '',''"
  have "length (?n i) \<le> 4" if "i \<in> set [0..<16]" for i
    using that length_ints [of i] by (simp add: reg_name_def)
  then have "sum_list (map (length \<circ> ?n) [0..<16]) \<le> sum_list (map (\<lambda>_. 4) [0..<16::nat])"
    by (intro sum_list_mono) simp
  then show ?thesis
    using sum_list_filter_le [of "length \<circ> ?n" "bit w" "[0..<16]"]
    by (simp add: reg_list_text_def length_concat comp_def sum_list_triv)
qed

lemma length_item_text: "item_ok c i \<Longrightarrow> length (item_text c i) \<le> item_width i"
proof (cases i)
  case Imm
  then show ?thesis using length_cat_hex [of "c_imm c" 7] unsigned_less [of "c_imm c", where 'a = nat] by simp
next
  case (Reg pre e)
  then show "item_ok c i \<Longrightarrow> ?thesis"
    using length_ints [of "unat (reg_sel c e)"] by (simp add: word_less_nat_alt)
qed (use length_ints length_sr_mask in \<open>auto simp: word_less_nat_alt length_reg_list length_cat_hex8
       condition_string_def shift_string_def addressing_mode_string_def extend_mode_string_def
       split: condition.splits shift_op.splits addressing_mode.splits extend_mode.splits\<close>)

lemma inst_needs_None:
  "list_all (\<lambda>n. (inst_needs ! n = None) = (n = inst_code UMLAL)) [0..<MAX_INSTRUCTIONS]"
  by code_simp

lemma get_str_UMLAL:
  "c_instruction c = UMLAL \<Longrightarrow> get_str c = None"
  by (auto simp: get_str_def tab_at_def inst_strings_def bind_eq_None_conv)

lemma prints_alike_text:
  assumes alike: "prints_alike c c'" and i: "c_instruction c \<noteq> UMLAL"
  shows "\<exists>s. get_str c = Some s \<and> get_str c' = Some s \<and> length s < 128"
proof -
  let ?n = "inst_code (c_instruction c)"
  have n: "?n < MAX_INSTRUCTIONS" and eq: "c_instruction c' = c_instruction c"
    using alike unfolding prints_alike_def by auto
  have "?n \<noteq> inst_code UMLAL" using i by (metis inst.collapse)
  then obtain need where need: "inst_needs ! ?n = Some need"
    using inst_needs_None n by (auto simp: list_all_iff)
  have len: "length inst_items = MAX_INSTRUCTIONS"
    by (simp add: inst_items_def length_inst_strings)
  obtain "is" where "is": "inst_items ! ?n = Some is" and needs: "need = needs is"
    using need n len by (auto simp: inst_needs_items)
  then have parse: "parse_fmt (inst_strings ! ?n) = Some is"
    using n by (simp add: inst_items_def length_inst_strings)
  have item: "alike c c' i" if "i \<in> set is" for i
  proof (cases "i \<in> set need")
    case True
    then show ?thesis using alike need by (simp add: prints_alike_def list_all_iff)
  next
    case False
    then show ?thesis using that needs
      by (cases i) (auto simp: needs_def alike_def)
  qed
  have same: "map (item_text c') is = map (item_text c) is"
    using item by (simp add: alike_def)
  have written: "get_str d = Some (concat (map (item_text d) is))"
    if "d = c \<or> d = c'" for d
    using get_str_go_text [OF parse, of d "[]"] item n eq that
    by (auto simp: get_str_def tab_at_def length_inst_strings alike_def)
  have "length (concat (map (item_text c) is)) \<le> text_width is"
    unfolding text_width_def length_concat map_map comp_def
    using item by (intro sum_list_mono) (simp add: alike_def length_item_text)
  also have "\<dots> < 128"
    using inst_items_width n len "is" by (auto simp: list_all_length)
  finally show ?thesis using written [of c] written [of c'] same by auto
qed

end
