(* ===== verification/Decode_Text_Arm.thy ===== *)
theory Decode_Text_Arm
  imports Decode_Text
begin

text \<open>
  The text of an ARM instruction word does not depend on what the decoder's context
  held before: the sub-decoders of \<^verbatim>\<open>Core/Disassembler.h\<close> one by one.
\<close>

section \<open>The ARM sub-decoders\<close>

definition same_regs :: "dctx \<Rightarrow> dctx \<Rightarrow> bool" where
  "same_regs c c' = (same_input c c' \<and> c_rd c = c_rd c' \<and> c_rn c = c_rn c' \<and> c_rm c = c_rm c' \<and>
     c_rd c' < 16 \<and> c_rn c' < 16 \<and> c_rm c' < 16)"

lemmas arm_simps = alike_simps same_regs_def decode_imm_shifter_def decode_shift_def
  decode_shift_reg_def decode_simm24_def decode_addressingmode2_def Let_def

lemma decode_misc_alike:
  assumes "same_regs c c'" "c_rs c = c_rs c'"
  shows "prints_alike (decode_misc c) (decode_misc c')"
  unfolding decode_misc_def Let_def using assms
  by (intro alike_rel) (simp_all add: arm_simps, use fld_cases(1)[of "c_op c'" 4] in auto)

lemma decode_misc2_alike:
  assumes "same_regs c c'"
  shows "prints_alike (decode_misc2 c) (decode_misc2 c')"
  unfolding decode_misc2_def Let_def using assms
  by (intro decode_misc_alike) (simp_all add: arm_simps)

lemma inst_ldrd_alike:
  assumes "same_regs c c'" "c_imm c = c_imm c'"
  shows "prints_alike (inst_ldrd c) (inst_ldrd c')"
  unfolding inst_ldrd_def using assms
  by (intro alike_rel) (simp_all add: arm_simps, use fld_cases(4)[of "c_op c'" 21] in auto)

lemma decode_000_mulswap_alike:
  assumes "same_regs c c'"
  shows "prints_alike (decode_000_mulswap c) (decode_000_mulswap c')"
  unfolding decode_000_mulswap_def decode_00000_mula_def decode_00001_mulal_def
    decode_00010_swap_def Let_def
  using assms
  by (intro alike_rel)
    (simp_all add: arm_simps, use fld_cases(2)[of "c_op c'" 21] in auto)

lemma decode_001_alike:
  assumes "same_input c c'"
  shows "prints_alike (decode_001_data_imm c) (decode_001_data_imm c')"
  unfolding decode_001_data_imm_def Let_def using assms
  by (intro alike_rel) (simp_all add: alike_simps decode_imm_shifter_def)

definition same_rs :: "dctx \<Rightarrow> dctx \<Rightarrow> bool" where
  "same_rs c c' = (same_regs c c' \<and> c_rs c = c_rs c' \<and> c_rs c' < 16)"

definition same_imm :: "dctx \<Rightarrow> dctx \<Rightarrow> bool" where
  "same_imm c c' = (same_regs c c' \<and> c_imm c = c_imm c')"

definition same_emode :: "dctx \<Rightarrow> dctx \<Rightarrow> bool" where
  "same_emode c c' = (same_imm c c' \<and> c_emode c = c_emode c')"

lemma decode_000_mul_extraloadstore_alike:
  assumes "same_regs c c'"
  shows "prints_alike (decode_000_mul_extraloadstore c) (decode_000_mul_extraloadstore c')"
  unfolding decode_000_mul_extraloadstore_def
proof (rule let_alike [where P = "(=)"], goal_cases)
  case 1
  then show ?case using assms by (simp add: arm_simps)
next
  case (2 i i')
  show ?case
  proof (rule let_alike [where P = same_imm], goal_cases)
    case 1
    then show ?case using assms 2 by (simp add: arm_simps same_imm_def)
  next
    case (2 x x')
    show ?case
    proof (rule let_alike [where P = same_emode], goal_cases)
      case 1
      then show ?case using 2 by (simp add: arm_simps same_imm_def same_emode_def)
    next
      case (2 x x')
      then show ?case
        by (intro alike_rel decode_000_mulswap_alike inst_ldrd_alike)
          (simp_all add: arm_simps same_emode_def same_imm_def, use fld_17_cases[of "c_op x'" 20] in auto)
    qed
  qed
qed

lemma decode_000_regs_alike:
  assumes "same_regs c c'"
  shows "prints_alike (decode_000_regs c) (decode_000_regs c')"
proof -
  have "prints_alike
      (let c = decode_shift_reg (if b then or_flags S_BIT c else c) in f c)
      (let c = decode_shift_reg (if b then or_flags S_BIT c' else c') in f' c)"
    if "\<And>x x'. same_rs x x' \<Longrightarrow> prints_alike (f x) (f' x')" for b f f'
    by (rule let_alike [where P = same_rs]) (use assms in \<open>simp add: arm_simps same_rs_def\<close>, rule that)
  note prep = this
  show ?thesis
    unfolding decode_000_regs_def
    by (intro if_rel [where R = prints_alike] decode_000_mul_extraloadstore_alike let_flag;
        (simp only: Let_def [of "if _ then _ else (_::dctx)"])?;
        (intro prep alike_rel decode_misc_alike)?)
      (use assms in \<open>simp_all add: arm_simps same_rs_def\<close>, use fld_cases(3) in auto)
qed

lemma decode_000_imms_alike:
  assumes "same_regs c c'"
  shows "prints_alike (decode_000_imms c) (decode_000_imms c')"
proof -
  have "prints_alike
      (let c = decode_shift (if b then or_flags S_BIT c else c) in f c)
      (let c = decode_shift (if b then or_flags S_BIT c' else c') in f' c)"
    if "\<And>x x'. same_imm x x' \<Longrightarrow> prints_alike (f x) (f' x')" for b f f'
    by (rule let_alike [where P = same_imm]) (use assms in \<open>simp add: arm_simps same_imm_def\<close>, rule that)
  note prep = this
  show ?thesis
    unfolding decode_000_imms_def
    by (intro let_flag; (simp only: Let_def [of "if _ then _ else (_::dctx)"])?;
        (intro prep alike_rel decode_misc2_alike)?)
      (use assms in \<open>simp_all add: arm_simps same_imm_def\<close>, use fld_cases(3) in auto)
qed

lemma decode_000_alike:
  assumes "same_input c c'"
  shows "prints_alike (decode_000_data_reg c) (decode_000_data_reg c')"
  unfolding decode_000_data_reg_def Let_def using assms
  by (intro alike_rel decode_000_regs_alike decode_000_imms_alike) (simp_all add: arm_simps)

lemma decode_010_alike:
  assumes "same_input c c'"
  shows "prints_alike (decode_010_loadstore_imm c) (decode_010_loadstore_imm c')"
  unfolding decode_010_loadstore_imm_def Let_def using assms
  by (intro alike_rel) (simp_all add: arm_simps)

lemma decode_011_alike:
  assumes "same_input c c'"
  shows "prints_alike (decode_011_loadstore_reg c) (decode_011_loadstore_reg c')"
  unfolding decode_011_loadstore_reg_def Let_def using assms
  by (intro alike_rel) (simp_all add: arm_simps)

lemma decode_100_alike:
  assumes "same_input c c'"
  shows "prints_alike (decode_100_loadstoremultiple c) (decode_100_loadstoremultiple c')"
  unfolding decode_100_loadstoremultiple_def Let_def using assms
  by (intro alike_rel)
    (simp_all add: arm_simps and_mask_less,
      use fld_cases(2)[of "c_op c'" 20] in \<open>auto simp: or_flags_def\<close>)

lemma decode_101_alike:
  assumes "same_input c c'"
  shows "prints_alike (decode_101_branch c) (decode_101_branch c')"
  unfolding decode_101_branch_def Let_def
  using assms by (intro alike_rel) (simp_all add: arm_simps)

lemma decode_110_alike:
  assumes "same_input c c'"
  shows "prints_alike (decode_110 c) (decode_110 c')"
  using assms by (simp add: decode_110_def arm_simps)

lemma decode_111_alike:
  assumes "same_input c c'"
  shows "prints_alike (decode_111 c) (decode_111 c')"
  unfolding decode_111_def decode_swi_def decode_coproc_def Let_def
  using assms by (intro alike_rel) (simp_all add: arm_simps)

lemma decode_NV_alike:
  assumes "same_input c c'"
  shows "prints_alike (decode_instruction_NV c) (decode_instruction_NV c')"
  unfolding decode_instruction_NV_def Let_def using assms
  by (intro alike_rel) (simp_all add: arm_simps)

lemma decode_arm_alike: "prints_alike (decode_arm op addr c) (decode_arm op addr c')"
  unfolding decode_arm_def decode_instruction_def Let_def decode_condition_def
  by (intro alike_rel decode_NV_alike decode_000_alike decode_001_alike decode_010_alike
      decode_011_alike decode_100_alike decode_101_alike decode_110_alike decode_111_alike) (simp_all add: arm_simps)

section \<open>The text of an ARM instruction word\<close>

text \<open>
  C1: whatever the (uninitialised) decoder context held, the text of an ARM instruction
  word is a function of the word and its address; it is undefined (the formatter reads
  behind its format) exactly for the instruction \<^verbatim>\<open>UMLAL\<close>, and otherwise has
  fewer than 128 characters, so the 256 byte buffers of the callers suffice.
\<close>

theorem arm_text:
  "get_str (decode_arm op addr c) = get_str (decode_arm op addr c') \<and>
   (get_str (decode_arm op addr c) = None \<longleftrightarrow> c_instruction (decode_arm op addr c) = UMLAL) \<and>
   (case get_str (decode_arm op addr c) of None \<Rightarrow> True | Some s \<Rightarrow> length s < 128)"
proof (cases "c_instruction (decode_arm op addr c) = UMLAL")
  case True
  then have "c_instruction (decode_arm op addr c') = UMLAL"
    using decode_arm_alike [of op addr c c'] by (simp add: prints_alike_def)
  then show ?thesis using True by (simp add: get_str_UMLAL)
next
  case False
  then show ?thesis using prints_alike_text [OF decode_arm_alike False, of c'] by auto
qed

end
