(* ===== verification/Decode_Text_Thumb.thy ===== *)
theory Decode_Text_Thumb
  imports Decode_Text
begin

text \<open>
  The text of a Thumb instruction word does not depend on what the decoder's context
  held before: the Thumb sub-decoders of \<^verbatim>\<open>Core/Disassembler.h\<close> one by one.
\<close>

section \<open>The Thumb sub-decoders\<close>

definition same_thumb :: "dctx \<Rightarrow> dctx \<Rightarrow> bool" where
  "same_thumb c c' = (same_input c c' \<and> c_imm c = c_imm c' \<and> c_cond c' = AL)"

lemmas thumb_simps = alike_simps same_thumb_def t_alu_def t_shift_def Let_def and_mask_less
  if_distrib [of c_op]

lemma decode_t000_alike:
  assumes "same_thumb c c'"
  shows "prints_alike (decode_t000 c) (decode_t000 c')"
  unfolding decode_t000_def Let_def using assms
  by (intro alike_rel) (simp_all add: thumb_simps)

lemma decode_t001_alike:
  assumes "same_thumb c c'"
  shows "prints_alike (decode_t001 c) (decode_t001 c')"
  unfolding decode_t001_def Let_def using assms
  by (intro alike_rel) (simp_all add: thumb_simps)

lemma decode_t0101_loadstore_reg_alike:
  assumes "same_thumb c c'"
  shows "prints_alike (decode_t0101_loadstore_reg c) (decode_t0101_loadstore_reg c')"
  unfolding decode_t0101_loadstore_reg_def Let_def using assms
  by (intro alike_rel) (simp_all add: thumb_simps)

lemma decode_t01001_loadliteral_alike:
  assumes "same_thumb c c'"
  shows "prints_alike (decode_t01001_loadliteral c) (decode_t01001_loadliteral c')"
  unfolding decode_t01001_loadliteral_def Let_def using assms
  by (simp add: thumb_simps)

lemma hi_reg_less: "fld w 0 7 OR (v AND 8) < 16"
proof -
  have "fld w 0 7 OR (v AND 8) = (fld w 0 7 OR (v AND 8)) AND 0xF"
    by (simp add: fld_def bit.conj_disj_distrib2 and.assoc)
  also have "\<dots> \<le> 0xF" by (rule word_and_le1)
  finally show ?thesis by (rule order_le_less_trans) simp
qed

lemma decode_t010001_sdata_b_alike:
  assumes "same_thumb c c'"
  shows "prints_alike (decode_t010001_sdata_b c) (decode_t010001_sdata_b c')"
  unfolding decode_t010001_sdata_b_def Let_def using assms
  by (intro alike_rel) (simp_all add: thumb_simps hi_reg_less)

lemma decode_t010000_dataproc_alike:
  assumes "same_thumb c c'"
  shows "prints_alike (decode_t010000_dataproc c) (decode_t010000_dataproc c')"
  unfolding decode_t010000_dataproc_def Let_def using assms
  by (intro alike_rel) (simp_all add: thumb_simps)

lemma decode_t010_alike:
  assumes "same_thumb c c'"
  shows "prints_alike (decode_t010 c) (decode_t010 c')"
  unfolding decode_t010_def Let_def using assms
  by (intro alike_rel decode_t0101_loadstore_reg_alike decode_t01001_loadliteral_alike
      decode_t010001_sdata_b_alike decode_t010000_dataproc_alike) (simp_all add: thumb_simps)

lemma decode_t011_alike:
  assumes "same_thumb c c'"
  shows "prints_alike (decode_t011 c) (decode_t011 c')"
  unfolding decode_t011_def Let_def using assms
  by (intro alike_rel) (simp_all add: thumb_simps, use fld_cases(2)[of "c_op c'" 11] in auto)

lemma decode_t100_alike:
  assumes "same_thumb c c'"
  shows "prints_alike (decode_t100 c) (decode_t100 c')"
  unfolding decode_t100_def decode_t1001_loadstore_stack_def Let_def using assms
  by (intro alike_rel) (simp_all add: thumb_simps)

lemma mask_or_bit_less: "(w AND 0xFF) OR 0x4000 < (0x10000::u32)" "(w AND 0xFF) OR 0x8000 < (0x10000::u32)"
proof -
  have "(w AND 0xFF) OR 0x4000 = ((w AND 0xFF) OR 0x4000) AND 0xFFFF"
    by (simp add: bit.conj_disj_distrib2 and.assoc)
  then show "(w AND 0xFF) OR 0x4000 < (0x10000::u32)" by (metis and_mask_less(1))
  have "(w AND 0xFF) OR 0x8000 = ((w AND 0xFF) OR 0x8000) AND 0xFFFF"
    by (simp add: bit.conj_disj_distrib2 and.assoc)
  then show "(w AND 0xFF) OR 0x8000 < (0x10000::u32)" by (metis and_mask_less(1))
qed

lemma decode_t101_alike:
  assumes "same_thumb c c'"
  shows "prints_alike (decode_t101 c) (decode_t101 c')"
  unfolding decode_t101_def decode_t1011_misc_def decode_t1010_add_sp_pc_def
    Let_def using assms
  by (intro alike_rel) (simp_all add: thumb_simps mask_or_bit_less)

lemma decode_t1101_alike:
  assumes "same_thumb c c'"
  shows "prints_alike (decode_t1101_bcond_swi c) (decode_t1101_bcond_swi c')"
  unfolding decode_t1101_bcond_swi_def Let_def using assms
  by (cases "condition_of (fld (c_op c') 8 15)") (simp_all add: thumb_simps)

lemma decode_t110_alike:
  assumes "same_thumb c c'"
  shows "prints_alike (decode_t110 c) (decode_t110 c')"
  unfolding decode_t110_def decode_t1100_loadstore_multiple_def
    Let_def using assms
  by (intro alike_rel decode_t1101_alike) (simp_all add: thumb_simps)

lemma decode_t111_alike:
  assumes "same_thumb c c'"
  shows "prints_alike (decode_t111 c) (decode_t111 c')"
  unfolding decode_t111_def Let_def using assms
  by (intro alike_rel) (simp_all add: thumb_simps, use fld_cases(2)[of "c_op c'" 11] in auto)

lemma decode_thumb_alike: "prints_alike (decode_thumb op addr c) (decode_thumb op addr c')"
  unfolding decode_thumb_def decode_instruction_thumb_def Let_def
  by (intro alike_rel decode_t000_alike decode_t001_alike decode_t010_alike decode_t011_alike
      decode_t100_alike decode_t101_alike decode_t110_alike decode_t111_alike)
    (simp_all add: thumb_simps)

section \<open>The text of a Thumb instruction word\<close>

definition no_umlal :: "dctx \<Rightarrow> bool" where
  "no_umlal c = (c_instruction c \<noteq> UMLAL)"

lemma no_umlal_switch:
  "list_all (\<lambda>(a, v). no_umlal v) cs \<Longrightarrow> no_umlal d \<Longrightarrow> no_umlal (switch k cs d)"
  by (rule switch_cases) (auto simp: list_all_iff)

lemma no_umlal_if: "(b \<Longrightarrow> no_umlal x) \<Longrightarrow> (\<not> b \<Longrightarrow> no_umlal y) \<Longrightarrow> no_umlal (if b then x else y)"
  by simp

lemma no_umlal_pair: "no_umlal v \<Longrightarrow> (\<lambda>(a, v). no_umlal v) (a, v)"
  by simp

lemmas no_umlal_rules = no_umlal_switch no_umlal_if no_umlal_pair list.pred_inject(1)
  list.pred_inject(2) [THEN iffD2, OF conjI]

lemmas no_umlal_simps = no_umlal_def set_inst_def or_flags_def inst_ud_def inst_unknown_def Let_def
  t_alu_def t_shift_def

lemma no_umlal_t0:
  assumes "c_instruction c = DEBUG"
  shows "no_umlal (decode_t000 c)" "no_umlal (decode_t001 c)" "no_umlal (decode_t010 c)"
    "no_umlal (decode_t011 c)"
  unfolding decode_t000_def decode_t001_def decode_t010_def decode_t0101_loadstore_reg_def
    decode_t01001_loadliteral_def decode_t010001_sdata_b_def decode_t010000_dataproc_def
    decode_t011_def Let_def
  using assms by (intro no_umlal_rules; simp add: no_umlal_simps)+

lemma no_umlal_t1:
  assumes "c_instruction c = DEBUG"
  shows "no_umlal (decode_t100 c)" "no_umlal (decode_t101 c)" "no_umlal (decode_t110 c)"
    "no_umlal (decode_t111 c)"
  unfolding decode_t100_def decode_t1001_loadstore_stack_def decode_t101_def decode_t1011_misc_def
    decode_t1010_add_sp_pc_def decode_t110_def decode_t1101_bcond_swi_def
    decode_t1100_loadstore_multiple_def decode_t111_def Let_def
  using assms by (intro no_umlal_rules; simp add: no_umlal_simps split: condition.splits)+

lemma decode_thumb_no_umlal: "no_umlal (decode_thumb op addr c)"
  unfolding decode_thumb_def decode_instruction_thumb_def Let_def
  by (intro no_umlal_rules no_umlal_t0 no_umlal_t1) (simp_all add: no_umlal_simps)

text \<open>
  C2: the text of every Thumb halfword depends only on the halfword and its address,
  never on the uninitialised context, and is written without leaving a string or table
  and in fewer than 128 characters: no Thumb encoding yields the instruction
  \<^verbatim>\<open>UMLAL\<close> whose format breaks the formatter.
\<close>

theorem thumb_text:
  "\<exists>s. length s < 128 \<and> (\<forall>c. get_str (decode_thumb op addr c) = Some s)"
proof -
  fix c0 :: dctx
  have ok: "c_instruction (decode_thumb op addr c0) \<noteq> UMLAL"
    using decode_thumb_no_umlal [of op addr c0] by (simp add: no_umlal_def)
  from prints_alike_text [OF decode_thumb_alike ok] obtain s
    where s: "get_str (decode_thumb op addr c0) = Some s" "length s < 128" by blast
  have "get_str (decode_thumb op addr c) = Some s" for c
    using prints_alike_text [OF decode_thumb_alike ok, of c] s by auto
  then show ?thesis using s by blast
qed

end
