(* ===== verification/Cpsr.thy ===== *)
theory Cpsr
  imports Prelude
begin

text \<open>
  The processor state of \<^verbatim>\<open>Core/ArmContext.h\<close>, \<^verbatim>\<open>Core/CPUMode.h\<close> and
  \<^verbatim>\<open>Core/Processor.h\<close>: one register context per processor mode, and the two
  operations of \<^verbatim>\<open>Core/HLE.cpp\<close> that read and write the status register, keep the
  host's copy of the flags in step and switch the register bank.
\<close>

section \<open>Contexts and modes\<close>

record emulation_context =
  regs :: "u32 list"
  cpsr :: u32
  spsr :: u32
  x86_flags :: u32
  bpre :: u32
  control_register :: u32

datatype cpu_mode =
    CPU_USER | CPU_SUPERVISOR | CPU_ABORT | CPU_UNDEFINED | CPU_INTERRUPT | CPU_FASTINT

text \<open>The enumeration's numbers order the modes.\<close>

definition mode_index :: "cpu_mode \<Rightarrow> nat" where
  "mode_index m = (case m of CPU_USER \<Rightarrow> 0 | CPU_SUPERVISOR \<Rightarrow> 1 | CPU_ABORT \<Rightarrow> 2
     | CPU_UNDEFINED \<Rightarrow> 3 | CPU_INTERRUPT \<Rightarrow> 4 | CPU_FASTINT \<Rightarrow> 5)"

instantiation cpu_mode :: linorder
begin

definition less_eq_cpu_mode :: "cpu_mode \<Rightarrow> cpu_mode \<Rightarrow> bool" where
  "less_eq_cpu_mode a b = (mode_index a \<le> mode_index b)"

definition less_cpu_mode :: "cpu_mode \<Rightarrow> cpu_mode \<Rightarrow> bool" where
  "less_cpu_mode a b = (mode_index a < mode_index b)"

instance
  by standard
    (auto simp: less_eq_cpu_mode_def less_cpu_mode_def mode_index_def split: cpu_mode.splits)

end

text \<open>\<^verbatim>\<open>processor<T>\<close>: \<open>context[CPU_MAX_MODES]\<close>, indexed by the mode, and the mode.\<close>

record processor =
  context_of :: "cpu_mode \<Rightarrow> emulation_context"
  mode :: cpu_mode

definition ctx :: "processor \<Rightarrow> emulation_context" where
  "ctx p = context_of p (mode p)"

definition upd_ctx :: "(emulation_context \<Rightarrow> emulation_context) \<Rightarrow> processor \<Rightarrow> processor" where
  "upd_ctx f p = p\<lparr>context_of := (context_of p)(mode p := f (ctx p))\<rparr>"

text \<open>Every context has its sixteen registers.\<close>

definition proc_wf :: "processor \<Rightarrow> bool" where
  "proc_wf p = (\<forall>m. length (regs (context_of p m)) = 16)"

section \<open>Reading the status register\<close>

text \<open>The host flag bits: 0 overflow, 8 carry, 14 zero, 15 sign (as \<^verbatim>\<open>lahf\<close> and
  \<^verbatim>\<open>seto\<close> leave them in \<^verbatim>\<open>eax\<close>).\<close>

definition x86_to_psr :: "u32 \<Rightarrow> u32" where
  "x86_to_psr x86f = (push_bit 16 x86f OR push_bit 21 x86f OR push_bit 28 x86f) AND 0xF8000000"

definition psr_to_x86 :: "u32 \<Rightarrow> u32" where
  "psr_to_x86 flags = (drop_bit 16 flags OR drop_bit 21 flags OR drop_bit 28 flags) AND 0xC101"

definition storecpsr :: "processor \<Rightarrow> u32" where
  "storecpsr p =
    (let psr = cpsr (ctx p) AND 0x07FFFFFF;
         x86f = x86_flags (ctx p) AND 0xC101
     in psr OR x86_to_psr x86f)"

section \<open>Writing the status register\<close>

text \<open>The number of leading registers a mode shares with the others.\<close>

definition mode_regs :: "cpu_mode \<Rightarrow> nat" where
  "mode_regs m = (case m of CPU_USER \<Rightarrow> 15 | CPU_SUPERVISOR \<Rightarrow> 13 | CPU_ABORT \<Rightarrow> 13
     | CPU_UNDEFINED \<Rightarrow> 13 | CPU_INTERRUPT \<Rightarrow> 13 | CPU_FASTINT \<Rightarrow> 8)"

text \<open>The fall-through \<^verbatim>\<open>cpumode++\<close> ladder of the mode field; \<open>None\<close> is its
  \<^verbatim>\<open>default\<close>.\<close>

definition cpumode_of :: "u32 \<Rightarrow> cpu_mode option" where
  "cpumode_of psr = switch (psr AND 0x1F)
     [(0x11, Some CPU_FASTINT), (0x12, Some CPU_INTERRUPT), (0x1B, Some CPU_UNDEFINED),
      (0x14, Some CPU_ABORT), (0x13, Some CPU_SUPERVISOR), (0x1F, Some CPU_USER),
      (0x10, Some CPU_USER)] None"

text \<open>The loop \<^verbatim>\<open>for (i = 0; i < m; i++) new.regs[i] = old.regs[i]\<close>.\<close>

definition copy_regs :: "nat \<Rightarrow> u32 list \<Rightarrow> u32 list \<Rightarrow> u32 list" where
  "copy_regs m old new = fold (\<lambda>i new. new[i := old ! i]) [0..<m] new"

definition switch_mode :: "cpu_mode \<Rightarrow> processor \<Rightarrow> processor" where
  "switch_mode cpumode p =
    (if mode p = cpumode then p
     else
      let old = context_of p (mode p);
          new = context_of p cpumode;
          m = min (mode_regs (mode p)) (mode_regs cpumode);
          new = new\<lparr>regs := copy_regs m (regs old) (regs new)\<rparr>;
          new = new\<lparr>regs := (regs new)[15 := regs old ! 15]\<rparr>;
          new = new\<lparr>cpsr := cpsr old\<rparr>
      in p\<lparr>context_of := (context_of p)(cpumode := new), mode := cpumode\<rparr>)"

text \<open>The write and the flag synchronisation, in the context of the current mode.\<close>

definition write_cpsr :: "u32 \<Rightarrow> u32 \<Rightarrow> emulation_context \<Rightarrow> emulation_context" where
  "write_cpsr value msk c =
    (let c = c\<lparr>cpsr := cpsr c AND NOT msk\<rparr>;
         c = c\<lparr>cpsr := cpsr c OR (value AND msk)\<rparr>
     in if msk AND 0xF8000000 \<noteq> 0
        then c\<lparr>x86_flags := psr_to_x86 (cpsr c AND 0xF8000000)\<rparr>
        else c)"

text \<open>An invalid mode stops in the debugger with the status register written and the
  bank unchanged; the flag of the result says so.\<close>

definition loadcpsr :: "u32 \<Rightarrow> u32 \<Rightarrow> processor \<Rightarrow> trap option \<times> processor" where
  "loadcpsr value msk p =
    (let p = upd_ctx (write_cpsr value msk) p
     in if msk AND 0x1F \<noteq> 0
        then (case cpumode_of (cpsr (ctx p)) of
                None \<Rightarrow> (Some (Debug_Break ''invalid mode''), p)
              | Some m \<Rightarrow> (None, switch_mode m p))
        else (None, p))"

section \<open>Basic facts\<close>

lemma ctx_upd [simp]: "ctx (upd_ctx f p) = f (ctx p)"
  by (simp add: ctx_def upd_ctx_def)

lemma mode_upd [simp]: "mode (upd_ctx f p) = mode p"
  by (simp add: upd_ctx_def)

lemma context_upd: "context_of (upd_ctx f p) m = (if m = mode p then f (ctx p) else context_of p m)"
  by (simp add: upd_ctx_def)

lemma length_copy_regs [simp]: "length (copy_regs m old new) = length new"
proof -
  have "length (fold (\<lambda>i new. new[i := old ! i]) is new) = length new" for "is"
    by (induction "is" arbitrary: new) auto
  then show ?thesis by (simp add: copy_regs_def)
qed

lemma copy_regs_nth:
  "m \<le> length new \<Longrightarrow> copy_regs m old new ! i = (if i < m then old ! i else new ! i)"
proof (induction m)
  case 0
  then show ?case by (simp add: copy_regs_def)
next
  case (Suc m)
  have "copy_regs (Suc m) old new = (copy_regs m old new)[m := old ! m]"
    by (simp add: copy_regs_def)
  then show ?case using Suc by (auto simp: nth_list_update less_Suc_eq)
qed

lemma mode_regs_le: "mode_regs m \<le> 15"
  by (simp add: mode_regs_def split: cpu_mode.split)

lemma regs_write_cpsr [simp]: "regs (write_cpsr v k c) = regs c"
  and spsr_write_cpsr [simp]: "spsr (write_cpsr v k c) = spsr c"
  and cpsr_write_cpsr [simp]: "cpsr (write_cpsr v k c) = (cpsr c AND NOT k) OR (v AND k)"
  by (simp_all add: write_cpsr_def Let_def)

lemma wf_switch_mode: "proc_wf p \<Longrightarrow> proc_wf (switch_mode m p)"
  by (auto simp: proc_wf_def switch_mode_def Let_def)

lemma wf_loadcpsr: "proc_wf p \<Longrightarrow> proc_wf (snd (loadcpsr v k p))"
  by (auto simp: loadcpsr_def Let_def proc_wf_def context_upd ctx_def [symmetric]
      split: option.split intro!: wf_switch_mode [unfolded proc_wf_def, rule_format])
    (auto simp: ctx_def)

section \<open>Flags\<close>

lemma psr_x86_roundtrip:
  "x86_to_psr (psr_to_x86 (w AND 0xF8000000) AND 0xC101) = w AND 0xF0000000"
  by (rule u32_eqI) (simp add: x86_to_psr_def psr_to_x86_def bit_simps)

text \<open>A write reaches the flags as a whole or not at all, as the byte masks of
  \<^verbatim>\<open>msr\<close> do.\<close>

definition flag_mask :: "u32 \<Rightarrow> bool" where
  "flag_mask k = (k AND 0xF8000000 = 0 \<or> k AND 0xF8000000 = 0xF8000000)"

text \<open>Bit 27 (the sticky overflow flag) is never kept.\<close>

abbreviation Q_FLAG :: u32 where "Q_FLAG \<equiv> 0x08000000"

lemma high_bits:
  "(a::u32) AND 0xF8000000 = b AND 0xF8000000 \<Longrightarrow> i \<in> {27, 28, 29, 30, 31} \<Longrightarrow> bit a i = bit b i"
proof -
  assume "a AND 0xF8000000 = b AND 0xF8000000" and i: "i \<in> {27, 28, 29, 30, 31}"
  then have "bit (a AND 0xF8000000) i = bit (b AND 0xF8000000) i" by simp
  then show "bit a i = bit b i" using i by (auto simp: bit_simps)
qed

lemma storecpsr_write:
  assumes "flag_mask k"
  shows "storecpsr (upd_ctx (write_cpsr v k) p) =
    ((storecpsr p AND NOT k) OR (v AND k)) AND NOT Q_FLAG"
proof (cases "k AND 0xF8000000 = 0")
  case True
  then have "bit k i = bit (0::u32) i" if "i \<in> {27, 28, 29, 30, 31}" for i
    using high_bits [of k 0 i] that by simp
  then have k: "\<not> bit k 27" "\<not> bit k 28" "\<not> bit k 29" "\<not> bit k 30" "\<not> bit k 31" by auto
  show ?thesis
    using True by (intro u32_eqI)
      (simp add: storecpsr_def write_cpsr_def Let_def x86_to_psr_def bit_simps k)
next
  case False
  then have "k AND 0xF8000000 = 0xF8000000" using assms by (simp add: flag_mask_def)
  then have "bit k i = bit (0xF8000000::u32) i" if "i \<in> {27, 28, 29, 30, 31}" for i
    using high_bits [of k "0xF8000000" i] that by simp
  then have k: "bit k 27" "bit k 28" "bit k 29" "bit k 30" "bit k 31" by auto
  let ?w = "cpsr (ctx p) AND NOT k OR v AND k"
  have "storecpsr (upd_ctx (write_cpsr v k) p) = (?w AND 0x07FFFFFF) OR (?w AND 0xF0000000)"
    using False by (simp add: storecpsr_def write_cpsr_def Let_def psr_x86_roundtrip)
  also have "\<dots> = ((storecpsr p AND NOT k) OR (v AND k)) AND NOT Q_FLAG"
    by (rule u32_eqI) (simp add: storecpsr_def Let_def x86_to_psr_def bit_simps k)
  finally show ?thesis .
qed

text \<open>
  C4: reading the status register back after a masked write gives the masked update of
  what was read before, without bit 27, as long as the write leaves the processor in its
  mode: the detour of the four flags through the host's flag layout is lossless.
\<close>

theorem cpsr_write_read:
  assumes "flag_mask k"
    and "k AND 0x1F = 0 \<or> cpumode_of ((cpsr (ctx p) AND NOT k) OR (v AND k)) = Some (mode p)"
  shows "loadcpsr v k p = (None, upd_ctx (write_cpsr v k) p) \<and>
    storecpsr (snd (loadcpsr v k p)) = ((storecpsr p AND NOT k) OR (v AND k)) AND NOT Q_FLAG"
proof -
  have eq: "loadcpsr v k p = (None, upd_ctx (write_cpsr v k) p)"
    using assms(2) by (auto simp: loadcpsr_def Let_def switch_mode_def)
  then show ?thesis by (simp add: storecpsr_write [OF assms(1)])
qed

text \<open>A processor in user mode, reset registers.\<close>

definition proc0 :: processor where
  "proc0 = \<lparr>context_of = (\<lambda>_. \<lparr>regs = replicate 16 0, cpsr = 0x10, spsr = 0, x86_flags = 0,
     bpre = 0, control_register = 0\<rparr>), mode = CPU_USER\<rparr>"

lemma cpsr_write_read_witness:
  "loadcpsr 0xF8000010 0xFFFFFFFF proc0 = (None, upd_ctx (write_cpsr 0xF8000010 0xFFFFFFFF) proc0) \<and>
   storecpsr (snd (loadcpsr 0xF8000010 0xFFFFFFFF proc0)) =
     ((storecpsr proc0 AND NOT 0xFFFFFFFF) OR (0xF8000010 AND 0xFFFFFFFF)) AND NOT Q_FLAG"
proof -
  have m: "flag_mask 0xFFFFFFFF" by (simp add: flag_mask_def)
  have c: "0xFFFFFFFF AND 0x1F = (0::u32) \<or>
      cpumode_of ((cpsr (ctx proc0) AND NOT 0xFFFFFFFF) OR (0xF8000010 AND 0xFFFFFFFF)) = Some (mode proc0)"
    by (simp add: cpumode_of_def proc0_def ctx_def)
  show ?thesis by (rule cpsr_write_read [OF m c])
qed

section \<open>Register banks\<close>

text \<open>
  What the modes promise: thirteen shared registers, the program counter and the status
  register are common, every mode has its own stack pointer, link register and saved
  status register. (Fast interrupts, which bank more, are treated below.)
\<close>

record banked =
  b_low :: "u32 list"
  b_pc :: u32
  b_cpsr :: u32
  b_own :: "cpu_mode \<Rightarrow> u32 \<times> u32 \<times> u32"
  b_mode :: cpu_mode

definition banks :: "processor \<Rightarrow> banked" where
  "banks p = \<lparr>b_low = take 13 (regs (ctx p)), b_pc = regs (ctx p) ! 15, b_cpsr = cpsr (ctx p),
     b_own = (\<lambda>m. (regs (context_of p m) ! 13, regs (context_of p m) ! 14, spsr (context_of p m))),
     b_mode = mode p\<rparr>"

lemma min_mode_regs:
  "m \<noteq> CPU_FASTINT \<Longrightarrow> m' \<noteq> CPU_FASTINT \<Longrightarrow> m \<noteq> m' \<Longrightarrow> min (mode_regs m) (mode_regs m') = 13"
  by (cases m; cases m') (simp_all add: mode_regs_def)

lemma banks_switch_mode:
  assumes wf: "proc_wf p" and m: "mode p \<noteq> CPU_FASTINT" "m \<noteq> CPU_FASTINT"
  shows "banks (switch_mode m p) = (banks p)\<lparr>b_mode := m\<rparr>"
proof (cases "mode p = m")
  case True
  then show ?thesis by (simp add: banks_def switch_mode_def)
next
  case False
  have len: "length (regs (context_of p k)) = 16" for k using wf by (simp add: proc_wf_def)
  have low: "take 13 (copy_regs 13 (regs (context_of p (mode p))) (regs (context_of p m))) =
      take 13 (regs (context_of p (mode p)))"
    by (rule nth_equalityI) (auto simp: len copy_regs_nth)
  show ?thesis
    using False m by (auto simp: banks_def switch_mode_def Let_def ctx_def min_mode_regs low
        copy_regs_nth len fun_eq_iff)
qed

lemma banks_write_cpsr:
  "banks (upd_ctx (write_cpsr v k) p) = (banks p)\<lparr>b_cpsr := (cpsr (ctx p) AND NOT k) OR (v AND k)\<rparr>"
  by (auto simp: banks_def context_upd ctx_def fun_eq_iff)



text \<open>
  The two places where the bank switch departs from the processor. After a change of
  mode the flags that are read back are those last synchronised in the mode entered; and
  on the way from fast interrupt to another mode than user the five registers the fast
  interrupt banked are taken from that mode's old context.
\<close>

lemma switched_flags:
  assumes "cpumode_of ((cpsr (ctx p) AND NOT k) OR (v AND k)) = Some m" "m \<noteq> mode p" "k AND 0x1F \<noteq> 0"
  shows "storecpsr (snd (loadcpsr v k p)) =
    (((cpsr (ctx p) AND NOT k) OR (v AND k)) AND 0x07FFFFFF) OR
      x86_to_psr (x86_flags (context_of p m) AND 0xC101)"
  using assms by (simp add: loadcpsr_def switch_mode_def Let_def storecpsr_def ctx_def [of "_\<lparr>context_of := _, mode := _\<rparr>"]
      context_upd)

lemma fastint_to_irq_loses_registers:
  assumes "proc_wf p" "mode p = CPU_FASTINT" "8 \<le> i" "i < 13"
  shows "regs (ctx (switch_mode CPU_INTERRUPT p)) ! i = regs (context_of p CPU_INTERRUPT) ! i"
  using assms by (simp add: switch_mode_def Let_def ctx_def proc_wf_def copy_regs_nth mode_regs_def)

end
