(* ===== verification/Interrupt.thy ===== *)
theory Interrupt
  imports Cpsr
begin

text \<open>
  The interrupt controller of \<^verbatim>\<open>Core/Interrupt.h\<close>: signalling, polling and the
  synchronous call of the interrupt handler on a second register bank. The handler is
  emulated code: it is a parameter, any function of the whole state (it may raise
  interrupts, poll, switch modes or stop in the debugger).
\<close>

section \<open>State and signalling\<close>

text \<open>
  One processor with its interrupt registers (\<^verbatim>\<open>IME\<close>, \<^verbatim>\<open>IE\<close>, \<^verbatim>\<open>IF\<close> are
  words of its register page) and \<open>env\<close>, everything else the handler can reach.
\<close>

record 's core =
  proc :: processor
  signaled :: u32
  inside :: bool
  reg_IME :: u32
  reg_IE :: u32
  reg_IF :: u32
  env :: 's

text \<open>\<^verbatim>\<open>fire\<close> on the pending word and the display status register; the assertion
  \<^verbatim>\<open>interrupt < 32\<close> fails with \<open>None\<close>.\<close>

definition fire :: "nat \<Rightarrow> u32 \<times> u32 \<Rightarrow> (u32 \<times> u32) option" where
  "fire i s =
    (if i < 32
     then (let (sig, dispstat) = s;
               sig = sig OR push_bit i 1
           in Some (sig, if i = 0 then dispstat OR 1 else dispstat))
     else None)"

section \<open>Calling the handler\<close>

definition set_pc :: "u32 \<Rightarrow> emulation_context \<Rightarrow> emulation_context" where
  "set_pc a c = c\<lparr>regs := (regs c)[15 := a]\<rparr>"

text \<open>\<^verbatim>\<open>loadcpsr\<close> as a step that stops on an invalid mode.\<close>

definition load_mode :: "u32 \<Rightarrow> 's core \<Rightarrow> 's core res" where
  "load_mode v s =
    (case loadcpsr v 0x1F (proc s) of
       (Some t, p) \<Rightarrow> Inl t
     | (None, p) \<Rightarrow> Inr (s\<lparr>proc := p\<rparr>))"

definition switch_and_invoke_old :: "(u32 \<Rightarrow> 's core \<Rightarrow> 's core res) \<Rightarrow> u32 \<Rightarrow> 's core \<Rightarrow> 's core res" where
  "switch_and_invoke_old invoke addr s =
    (let backup = ctx (proc s)
     in rbind (load_mode 0x12 s) (\<lambda>s.
        let s = s\<lparr>proc := upd_ctx (set_pc addr) (proc s)\<rparr>;
            s = s\<lparr>inside := True\<rparr>
        in rbind (invoke addr s) (\<lambda>s.
        let s = s\<lparr>inside := False\<rparr>
        in rbind (load_mode (cpsr backup) s) (\<lambda>s.
        Inr (s\<lparr>proc := upd_ctx (\<lambda>_. backup) (proc s)\<rparr>)))))"

text \<open>\<^verbatim>\<open>switch_and_invoke\<close>, which nothing calls: the handler runs in the interrupt mode's
  bank, and only the program counter is restored.\<close>

definition switch_and_invoke :: "(u32 \<Rightarrow> 's core \<Rightarrow> 's core res) \<Rightarrow> u32 \<Rightarrow> 's core \<Rightarrow> 's core res" where
  "switch_and_invoke invoke addr s =
    (let old = cpsr (ctx (proc s))
     in rbind (load_mode 0x12 s) (\<lambda>s.
        let s = s\<lparr>proc := upd_ctx (\<lambda>c. c\<lparr>spsr := old\<rparr>) (proc s)\<rparr>;
            pc = regs (ctx (proc s)) ! 15;
            s = s\<lparr>proc := upd_ctx (set_pc addr) (proc s)\<rparr>;
            s = s\<lparr>inside := True\<rparr>
        in rbind (invoke addr s) (\<lambda>s.
        let s = s\<lparr>inside := False\<rparr>
        in rbind (load_mode old s) (\<lambda>s.
        Inr (s\<lparr>proc := upd_ctx (set_pc pc) (proc s)\<rparr>)))))"

section \<open>Polling\<close>

text \<open>The loop \<^verbatim>\<open>for (mask = 1; mask; mask <<= 1)\<close>. \<open>vector\<close> is the read of the
  handler's address from the interrupt stack area.\<close>

definition mask_rank :: "u32 \<Rightarrow> nat" where
  "mask_rank m = (LEAST i. push_bit i m = 0)"

lemma mask_rank_less: "m \<noteq> 0 \<Longrightarrow> mask_rank (push_bit 1 m) < mask_rank m"
proof -
  assume m: "m \<noteq> 0"
  have "push_bit 32 m = 0" by (rule u32_eqI) (simp add: bit_simps)
  then have "(LEAST i. push_bit i m = 0) = Suc (LEAST i. push_bit (Suc i) m = 0)"
    using m by (intro Least_Suc [of "\<lambda>i. push_bit i m = 0" 32]) simp_all
  then show ?thesis
    by (simp only: mask_rank_def push_bit_push_bit Suc_eq_plus1 lessI)
qed

function poll_loop :: "(u32 \<Rightarrow> 's core \<Rightarrow> 's core res) \<Rightarrow> ('s core \<Rightarrow> u32) \<Rightarrow> u32 \<Rightarrow> u32 \<Rightarrow>
    's core \<Rightarrow> 's core res" where
  "poll_loop invoke vector msk intr s =
    (if msk = 0 then Inr s
     else
      let itr = intr AND msk AND reg_IE s
      in rbind (if itr \<noteq> 0
                then (let s = s\<lparr>reg_IF := itr\<rparr>;
                          addr = vector s
                      in switch_and_invoke_old invoke addr s)
                else Inr s)
           (poll_loop invoke vector (push_bit 1 msk) intr))"
  by pat_completeness auto

termination poll_loop
  by (relation "measure (\<lambda>(_, _, m, _, _). mask_rank m)") (use mask_rank_less in auto)

declare poll_loop.simps [simp del]

text \<open>\<^verbatim>\<open>interrupt<_ARM9>::poll_process\<close> and \<^verbatim>\<open>interrupt<_ARM7>::poll_process\<close>\<close>

definition poll_process9 :: "(u32 \<Rightarrow> 's core \<Rightarrow> 's core res) \<Rightarrow> ('s core \<Rightarrow> u32) \<Rightarrow> 's core \<Rightarrow> 's core res" where
  "poll_process9 invoke vector s =
    (if inside s then Inr s
     else if reg_IME s AND 1 = 0 then Inr s
     else
      let intr = signaled s;
          s = s\<lparr>signaled := 0\<rparr>
      in poll_loop invoke vector 1 intr s)"

definition poll_process7 :: "(u32 \<Rightarrow> 's core \<Rightarrow> 's core res) \<Rightarrow> ('s core \<Rightarrow> u32) \<Rightarrow> 's core \<Rightarrow> 's core res" where
  "poll_process7 invoke vector s =
    (if inside s then Inr s
     else if reg_IME s AND 1 = 0 then Inr s
     else
      let intr = signaled s;
          s = s\<lparr>signaled := 0\<rparr>;
          intr = intr AND reg_IE s
      in poll_loop invoke vector 1 intr s)"

section \<open>The loop as a sequence of services\<close>

text \<open>Serving interrupt \<open>i\<close>, and serving a list of them.\<close>

definition service :: "(u32 \<Rightarrow> 's core \<Rightarrow> 's core res) \<Rightarrow> ('s core \<Rightarrow> u32) \<Rightarrow> nat \<Rightarrow> 's core \<Rightarrow> 's core res" where
  "service invoke vector i s =
    (let s = s\<lparr>reg_IF := push_bit i 1\<rparr>
     in switch_and_invoke_old invoke (vector s) s)"

fun serve_all :: "('s core \<Rightarrow> 's core res) list \<Rightarrow> 's core \<Rightarrow> 's core res" where
  "serve_all [] s = Inr s"
| "serve_all (f # fs) s = rbind (f s) (serve_all fs)"

text \<open>What one bit does: \<open>IE\<close> is read when the loop gets there.\<close>

definition poll_bit :: "(u32 \<Rightarrow> 's core \<Rightarrow> 's core res) \<Rightarrow> ('s core \<Rightarrow> u32) \<Rightarrow> u32 \<Rightarrow> nat \<Rightarrow> 's core \<Rightarrow> 's core res" where
  "poll_bit invoke vector intr i s =
    (if bit intr i \<and> bit (reg_IE s) i then service invoke vector i s else Inr s)"

lemma and_bit_and:
  "(a::u32) AND push_bit i 1 AND b = (if bit a i \<and> bit b i then push_bit i 1 else 0)"
  by (rule bit_word_eqI) (auto simp: bit_simps)

lemma poll_loop_step:
  assumes "i < 32"
  shows "poll_loop invoke vector (push_bit i 1) intr s =
    rbind (poll_bit invoke vector intr i s) (poll_loop invoke vector (push_bit (Suc i) 1) intr)"
proof -
  have nz: "push_bit i 1 \<noteq> (0::u32)" using assms by simp
  have next': "push_bit 1 (push_bit i (1::u32)) = push_bit (Suc i) 1"
    by (simp only: push_bit_push_bit plus_1_eq_Suc)
  show ?thesis
    using nz by (subst poll_loop.simps, subst next')
      (simp add: and_bit_and poll_bit_def service_def Let_def del: push_bit_of_1 push_bit_Suc)
qed

lemma poll_loop_bits:
  "k \<le> 32 \<Longrightarrow> poll_loop invoke vector (push_bit (32 - k) 1) intr s =
    serve_all (map (poll_bit invoke vector intr) [32 - k..<32]) s"
proof (induction k arbitrary: s)
  case 0
  have "push_bit 32 1 = (0::u32)" by (rule u32_eqI) (simp add: bit_simps)
  then show ?case by (simp add: poll_loop.simps)
next
  case (Suc k)
  then have i: "32 - k = Suc (32 - Suc k)" "32 - Suc k < 32" by simp_all
  have upt: "[32 - Suc k..<32] = (32 - Suc k) # [32 - k..<32]"
    unfolding i(1) using i(2) by (rule upt_conv_Cons)
  have IH: "poll_loop invoke vector (push_bit (32 - k) 1) intr =
      serve_all (map (poll_bit invoke vector intr) [32 - k..<32])"
    using Suc by (simp add: fun_eq_iff)
  show ?case
    unfolding upt by (simp only: poll_loop_step [OF i(2)] list.map serve_all.simps i(1) [symmetric] IH)
qed

lemma poll_process9_bits:
  "poll_process9 invoke vector s =
    (if inside s \<or> reg_IME s AND 1 = 0 then Inr s
     else serve_all (map (poll_bit invoke vector (signaled s)) [0..<32]) (s\<lparr>signaled := 0\<rparr>))"
  using poll_loop_bits [of 32 invoke vector "signaled s"] by (simp add: poll_process9_def Let_def)

lemma poll_process7_bits:
  "poll_process7 invoke vector s =
    (if inside s \<or> reg_IME s AND 1 = 0 then Inr s
     else serve_all (map (poll_bit invoke vector (signaled s AND reg_IE s)) [0..<32]) (s\<lparr>signaled := 0\<rparr>))"
  using poll_loop_bits [of 32 invoke vector "signaled s AND reg_IE s"]
  by (simp add: poll_process7_def Let_def)

section \<open>What a poll serves\<close>

text \<open>The emulated handler leaves the enable register alone.\<close>

definition keeps_IE :: "(u32 \<Rightarrow> 's core \<Rightarrow> 's core res) \<Rightarrow> bool" where
  "keeps_IE invoke = (\<forall>a s. \<forall>s'. invoke a s = Inr s' \<longrightarrow> reg_IE s' = reg_IE s)"

lemma load_mode_frame:
  "load_mode v s = Inr s' \<Longrightarrow>
    reg_IE s' = reg_IE s \<and> signaled s' = signaled s \<and> inside s' = inside s \<and> env s' = env s"
  by (auto simp: load_mode_def split: prod.splits option.splits)

lemma service_IE:
  "keeps_IE invoke \<Longrightarrow> service invoke vector i s = Inr s' \<Longrightarrow> reg_IE s' = reg_IE s"
  unfolding keeps_IE_def
  by (fastforce simp: service_def switch_and_invoke_old_def Let_def rbind_Inr_iff dest: load_mode_frame)

lemma serve_all_filter:
  assumes "keeps_IE invoke"
  shows "reg_IE s = ie \<Longrightarrow> serve_all (map (poll_bit invoke vector intr) is) s =
    serve_all (map (service invoke vector) (filter (bit (intr AND ie)) is)) s"
proof (induction "is" arbitrary: s)
  case Nil
  then show ?case by simp
next
  case (Cons i "is")
  show ?case
  proof (cases "bit (intr AND ie) i")
    case False
    then have "poll_bit invoke vector intr i s = Inr s"
      using Cons.prems by (auto simp: poll_bit_def bit_and_iff)
    then show ?thesis using False Cons by simp
  next
    case True
    then have "poll_bit invoke vector intr i s = service invoke vector i s"
      using Cons.prems by (simp add: poll_bit_def bit_and_iff)
    then show ?thesis
      using True Cons service_IE [OF assms]
      by (cases "service invoke vector i s") simp_all
  qed
qed


text \<open>A handler that acknowledges by counting, with the interrupts 0 and 18 signaled and
  only 18 enabled.\<close>

definition count_handler :: "u32 \<Rightarrow> nat core \<Rightarrow> nat core res" where
  "count_handler a s = Inr (s\<lparr>env := env s + 1\<rparr>)"

definition core0 :: "nat core" where
  "core0 = \<lparr>proc = upd_ctx (write_cpsr 0x10 0x1F) proc0, signaled = 0x40001, inside = False,
     reg_IME = 1, reg_IE = 0x40000, reg_IF = 0, env = 0\<rparr>"


section \<open>Transparency\<close>

lemma cpumode_of_masked: "cpumode_of ((x AND NOT 0x1F) OR (v AND 0x1F)) = cpumode_of v"
proof -
  have "((x AND NOT 0x1F) OR (v AND 0x1F)) AND 0x1F = v AND 0x1F"
    by (rule u32_eqI) (simp add: bit_simps)
  then show ?thesis by (simp add: cpumode_of_def)
qed

lemma mode_switch_mode [simp]: "mode (switch_mode m p) = m"
  by (simp add: switch_mode_def Let_def)

lemma load_mode_valid:
  assumes "cpumode_of v = Some m"
  shows "\<exists>p. load_mode v s = Inr (s\<lparr>proc := p\<rparr>) \<and> mode p = m"
proof -
  have "cpumode_of ((cpsr (ctx (proc s)) AND NOT 0x1F) OR (v AND 0x1F)) = Some m"
    by (simp only: cpumode_of_masked assms)
  then have "load_mode v s =
      Inr (s\<lparr>proc := switch_mode m (upd_ctx (write_cpsr v 0x1F) (proc s))\<rparr>)"
    by (simp add: load_mode_def loadcpsr_def Let_def)
  then show ?thesis by auto
qed

text \<open>The mode field of the status register names the mode.\<close>

definition mode_ok :: "processor \<Rightarrow> bool" where
  "mode_ok p = (cpumode_of (cpsr (ctx p)) = Some (mode p))"

lemma service_transparent:
  assumes ok: "mode_ok (proc s)" and r: "service invoke vector i s = Inr s'"
  shows "ctx (proc s') = ctx (proc s) \<and> mode (proc s') = mode (proc s) \<and> \<not> inside s'"
proof -
  obtain s1 s2 where
    s2: "load_mode (cpsr (ctx (proc s))) (s1\<lparr>inside := False\<rparr>) = Inr s2"
    and s': "s' = s2\<lparr>proc := upd_ctx (\<lambda>_. ctx (proc s)) (proc s2)\<rparr>"
    using r by (auto simp: service_def switch_and_invoke_old_def Let_def rbind_Inr_iff)
  obtain p where "load_mode (cpsr (ctx (proc s))) (s1\<lparr>inside := False\<rparr>) =
      Inr (s1\<lparr>inside := False, proc := p\<rparr>)" and "mode p = mode (proc s)"
    using load_mode_valid [of "cpsr (ctx (proc s))" "mode (proc s)" "s1\<lparr>inside := False\<rparr>"] ok
    by (auto simp: mode_ok_def)
  then show ?thesis using s2 s' by auto
qed

lemma poll_bit_transparent:
  "mode_ok (proc s) \<Longrightarrow> \<not> inside s \<Longrightarrow> poll_bit invoke vector intr i s = Inr s' \<Longrightarrow>
    ctx (proc s') = ctx (proc s) \<and> mode (proc s') = mode (proc s) \<and> \<not> inside s'"
  using service_transparent [of s] by (auto simp: poll_bit_def split: if_splits)

lemma serve_all_transparent:
  "serve_all (map (poll_bit invoke vector intr) is) s = Inr s' \<Longrightarrow> mode_ok (proc s) \<Longrightarrow> \<not> inside s \<Longrightarrow>
    ctx (proc s') = ctx (proc s) \<and> mode (proc s') = mode (proc s) \<and> \<not> inside s'"
proof (induction "is" arbitrary: s)
  case Nil
  then show ?case by auto
next
  case (Cons i "is")
  then obtain t where t: "poll_bit invoke vector intr i s = Inr t"
    and rest: "serve_all (map (poll_bit invoke vector intr) is) t = Inr s'"
    by (auto simp: rbind_Inr_iff)
  note tr = poll_bit_transparent [OF Cons.prems(2,3) t]
  then have "mode_ok (proc t)" using Cons.prems(2) by (simp add: mode_ok_def)
  then show ?case using Cons.IH [OF rest] tr by simp
qed

text \<open>If the handler returns, so does the poll.\<close>

definition returns :: "(u32 \<Rightarrow> 's core \<Rightarrow> 's core res) \<Rightarrow> bool" where
  "returns invoke = (\<forall>a s. \<exists>s'. invoke a s = Inr s')"

lemma service_returns:
  assumes "returns invoke" and "mode_ok (proc s)"
  shows "\<exists>s'. service invoke vector i s = Inr s'"
proof -
  let ?s = "s\<lparr>reg_IF := push_bit i 1\<rparr>"
  have "cpumode_of 0x12 = Some CPU_INTERRUPT" by (simp add: cpumode_of_def)
  then obtain s1 where s1: "load_mode 0x12 ?s = Inr s1" using load_mode_valid by blast
  obtain s2 where s2: "invoke (vector ?s) (s1\<lparr>proc := upd_ctx (set_pc (vector ?s)) (proc s1), inside := True\<rparr>) = Inr s2"
    using assms(1) unfolding returns_def by blast
  obtain s3 where "load_mode (cpsr (ctx (proc s))) (s2\<lparr>inside := False\<rparr>) = Inr s3"
    using load_mode_valid assms(2) unfolding mode_ok_def by blast
  then show ?thesis using s1 s2 by (simp add: service_def switch_and_invoke_old_def Let_def)
qed

lemma poll_returns:
  assumes inv: "returns invoke" and ok: "mode_ok (proc s)"
  shows "\<exists>s'. poll_process9 invoke vector s = Inr s'"
proof -
  have "\<exists>s'. serve_all (map (poll_bit invoke vector intr) is) t = Inr s'"
    if "mode_ok (proc t)" "\<not> inside t" for intr "is" t
    using that
  proof (induction "is" arbitrary: t)
    case (Cons i "is")
    obtain u where "service invoke vector i t = Inr u"
      using service_returns [OF inv Cons.prems(1)] by blast
    then obtain t' where t': "poll_bit invoke vector intr i t = Inr t'"
      by (cases "bit intr i \<and> bit (reg_IE t) i") (auto simp: poll_bit_def)
    from poll_bit_transparent [OF Cons.prems t'] have "mode_ok (proc t')" "\<not> inside t'"
      using Cons.prems(1) by (simp_all add: mode_ok_def)
    then show ?case using Cons.IH t' by simp
  qed simp
  then show ?thesis using ok by (auto simp: poll_process9_bits)
qed

text \<open>
  C7: interrupts are transparent. Whatever the handlers do to the registers, the mode and
  the rest of the state, a poll that returns leaves the interrupted context (all
  registers, status, saved status, flags) and the mode exactly as they were, provided the
  status register's mode field was valid; and the processor is inside a handler
  afterwards only if it was before.
\<close>

theorem poll_transparent:
  assumes "mode_ok (proc s)" and "poll_process9 invoke vector s = Inr s'"
  shows "ctx (proc s') = ctx (proc s) \<and> mode (proc s') = mode (proc s) \<and> inside s' = inside s"
proof (cases "inside s \<or> reg_IME s AND 1 = 0")
  case True
  then show ?thesis using assms(2) by (auto simp: poll_process9_bits)
next
  case False
  then have r: "serve_all (map (poll_bit invoke vector (signaled s)) [0..<32]) (s\<lparr>signaled := 0\<rparr>) = Inr s'"
    using assms(2) by (simp add: poll_process9_bits)
  show ?thesis using serve_all_transparent [OF r] assms(1) False by simp
qed

text \<open>A handler that leaves the processor in supervisor mode with a register changed.\<close>

definition rogue_handler :: "u32 \<Rightarrow> nat core \<Rightarrow> nat core res" where
  "rogue_handler a s =
    Inr (s\<lparr>proc := upd_ctx (\<lambda>c. c\<lparr>regs := (regs c)[0 := a]\<rparr>) (snd (loadcpsr 0x13 0x1F (proc s)))\<rparr>)"

lemma poll_transparent_witness:
  "\<exists>s'. poll_process9 rogue_handler (\<lambda>_. 0x3F00) core0 = Inr s' \<and>
     ctx (proc s') = ctx (proc core0) \<and> mode (proc s') = mode (proc core0) \<and> inside s' = inside core0"
proof -
  have ok: "mode_ok (proc core0)"
    by (simp add: mode_ok_def core0_def proc0_def ctx_def upd_ctx_def write_cpsr_def cpumode_of_def)
  obtain s' where s': "poll_process9 rogue_handler (\<lambda>_. 0x3F00) core0 = Inr s'"
    using poll_returns [OF _ ok, of rogue_handler] by (auto simp: rogue_handler_def returns_def)
  then show ?thesis using poll_transparent [OF ok s'] by blast
qed

text \<open>Signals that are not enabled when a poll looks at them are dropped, not kept
  pending.\<close>

lemma poll_drops_disabled:
  assumes "\<not> inside s" "reg_IME s AND 1 \<noteq> 0" "signaled s AND reg_IE s = 0"
  shows "poll_process9 invoke vector s = Inr (s\<lparr>signaled := 0\<rparr>)"
proof -
  have none: "\<not> (bit (signaled s) i \<and> bit (reg_IE s) i)" for i
    using assms(3) bit_and_iff [of "signaled s" "reg_IE s" i] by simp
  have "poll_bit invoke vector (signaled s) i t = Inr t" if "reg_IE t = reg_IE s" for i t
    using that none [of i] by (auto simp: poll_bit_def)
  then have "serve_all (map (poll_bit invoke vector (signaled s)) is) t = Inr t"
    if "reg_IE t = reg_IE s" for "is" t
    using that by (induction "is") simp_all
  then show ?thesis using assms by (simp add: poll_process9_bits)
qed

text \<open>The other way of calling a handler ends outside of it too.\<close>

lemma load_mode_inside: "load_mode v s = Inr s' \<Longrightarrow> inside s' = inside s"
  by (auto simp: load_mode_def split: prod.splits option.splits)

lemma switch_and_invoke_outside: "switch_and_invoke invoke addr s = Inr s' \<Longrightarrow> \<not> inside s'"
  by (auto simp: switch_and_invoke_def Let_def rbind_Inr_iff dest!: load_mode_inside)

end
