(* ===== verification/Bytes.thy ===== *)
theory Bytes
  imports Prelude
begin

text \<open>
  Words and their bytes: the \<^verbatim>\<open>union endian_access\<close> of \<^verbatim>\<open>Core/IORegs.cpp\<close> on
  a little-endian host, sign extension, and the byte lists that stand for raw memory.
\<close>

section \<open>Halves and bytes of a word\<close>

text \<open>\<^verbatim>\<open>e.h[i]\<close>, \<^verbatim>\<open>e.b[i]\<close> of \<^verbatim>\<open>e.w = w\<close>, and \<^verbatim>\<open>e.w\<close> after an assignment
  to one of them.\<close>

definition e_h :: "u32 \<Rightarrow> nat \<Rightarrow> u32" where
  "e_h w i = drop_bit (16 * i) w AND 0xFFFF"

definition e_b :: "u32 \<Rightarrow> nat \<Rightarrow> u32" where
  "e_b w i = drop_bit (8 * i) w AND 0xFF"

definition set_e_h :: "u32 \<Rightarrow> nat \<Rightarrow> u32 \<Rightarrow> u32" where
  "set_e_h w i v = (w AND NOT (push_bit (16 * i) 0xFFFF)) OR push_bit (16 * i) (v AND 0xFFFF)"

definition set_e_b :: "u32 \<Rightarrow> nat \<Rightarrow> u32 \<Rightarrow> u32" where
  "set_e_b w i v = (w AND NOT (push_bit (8 * i) 0xFF)) OR push_bit (8 * i) (v AND 0xFF)"

text \<open>\<^verbatim>\<open>(signed short)v\<close> widened.\<close>

definition sext16 :: "u32 \<Rightarrow> u32" where
  "sext16 v = signed_take_bit 15 v"

lemma unat_of_nat32: "k < 4294967296 \<Longrightarrow> unat (word_of_nat k :: u32) = k"
  by (simp only: unsigned_of_nat take_bit_nat_eq_self) (simp add: take_bit_nat_eq_self)

lemma unat_of_nat8: "k < 256 \<Longrightarrow> unat (word_of_nat k :: u8) = k"
  by (simp only: unsigned_of_nat take_bit_nat_eq_self) (simp add: take_bit_nat_eq_self)

lemma below2: "i < 2 \<Longrightarrow> i = 0 \<or> i = (1::nat)" by arith

lemma below4: "i < 4 \<Longrightarrow> i = 0 \<or> i = 1 \<or> i = 2 \<or> i = (3::nat)" by arith

lemma e_h_set_same: "i < 2 \<Longrightarrow> e_h (set_e_h w i v) i = v AND 0xFFFF"
  by (rule u32_eqI, drule below2, elim disjE) (simp_all add: e_h_def set_e_h_def bit_simps)

lemma e_h_set_other: "i < 2 \<Longrightarrow> j < 2 \<Longrightarrow> i \<noteq> j \<Longrightarrow> e_h (set_e_h w i v) j = e_h w j"
  by (rule u32_eqI, drule below2, drule below2, elim disjE) (simp_all add: e_h_def set_e_h_def bit_simps)

lemma e_b_set_same: "i < 4 \<Longrightarrow> e_b (set_e_b w i v) i = v AND 0xFF"
  by (rule u32_eqI, drule below4, elim disjE) (simp_all add: e_b_def set_e_b_def bit_simps)

lemma e_b_set_other: "i < 4 \<Longrightarrow> j < 4 \<Longrightarrow> i \<noteq> j \<Longrightarrow> e_b (set_e_b w i v) j = e_b w j"
  by (rule u32_eqI, drule below4, drule below4, elim disjE) (simp_all add: e_b_def set_e_b_def bit_simps)

section \<open>Raw memory\<close>

text \<open>Reading and writing \<open>n\<close> bytes at an offset, least significant byte first.\<close>

definition byte_of :: "u32 \<Rightarrow> nat \<Rightarrow> u8" where
  "byte_of w i = ucast (drop_bit (8 * i) w)"

definition rd8 :: "u8 list \<Rightarrow> nat \<Rightarrow> u32" where
  "rd8 m o' = ucast (m ! o')"

definition rd16 :: "u8 list \<Rightarrow> nat \<Rightarrow> u32" where
  "rd16 m o' = ucast (m ! o') OR push_bit 8 (ucast (m ! (o' + 1)))"

definition rd32 :: "u8 list \<Rightarrow> nat \<Rightarrow> u32" where
  "rd32 m o' = ucast (m ! o') OR push_bit 8 (ucast (m ! (o' + 1))) OR
     push_bit 16 (ucast (m ! (o' + 2))) OR push_bit 24 (ucast (m ! (o' + 3)))"

definition wr8 :: "nat \<Rightarrow> u32 \<Rightarrow> u8 list \<Rightarrow> u8 list" where
  "wr8 o' v m = m[o' := byte_of v 0]"

definition wr16 :: "nat \<Rightarrow> u32 \<Rightarrow> u8 list \<Rightarrow> u8 list" where
  "wr16 o' v m = m[o' := byte_of v 0, o' + 1 := byte_of v 1]"

definition wr32 :: "nat \<Rightarrow> u32 \<Rightarrow> u8 list \<Rightarrow> u8 list" where
  "wr32 o' v m = m[o' := byte_of v 0, o' + 1 := byte_of v 1, o' + 2 := byte_of v 2, o' + 3 := byte_of v 3]"

lemma u8_high [simp]: "8 \<le> k \<Longrightarrow> \<not> bit (x::u8) k"
  using bit_imp_le_length [of x k] by auto

lemma u16_high [simp]: "16 \<le> k \<Longrightarrow> \<not> bit (x::u16) k"
  using bit_imp_le_length [of x k] by auto

lemma ucast_u8_u32 [simp]: "ucast (ucast b :: u32) = (b :: u8)"
  by (rule bit_word_eqI) (simp add: bit_simps)

lemma length_wr [simp]:
  "length (wr8 o' v m) = length m" "length (wr16 o' v m) = length m" "length (wr32 o' v m) = length m"
  by (simp_all add: wr8_def wr16_def wr32_def)

lemma rd8_wr8: "o' < length m \<Longrightarrow> rd8 (wr8 o' v m) o' = v AND 0xFF"
  by (rule u32_eqI) (simp add: rd8_def wr8_def byte_of_def bit_simps)

lemma rd16_wr16: "o' + 1 < length m \<Longrightarrow> rd16 (wr16 o' v m) o' = v AND 0xFFFF"
  by (rule u32_eqI) (simp add: rd16_def wr16_def byte_of_def bit_simps)

lemma rd32_wr32: "o' + 3 < length m \<Longrightarrow> rd32 (wr32 o' v m) o' = v"
  by (rule u32_eqI) (simp add: rd32_def wr32_def byte_of_def bit_simps)

lemma nth_wr8: "i \<noteq> o' \<Longrightarrow> wr8 o' v m ! i = m ! i"
  by (simp add: wr8_def)

lemma nth_wr16: "i < o' \<or> o' + 1 < i \<Longrightarrow> wr16 o' v m ! i = m ! i"
  by (auto simp: wr16_def)

lemma nth_wr32: "i < o' \<or> o' + 3 < i \<Longrightarrow> wr32 o' v m ! i = m ! i"
  by (auto simp: wr32_def)

text \<open>The parts of a stored word.\<close>

lemma rd8_wr32: "o' + 3 < length m \<Longrightarrow> i < 4 \<Longrightarrow> rd8 (wr32 o' v m) (o' + i) = e_b v i"
  by (rule u32_eqI, drule below4, elim disjE)
    (simp_all add: rd8_def wr32_def byte_of_def e_b_def bit_simps)

lemma add_3_Suc: "n + 3 = Suc (Suc (Suc n))" by simp

lemma rd16_wr32: "o' + 3 < length m \<Longrightarrow> i < 2 \<Longrightarrow> rd16 (wr32 o' v m) (o' + 2 * i) = e_h v i"
  by (rule u32_eqI, drule below2, elim disjE)
    (simp_all add: rd16_def wr32_def byte_of_def e_h_def bit_simps add_3_Suc)

text \<open>Replacing a part of a stored word is replacing the part in memory.\<close>

lemma wr32_rd32: "o' + 3 < length m \<Longrightarrow> wr32 o' (rd32 m o') m = m"
proof (rule nth_equalityI)
  fix i assume o': "o' + 3 < length m" and "i < length (wr32 o' (rd32 m o') m)"
  have b: "byte_of (rd32 m o') k = m ! (o' + k)" if "k < 4" for k
    using below4 [OF that] by (elim disjE) (auto intro!: bit_word_eqI simp: byte_of_def rd32_def bit_simps)
  show "wr32 o' (rd32 m o') m ! i = m ! i"
  proof (cases "i < o' \<or> o' + 3 < i")
    case False
    then have "i = o' \<or> i = o' + 1 \<or> i = o' + 2 \<or> i = o' + 3" by arith
    then show ?thesis using o' b [of 0] b [of 1] b [of 2] b [of 3] by (auto simp: wr32_def)
  qed (simp add: nth_wr32)
qed simp

lemma bit_FF: "bit (0xFF :: int) k = (k < 8)" "bit (0xFFFF :: int) k = (k < 16)"
proof -
  have "(0xFF :: int) = mask 8" "(0xFFFF :: int) = mask 16" by (simp_all add: mask_eq_exp_minus_1)
  then show "bit (0xFF :: int) k = (k < 8)" "bit (0xFFFF :: int) k = (k < 16)"
    by (simp_all only: bit_mask_iff) auto
qed

lemma bit_set_e_b:
  "i < 4 \<Longrightarrow> n < 32 \<Longrightarrow> bit (set_e_b w i v) n = (if 8 * i \<le> n \<and> n < 8 * i + 8 then bit v (n - 8 * i) else bit w n)"
  by (auto simp: set_e_b_def bit_FF bit_or_iff bit_and_iff bit_not_iff bit_push_bit_iff)

lemma bit_set_e_h:
  "i < 2 \<Longrightarrow> n < 32 \<Longrightarrow> bit (set_e_h w i v) n = (if 16 * i \<le> n \<and> n < 16 * i + 16 then bit v (n - 16 * i) else bit w n)"
  by (auto simp: set_e_h_def bit_FF bit_or_iff bit_and_iff bit_not_iff bit_push_bit_iff)

lemma bit_byte_of: "n < 8 \<Longrightarrow> bit (byte_of w k) n = bit w (8 * k + n)"
  by (simp add: byte_of_def bit_ucast_iff bit_drop_bit_eq)

lemma byte_of_set_e_b:
  "i < 4 \<Longrightarrow> k < 4 \<Longrightarrow> byte_of (set_e_b w i v) k = (if k = i then byte_of v 0 else byte_of w k)"
  by (rule bit_word_eqI) (auto simp: bit_byte_of bit_set_e_b)

lemma byte_of_set_e_h:
  "i < 2 \<Longrightarrow> k < 4 \<Longrightarrow> byte_of (set_e_h w i v) k = (if k div 2 = i then byte_of v (k mod 2) else byte_of w k)"
proof (rule bit_word_eqI)
  fix n assume i: "i < 2" "k < 4" "n < LENGTH(8)"
  have k: "k = 2 * (k div 2) + k mod 2" by simp
  have "16 * i \<le> 8 * k + n \<and> 8 * k + n < 16 * i + 16 \<longleftrightarrow> k div 2 = i"
    using i below2 [OF i(1)] below4 [OF i(2)] by (elim disjE) simp_all
  moreover have "8 * k + n - 16 * (k div 2) = 8 * (k mod 2) + n" using k by arith
  ultimately show "bit (byte_of (set_e_h w i v) k) n = bit (if k div 2 = i then byte_of v (k mod 2) else byte_of w k) n"
    using i by (auto simp: bit_byte_of bit_set_e_h)
qed

lemma wr32_set_e_b:
  assumes "o' + 3 < length m" "i < 4"
  shows "wr32 o' (set_e_b (rd32 m o') i v) m = m[o' + i := byte_of v 0]"
proof -
  have b: "byte_of (rd32 m o') k = m ! (o' + k)" if "k < 4" for k
    using below4 [OF that] by (elim disjE) (auto intro!: bit_word_eqI simp: byte_of_def rd32_def bit_simps)
  show ?thesis
    using below4 [OF assms(2)] assms(1) b [of 0] b [of 1] b [of 2] b [of 3]
    by (elim disjE) (auto simp: wr32_def byte_of_set_e_b nth_list_update intro!: nth_equalityI)
qed

lemma wr32_set_e_h:
  assumes "o' + 3 < length m" "i < 2"
  shows "wr32 o' (set_e_h (rd32 m o') i v) m = wr16 (o' + 2 * i) v m"
proof -
  have b: "byte_of (rd32 m o') k = m ! (o' + k)" if "k < 4" for k
    using below4 [OF that] by (elim disjE) (auto intro!: bit_word_eqI simp: byte_of_def rd32_def bit_simps)
  show ?thesis
    using below2 [OF assms(2)] assms(1) b [of 0] b [of 1] b [of 2] b [of 3]
    by (elim disjE) (auto simp: wr32_def wr16_def byte_of_set_e_h nth_list_update add_3_Suc intro!: nth_equalityI)
qed

text \<open>The bytes of a word.\<close>

definition bytes32 :: "u32 \<Rightarrow> u8 list" where
  "bytes32 w = [byte_of w 0, byte_of w 1, byte_of w 2, byte_of w 3]"

lemma length_bytes32 [simp]: "length (bytes32 w) = 4"
  by (simp add: bytes32_def)

lemma rd32_bytes32: "rd32 (bytes32 w) 0 = w"
  by (rule u32_eqI) (simp add: rd32_def bytes32_def byte_of_def bit_simps)

section \<open>Word alignment\<close>

lemma aligned_mod4: "(x::u32) AND 3 = 0 \<longleftrightarrow> unat x mod 4 = 0"
proof -
  have "x AND 3 = take_bit 2 x" by (rule u32_eqI) (simp add: bit_simps)
  then have "unat (x AND 3) = unat x mod 4" by (simp add: unsigned_take_bit_eq) (simp add: take_bit_eq_mod)
  then show ?thesis by (metis unat_0 unat_eq_0)
qed

end
