(* ===== verification/Lz77.thy ===== *)
theory Lz77
  imports Bytes
begin

text \<open>
  The decompressor of \<^verbatim>\<open>Core/lz77.h\<close>, over any mixin class that supplies input
  bytes and takes output bytes. A stream is a sequence of literals and back references;
  the format's meaning is given on such sequences, and the decoder with its ring buffer
  is shown to produce it.
\<close>

section \<open>The decoder\<close>

text \<open>\<open>text_buf\<close> has \<open>N + F - 1\<close> bytes and keeps its contents between calls; \<open>r\<close>
  stays below \<open>N\<close>. \<open>cur_size\<close> cannot wrap: it is below \<open>2 ^ 24\<close> when a step starts
  and a step adds at most 18.\<close>

abbreviation (input) LZ_N :: nat where "LZ_N \<equiv> 4096"
abbreviation (input) LZ_F :: nat where "LZ_F \<equiv> 18"
abbreviation (input) LZ_THRESHOLD :: u32 where "LZ_THRESHOLD \<equiv> 2"

text \<open>\<^verbatim>\<open>text_buf[(r-j-1) & (N - 1)]\<close>\<close>

definition back_ref :: "u8 list \<Rightarrow> nat \<Rightarrow> u32 \<Rightarrow> u8" where
  "back_ref text_buf r j = text_buf ! unat ((word_of_nat r - j - 1) AND (word_of_nat LZ_N - 1 :: u32))"

text \<open>The copying loop: \<open>n\<close> bytes are left.\<close>

fun copy_loop :: "(u8 \<Rightarrow> 'm \<Rightarrow> 'm res) \<Rightarrow> nat \<Rightarrow> u32 \<Rightarrow> u8 list \<Rightarrow> nat \<Rightarrow> 'm \<Rightarrow> (u8 list \<times> nat \<times> 'm) res" where
  "copy_loop put8 0 j text_buf r m = Inr (text_buf, r, m)"
| "copy_loop put8 (Suc n) j text_buf r m =
    (let c = back_ref text_buf r j
     in rbind (put8 c m) (copy_loop put8 n j (text_buf[r := c]) ((r + 1) mod LZ_N)))"

function lz_loop :: "('m \<Rightarrow> (u8 \<times> 'm) res) \<Rightarrow> (u8 \<Rightarrow> 'm \<Rightarrow> 'm res) \<Rightarrow> nat \<Rightarrow> u32 \<Rightarrow> nat \<Rightarrow> u8 list \<Rightarrow>
    nat \<Rightarrow> nat \<Rightarrow> 'm \<Rightarrow> (u8 list \<times> 'm) res" where
  "lz_loop get8 put8 decomp_size flags z text_buf r cur_size m =
    (if cur_size < decomp_size
     then rbind (if z + 1 = 8 then rbind (get8 m) (\<lambda>(b, m). Inr (ucast b, 0, m))
                 else Inr (push_bit 1 flags, z + 1, m))
       (\<lambda>(flags, z, m).
        if flags AND 0x80 = 0
        then rbind (get8 m) (\<lambda>(c, m). rbind (put8 c m) (\<lambda>m.
               lz_loop get8 put8 decomp_size flags z (text_buf[r := c]) ((r + 1) mod LZ_N) (cur_size + 1) m))
        else rbind (get8 m) (\<lambda>(i, m). rbind (get8 m) (\<lambda>(j, m).
               let i = ucast i :: u32;
                   j = ucast j OR (push_bit 8 i AND 0x0F00);
                   i = drop_bit 4 i;
                   i = i + LZ_THRESHOLD
               in rbind (copy_loop put8 (unat i + 1) j text_buf r m) (\<lambda>(text_buf, r, m).
                  lz_loop get8 put8 decomp_size flags z text_buf r (cur_size + (unat i + 1)) m))))
     else Inr (text_buf, m))"
  by pat_completeness auto

termination lz_loop
  by (relation "measure (\<lambda>(_, _, n, _, _, _, _, c, _). n - c)") auto

declare lz_loop.simps [simp del]

text \<open>The header: four bytes, the size in the upper three.\<close>

definition decode :: "('m \<Rightarrow> 'm res) \<Rightarrow> ('m \<Rightarrow> (u8 \<times> 'm) res) \<Rightarrow> (u8 \<Rightarrow> 'm \<Rightarrow> 'm res) \<Rightarrow> u8 list \<Rightarrow> 'm \<Rightarrow>
    (u8 list \<times> 'm) res" where
  "decode get_header get8 put8 text_buf m =
    rbind (get_header m) (\<lambda>m.
    rbind (get8 m) (\<lambda>(c0, m). rbind (get8 m) (\<lambda>(c1, m). rbind (get8 m) (\<lambda>(c2, m). rbind (get8 m) (\<lambda>(c3, m).
    let gbaheader = rd32 [c0, c1, c2, c3] 0;
        decomp_size = unat (drop_bit 8 gbaheader);
        text_buf = replicate (LZ_N - LZ_F) 0xFF @ drop (LZ_N - LZ_F) text_buf
    in lz_loop get8 put8 decomp_size 7 7 text_buf (LZ_N - LZ_F) 0 m)))))"

section \<open>What a stream means\<close>

text \<open>A literal, or \<open>Ref n j\<close>: \<open>n\<close> bytes, each a copy of the one \<open>j + 1\<close> places
  back. The window holds the last 4096 bytes, newest first.\<close>

datatype token = Lit u8 | Ref nat nat

fun token_ok :: "token \<Rightarrow> bool" where
  "token_ok (Lit c) = True"
| "token_ok (Ref n j) = (3 \<le> n \<and> n \<le> 18 \<and> j < 4096)"

fun token_len :: "token \<Rightarrow> nat" where
  "token_len (Lit c) = 1"
| "token_len (Ref n j) = n"

definition slide :: "u8 \<Rightarrow> u8 list \<Rightarrow> u8 list" where
  "slide c w = c # butlast w"

fun copies :: "nat \<Rightarrow> nat \<Rightarrow> u8 list \<Rightarrow> u8 list \<times> u8 list" where
  "copies 0 j w = ([], w)"
| "copies (Suc n) j w = (let (out, w') = copies n j (slide (w ! j) w) in (w ! j # out, w'))"

fun expand :: "token list \<Rightarrow> u8 list \<Rightarrow> u8 list" where
  "expand [] w = []"
| "expand (Lit c # ts) w = c # expand ts (slide c w)"
| "expand (Ref n j # ts) w = (let (out, w) = copies n j w in out @ expand ts w)"

text \<open>The encoding: groups of eight tokens after a byte of flags, first token in the
  highest bit.\<close>

fun is_ref :: "token \<Rightarrow> bool" where
  "is_ref (Lit c) = False"
| "is_ref (Ref n j) = True"

fun token_bytes :: "token \<Rightarrow> u8 list" where
  "token_bytes (Lit c) = [c]"
| "token_bytes (Ref n j) = [word_of_nat ((n - 3) * 16 + j div 256), word_of_nat (j mod 256)]"

definition flag_byte :: "token list \<Rightarrow> u8" where
  "flag_byte ts = horner_sum of_bool 2 (map (\<lambda>n. 7 - n < length ts \<and> is_ref (ts ! (7 - n))) [0..<8])"

function enc :: "token list \<Rightarrow> u8 list" where
  "enc ts =
    (if ts = [] then []
     else flag_byte (take 8 ts) # concat (map token_bytes (take 8 ts)) @ enc (drop 8 ts))"
  by pat_completeness auto

termination enc
  by (relation "measure length") (auto simp: neq_Nil_conv)

declare enc.simps [simp del]

text \<open>The decoder stops at the first token that starts at or beyond the size: the last
  token may run over it.\<close>

fun fits :: "nat \<Rightarrow> nat \<Rightarrow> token list \<Rightarrow> bool" where
  "fits lim cur [] = (lim \<le> cur)"
| "fits lim cur (t # ts) = (cur < lim \<and> fits lim (cur + token_len t) ts)"

lemma length_copies: "copies n j w = (out, w') \<Longrightarrow> length out = n"
  by (induction n arbitrary: w out) (auto simp: Let_def split: prod.splits)

lemma length_expand: "length (expand ts w) = sum_list (map token_len ts)"
  by (induction ts w rule: expand.induct) (auto simp: length_copies split: prod.splits)

text \<open>The output never exceeds the announced size by more than 17 bytes.\<close>

lemma fits_overshoot:
  "fits lim cur ts \<Longrightarrow> list_all token_ok ts \<Longrightarrow> cur \<le> lim + 17 \<Longrightarrow>
    cur + sum_list (map token_len ts) \<le> lim + 17"
proof (induction ts arbitrary: cur)
  case (Cons t ts)
  have "token_len t \<le> 18" using Cons.prems by (cases t) auto
  then show ?case using Cons.IH [of "cur + token_len t"] Cons.prems by simp
qed simp

section \<open>The mixin's contract\<close>

text \<open>
  \<open>rep bs out m\<close>: the mixin in state \<open>m\<close> has \<open>bs\<close> (and anything after it) still to
  deliver and has taken \<open>out\<close>; it takes at most \<open>cap\<close> bytes.
\<close>

locale byte_mixin =
  fixes get8 :: "'m \<Rightarrow> (u8 \<times> 'm) res"
    and put8 :: "u8 \<Rightarrow> 'm \<Rightarrow> 'm res"
    and rep :: "u8 list \<Rightarrow> u8 list \<Rightarrow> 'm \<Rightarrow> bool"
    and cap :: nat
  assumes get8_rep: "rep (b # bs) out m \<Longrightarrow> \<exists>m'. get8 m = Inr (b, m') \<and> rep bs out m'"
    and put8_rep: "rep bs out m \<Longrightarrow> length out < cap \<Longrightarrow> \<exists>m'. put8 c m = Inr m' \<and> rep bs (out @ [c]) m'"

section \<open>The ring buffer is the window\<close>

definition window :: "u8 list \<Rightarrow> nat \<Rightarrow> u8 list" where
  "window text_buf r = map (\<lambda>j. text_buf ! ((r + 4095 - j) mod 4096)) [0..<4096]"

definition buf_ok :: "u8 list \<Rightarrow> nat \<Rightarrow> bool" where
  "buf_ok text_buf r = (length text_buf = 4113 \<and> r < 4096)"

lemma back_ref_window:
  assumes "buf_ok text_buf r" and "j < 4096"
  shows "back_ref text_buf r (word_of_nat j) = window text_buf r ! j"
proof -
  have "word_of_nat r - word_of_nat j - 1 = (word_of_nat r + 4095 - word_of_nat j - 4096 :: u32)"
    by simp
  also have "\<dots> = word_of_nat (r + 4095 - j) - 4096"
    using assms by simp
  finally have w: "word_of_nat r - word_of_nat j - 1 = (word_of_nat (r + 4095 - j) - 4096 :: u32)" .
  have "x AND 4095 = take_bit 12 x" for x :: u32
    by (rule u32_eqI) (simp add: bit_simps)
  then have "unat ((word_of_nat r - word_of_nat j - 1) AND 4095 :: u32) =
      take_bit 12 (unat (word_of_nat (r + 4095 - j) - 4096 :: u32))"
    by (simp only: w unsigned_take_bit_eq)
  also have "\<dots> = (r + 4095 - j) mod 4096"
  proof -
    have "word_of_nat (r + 4095 - j) - 4096 = (word_of_nat (r + 4095 - j + 4294963200) :: u32)"
      by simp
    then have "unat (word_of_nat (r + 4095 - j) - 4096 :: u32) = (r + 4095 - j + 4294963200) mod 4294967296"
      by (simp only: unat_of_nat) simp
    moreover have "(x + 4294963200) mod 4294967296 mod 4096 = x mod (4096::nat)" for x
    proof -
      have "(x + 4294963200) mod 4294967296 mod 4096 = (x + 1048575 * 4096) mod 4096"
        by (subst mod_mod_cancel) simp_all
      then show ?thesis by (simp only: mod_mult_self1)
    qed
    ultimately show ?thesis by (simp add: take_bit_eq_mod)
  qed
  finally show ?thesis using assms by (simp add: back_ref_def window_def)
qed

lemma window_slide:
  assumes "buf_ok text_buf r"
  shows "window (text_buf[r := c]) ((r + 1) mod 4096) = slide c (window text_buf r)"
    and "buf_ok (text_buf[r := c]) ((r + 1) mod 4096)"
proof -
  have r: "r < 4096" "length text_buf = 4113" using assms by (simp_all add: buf_ok_def)
  have idx: "((r + 1) mod 4096 + 4095 - j) mod 4096 = (if j = 0 then r else (r + 4095 - (j - 1)) mod 4096)"
    if "j < 4096" for j
  proof (cases "r = 4095")
    case True
    then show ?thesis using that by (cases j) (simp_all add: mod_if)
  next
    case False
    then have "(r + 1) mod 4096 = r + 1" using r by simp
    then show ?thesis using that r by (cases j) (simp_all add: add.commute)
  qed
  show "window (text_buf[r := c]) ((r + 1) mod 4096) = slide c (window text_buf r)"
  proof (rule nth_equalityI)
    fix j assume "j < length (window (text_buf[r := c]) ((r + 1) mod 4096))"
    then have j: "j < 4096" by (simp add: window_def)
    show "window (text_buf[r := c]) ((r + 1) mod 4096) ! j = slide c (window text_buf r) ! j"
    proof (cases j)
      case 0
      then show ?thesis using idx [of 0] r by (simp add: window_def slide_def)
    next
      case (Suc i)
      have "(r + 4095 - i) mod 4096 \<noteq> r"
      proof (cases "r + 4095 - i < 4096")
        case False
        then have "(r + 4095 - i) mod 4096 = r + 4095 - i - 4096" using r by (simp add: mod_if)
        then show ?thesis using j Suc False by simp
      qed (use j Suc in simp)
      then show ?thesis using idx [OF j] j r Suc by (simp add: window_def slide_def nth_butlast)
    qed
  qed (simp add: window_def slide_def)
  show "buf_ok (text_buf[r := c]) ((r + 1) mod 4096)" using r by (simp add: buf_ok_def)
qed

section \<open>Groups of tokens\<close>

text \<open>What is left of the stream when \<open>z + 1\<close> tokens of the group have been taken, and
  what the flag word has to say about them.\<close>

definition enc_tail :: "nat \<Rightarrow> token list \<Rightarrow> u8 list" where
  "enc_tail z ts = concat (map token_bytes (take (7 - z) ts)) @ enc (drop (7 - z) ts)"

definition flags_for :: "u32 \<Rightarrow> nat \<Rightarrow> token list \<Rightarrow> bool" where
  "flags_for flags z ts = (\<forall>k < 7 - z. k < length ts \<longrightarrow> bit flags (6 - k) = is_ref (ts ! k))"

lemma bit_flag_byte: "k < 8 \<Longrightarrow> k < length ts \<Longrightarrow> bit (flag_byte ts) (7 - k) = is_ref (ts ! k)"
  unfolding flag_byte_def by (subst bit_horner_sum_bit_iff) auto

lemma bit_7: "(flags AND 0x80 = 0) = (\<not> bit (flags::u32) 7)"
  using flag_at_bit [of flags 7] unfolding flag_at_def by auto

lemma bit_push1: "bit (push_bit 1 flags :: u32) (Suc n) = (n < 31 \<and> bit flags n)"
  by (simp only: bit_push_bit_iff) auto

text \<open>The next token's flag is on top after the shift or the reload.\<close>

lemma next_token:
  assumes "flags_for flags z (t # ts)" and "z < 7"
  shows "enc_tail z (t # ts) = token_bytes t @ enc_tail (z + 1) ts"
    and "bit (push_bit 1 flags) 7 = is_ref t"
    and "flags_for (push_bit 1 flags) (z + 1) ts"
proof -
  obtain d where d: "7 - z = Suc d" "7 - (z + 1) = d" using assms(2) by (cases "7 - z") auto
  show "enc_tail z (t # ts) = token_bytes t @ enc_tail (z + 1) ts"
    by (simp only: enc_tail_def d) simp
  show "bit (push_bit 1 flags) 7 = is_ref t"
  proof -
    have "bit (push_bit 1 flags) (Suc 6) = bit flags 6" by (simp only: bit_push1) simp
    also have "\<dots> = is_ref t" using assms unfolding flags_for_def by (auto dest: spec [of _ 0])
    finally show ?thesis by (simp del: push_bit_Suc)
  qed
  show "flags_for (push_bit 1 flags) (z + 1) ts"
    unfolding flags_for_def
  proof (intro allI impI)
    fix k assume k: "k < 7 - (z + 1)" "k < length ts"
    then have "bit flags (6 - Suc k) = is_ref ((t # ts) ! Suc k)"
      using assms(1) unfolding flags_for_def by (metis Suc_less_eq Suc_diff_Suc Suc_eq_plus1 assms(2) length_Cons)
    moreover have "6 - k = Suc (6 - Suc k)" "6 - Suc k < 31" using k by simp_all
    ultimately show "bit (push_bit 1 flags) (6 - k) = is_ref (ts ! k)"
      by (simp only: bit_push1) simp
  qed
qed

lemma next_group:
  shows "enc_tail 7 (t # ts) = flag_byte (take 8 (t # ts)) # token_bytes t @ enc_tail 0 ts"
    and "bit (ucast (flag_byte (take 8 (t # ts))) :: u32) 7 = is_ref t"
    and "flags_for (ucast (flag_byte (take 8 (t # ts)))) 0 ts"
proof -
  have t8: "take 8 (t # ts) = t # take 7 ts" "drop 8 (t # ts) = drop 7 ts"
    by (simp_all add: take_Cons' drop_Cons')
  show "enc_tail 7 (t # ts) = flag_byte (take 8 (t # ts)) # token_bytes t @ enc_tail 0 ts"
    unfolding enc_tail_def by (subst enc.simps) (simp add: t8)
  show "bit (ucast (flag_byte (take 8 (t # ts))) :: u32) 7 = is_ref t"
    using bit_flag_byte [of 0 "t # take 7 ts"] by (simp add: bit_simps t8)
  show "flags_for (ucast (flag_byte (take 8 (t # ts)))) 0 ts"
    unfolding flags_for_def
  proof (intro allI impI)
    fix k assume k: "k < 7 - 0" "k < length ts"
    then have "bit (flag_byte (t # take 7 ts)) (7 - Suc k) = is_ref ((t # take 7 ts) ! Suc k)"
      by (intro bit_flag_byte) simp_all
    moreover have "6 - k < (32::nat)" by arith
    ultimately show "bit (ucast (flag_byte (take 8 (t # ts))) :: u32) (6 - k) = is_ref (ts ! k)"
      using k by (simp add: bit_simps t8)
  qed
qed

text \<open>The two bytes of a back reference give its length and distance.\<close>

lemma unat_ucast_byte: "k < 256 \<Longrightarrow> unat (ucast (word_of_nat k :: u8) :: u32) = k"
  by (simp only: unsigned_ucast_eq unat_of_nat8) (simp add: take_bit_nat_eq_self)

lemma split_low_byte: "(w::u32) = take_bit 8 w OR push_bit 8 (drop_bit 8 w)"
  by (rule u32_eqI) (simp add: bit_simps)

lemma ref_bytes:
  assumes "3 \<le> n" "n \<le> 18" "j < 4096"
  shows "unat (drop_bit 4 (ucast (word_of_nat ((n - 3) * 16 + j div 256) :: u8) :: u32) + 2) + 1 = n"
    and "ucast (word_of_nat (j mod 256) :: u8) OR
      (push_bit 8 (ucast (word_of_nat ((n - 3) * 16 + j div 256) :: u8)) AND 0x0F00) = (word_of_nat j :: u32)"
proof -
  define x h where "x = n - 3" and "h = j div 256"
  have x: "x < 16" and h: "h < 16" and n: "n = x + 3" using assms by (auto simp: x_def h_def)
  define i where "i = (ucast (word_of_nat (x * 16 + h) :: u8) :: u32)"
  have u: "unat i = x * 16 + h" unfolding i_def using x h by (intro unat_ucast_byte) simp
  have "unat (drop_bit 4 i) = x"
    unfolding unat_drop_bit_eq u using h by (simp add: drop_bit_eq_div)
  then have "unat (drop_bit 4 i + 2) = x + 2"
    using x by (simp add: unat_word_ariths(1))
  then have "unat (drop_bit 4 i + 2) + 1 = n" using n by simp
  then show "unat (drop_bit 4 (ucast (word_of_nat ((n - 3) * 16 + j div 256) :: u8) :: u32) + 2) + 1 = n"
    unfolding i_def x_def h_def .
  have "push_bit 8 i AND 0x0F00 = push_bit 8 (take_bit 4 i)"
    by (rule u32_eqI) (simp add: bit_simps)
  moreover have "take_bit 4 i = drop_bit 8 (word_of_nat j)"
  proof -
    have "unat (take_bit 4 i) = h"
      by (simp only: unsigned_take_bit_eq u) (use h in \<open>simp add: take_bit_eq_mod\<close>)
    moreover have "unat (drop_bit 8 (word_of_nat j) :: u32) = h"
      unfolding unat_drop_bit_eq using assms(3) by (simp add: unat_of_nat32 drop_bit_eq_div h_def)
    ultimately show ?thesis by (simp only: word_unat_eq_iff)
  qed
  moreover have "ucast (word_of_nat (j mod 256) :: u8) = (take_bit 8 (word_of_nat j) :: u32)"
  proof -
    have "unat (take_bit 8 (word_of_nat j) :: u32) = j mod 256"
      using assms(3) by (simp only: unsigned_take_bit_eq unat_of_nat32) (simp add: take_bit_eq_mod)
    then show ?thesis by (simp only: word_unat_eq_iff unat_ucast_byte mod_less_divisor zero_less_numeral)
  qed
  ultimately show "ucast (word_of_nat (j mod 256) :: u8) OR
      (push_bit 8 (ucast (word_of_nat ((n - 3) * 16 + j div 256) :: u8)) AND 0x0F00) = (word_of_nat j :: u32)"
    using split_low_byte [of "word_of_nat j"] by (simp only: i_def x_def h_def)
qed

text \<open>The header of a stream: its kind and its size.\<close>

definition header :: "u8 \<Rightarrow> nat \<Rightarrow> u8 list" where
  "header kind lim = (let w = word_of_nat lim in [kind, byte_of w 0, byte_of w 1, byte_of w 2])"

lemma header_size:
  assumes "lim < 2 ^ 24"
  shows "unat (drop_bit 8 (rd32 [kind, header kind lim ! 1, header kind lim ! 2, header kind lim ! 3] 0)) = lim"
proof -
  let ?w = "word_of_nat lim :: u32"
  have "drop_bit 8 (rd32 [kind, byte_of ?w 0, byte_of ?w 1, byte_of ?w 2] 0) = take_bit 24 ?w"
    by (rule u32_eqI) (simp add: rd32_def byte_of_def bit_simps)
  moreover have "unat (take_bit 24 ?w) = lim"
    using assms by (simp only: unsigned_take_bit_eq) (simp add: unat_of_nat32 take_bit_nat_eq_self)
  ultimately show ?thesis by (simp add: header_def Let_def)
qed

text \<open>The window a stream starts with: \<open>0xFF\<close> and the bytes an earlier stream left.\<close>

definition initial_window :: "u8 list \<Rightarrow> u8 list" where
  "initial_window buf = window (replicate 4078 0xFF @ drop 4078 buf) 4078"

section \<open>The decoder expands the stream\<close>

context byte_mixin
begin

lemma copy_loop_rep:
  "rep bs out m \<Longrightarrow> buf_ok buf r \<Longrightarrow> j < 4096 \<Longrightarrow> length out + n \<le> cap \<Longrightarrow>
    \<exists>buf' r' m'. copy_loop put8 n (word_of_nat j) buf r m = Inr (buf', r', m') \<and> buf_ok buf' r' \<and>
      rep bs (out @ fst (copies n j (window buf r))) m' \<and> window buf' r' = snd (copies n j (window buf r))"
proof (induction n arbitrary: out m buf r)
  case (Suc n)
  let ?c = "window buf r ! j"
  have c: "back_ref buf r (word_of_nat j) = ?c" by (rule back_ref_window) (use Suc.prems in simp_all)
  obtain m1 where m1: "put8 ?c m = Inr m1" "rep bs (out @ [?c]) m1"
    using put8_rep [OF Suc.prems(1), of ?c] Suc.prems(4) by auto
  note w = window_slide [OF Suc.prems(2), of ?c, simplified]
  from Suc.IH [OF m1(2) w(2) Suc.prems(3)] Suc.prems(4) show ?case
    by (auto simp: c m1(1) Let_def w(1) split_beta)
qed simp

text \<open>One token, from its first byte to the state after it.\<close>

definition after_token :: "nat \<Rightarrow> u32 \<Rightarrow> nat \<Rightarrow> u8 list \<Rightarrow> nat \<Rightarrow> nat \<Rightarrow> 'm \<Rightarrow> (u8 list \<times> 'm) res" where
  "after_token lim flags z buf r cur m =
    (if flags AND 0x80 = 0
     then rbind (get8 m) (\<lambda>(c, m). rbind (put8 c m) (\<lambda>m.
            lz_loop get8 put8 lim flags z (buf[r := c]) ((r + 1) mod 4096) (cur + 1) m))
     else rbind (get8 m) (\<lambda>(i, m). rbind (get8 m) (\<lambda>(j, m).
            let i = ucast i :: u32;
                j = ucast j OR (push_bit 8 i AND 0x0F00);
                i = drop_bit 4 i;
                i = i + 2
            in rbind (copy_loop put8 (unat i + 1) j buf r m) (\<lambda>(buf, r, m).
               lz_loop get8 put8 lim flags z buf r (cur + (unat i + 1)) m))))"

lemma lz_loop_unfold:
  "cur < lim \<Longrightarrow> lz_loop get8 put8 lim flags z buf r cur m =
    rbind (if z + 1 = 8 then rbind (get8 m) (\<lambda>(b, m). Inr (ucast b, 0, m)) else Inr (push_bit 1 flags, z + 1, m))
      (\<lambda>(flags, z, m). after_token lim flags z buf r cur m)"
  unfolding after_token_def by (subst lz_loop.simps) simp

lemma after_token_rep:
  assumes rep: "rep (token_bytes t @ bs) out m" and ok: "token_ok t" and buf: "buf_ok buf r"
    and flag: "bit flags 7 = is_ref t" and room: "length out + token_len t \<le> cap"
  shows "\<exists>buf' r' m'. after_token lim flags z buf r cur m = lz_loop get8 put8 lim flags z buf' r' (cur + token_len t) m' \<and>
    buf_ok buf' r' \<and> (\<exists>o'. rep bs (out @ o') m' \<and>
      (\<forall>ts. expand (t # ts) (window buf r) = o' @ expand ts (window buf' r')))"
proof (cases t)
  case (Lit c)
  obtain m1 where m1: "get8 m = Inr (c, m1)" "rep bs out m1"
    using get8_rep rep Lit by fastforce
  obtain m2 where m2: "put8 c m1 = Inr m2" "rep bs (out @ [c]) m2"
    using put8_rep [OF m1(2)] room Lit by fastforce
  show ?thesis
    using m1 m2 flag Lit window_slide [OF buf, of c] by (force simp: after_token_def bit_7)
next
  case (Ref n j)
  let ?i = "word_of_nat ((n - 3) * 16 + j div 256) :: u8" and ?j = "word_of_nat (j mod 256) :: u8"
  have nj: "3 \<le> n" "n \<le> 18" "j < 4096" using ok Ref by simp_all
  obtain m1 where m1: "get8 m = Inr (?i, m1)" "rep (?j # bs) out m1"
    using get8_rep rep Ref by fastforce
  obtain m2 where m2: "get8 m1 = Inr (?j, m2)" "rep bs out m2"
    using get8_rep m1(2) by fastforce
  obtain buf' r' m3 where m3: "copy_loop put8 n (word_of_nat j) buf r m2 = Inr (buf', r', m3)" "buf_ok buf' r'"
      "rep bs (out @ fst (copies n j (window buf r))) m3" "window buf' r' = snd (copies n j (window buf r))"
    using copy_loop_rep [OF m2(2) buf nj(3)] room Ref by fastforce
  have "after_token lim flags z buf r cur m = lz_loop get8 put8 lim flags z buf' r' (cur + n) m3"
    using flag Ref m1(1) m2(1) m3(1) ref_bytes [OF nj]
    by (simp add: after_token_def bit_7 Let_def del: add_Suc_right flip: Suc_eq_plus1)
  then show ?thesis using m3 Ref by (force simp: split_beta)
qed

lemma lz_loop_rep:
  "rep (enc_tail z ts @ bs) out m \<Longrightarrow> list_all token_ok ts \<Longrightarrow> buf_ok buf r \<Longrightarrow> z \<le> 7 \<Longrightarrow>
    flags_for flags z ts \<Longrightarrow> fits lim cur ts \<Longrightarrow> length out + sum_list (map token_len ts) \<le> cap \<Longrightarrow>
    \<exists>buf' m'. lz_loop get8 put8 lim flags z buf r cur m = Inr (buf', m') \<and> length buf' = 4113 \<and>
      rep bs (out @ expand ts (window buf r)) m'"
proof (induction ts arbitrary: z out m buf r flags cur)
  case Nil
  then show ?case
    by (auto simp: lz_loop.simps [of _ _ _ _ _ _ _ cur] enc_tail_def enc.simps buf_ok_def)
next
  case (Cons t ts)
  have cur: "cur < lim" using Cons.prems by simp
  obtain flags' z' m1 where step: "lz_loop get8 put8 lim flags z buf r cur m = after_token lim flags' z' buf r cur m1"
    and z': "z' \<le> 7" and rep1: "rep (token_bytes t @ enc_tail z' ts @ bs) out m1"
    and flag: "bit flags' 7 = is_ref t" and flags': "flags_for flags' z' ts"
  proof (cases "z = 7")
    case True
    let ?f = "flag_byte (take 8 (t # ts))"
    obtain m1 where m1: "get8 m = Inr (?f, m1)" "rep (token_bytes t @ enc_tail 0 ts @ bs) out m1"
      using get8_rep Cons.prems(1) True next_group(1) [of t ts] by fastforce
    show ?thesis
      by (rule that [of "ucast ?f" 0 m1]) (use next_group [of t ts] m1 True lz_loop_unfold [OF cur] in simp_all)
  next
    case False
    then have z: "z < 7" using Cons.prems(4) by simp
    show ?thesis
      by (rule that [of "push_bit 1 flags" "z + 1" m])
        (use next_token [OF Cons.prems(5) z] z Cons.prems(1) lz_loop_unfold [OF cur] in simp_all)
  qed
  have "length out + token_len t \<le> cap" using Cons.prems(7) by simp
  then obtain buf' r' m2 o' where tok: "after_token lim flags' z' buf r cur m1 =
      lz_loop get8 put8 lim flags' z' buf' r' (cur + token_len t) m2" "buf_ok buf' r'" "rep (enc_tail z' ts @ bs) (out @ o') m2"
    and exp: "\<And>us. expand (t # us) (window buf r) = o' @ expand us (window buf' r')"
    using after_token_rep [OF rep1 _ Cons.prems(3) flag] Cons.prems(2) by fastforce
  have len: "length o' = token_len t"
    using arg_cong [OF exp [of "[]"], of length] length_expand [of "[t]"] by simp
  show ?case
    using Cons.IH [OF tok(3) _ tok(2) z' flags', of "cur + token_len t"] Cons.prems(2,6,7) len step tok(1) exp [of ts]
    by simp
qed

lemma decode_rep:
  assumes rep: "rep (header kind lim @ enc ts @ bs) [] m" and lim: "lim < 2 ^ 24"
    and ts: "list_all token_ok ts" "fits lim 0 ts" and cap: "sum_list (map token_len ts) \<le> cap"
    and buf: "length buf = 4113" and open': "get_header m0 = Inr m"
  shows "\<exists>buf' m'. decode get_header get8 put8 buf m0 = Inr (buf', m') \<and> length buf' = 4113 \<and>
    rep bs (expand ts (initial_window buf)) m'"
proof -
  obtain m1 where m1: "get8 m = Inr (kind, m1)" "rep (drop 1 (header kind lim) @ enc ts @ bs) [] m1"
    using get8_rep rep by (fastforce simp: header_def Let_def)
  obtain m2 where m2: "get8 m1 = Inr (header kind lim ! 1, m2)" "rep (drop 2 (header kind lim) @ enc ts @ bs) [] m2"
    using get8_rep m1(2) by (fastforce simp: header_def Let_def)
  obtain m3 where m3: "get8 m2 = Inr (header kind lim ! 2, m3)" "rep (drop 3 (header kind lim) @ enc ts @ bs) [] m3"
    using get8_rep m2(2) by (fastforce simp: header_def Let_def)
  obtain m4 where m4: "get8 m3 = Inr (header kind lim ! 3, m4)" "rep (enc ts @ bs) [] m4"
    using get8_rep m3(2) by (fastforce simp: header_def Let_def)
  let ?buf = "replicate 4078 0xFF @ drop 4078 buf"
  have "rep (enc_tail 7 ts @ bs) [] m4" using m4(2) by (simp add: enc_tail_def)
  moreover have "buf_ok ?buf 4078" using buf by (simp only: buf_ok_def length_append length_replicate length_drop) simp
  moreover have "flags_for 7 7 ts" by (simp add: flags_for_def)
  ultimately obtain buf' m' where "lz_loop get8 put8 lim 7 7 ?buf 4078 0 m4 = Inr (buf', m')" "length buf' = 4113"
      "rep bs ([] @ expand ts (window ?buf 4078)) m'"
    using lz_loop_rep [where z = 7 and flags = 7 and cur = 0 and out = "[]" and r = 4078] ts cap by fastforce
  moreover have n: "4096 - 18 = (4078::nat)" by simp
  have "decode get_header get8 put8 buf m0 = lz_loop get8 put8 lim 7 7 ?buf 4078 0 m4"
    unfolding decode_def
    by (simp only: open' m1(1) m2(1) m3(1) m4(1) rbind_simps prod.case Let_def header_size [OF lim] n)
  ultimately show ?thesis unfolding initial_window_def by (simp only: append_Nil) blast
qed

end

end
