(* ===== verification/Memory.thy ===== *)
theory Memory
  imports Bytes
begin

text \<open>
  Physical pages (\<^verbatim>\<open>memory_block\<close> of \<^verbatim>\<open>Core/Mem.h\<close>), the page table of one
  processor (\<^verbatim>\<open>memory_map<T>\<close> of \<^verbatim>\<open>Core/MemMap.h\<close>) and the accesses of
  \<^verbatim>\<open>Core/HLE.cpp\<close>: protection, alignment, rotation, dirty flags, and the transfers
  of several words that cross pages. Pages with an access handler call a virtual
  function of their region: the handlers are a parameter.
\<close>

section \<open>Pages and page tables\<close>

abbreviation (input) PAGE_READPROT :: u32 where "PAGE_READPROT \<equiv> 0x01"
abbreviation (input) PAGE_WRITEPROT :: u32 where "PAGE_WRITEPROT \<equiv> 0x02"
abbreviation (input) PAGE_EXECPROT :: u32 where "PAGE_EXECPROT \<equiv> 0x04"
abbreviation (input) PAGE_INVALID :: u32 where "PAGE_INVALID \<equiv> 0x08"
abbreviation (input) PAGE_DIRTY_J7 :: u32 where "PAGE_DIRTY_J7 \<equiv> 0x10"
abbreviation (input) PAGE_DIRTY_J9 :: u32 where "PAGE_DIRTY_J9 \<equiv> 0x20"
abbreviation (input) PAGE_DIRTY_REACTOR :: u32 where "PAGE_DIRTY_REACTOR \<equiv> 0x40"
abbreviation (input) PAGE_DIRTY :: u32 where "PAGE_DIRTY \<equiv> 0x1F0"
abbreviation (input) PAGE_ACCESSHANDLER :: u32 where "PAGE_ACCESSHANDLER \<equiv> 0x1000"
abbreviation (input) PAGE_WRITEPROT8 :: u32 where "PAGE_WRITEPROT8 \<equiv> 0x2000"

abbreviation (input) PAGE_SIZE :: nat where "PAGE_SIZE \<equiv> 512"
abbreviation (input) ADDRESS_MASK :: u32 where "ADDRESS_MASK \<equiv> 0x1FF"

text \<open>The fields an access uses; the compiled code of a page is in the theory of the
  page cache.\<close>

record memory_block =
  flags :: u32
  mem :: "u8 list"

text \<open>
  Blocks by number (their address in the host), the page table of the processor, and
  \<open>io\<close>, the state behind the access handlers.
\<close>

record 's memory =
  blk :: "nat \<Rightarrow> memory_block"
  pmap :: "u32 \<Rightarrow> nat"
  io :: 's

definition addr2page :: "u32 \<Rightarrow> 's memory \<Rightarrow> nat" where
  "addr2page addr m = pmap m (drop_bit 9 addr)"

text \<open>Bit tests on a page's flags, and \<^verbatim>\<open>memory_block::dirty\<close>.\<close>

definition has_flag :: "'s memory \<Rightarrow> nat \<Rightarrow> u32 \<Rightarrow> bool" where
  "has_flag m b f = (flags (blk m b) AND f \<noteq> 0)"

definition upd_blk :: "nat \<Rightarrow> (memory_block \<Rightarrow> memory_block) \<Rightarrow> 's memory \<Rightarrow> 's memory" where
  "upd_blk b f m = m\<lparr>blk := (blk m)(b := f (blk m b))\<rparr>"

definition dirty :: "nat \<Rightarrow> 's memory \<Rightarrow> 's memory" where
  "dirty b m = upd_blk b (\<lambda>p. p\<lparr>flags := flags p OR PAGE_DIRTY\<rparr>) m"

text \<open>\<^verbatim>\<open>memory_block::react\<close>\<close>

definition react :: "nat \<Rightarrow> 's memory \<Rightarrow> bool \<times> 's memory" where
  "react b m =
    (if has_flag m b PAGE_DIRTY_REACTOR
     then (True, upd_blk b (\<lambda>p. p\<lparr>flags := flags p AND NOT PAGE_DIRTY_REACTOR\<rparr>) m)
     else (False, m))"

text \<open>The virtual functions of a page's region.\<close>

record 's handlers =
  h_load32 :: "nat \<Rightarrow> u32 \<Rightarrow> 's memory \<Rightarrow> (u32 \<times> 's memory) res"
  h_load16u :: "nat \<Rightarrow> u32 \<Rightarrow> 's memory \<Rightarrow> (u32 \<times> 's memory) res"
  h_load16s :: "nat \<Rightarrow> u32 \<Rightarrow> 's memory \<Rightarrow> (u32 \<times> 's memory) res"
  h_load8u :: "nat \<Rightarrow> u32 \<Rightarrow> 's memory \<Rightarrow> (u32 \<times> 's memory) res"
  h_load32_array :: "nat \<Rightarrow> u32 \<Rightarrow> nat \<Rightarrow> 's memory \<Rightarrow> (u32 list \<times> 's memory) res"
  h_store32 :: "nat \<Rightarrow> u32 \<Rightarrow> u32 \<Rightarrow> 's memory \<Rightarrow> 's memory res"
  h_store16 :: "nat \<Rightarrow> u32 \<Rightarrow> u32 \<Rightarrow> 's memory \<Rightarrow> 's memory res"
  h_store8 :: "nat \<Rightarrow> u32 \<Rightarrow> u32 \<Rightarrow> 's memory \<Rightarrow> 's memory res"
  h_store32_array :: "nat \<Rightarrow> u32 \<Rightarrow> u32 list \<Rightarrow> 's memory \<Rightarrow> 's memory res"

section \<open>Single accesses\<close>

definition load32 :: "'s handlers \<Rightarrow> u32 \<Rightarrow> 's memory \<Rightarrow> (u32 \<times> 's memory) res" where
  "load32 hs addr m =
    (let b = addr2page addr m
     in if has_flag m b (PAGE_INVALID OR PAGE_READPROT) then Inl (Invalid_Read addr)
        else if has_flag m b PAGE_ACCESSHANDLER then h_load32 hs b addr m
        else Inr (word_rotr (unat (push_bit 3 (addr AND 3)))
                   (rd32 (mem (blk m b)) (unat (addr AND (ADDRESS_MASK AND NOT 3)))), m))"

definition load16u :: "'s handlers \<Rightarrow> u32 \<Rightarrow> 's memory \<Rightarrow> (u32 \<times> 's memory) res" where
  "load16u hs addr m =
    (let b = addr2page addr m
     in if has_flag m b (PAGE_INVALID OR PAGE_READPROT) then Inl (Invalid_Read addr)
        else if has_flag m b PAGE_ACCESSHANDLER then h_load16u hs b addr m
        else Inr (rd16 (mem (blk m b)) (unat (addr AND (ADDRESS_MASK AND NOT 1))), m))"

definition load16s :: "'s handlers \<Rightarrow> u32 \<Rightarrow> 's memory \<Rightarrow> (u32 \<times> 's memory) res" where
  "load16s hs addr m =
    (let b = addr2page addr m
     in if has_flag m b (PAGE_INVALID OR PAGE_READPROT) then Inl (Invalid_Read addr)
        else if has_flag m b PAGE_ACCESSHANDLER then h_load16s hs b addr m
        else Inr (sext16 (rd16 (mem (blk m b)) (unat (addr AND (ADDRESS_MASK AND NOT 1)))), m))"

definition load8u :: "'s handlers \<Rightarrow> u32 \<Rightarrow> 's memory \<Rightarrow> (u32 \<times> 's memory) res" where
  "load8u hs addr m =
    (let b = addr2page addr m
     in if has_flag m b (PAGE_INVALID OR PAGE_READPROT) then Inl (Invalid_Read addr)
        else if has_flag m b PAGE_ACCESSHANDLER then h_load8u hs b addr m
        else Inr (rd8 (mem (blk m b)) (unat (addr AND ADDRESS_MASK)), m))"

text \<open>A raw write into a page's bytes.\<close>

definition poke :: "nat \<Rightarrow> (u8 list \<Rightarrow> u8 list) \<Rightarrow> 's memory \<Rightarrow> 's memory" where
  "poke b f m = upd_blk b (\<lambda>p. p\<lparr>mem := f (mem p)\<rparr>) m"

definition store32 :: "'s handlers \<Rightarrow> u32 \<Rightarrow> u32 \<Rightarrow> 's memory \<Rightarrow> 's memory res" where
  "store32 hs addr v m =
    (let b = addr2page addr m
     in if has_flag m b PAGE_ACCESSHANDLER then h_store32 hs b addr v m
        else if has_flag m b (PAGE_INVALID OR PAGE_WRITEPROT) then Inl (Invalid_Write addr)
        else Inr (dirty b (poke b (wr32 (unat (addr AND (ADDRESS_MASK AND NOT 3))) v) m)))"

definition store16 :: "'s handlers \<Rightarrow> u32 \<Rightarrow> u32 \<Rightarrow> 's memory \<Rightarrow> 's memory res" where
  "store16 hs addr v m =
    (let b = addr2page addr m
     in if has_flag m b PAGE_ACCESSHANDLER then h_store16 hs b addr v m
        else if has_flag m b (PAGE_INVALID OR PAGE_WRITEPROT) then Inl (Invalid_Write addr)
        else Inr (dirty b (poke b (wr16 (unat (addr AND (ADDRESS_MASK AND NOT 1))) v) m)))"

definition store8 :: "'s handlers \<Rightarrow> u32 \<Rightarrow> u32 \<Rightarrow> 's memory \<Rightarrow> 's memory res" where
  "store8 hs addr v m =
    (let b = addr2page addr m
     in if has_flag m b PAGE_ACCESSHANDLER then h_store8 hs b addr v m
        else if has_flag m b (PAGE_INVALID OR PAGE_WRITEPROT OR PAGE_WRITEPROT8)
             then Inl (Invalid_Write addr)
        else Inr (dirty b (poke b (wr8 (unat (addr AND ADDRESS_MASK)) v) m)))"

section \<open>Transfers of several words\<close>

text \<open>The loop of \<^verbatim>\<open>load32_array\<close>: \<open>n\<close> words are left, \<open>b\<close> and \<open>subaddr\<close> are the
  page and the offset reached. The test for the end of the page follows every word, the
  last one included.\<close>

fun load32_loop :: "nat \<Rightarrow> u32 \<Rightarrow> nat \<Rightarrow> nat \<Rightarrow> 's memory \<Rightarrow> u32 list res" where
  "load32_loop 0 addr b subaddr m = Inr []"
| "load32_loop (Suc n) addr b subaddr m =
    (let w = rd32 (mem (blk m b)) subaddr;
         subaddr = subaddr + 4
     in rbind
      (if subaddr = PAGE_SIZE
       then (let addr = addr + word_of_nat PAGE_SIZE;
                 b = addr2page addr m
             in if has_flag m b (PAGE_INVALID OR PAGE_READPROT)
                then Inl (Invalid_Read (addr AND NOT ADDRESS_MASK))
                else load32_loop n addr b 0 m)
       else load32_loop n addr b subaddr m)
      (\<lambda>ws. Inr (w # ws)))"

definition load32_array :: "'s handlers \<Rightarrow> u32 \<Rightarrow> nat \<Rightarrow> 's memory \<Rightarrow> (u32 list \<times> 's memory) res" where
  "load32_array hs addr num m =
    (let addr = addr AND NOT 3;
         b = addr2page addr m
     in if has_flag m b (PAGE_INVALID OR PAGE_READPROT) then Inl (Invalid_Read addr)
        else if has_flag m b PAGE_ACCESSHANDLER then h_load32_array hs b addr num m
        else rbind (load32_loop num addr b (unat (addr AND ADDRESS_MASK)) m) (\<lambda>ws. Inr (ws, m)))"

text \<open>The loop of \<^verbatim>\<open>store32_array\<close>. An unwritable page in the middle stops in the
  debugger with the words before it stored: the state is part of the result.\<close>

fun store32_loop :: "u32 list \<Rightarrow> u32 \<Rightarrow> nat \<Rightarrow> nat \<Rightarrow> 's memory \<Rightarrow> trap option \<times> 's memory" where
  "store32_loop [] addr b subaddr m = (None, dirty b m)"
| "store32_loop (w # ws) addr b subaddr m =
    (let m = poke b (wr32 subaddr w) m;
         subaddr = subaddr + 4
     in if subaddr = PAGE_SIZE
        then (let m = dirty b m;
                  addr = addr + word_of_nat PAGE_SIZE;
                  b = addr2page addr m
              in if has_flag m b (PAGE_INVALID OR PAGE_WRITEPROT)
                 then (Some (Invalid_Write (addr AND NOT ADDRESS_MASK)), m)
                 else store32_loop ws addr b 0 m)
        else store32_loop ws addr b subaddr m)"

definition store32_array :: "'s handlers \<Rightarrow> u32 \<Rightarrow> u32 list \<Rightarrow> 's memory \<Rightarrow> trap option \<times> 's memory" where
  "store32_array hs addr ws m =
    (let b = addr2page addr m
     in if has_flag m b PAGE_ACCESSHANDLER
        then (case h_store32_array hs b addr ws m of Inl t \<Rightarrow> (Some t, m) | Inr m \<Rightarrow> (None, m))
        else if has_flag m b (PAGE_INVALID OR PAGE_WRITEPROT) then (Some (Invalid_Write addr), m)
        else store32_loop ws addr b (unat (addr AND (ADDRESS_MASK AND NOT 3))) m)"

section \<open>Streaming over pages\<close>

text \<open>\<^verbatim>\<open>memory_map<T>::process_memory\<close>: the functor sees the page, the bytes of the
  chunk and its own state. \<open>len\<close> is positive where the code is called with an unsigned
  length; the first chunk is processed even when it is empty.\<close>

function process_rest :: "(memory_block \<Rightarrow> u8 list \<Rightarrow> 'c \<Rightarrow> 'c) \<Rightarrow> u32 \<Rightarrow> nat \<Rightarrow> 's memory \<Rightarrow> 'c \<Rightarrow> 'c" where
  "process_rest f addr len m c =
    (if len = 0 then c
     else
      let todo = min len PAGE_SIZE;
          b = blk m (addr2page addr m);
          c = f b (take todo (mem b)) c
      in process_rest f (addr + word_of_nat todo) (len - todo) m c)"
  by pat_completeness auto

termination process_rest
  by (relation "measure (\<lambda>(_, _, len, _, _). len)") auto

declare process_rest.simps [simp del]

definition process_memory :: "(memory_block \<Rightarrow> u8 list \<Rightarrow> 'c \<Rightarrow> 'c) \<Rightarrow> u32 \<Rightarrow> nat \<Rightarrow> 's memory \<Rightarrow> 'c \<Rightarrow> 'c" where
  "process_memory f addr len m c =
    (let b = blk m (addr2page addr m);
         subaddr = unat (addr AND ADDRESS_MASK);
         left = PAGE_SIZE - subaddr;
         todo = min len left;
         c = f b (take todo (drop subaddr (mem b))) c
     in process_rest f (addr + word_of_nat todo) (len - todo) m c)"

section \<open>The interface of a store\<close>

lemma map_fst_zip_comp: "length xs = length ys \<Longrightarrow> map (f \<circ> fst) (zip xs ys) = map f xs"
  by (simp flip: map_map)

lemma map_snd_zip_comp: "length xs = length ys \<Longrightarrow> map (f \<circ> snd) (zip xs ys) = map f ys"
  by (simp flip: map_map)

text \<open>Writing a list of values, copying along a list of pairs of addresses.\<close>

fun write_all :: "('a \<Rightarrow> 'v \<Rightarrow> 'm \<Rightarrow> 'm) \<Rightarrow> ('a \<times> 'v) list \<Rightarrow> 'm \<Rightarrow> 'm" where
  "write_all wr [] m = m"
| "write_all wr ((a, v) # ps) m = write_all wr ps (wr a v m)"

fun copy_all :: "('a \<Rightarrow> 'm \<Rightarrow> 'v) \<Rightarrow> ('a \<Rightarrow> 'v \<Rightarrow> 'm \<Rightarrow> 'm) \<Rightarrow> ('a \<times> 'a) list \<Rightarrow> 'm \<Rightarrow> 'm" where
  "copy_all rd wr [] m = m"
| "copy_all rd wr ((s, d) # ps) m = copy_all rd wr ps (wr d (rd s m) m)"

text \<open>
  What a client of the memory relies on, for one access width: reads see the last write
  to the same cell (truncated to the width) and no other, and a write moves no cell.
\<close>

locale cell_store =
  fixes plain :: "'m \<Rightarrow> 'a \<Rightarrow> bool"
    and cell :: "'m \<Rightarrow> 'a \<Rightarrow> 'c"
    and rd :: "'a \<Rightarrow> 'm \<Rightarrow> 'v"
    and wr :: "'a \<Rightarrow> 'v \<Rightarrow> 'm \<Rightarrow> 'm"
    and norm :: "'v \<Rightarrow> 'v"
  assumes rd_wr_same: "plain m a \<Longrightarrow> cell m a = cell m b \<Longrightarrow> rd b (wr a v m) = norm v"
    and rd_wr_other: "cell m a \<noteq> cell m b \<Longrightarrow> rd b (wr a v m) = rd b m"
    and plain_wr: "plain (wr a v m) b = plain m b"
    and cell_wr: "cell (wr a v m) b = cell m b"
    and norm_rd: "plain m a \<Longrightarrow> norm (rd a m) = rd a m"
begin

lemma cell_write_all [simp]: "cell (write_all wr ps m) b = cell m b"
  by (induction ps arbitrary: m) (auto simp: cell_wr)

lemma rd_write_all_other:
  "cell m b \<notin> cell m ` fst ` set ps \<Longrightarrow> rd b (write_all wr ps m) = rd b m"
  by (induction ps arbitrary: m) (auto simp: cell_wr rd_wr_other)

text \<open>Values written to distinct cells are all there afterwards.\<close>

lemma rd_write_all:
  "distinct (map (cell m \<circ> fst) ps) \<Longrightarrow> list_all (plain m \<circ> fst) ps \<Longrightarrow>
    map (\<lambda>p. rd (fst p) (write_all wr ps m)) ps = map (norm \<circ> snd) ps"
proof (induction ps arbitrary: m)
  case (Cons p ps)
  obtain a v where p: "p = (a, v)" by (cases p)
  have "cell (wr a v m) a \<notin> cell (wr a v m) ` fst ` set ps"
    using Cons.prems(1) p by (auto simp: cell_wr)
  then have "rd a (write_all wr ps (wr a v m)) = norm v"
    using rd_write_all_other rd_wr_same [of m a a v] Cons.prems(2) p by simp
  then show ?case using Cons p by (simp add: cell_wr plain_wr comp_def)
qed simp

lemma cell_copy [simp]: "cell (copy_all rd wr ps m) b = cell m b"
  by (induction ps arbitrary: m) (auto simp: cell_wr)

lemma plain_copy [simp]: "plain (copy_all rd wr ps m) b = plain m b"
proof (induction ps arbitrary: m)
  case (Cons p ps)
  then show ?case by (cases p) (simp add: plain_wr)
qed simp

lemma rd_copy_other:
  "cell m b \<notin> cell m ` snd ` set ps \<Longrightarrow> rd b (copy_all rd wr ps m) = rd b m"
  by (induction ps arbitrary: m) (auto simp: cell_wr rd_wr_other)

text \<open>A copy between disjoint sets of cells moves every value.\<close>

lemma rd_copy:
  "distinct (map (cell m \<circ> snd) ps) \<Longrightarrow> list_all (\<lambda>p. plain m (fst p) \<and> plain m (snd p)) ps \<Longrightarrow>
    (cell m \<circ> fst) ` set ps \<inter> (cell m \<circ> snd) ` set ps = {} \<Longrightarrow>
    map (\<lambda>p. rd (snd p) (copy_all rd wr ps m)) ps = map (\<lambda>p. rd (fst p) m) ps"
proof (induction ps arbitrary: m)
  case (Cons p ps)
  obtain s d where p: "p = (s, d)" by (cases p)
  let ?m = "wr d (rd s m) m"
  have "cell ?m d \<notin> cell ?m ` snd ` set ps"
    using Cons.prems(1) p by (auto simp: cell_wr)
  then have "rd d (copy_all rd wr ps ?m) = rd s m"
    using rd_copy_other rd_wr_same [of m d d "rd s m"] norm_rd Cons.prems(2) p by simp
  moreover have "rd (fst q) ?m = rd (fst q) m" if "q \<in> set ps" for q
    using Cons.prems(3) that p by (intro rd_wr_other) auto
  ultimately show ?case using Cons p by (auto simp: cell_wr plain_wr comp_def)
qed simp

end

section \<open>Words, halves and bytes of plain pages\<close>

definition off32 :: "u32 \<Rightarrow> nat" where "off32 a = unat (a AND (ADDRESS_MASK AND NOT 3))"
definition off16 :: "u32 \<Rightarrow> nat" where "off16 a = unat (a AND (ADDRESS_MASK AND NOT 1))"
definition off8 :: "u32 \<Rightarrow> nat" where "off8 a = unat (a AND ADDRESS_MASK)"

text \<open>A page that is readable and writable without a handler.\<close>

definition plain_page :: "'s memory \<Rightarrow> u32 \<Rightarrow> bool" where
  "plain_page m a =
    (let b = addr2page a m
     in flags (blk m b) AND (PAGE_INVALID OR PAGE_READPROT OR PAGE_WRITEPROT OR PAGE_WRITEPROT8 OR
          PAGE_ACCESSHANDLER) = 0 \<and> length (mem (blk m b)) = PAGE_SIZE)"

definition cell32 :: "'s memory \<Rightarrow> u32 \<Rightarrow> nat \<times> nat" where
  "cell32 m a = (addr2page a m, off32 a)"

definition cell16 :: "'s memory \<Rightarrow> u32 \<Rightarrow> nat \<times> nat" where
  "cell16 m a = (addr2page a m, off16 a)"

definition cell8 :: "'s memory \<Rightarrow> u32 \<Rightarrow> nat \<times> nat" where
  "cell8 m a = (addr2page a m, off8 a)"

definition peek32 :: "u32 \<Rightarrow> 's memory \<Rightarrow> u32" where
  "peek32 a m = rd32 (mem (blk m (addr2page a m))) (off32 a)"

definition peek16 :: "u32 \<Rightarrow> 's memory \<Rightarrow> u32" where
  "peek16 a m = rd16 (mem (blk m (addr2page a m))) (off16 a)"

definition peek8 :: "u32 \<Rightarrow> 's memory \<Rightarrow> u32" where
  "peek8 a m = rd8 (mem (blk m (addr2page a m))) (off8 a)"

definition poke32 :: "u32 \<Rightarrow> u32 \<Rightarrow> 's memory \<Rightarrow> 's memory" where
  "poke32 a v m = dirty (addr2page a m) (poke (addr2page a m) (wr32 (off32 a) v) m)"

definition poke16 :: "u32 \<Rightarrow> u32 \<Rightarrow> 's memory \<Rightarrow> 's memory" where
  "poke16 a v m = dirty (addr2page a m) (poke (addr2page a m) (wr16 (off16 a) v) m)"

definition poke8 :: "u32 \<Rightarrow> u32 \<Rightarrow> 's memory \<Rightarrow> 's memory" where
  "poke8 a v m = dirty (addr2page a m) (poke (addr2page a m) (wr8 (off8 a) v) m)"

lemmas peek_poke_defs = peek32_def peek16_def peek8_def poke32_def poke16_def poke8_def
  cell32_def cell16_def cell8_def dirty_def poke_def upd_blk_def addr2page_def

lemma off32_less: "off32 a + 3 < PAGE_SIZE"
proof -
  have "a AND 508 \<le> 508" by (rule word_and_le1)
  then show ?thesis by (simp add: off32_def word_le_nat_alt)
qed

lemma off16_less: "off16 a + 1 < PAGE_SIZE"
proof -
  have "a AND 510 \<le> 510" by (rule word_and_le1)
  then show ?thesis by (simp add: off16_def word_le_nat_alt)
qed

lemma off8_less: "off8 a < PAGE_SIZE"
proof -
  have "a AND 511 \<le> 511" by (rule word_and_le1)
  then show ?thesis by (simp add: off8_def word_le_nat_alt)
qed

lemma off32_dvd: "4 dvd off32 a"
proof -
  have "take_bit 2 (a AND 508) = 0"
    by (rule u32_eqI) (simp add: bit_simps)
  then have "take_bit 2 (off32 a) = 0" by (simp add: off32_def flip: unsigned_take_bit_eq)
  then show ?thesis by (simp add: take_bit_eq_0_iff)
qed

lemma off16_dvd: "2 dvd off16 a"
proof -
  have "take_bit 1 (a AND 510) = 0"
    by (rule u32_eqI) (simp add: bit_simps)
  then have "take_bit 1 (off16 a) = 0" by (simp only: off16_def flip: unsigned_take_bit_eq) simp
  then show ?thesis by (simp add: even_iff_mod_2_eq_zero)
qed

lemma rd32_wr32_other:
  assumes "4 dvd i" "4 dvd j" "i \<noteq> j"
  shows "rd32 (wr32 i v m) j = rd32 m j"
proof -
  from assms obtain x y where "i = 4 * x" "j = 4 * y" "x \<noteq> y" by (auto simp: dvd_def)
  then have "j + k < i \<or> i + 3 < j + k" if "k < 4" for k using that by arith
  from this [of 0] this [of 1] this [of 2] this [of 3] show ?thesis
    by (simp add: rd32_def nth_wr32)
qed

lemma rd16_wr16_other:
  assumes "2 dvd i" "2 dvd j" "i \<noteq> j"
  shows "rd16 (wr16 i v m) j = rd16 m j"
proof -
  from assms obtain x y where "i = 2 * x" "j = 2 * y" "x \<noteq> y" by (auto simp: dvd_def)
  then have "j + k < i \<or> i + 1 < j + k" if "k < 2" for k using that by arith
  from this [of 0] this [of 1] show ?thesis by (simp add: rd16_def nth_wr16)
qed

lemma rd16_norm: "rd16 m i AND 0xFFFF = rd16 m i"
  by (rule u32_eqI) (simp add: rd16_def bit_simps)

lemma rd8_norm: "rd8 m i AND 0xFF = rd8 m i"
  by (rule u32_eqI) (simp add: rd8_def bit_simps)

lemma rd8_wr8_other: "i \<noteq> j \<Longrightarrow> rd8 (wr8 i v m) j = rd8 m j"
  by (simp add: rd8_def nth_wr8)

lemma flags_dirty_masked: "(f OR PAGE_DIRTY) AND (k AND NOT PAGE_DIRTY) = f AND (k AND NOT PAGE_DIRTY)"
  by (rule bit_word_eqI) (auto simp: bit_simps)

text \<open>The dirty flags are none of the protection flags.\<close>

lemma dirty_prot:
  "(f OR PAGE_DIRTY) AND 0x300B = f AND 0x300B" "(f OR PAGE_DIRTY) AND 0x1000 = f AND 0x1000"
  "(f OR PAGE_DIRTY) AND 0x9 = f AND 0x9" "(f OR PAGE_DIRTY) AND 0xA = f AND 0xA"
  "(f OR PAGE_DIRTY) AND 0x200A = f AND 0x200A"
  using flags_dirty_masked [of f "0x300B"] flags_dirty_masked [of f "0x1000"]
    flags_dirty_masked [of f "0x9"] flags_dirty_masked [of f "0xA"] flags_dirty_masked [of f "0x200A"]
  by simp_all

lemma plain_flags:
  "plain_page m a = (flags (blk m (addr2page a m)) AND 0x300B = 0 \<and>
     length (mem (blk m (addr2page a m))) = PAGE_SIZE)"
  by (simp add: plain_page_def Let_def)

interpretation words: cell_store plain_page cell32 peek32 poke32 "\<lambda>v. v"
  by unfold_locales
    (auto simp: peek_poke_defs plain_flags rd32_wr32 rd32_wr32_other off32_less off32_dvd dirty_prot)

interpretation halves: cell_store plain_page cell16 peek16 poke16 "\<lambda>v. v AND 0xFFFF"
  by unfold_locales
    (auto simp: peek_poke_defs plain_flags rd16_wr16 rd16_wr16_other off16_less [simplified] off16_dvd dirty_prot
      rd16_norm)

interpretation bytes: cell_store plain_page cell8 peek8 poke8 "\<lambda>v. v AND 0xFF"
  by unfold_locales
    (auto simp: peek_poke_defs plain_flags rd8_wr8 rd8_wr8_other off8_less dirty_prot rd8_norm)

section \<open>The accesses on plain pages\<close>

text \<open>\<^verbatim>\<open>_rotr(word, (addr & 3) << 3)\<close>\<close>

definition rotated :: "u32 \<Rightarrow> u32 \<Rightarrow> u32" where
  "rotated addr w = word_rotr (unat (push_bit 3 (addr AND 3))) w"

lemma flags_below: "(f::u32) AND k = 0 \<Longrightarrow> f AND (k AND j) = 0"
  by (simp flip: and.assoc)

lemma plain_no_flag:
  assumes "plain_page m a"
  shows "\<not> has_flag m (addr2page a m) PAGE_ACCESSHANDLER"
    and "\<not> has_flag m (addr2page a m) (PAGE_INVALID OR PAGE_READPROT)"
    and "\<not> has_flag m (addr2page a m) (PAGE_INVALID OR PAGE_WRITEPROT)"
    and "\<not> has_flag m (addr2page a m) (PAGE_INVALID OR PAGE_WRITEPROT OR PAGE_WRITEPROT8)"
proof -
  have z: "flags (blk m (addr2page a m)) AND 0x300B = 0"
    using assms by (simp add: plain_flags)
  show "\<not> has_flag m (addr2page a m) PAGE_ACCESSHANDLER"
    using flags_below [OF z, of "0x1000"] by (simp add: has_flag_def)
  show "\<not> has_flag m (addr2page a m) (PAGE_INVALID OR PAGE_READPROT)"
    using flags_below [OF z, of 9] by (simp add: has_flag_def)
  show "\<not> has_flag m (addr2page a m) (PAGE_INVALID OR PAGE_WRITEPROT)"
    using flags_below [OF z, of 10] by (simp add: has_flag_def)
  show "\<not> has_flag m (addr2page a m) (PAGE_INVALID OR PAGE_WRITEPROT OR PAGE_WRITEPROT8)"
    using flags_below [OF z, of "0x200A"] by (simp add: has_flag_def)
qed

lemma load_plain:
  assumes "plain_page m a"
  shows "load32 hs a m = Inr (rotated a (peek32 a m), m)"
    and "load16u hs a m = Inr (peek16 a m, m)"
    and "load16s hs a m = Inr (sext16 (peek16 a m), m)"
    and "load8u hs a m = Inr (peek8 a m, m)"
  using plain_no_flag [OF assms]
  by (simp_all add: load32_def load16u_def load16s_def load8u_def Let_def peek32_def peek16_def peek8_def
      off32_def off16_def off8_def rotated_def)

lemma store_plain:
  assumes "plain_page m a"
  shows "store32 hs a v m = Inr (poke32 a v m)"
    and "store16 hs a v m = Inr (poke16 a v m)"
    and "store8 hs a v m = Inr (poke8 a v m)"
  using plain_no_flag [OF assms]
  by (simp_all add: store32_def store16_def store8_def Let_def poke32_def poke16_def poke8_def
      off32_def off16_def off8_def)

text \<open>
  C12: on plain memory pages every load sees the last store to the same cell of the same
  width (rotated by the misalignment for words, truncated for halfwords and bytes) and
  nothing else of it, whatever the page table: two addresses are the same cell exactly
  when their pages are mapped to the same block and their aligned offsets agree, so
  mirrored pages show each other's stores.
\<close>

theorem store_load:
  assumes "plain_page m a" and "plain_page m b"
  shows "(\<exists>m'. store32 hs a v m = Inr m' \<and>
           load32 hs b m' = Inr (rotated b (if cell32 m b = cell32 m a then v else peek32 b m), m')) \<and>
    (\<exists>m'. store16 hs a v m = Inr m' \<and>
           load16u hs b m' = Inr (if cell16 m b = cell16 m a then v AND 0xFFFF else peek16 b m, m')) \<and>
    (\<exists>m'. store8 hs a v m = Inr m' \<and>
           load8u hs b m' = Inr (if cell8 m b = cell8 m a then v AND 0xFF else peek8 b m, m')) \<and>
    load32 hs b m = Inr (rotated b (peek32 b m), m) \<and> load16u hs b m = Inr (peek16 b m, m) \<and>
    load8u hs b m = Inr (peek8 b m, m)"
proof -
  have "plain_page (poke32 a v m) b" "plain_page (poke16 a v m) b" "plain_page (poke8 a v m) b"
    using assms(2) by (simp_all add: words.plain_wr halves.plain_wr bytes.plain_wr)
  moreover have "peek32 b (poke32 a v m) = (if cell32 m b = cell32 m a then v else peek32 b m)"
    using words.rd_wr_same [OF assms(1), of b v] words.rd_wr_other [of m a b v] by auto
  moreover have "peek16 b (poke16 a v m) = (if cell16 m b = cell16 m a then v AND 0xFFFF else peek16 b m)"
    using halves.rd_wr_same [OF assms(1), of b v] halves.rd_wr_other [of m a b v] by auto
  moreover have "peek8 b (poke8 a v m) = (if cell8 m b = cell8 m a then v AND 0xFF else peek8 b m)"
    using bytes.rd_wr_same [OF assms(1), of b v] bytes.rd_wr_other [of m a b v] by auto
  ultimately show ?thesis
    using load_plain [OF assms(2)] store_plain [OF assms(1)] by (simp add: load_plain)
qed

text \<open>Regions without handlers; two blocks, pages 1 and 2 are mirrors of block 1.\<close>

definition no_handlers :: "unit handlers" where
  "no_handlers =
    \<lparr>h_load32 = \<lambda>_ a _. Inl (Invalid_Read a), h_load16u = \<lambda>_ a _. Inl (Invalid_Read a),
     h_load16s = \<lambda>_ a _. Inl (Invalid_Read a), h_load8u = \<lambda>_ a _. Inl (Invalid_Read a),
     h_load32_array = \<lambda>_ a _ _. Inl (Invalid_Read a), h_store32 = \<lambda>_ a _ _. Inl (Invalid_Write a),
     h_store16 = \<lambda>_ a _ _. Inl (Invalid_Write a), h_store8 = \<lambda>_ a _ _. Inl (Invalid_Write a),
     h_store32_array = \<lambda>_ a _ _. Inl (Invalid_Write a)\<rparr>"

definition mem0 :: "unit memory" where
  "mem0 = \<lparr>blk = (\<lambda>_. \<lparr>flags = 0, mem = replicate 512 0\<rparr>),
     pmap = (\<lambda>p. if p = 1 \<or> p = 2 then 1 else 0), io = ()\<rparr>"

lemma plain_mem0: "plain_page mem0 a"
  by (simp add: plain_flags mem0_def)

lemma store_load_witness:
  "\<exists>m'. store32 no_handlers 0x200 5 mem0 = Inr m' \<and> load32 no_handlers 0x401 m' = Inr (rotated 0x401 5, m')"
proof -
  have "cell32 mem0 0x401 = cell32 mem0 0x200"
    by (simp add: cell32_def addr2page_def off32_def mem0_def)
  then show ?thesis
    using store_load [OF plain_mem0 plain_mem0, of no_handlers "0x200" 5 "0x401"] by simp
qed

section \<open>Transfers of several words on plain pages\<close>

definition word_addrs :: "u32 \<Rightarrow> nat \<Rightarrow> u32 list" where
  "word_addrs a n = map (\<lambda>i. a + 4 * word_of_nat i) [0..<n]"

lemma word_addrs_0 [simp]: "word_addrs a 0 = []"
  by (simp add: word_addrs_def)

lemma word_addrs_Suc [simp]: "word_addrs a (Suc n) = a # word_addrs (a + 4) n"
  by (simp add: word_addrs_def upt_conv_Cons map_Suc_upt [symmetric] comp_def algebra_simps del: upt_Suc)

lemma length_word_addrs [simp]: "length (word_addrs a n) = n"
  by (simp add: word_addrs_def)

lemma unat_page: "unat (drop_bit 9 (x::u32)) = unat x div 512"
  unfolding unat_drop_bit_eq by (simp add: drop_bit_eq_div)

lemma mod_mod_page: "(z mod 4294967296) mod 512 = z mod (512::nat)" "(z mod 4294967296) mod 4 = z mod (4::nat)"
  by (rule mod_mod_cancel, simp)+

lemma mod_div_page: "(z mod 4294967296) div 512 = z div 512 mod (8388608::nat)"
  using mod_mult2_eq [of z 512 8388608] by simp

lemma unat_add_u32: "unat (x + y :: u32) = (unat x + unat y) mod 4294967296"
  by (simp add: unat_word_ariths(1))

lemma page_add: "drop_bit 9 x = drop_bit 9 y \<Longrightarrow> drop_bit 9 (x + 512) = drop_bit 9 (y + 512 :: u32)"
proof -
  assume "drop_bit 9 x = drop_bit 9 y"
  then have "unat x div 512 = unat y div 512" by (metis unat_page)
  then have "(unat x + 512) div 512 = (unat y + 512) div 512"
    by (simp only: div_add_self2 numeral_neq_zero not_False_eq_True)
  then have "unat (drop_bit 9 (x + 512)) = unat (drop_bit 9 (y + 512))"
    unfolding unat_page unat_add_u32 by (simp add: mod_div_page)
  then show ?thesis by (simp add: word_unat_eq_iff)
qed

lemma aligned_off32:
  assumes "x AND 3 = 0"
  shows "off32 x = unat x mod 512"
proof -
  have low: "bit (x AND 3) 0 = bit x 0" "bit (x AND 3) (Suc 0) = bit x (Suc 0)"
    by (simp_all add: bit_simps)
  have "x AND 508 = take_bit 9 x"
    using low assms by (intro u32_eqI) (simp add: bit_simps)
  then show ?thesis unfolding off32_def by (simp add: unsigned_take_bit_eq) (simp add: take_bit_eq_mod)
qed

lemma next_word:
  assumes "x AND 3 = 0"
  shows "(x + 4) AND 3 = 0"
    and "off32 x + 4 = 512 \<Longrightarrow> drop_bit 9 (x + 4) = drop_bit 9 (x + 512) \<and> off32 (x + 4) = 0"
    and "off32 x + 4 \<noteq> 512 \<Longrightarrow> drop_bit 9 (x + 4) = drop_bit 9 x \<and> off32 (x + 4) = off32 x + 4"
proof -
  let ?x = "unat x"
  have m4: "?x mod 4 = 0" and off: "off32 x = ?x mod 512"
    using assms by (simp_all add: aligned_mod4 aligned_off32)
  have "unat (x + 4) mod 4 = 0" using m4 by (simp add: unat_add_u32 mod_mod_page)
  then show al: "(x + 4) AND 3 = 0" by (simp only: aligned_mod4)
  have lt: "?x < 4294967296" using unsigned_less [of x, where 'a = nat] by simp
  have off': "off32 (x + 4) = (?x + 4) mod 512"
    using aligned_off32 [OF al] by (simp add: unat_add_u32 mod_mod_page)
  obtain p k where x: "?x = 512 * p + 4 * k" and k: "k < 128"
  proof -
    have "?x mod 512 mod 4 = 0" using m4 mod_mod_cancel [of 4 512 ?x] by simp
    then obtain k where "?x mod 512 = 4 * k" by (auto simp: mod_eq_0_iff_dvd)
    moreover have "?x mod 512 < 512" by simp
    moreover have "?x = 512 * (?x div 512) + ?x mod 512" by (simp only: mult_div_mod_eq)
    ultimately have "?x = 512 * (?x div 512) + 4 * k" "k < 128" by simp_all
    then show ?thesis by (rule that)
  qed
  have offk: "off32 x = 4 * k" using off x k by simp
  show "drop_bit 9 (x + 4) = drop_bit 9 (x + 512) \<and> off32 (x + 4) = 0" if "off32 x + 4 = 512"
  proof -
    have eq: "?x + 4 = 512 * (p + 1)" using that offk x by simp
    have "(?x + 4) div 512 = (?x + 512) div 512" "(?x + 4) mod 512 = 0"
      unfolding eq using x k by simp_all
    then have "unat (drop_bit 9 (x + 4)) = unat (drop_bit 9 (x + 512))"
      unfolding unat_page unat_add_u32 by (simp add: mod_div_page)
    then show ?thesis using off' \<open>(?x + 4) mod 512 = 0\<close> by (simp add: word_unat_eq_iff)
  qed
  show "drop_bit 9 (x + 4) = drop_bit 9 x \<and> off32 (x + 4) = off32 x + 4" if "off32 x + 4 \<noteq> 512"
  proof -
    have lt': "4 * k + 4 < 512" using that offk k by simp
    have eq: "?x + 4 = (4 * k + 4) + 512 * p" using x by simp
    have d: "(?x + 4) div 512 = p" "(?x + 4) mod 512 = 4 * k + 4" "?x div 512 = p"
      unfolding eq using lt' x k by simp_all
    have "p < 8388608" using lt x by simp
    then have "unat (drop_bit 9 (x + 4)) = unat (drop_bit 9 x)"
      unfolding unat_page unat_add_u32 by (simp add: mod_div_page d)
    then show ?thesis using off' offk d by (simp add: word_unat_eq_iff)
  qed
qed

text \<open>Two memories with the same bytes, the same mapping and the same protection.\<close>

definition same_bytes :: "'s memory \<Rightarrow> 's memory \<Rightarrow> bool" where
  "same_bytes m m' = (pmap m = pmap m' \<and> io m = io m' \<and> (\<forall>b. mem (blk m b) = mem (blk m' b)) \<and>
     (\<forall>b. flags (blk m b) AND NOT PAGE_DIRTY = flags (blk m' b) AND NOT PAGE_DIRTY))"

lemma same_bytes_refl: "same_bytes m m"
  by (simp add: same_bytes_def)

lemma same_bytes_trans: "same_bytes a b \<Longrightarrow> same_bytes b c \<Longrightarrow> same_bytes a c"
  by (simp add: same_bytes_def)

lemma same_bytes_sym: "same_bytes a b \<Longrightarrow> same_bytes b a"
  by (simp add: same_bytes_def)

lemma dirty_not_dirty: "(f OR PAGE_DIRTY) AND NOT PAGE_DIRTY = f AND NOT (PAGE_DIRTY :: u32)"
  by (rule bit_word_eqI) (auto simp: bit_simps)

lemma same_bytes_dirty: "same_bytes (dirty b m) m"
  by (simp add: same_bytes_def dirty_def upd_blk_def dirty_not_dirty [simplified])

lemma same_bytes_poke: "same_bytes m m' \<Longrightarrow> same_bytes (poke b f m) (poke b f m')"
  by (simp add: same_bytes_def poke_def upd_blk_def)

lemma masked_flags:
  assumes "f AND NOT PAGE_DIRTY = g AND NOT (PAGE_DIRTY :: u32)" and "k AND PAGE_DIRTY = 0"
  shows "f AND k = g AND k"
proof -
  have "NOT PAGE_DIRTY AND k = (k :: u32)"
    using assms(2) by (intro bit_word_eqI) (auto simp: bit_simps bit_eq_iff)
  then have "h AND k = (h AND NOT PAGE_DIRTY) AND k" for h :: u32
    by (simp only: and.assoc)
  then show ?thesis using assms(1) by metis
qed

lemma same_bytes_plain: "same_bytes m m' \<Longrightarrow> plain_page m a = plain_page m' a"
  using masked_flags [of "flags (blk m (addr2page a m'))" "flags (blk m' (addr2page a m'))" "0x300B"]
  by (simp add: same_bytes_def plain_flags addr2page_def)

lemma same_bytes_peek32: "same_bytes m m' \<Longrightarrow> peek32 a m = peek32 a m'"
  by (simp add: same_bytes_def peek32_def addr2page_def)

lemma same_bytes_cell32: "same_bytes m m' \<Longrightarrow> cell32 m a = cell32 m' a"
  by (simp add: same_bytes_def cell32_def addr2page_def)

lemma same_bytes_poke32: "same_bytes m m' \<Longrightarrow> same_bytes (poke32 a v m) (poke32 a v m')"
  unfolding poke32_def
  by (rule same_bytes_trans [OF same_bytes_dirty same_bytes_trans [OF _ same_bytes_sym [OF same_bytes_dirty]]])
    (simp add: same_bytes_def poke_def upd_blk_def addr2page_def)

lemma same_bytes_write_all:
  "same_bytes m m' \<Longrightarrow> same_bytes (write_all poke32 ps m) (write_all poke32 ps m')"
proof (induction ps arbitrary: m m')
  case (Cons p ps)
  then show ?case by (cases p) (simp add: same_bytes_poke32)
qed simp

lemma plain_write_all: "plain_page (write_all poke32 ps m) a = plain_page m a"
proof (induction ps arbitrary: m)
  case (Cons p ps)
  then show ?case by (cases p) (simp add: words.plain_wr)
qed simp

lemma load32_loop_plain:
  "list_all (plain_page m) (word_addrs x (Suc n)) \<Longrightarrow> x AND 3 = 0 \<Longrightarrow>
    drop_bit 9 addr = drop_bit 9 x \<Longrightarrow> b = addr2page x m \<Longrightarrow> sub = off32 x \<Longrightarrow>
    load32_loop n addr b sub m = Inr (map (\<lambda>a. peek32 a m) (word_addrs x n))"
proof (induction n arbitrary: x addr b sub)
  case 0
  then show ?case by simp
next
  case (Suc n)
  have rest: "list_all (plain_page m) (word_addrs (x + 4) (Suc n))" and al: "(x + 4) AND 3 = 0"
    using Suc.prems(1) next_word(1) [OF Suc.prems(2)] by simp_all
  have w: "rd32 (mem (blk m b)) sub = peek32 x m"
    using Suc.prems by (simp add: peek32_def)
  show ?case
  proof (cases "sub + 4 = 512")
    case True
    then have pg: "drop_bit 9 (addr + 512) = drop_bit 9 (x + 4)" and off: "off32 (x + 4) = 0"
      using next_word(2) [OF Suc.prems(2)] Suc.prems(3,5) page_add [of addr x] by simp_all
    then have b': "addr2page (addr + 512) m = addr2page (x + 4) m" by (simp add: addr2page_def)
    have "plain_page m (x + 4)" using Suc.prems(1) by simp
    then have "\<not> has_flag m (addr2page (x + 4) m) (PAGE_INVALID OR PAGE_READPROT)"
      by (rule plain_no_flag(2))
    then show ?thesis
      using Suc.IH [OF rest al pg refl, of 0] True off w by (simp add: b')
  next
    case False
    then have pg: "drop_bit 9 addr = drop_bit 9 (x + 4)" and off: "sub + 4 = off32 (x + 4)"
      using next_word(3) [OF Suc.prems(2)] Suc.prems(3,5) by simp_all
    have b': "b = addr2page (x + 4) m" using Suc.prems(3,4) pg by (simp add: addr2page_def)
    show ?thesis using Suc.IH [OF rest al pg b' off] False w by simp
  qed
qed

lemma store32_loop_plain:
  "list_all (plain_page m) (word_addrs x (Suc (length ws))) \<Longrightarrow> x AND 3 = 0 \<Longrightarrow>
    drop_bit 9 addr = drop_bit 9 x \<Longrightarrow> b = addr2page x m \<Longrightarrow> sub = off32 x \<Longrightarrow>
    \<exists>m'. store32_loop ws addr b sub m = (None, m') \<and>
      same_bytes m' (write_all poke32 (zip (word_addrs x (length ws)) ws) m)"
proof (induction ws arbitrary: x addr b sub m)
  case Nil
  then show ?case by (simp add: same_bytes_dirty)
next
  case (Cons w ws)
  let ?m = "poke b (wr32 sub w) m"
  have same: "same_bytes ?m (poke32 x w m)"
    using Cons.prems(4,5) by (simp add: poke32_def same_bytes_sym [OF same_bytes_dirty])
  have samed: "same_bytes (dirty b ?m) (poke32 x w m)"
    by (rule same_bytes_trans [OF same_bytes_dirty same])
  have pm: "addr2page y ?m = addr2page y m" "addr2page y (dirty b ?m) = addr2page y m" for y
    by (simp_all add: addr2page_def poke_def dirty_def upd_blk_def)
  have pl: "plain_page ?m a = plain_page m a" "plain_page (dirty b ?m) a = plain_page m a" for a
    using same_bytes_plain [OF same] same_bytes_plain [OF samed] words.plain_wr by metis+
  have rest: "list_all (plain_page m) (word_addrs (x + 4) (Suc (length ws)))" and al: "(x + 4) AND 3 = 0"
    using Cons.prems(1) next_word(1) [OF Cons.prems(2)] by simp_all
  have goal: "\<exists>m'. r = (None, m') \<and> same_bytes m'
      (write_all poke32 (zip (word_addrs x (length (w # ws))) (w # ws)) m)"
    if "\<exists>m'. r = (None, m') \<and> same_bytes m' (write_all poke32 (zip (word_addrs (x + 4) (length ws)) ws) n)"
      and "same_bytes n (poke32 x w m)" for r :: "trap option \<times> 'a memory" and n
    using that(1) same_bytes_write_all [OF that(2)] by (auto intro: same_bytes_trans)
  show ?case
  proof (cases "sub + 4 = 512")
    case True
    then have pg: "drop_bit 9 (addr + 512) = drop_bit 9 (x + 4)" and off: "0 = off32 (x + 4)"
      using next_word(2) [OF Cons.prems(2)] Cons.prems(3,5) page_add [of addr x] by simp_all
    then have b': "addr2page (addr + 512) n = addr2page (x + 4) n" for n :: "'a memory" by (simp add: addr2page_def)
    have "plain_page (dirty b ?m) (x + 4)" using Cons.prems(1) by (simp add: pl)
    then have "\<not> has_flag (dirty b ?m) (addr2page (x + 4) (dirty b ?m)) (PAGE_INVALID OR PAGE_WRITEPROT)"
      by (rule plain_no_flag(3))
    then have "store32_loop (w # ws) addr b sub m =
        store32_loop ws (addr + 512) (addr2page (x + 4) (dirty b ?m)) 0 (dirty b ?m)"
      using True by (simp add: b' Let_def)
    moreover have "list_all (plain_page (dirty b ?m)) (word_addrs (x + 4) (Suc (length ws)))"
      using rest by (simp add: list_all_iff pl)
    ultimately show ?thesis using goal [OF _ samed] Cons.IH [OF _ al pg refl off] by metis
  next
    case False
    then have pg: "drop_bit 9 addr = drop_bit 9 (x + 4)" and off: "sub + 4 = off32 (x + 4)"
      using next_word(3) [OF Cons.prems(2)] Cons.prems(3,5) by simp_all
    have b': "b = addr2page (x + 4) ?m" using Cons.prems(3,4) pg by (simp add: addr2page_def pm poke_def upd_blk_def)
    have "store32_loop (w # ws) addr b sub m = store32_loop ws addr b (sub + 4) ?m"
      using False by simp
    moreover have "list_all (plain_page ?m) (word_addrs (x + 4) (Suc (length ws)))"
      using rest by (simp add: list_all_iff pl)
    ultimately show ?thesis using goal [OF _ same] Cons.IH [OF _ al pg b' off] by metis
  qed
qed

text \<open>
  C13: a transfer of several words to plain pages reaches its end, over page boundaries
  and the end of the address space, and reading the same range back gives the words
  written, in order, provided that no two words of the range share a cell of memory.
  The page after the range has to be plain as well: the code looks at it even when the
  last word ends exactly at a page boundary.
\<close>

theorem store_load_array:
  assumes "list_all (plain_page m) (word_addrs (a AND NOT 3) (Suc (length ws)))"
    and "distinct (map (cell32 m) (word_addrs (a AND NOT 3) (length ws)))"
  shows "\<exists>m'. store32_array hs a ws m = (None, m') \<and> load32_array hs a (length ws) m' = Inr (ws, m') \<and>
    (\<forall>b. cell32 m b \<notin> cell32 m ` set (word_addrs (a AND NOT 3) (length ws)) \<longrightarrow> peek32 b m' = peek32 b m)"
proof -
  let ?a = "a AND NOT 3" and ?n = "length ws"
  have al: "?a AND 3 = 0" by (rule u32_eqI) (simp add: bit_simps)
  have pg: "drop_bit 9 a = drop_bit 9 ?a"
  proof -
    have "\<not> bit a k" if "32 \<le> k" for k using that bit_imp_le_length [of a k] by auto
    then show ?thesis by (intro u32_eqI) (simp add: bit_simps)
  qed
  then have page: "addr2page a n = addr2page ?a n" for n :: "'a memory" by (simp add: addr2page_def)
  have off: "off32 a = off32 ?a" unfolding off32_def by (rule arg_cong [of _ _ unat], rule u32_eqI) (simp add: bit_simps)
  have off': "off8 ?a = off32 ?a" unfolding off32_def off8_def
    by (rule arg_cong [of _ _ unat], rule u32_eqI) (simp add: bit_simps)
  have pl: "plain_page m ?a" using assms(1) by simp
  obtain m' where st: "store32_loop ws a (addr2page ?a m) (off32 ?a) m = (None, m')"
    and same: "same_bytes m' (write_all poke32 (zip (word_addrs ?a ?n) ws) m)"
    using store32_loop_plain [OF assms(1) al pg refl refl] by auto
  let ?w = "write_all poke32 (zip (word_addrs ?a ?n) ws) m"
  have pl': "plain_page m' b = plain_page m b" for b
    using same_bytes_plain [OF same] plain_write_all by metis
  then have pls: "list_all (plain_page m') (word_addrs ?a (Suc ?n))"
    using assms(1) by (simp add: list_all_iff)
  have ld: "load32_loop ?n ?a (addr2page ?a m') (off32 ?a) m' = Inr (map (\<lambda>a. peek32 a m') (word_addrs ?a ?n))"
    by (rule load32_loop_plain [OF pls al refl refl refl])
  have "map (\<lambda>a. peek32 a m') (word_addrs ?a ?n) = map (\<lambda>p. peek32 (fst p) ?w) (zip (word_addrs ?a ?n) ws)"
    using map_fst_zip_comp [of "word_addrs ?a ?n" ws "\<lambda>a. peek32 a ?w"] same_bytes_peek32 [OF same]
    by (simp add: comp_def)
  also have "\<dots> = map ((\<lambda>v. v) \<circ> snd) (zip (word_addrs ?a ?n) ws)"
  proof (rule words.rd_write_all)
    show "distinct (map (cell32 m \<circ> fst) (zip (word_addrs ?a ?n) ws))"
      using assms(2) map_fst_zip_comp [of "word_addrs ?a ?n" ws "cell32 m"] by simp
    have "list_all (plain_page m) (word_addrs ?a ?n)"
      using assms(1) by (simp add: word_addrs_def list_all_iff)
    then show "list_all (plain_page m \<circ> fst) (zip (word_addrs ?a ?n) ws)"
      by (auto simp: list_all_iff dest: set_zip_leftD)
  qed
  finally have vals: "map (\<lambda>a. peek32 a m') (word_addrs ?a ?n) = ws"
    using map_snd_zip_comp [of "word_addrs ?a ?n" ws "\<lambda>v. v"] by simp
  have s: "store32_array hs a ws m = (None, m')"
    using plain_no_flag [OF pl] st unfolding store32_array_def Let_def page off32_def [symmetric] off by simp
  have l: "load32_array hs a ?n m' = Inr (ws, m')"
    using plain_no_flag [OF iffD2 [OF pl' pl]] ld vals
    unfolding load32_array_def Let_def off8_def [symmetric] off' by simp
  have "peek32 b m' = peek32 b m" if "cell32 m b \<notin> cell32 m ` set (word_addrs ?a ?n)" for b
  proof -
    have "cell32 m b \<notin> cell32 m ` fst ` set (zip (word_addrs ?a ?n) ws)"
      using that by (auto dest: set_zip_leftD)
    then show ?thesis by (simp add: same_bytes_peek32 [OF same] words.rd_write_all_other)
  qed
  then show ?thesis using s l by blast
qed

text \<open>Two words across the boundary of two pages.\<close>

lemma store_load_array_witness:
  "\<exists>m'. store32_array no_handlers 0x1FC [7, 9] mem0 = (None, m') \<and> load32_array no_handlers 0x1FC 2 m' = Inr ([7, 9], m')"
proof -
  have "list_all (plain_page mem0) (word_addrs (0x1FC AND NOT 3) (Suc (length [7, 9 :: u32])))"
    by (simp add: list_all_iff plain_mem0)
  moreover have "distinct (map (cell32 mem0) (word_addrs (0x1FC AND NOT 3) (length [7, 9 :: u32])))"
    by (simp add: cell32_def addr2page_def off32_def mem0_def)
  ultimately show ?thesis using store_load_array [of mem0 "0x1FC" "[7, 9]" no_handlers]
    unfolding numeral_2_eq_2 by auto
qed

section \<open>Streaming reads the bytes in address order\<close>

definition byte_at :: "'s memory \<Rightarrow> u32 \<Rightarrow> u8" where
  "byte_at m a = mem (blk m (addr2page a m)) ! off8 a"

definition bytes_at :: "'s memory \<Rightarrow> u32 \<Rightarrow> nat \<Rightarrow> u8 list" where
  "bytes_at m a n = map (\<lambda>i. byte_at m (a + word_of_nat i)) [0..<n]"

lemma off8_mod: "off8 a = unat a mod 512"
proof -
  have "a AND 511 = take_bit 9 a" by (rule u32_eqI) (simp add: bit_simps)
  then show ?thesis unfolding off8_def by (simp add: unsigned_take_bit_eq) (simp add: take_bit_eq_mod)
qed

lemma unat_add_nat: "unat (x + word_of_nat i :: u32) = (unat x + i) mod 4294967296"
  by (simp add: unat_add_u32 unat_of_nat mod_simps)

lemma within_page:
  assumes "off8 a + i < 512"
  shows "drop_bit 9 (a + word_of_nat i) = drop_bit 9 a \<and> off8 (a + word_of_nat i) = off8 a + i"
proof -
  let ?p = "unat a div 512"
  have eq: "unat a + i = (off8 a + i) + 512 * ?p" using mod_mult_div_eq [of "unat a" 512] unfolding off8_mod by linarith
  then have d: "(unat a + i) div 512 = ?p" "(unat a + i) mod 512 = off8 a + i"
    unfolding eq using assms by simp_all
  have "unat a < 4294967296" using unsigned_less [of a, where 'a = nat] by simp
  then have "?p < 8388608" by simp
  then have "unat (drop_bit 9 (a + word_of_nat i)) = unat (drop_bit 9 a)"
    unfolding unat_page unat_add_nat by (simp add: mod_div_page d)
  moreover have "off8 (a + word_of_nat i) = off8 a + i"
    unfolding off8_mod [of "a + word_of_nat i"] unat_add_nat by (simp add: mod_mod_page d)
  ultimately show ?thesis by (simp add: word_unat_eq_iff)
qed

lemma take_page:
  assumes "length (mem (blk m (addr2page a m))) = 512" and "off8 a + k \<le> 512"
  shows "take k (drop (off8 a) (mem (blk m (addr2page a m)))) = bytes_at m a k"
proof (rule nth_equalityI)
  show "length (take k (drop (off8 a) (mem (blk m (addr2page a m))))) = length (bytes_at m a k)"
    using assms by (simp add: bytes_at_def)
  fix i assume "i < length (take k (drop (off8 a) (mem (blk m (addr2page a m)))))"
  then have "i < k" by simp
  then show "take k (drop (off8 a) (mem (blk m (addr2page a m)))) ! i = bytes_at m a k ! i"
    using assms within_page [of a i] by (simp add: bytes_at_def byte_at_def addr2page_def)
qed

lemma bytes_at_append: "bytes_at m a (j + k) = bytes_at m a j @ bytes_at m (a + word_of_nat j) k"
  by (rule nth_equalityI) (auto simp: bytes_at_def nth_append algebra_simps simp flip: of_nat_add)

lemma off8_next:
  assumes "off8 a + k = 512" shows "off8 (a + word_of_nat k) = 0"
proof -
  have "(unat a + k) mod 512 = (unat a mod 512 + k) mod 512" by (simp add: mod_simps)
  then have "(unat a + k) mod 512 = 0" using assms unfolding off8_mod by simp
  then show ?thesis unfolding off8_mod unat_add_nat by (simp add: mod_mod_page)
qed

lemma process_rest_fold:
  assumes "\<And>b. length (mem (blk m b)) = 512" and "\<And>b bs c. P b \<Longrightarrow> f b bs (h c) = h (fold g bs c)"
  shows "off8 a = 0 \<Longrightarrow> (\<And>i. i < n \<Longrightarrow> P (blk m (addr2page (a + word_of_nat i) m))) \<Longrightarrow>
    process_rest f a n m (h c) = h (fold g (bytes_at m a n) c)"
proof (induction n arbitrary: a c rule: less_induct)
  case (less n)
  show ?case
  proof (cases "n = 0")
    case False
    have chunk: "take (min n 512) (mem (blk m (addr2page a m))) = bytes_at m a (min n 512)"
      using take_page [of m a "min n 512", OF assms(1)] less.prems by simp
    have P: "P (blk m (addr2page a m))" using less.prems(2) [of 0] False by simp
    have "process_rest f (a + word_of_nat (min n 512)) (n - min n 512) m (h d) =
        h (fold g (bytes_at m (a + word_of_nat (min n 512)) (n - min n 512)) d)" for d
    proof (cases "n \<le> 512")
      case True
      then show ?thesis by (simp add: process_rest.simps bytes_at_def)
    next
      case big: False
      have "P (blk m (addr2page (a + 512 + word_of_nat i) m))" if "i < n - 512" for i
        using less.prems(2) [of "512 + i"] that by (simp add: algebra_simps)
      then show ?thesis
        using big less.IH [of "n - 512" "a + 512" d] off8_next [of a 512] less.prems(1) by simp
    qed
    then show ?thesis
      using False chunk bytes_at_append [of m a "min n 512" "n - min n 512"] assms(2) [OF P]
      by (simp add: process_rest.simps [of _ _ n] Let_def)
  qed (simp add: process_rest.simps bytes_at_def)
qed

text \<open>A functor that consumes single bytes on the pages it accepts gets the bytes of the
  range in order, whatever the chunks; \<open>h\<close> embeds the bytewise state.\<close>

lemma process_memory_fold:
  assumes len: "\<And>b. length (mem (blk m b)) = 512" and f: "\<And>b bs c. P b \<Longrightarrow> f b bs (h c) = h (fold g bs c)"
    and P0: "P (blk m (addr2page addr m))"
    and P: "\<And>i. i < n \<Longrightarrow> P (blk m (addr2page (addr + word_of_nat i) m))"
  shows "process_memory f addr n m (h c) = h (fold g (bytes_at m addr n) c)"
proof -
  let ?k = "min n (512 - off8 addr)"
  have off: "off8 addr < 512" by (rule off8_less)
  have "process_rest f (addr + word_of_nat ?k) (n - ?k) m (h d) =
      h (fold g (bytes_at m (addr + word_of_nat ?k) (n - ?k)) d)" for d
  proof (cases "n \<le> 512 - off8 addr")
    case True
    then show ?thesis by (simp add: process_rest.simps bytes_at_def)
  next
    case False
    have "P (blk m (addr2page (addr + word_of_nat ?k + word_of_nat i) m))" if "i < n - ?k" for i
      using P [of "?k + i"] that by (simp add: algebra_simps)
    then show ?thesis
      using False process_rest_fold [where P = P and f = f and h = h and g = g and a = "addr + word_of_nat ?k"
          and n = "n - ?k", OF len f]
        off8_next [of addr ?k] off by simp
  qed
  moreover have "take ?k (drop (off8 addr) (mem (blk m (addr2page addr m)))) = bytes_at m addr ?k"
    using off by (intro take_page len) simp
  ultimately show ?thesis
    using bytes_at_append [of m addr ?k "n - ?k"] f [OF P0]
    by (simp add: process_memory_def Let_def off8_def [symmetric])
qed

text \<open>
  C14: streaming a range of memory through a functor that consumes bytes one at a time
  gives it exactly the bytes of the range in address order, whatever the alignment and
  the number of pages: the way the range is cut into chunks is not visible.
\<close>

theorem process_memory_in_order:
  assumes "\<And>b. length (mem (blk m b)) = PAGE_SIZE"
  shows "process_memory (\<lambda>_. fold g) addr len m c = fold g (bytes_at m addr len) c"
  by (rule process_memory_fold [where P = "\<lambda>_. True" and h = "\<lambda>c. c"]) (simp_all add: assms)

lemma process_memory_in_order_witness:
  "process_memory (\<lambda>_. fold (\<lambda>b n. n + unat b)) 0x1F0 1000 mem0 0 =
     fold (\<lambda>b n. n + unat b) (bytes_at mem0 0x1F0 1000) 0"
  by (rule process_memory_in_order) (simp add: mem0_def)

section \<open>The page after a transfer\<close>

text \<open>A word stored at the very end of a page stops in the debugger when the next page
  is not writable, although the word itself has been stored.\<close>

definition mem_edge :: "unit memory" where
  "mem_edge = mem0\<lparr>blk := (blk mem0)(1 := (blk mem0 1)\<lparr>flags := PAGE_WRITEPROT\<rparr>)\<rparr>"

lemma array_end_touches_next_page:
  "fst (store32_array hs 0x1FC [7] mem_edge) = Some (Invalid_Write 0x200) \<and>
   peek32 0x1FC (snd (store32_array hs 0x1FC [7] mem_edge)) = 7"
proof -
  have "store32_array hs 0x1FC [7] mem_edge =
      (Some (Invalid_Write 0x200), dirty 0 (poke 0 (wr32 508 7) mem_edge))"
    by (simp add: store32_array_def Let_def addr2page_def has_flag_def mem_edge_def mem0_def
        dirty_def poke_def upd_blk_def)
  then show ?thesis
    by (simp add: peek32_def addr2page_def off32_def mem_edge_def mem0_def dirty_def poke_def upd_blk_def rd32_wr32)
qed

end
