(* ===== verification/Crc16.thy ===== *)
theory Crc16
  imports Memory
begin

text \<open>
  The checksum of \<^verbatim>\<open>Core/Util.cpp\<close> and its streaming use by the software interrupt
  (\<^verbatim>\<open>stream_crc16\<close>, \<^verbatim>\<open>crc16_direct\<close> of \<^verbatim>\<open>Core/HLE.cpp\<close>). The
  table-driven routine is the bitwise division by the reflected polynomial
  \<^verbatim>\<open>0xA001\<close>; it detects every change of one byte.
\<close>

section \<open>The routine\<close>

definition crc16tab :: "u16 list" where
  "crc16tab =
   [0x0000, 0xC0C1, 0xC181, 0x0140, 0xC301, 0x03C0, 0x0280, 0xC241,
    0xC601, 0x06C0, 0x0780, 0xC741, 0x0500, 0xC5C1, 0xC481, 0x0440,
    0xCC01, 0x0CC0, 0x0D80, 0xCD41, 0x0F00, 0xCFC1, 0xCE81, 0x0E40,
    0x0A00, 0xCAC1, 0xCB81, 0x0B40, 0xC901, 0x09C0, 0x0880, 0xC841,
    0xD801, 0x18C0, 0x1980, 0xD941, 0x1B00, 0xDBC1, 0xDA81, 0x1A40,
    0x1E00, 0xDEC1, 0xDF81, 0x1F40, 0xDD01, 0x1DC0, 0x1C80, 0xDC41,
    0x1400, 0xD4C1, 0xD581, 0x1540, 0xD701, 0x17C0, 0x1680, 0xD641,
    0xD201, 0x12C0, 0x1380, 0xD341, 0x1100, 0xD1C1, 0xD081, 0x1040,
    0xF001, 0x30C0, 0x3180, 0xF141, 0x3300, 0xF3C1, 0xF281, 0x3240,
    0x3600, 0xF6C1, 0xF781, 0x3740, 0xF501, 0x35C0, 0x3480, 0xF441,
    0x3C00, 0xFCC1, 0xFD81, 0x3D40, 0xFF01, 0x3FC0, 0x3E80, 0xFE41,
    0xFA01, 0x3AC0, 0x3B80, 0xFB41, 0x3900, 0xF9C1, 0xF881, 0x3840,
    0x2800, 0xE8C1, 0xE981, 0x2940, 0xEB01, 0x2BC0, 0x2A80, 0xEA41,
    0xEE01, 0x2EC0, 0x2F80, 0xEF41, 0x2D00, 0xEDC1, 0xEC81, 0x2C40,
    0xE401, 0x24C0, 0x2580, 0xE541, 0x2700, 0xE7C1, 0xE681, 0x2640,
    0x2200, 0xE2C1, 0xE381, 0x2340, 0xE101, 0x21C0, 0x2080, 0xE041,
    0xA001, 0x60C0, 0x6180, 0xA141, 0x6300, 0xA3C1, 0xA281, 0x6240,
    0x6600, 0xA6C1, 0xA781, 0x6740, 0xA501, 0x65C0, 0x6480, 0xA441,
    0x6C00, 0xACC1, 0xAD81, 0x6D40, 0xAF01, 0x6FC0, 0x6E80, 0xAE41,
    0xAA01, 0x6AC0, 0x6B80, 0xAB41, 0x6900, 0xA9C1, 0xA881, 0x6840,
    0x7800, 0xB8C1, 0xB981, 0x7940, 0xBB01, 0x7BC0, 0x7A80, 0xBA41,
    0xBE01, 0x7EC0, 0x7F80, 0xBF41, 0x7D00, 0xBDC1, 0xBC81, 0x7C40,
    0xB401, 0x74C0, 0x7580, 0xB541, 0x7700, 0xB7C1, 0xB681, 0x7640,
    0x7200, 0xB2C1, 0xB381, 0x7340, 0xB101, 0x71C0, 0x7080, 0xB041,
    0x5000, 0x90C1, 0x9181, 0x5140, 0x9301, 0x53C0, 0x5280, 0x9241,
    0x9601, 0x56C0, 0x5780, 0x9741, 0x5500, 0x95C1, 0x9481, 0x5440,
    0x9C01, 0x5CC0, 0x5D80, 0x9D41, 0x5F00, 0x9FC1, 0x9E81, 0x5E40,
    0x5A00, 0x9AC1, 0x9B81, 0x5B40, 0x9901, 0x59C0, 0x5880, 0x9841,
    0x8801, 0x48C0, 0x4980, 0x8941, 0x4B00, 0x8BC1, 0x8A81, 0x4A40,
    0x4E00, 0x8EC1, 0x8F81, 0x4F40, 0x8D01, 0x4DC0, 0x4C80, 0x8C41,
    0x4400, 0x84C1, 0x8581, 0x4540, 0x8701, 0x47C0, 0x4680, 0x8641,
    0x8201, 0x42C0, 0x4380, 0x8341, 0x4100, 0x81C1, 0x8081, 0x4040]"

definition crc_step :: "u8 \<Rightarrow> u32 \<Rightarrow> u32" where
  "crc_step b v = drop_bit 8 v XOR ucast (crc16tab ! unat ((v XOR ucast b) AND 0xFF))"

definition get_crc16 :: "u16 \<Rightarrow> u8 list \<Rightarrow> u16" where
  "get_crc16 crc bs = ucast (fold crc_step bs (ucast crc))"

section \<open>The reference\<close>

text \<open>One step of the division, on the reflected remainder.\<close>

definition crc_bit :: "u16 \<Rightarrow> u16" where
  "crc_bit v = (if bit v 0 then drop_bit 1 v XOR 0xA001 else drop_bit 1 v)"

definition crc_byte :: "u8 \<Rightarrow> u16 \<Rightarrow> u16" where
  "crc_byte b v = (crc_bit ^^ 8) (v XOR ucast b)"

lemma crc_bit_xor: "crc_bit (x XOR y) = crc_bit x XOR crc_bit y"
  by (simp add: crc_bit_def bit_xor_iff xor.left_commute xor.commute xor.assoc)

lemma crc_bits_xor: "(crc_bit ^^ n) (x XOR y) = (crc_bit ^^ n) x XOR (crc_bit ^^ n) y"
  by (induction n) (simp_all add: crc_bit_xor)

lemma crc_bits_high: "take_bit n v = 0 \<Longrightarrow> (crc_bit ^^ n) v = drop_bit n v"
proof (induction n arbitrary: v)
  case (Suc n)
  have low: "\<not> bit v i" if "i \<le> n" for i
  proof -
    have "\<not> bit (take_bit (Suc n) v) i" using Suc.prems by simp
    then show ?thesis using that by (simp add: bit_take_bit_iff)
  qed
  then have "crc_bit v = drop_bit 1 v" by (simp add: crc_bit_def)
  moreover have "take_bit n (drop_bit 1 v) = 0"
    using low by (intro bit_word_eqI) (auto simp: bit_simps)
  ultimately show ?case using Suc.IH [of "drop_bit 1 v"] by (simp add: funpow_swap1)
qed simp

text \<open>The table holds the remainders of the 256 bytes.\<close>

lemma length_crc16tab [simp]: "length crc16tab = 256"
  by (simp add: crc16tab_def)

lemma crc_bit_8:
  "(crc_bit ^^ 8) v = crc_bit (crc_bit (crc_bit (crc_bit (crc_bit (crc_bit (crc_bit (crc_bit v)))))))"
  by (simp add: eval_nat_numeral)

lemma crc_bit_eval:
  "crc_bit (numeral k) =
    (if bit (numeral k :: u16) 0 then drop_bit 1 (numeral k) XOR 0xA001 else drop_bit 1 (numeral k))"
  "crc_bit 0 = 0" "crc_bit 1 = 0xA001"
  by (simp_all only: crc_bit_def) simp_all

lemma crc16tab_eq: "crc16tab = map (\<lambda>i. (crc_bit ^^ 8) (word_of_nat i)) [0..<256]"
  by (simp add: upt_rec crc_bit_8 crc_bit_eval crc16tab_def)

lemma crc16tab_nth: "i < 256 \<Longrightarrow> crc16tab ! i = (crc_bit ^^ 8) (word_of_nat i)"
  by (simp add: crc16tab_eq)

lemma ucast_u16_u32 [simp]: "ucast (ucast w :: u32) = (w :: u16)"
  by (rule bit_word_eqI) (simp add: bit_simps)

lemma u16_xor_cancel: "v XOR k = w XOR k \<longleftrightarrow> v = (w :: u16)" "k XOR v = k XOR w \<longleftrightarrow> v = w"
  by (auto simp: bit_eq_iff bit_xor_iff)

lemma crc_step_byte: "crc_step b (ucast v) = ucast (crc_byte b v)"
proof -
  let ?x = "v XOR ucast b :: u16"
  have idx: "(ucast v XOR ucast b) AND 0xFF = (ucast (take_bit 8 ?x) :: u32)"
    by (rule u32_eqI) (simp add: bit_simps)
  have i: "unat (take_bit 8 ?x) < 256"
    by (simp only: unsigned_take_bit_eq) (use take_bit_nat_less_exp [of 8 "unat ?x"] in simp)
  have split: "?x = take_bit 8 ?x XOR push_bit 8 (drop_bit 8 ?x)"
    by (rule bit_word_eqI) (auto simp: bit_simps)
  have "crc_byte b v = (crc_bit ^^ 8) (take_bit 8 ?x) XOR drop_bit 8 (push_bit 8 (drop_bit 8 ?x))"
    unfolding crc_byte_def by (subst split) (simp only: crc_bits_xor crc_bits_high take_bit_push_bit diff_self_eq_0 take_bit_0 push_bit_of_0)
  also have "drop_bit 8 (push_bit 8 (drop_bit 8 ?x)) = drop_bit 8 v"
    by (rule bit_word_eqI) (auto simp: bit_simps dest: bit_imp_le_length)
  finally have "crc_byte b v = crc16tab ! unat (take_bit 8 ?x) XOR drop_bit 8 v"
    using i by (simp add: crc16tab_nth)
  moreover have "unat (ucast w :: u32) = unat w" for w :: u16
    using unsigned_less [of w, where 'a = nat] by (simp add: unsigned_ucast_eq take_bit_nat_eq_self)
  ultimately show ?thesis
    by (simp only: crc_step_def idx) (rule u32_eqI, simp add: bit_simps xor.commute)
qed

lemma get_crc16_bitwise: "get_crc16 crc bs = fold crc_byte bs crc"
proof -
  have "fold crc_step bs (ucast crc) = ucast (fold crc_byte bs crc)"
    by (induction bs arbitrary: crc) (simp_all add: crc_step_byte)
  then show ?thesis by (simp add: get_crc16_def)
qed

lemma get_crc16_append: "get_crc16 crc (xs @ ys) = get_crc16 (get_crc16 crc xs) ys"
  by (simp add: get_crc16_bitwise)

section \<open>Errors detected\<close>

lemma crc_bit_inject: "crc_bit x = crc_bit y \<longleftrightarrow> x = y"
proof
  assume eq: "crc_bit x = crc_bit y"
  have top: "bit (crc_bit v) 15 = bit v 0" for v
    using bit_imp_le_length [of v 16] by (auto simp: crc_bit_def bit_simps)
  then have low: "bit x 0 = bit y 0" using eq by metis
  then have d: "drop_bit 1 x = drop_bit 1 y"
    using eq low by (simp add: crc_bit_def u16_xor_cancel split: if_splits)
  show "x = y"
  proof (rule bit_word_eqI)
    fix i assume "i < LENGTH(16)"
    show "bit x i = bit y i"
    proof (cases i)
      case (Suc j)
      then show ?thesis using d by (metis bit_drop_bit_eq comp_apply plus_1_eq_Suc)
    qed (use low in simp)
  qed
qed simp

lemma crc_bits_inject: "(crc_bit ^^ n) x = (crc_bit ^^ n) y \<longleftrightarrow> x = y"
  by (induction n) (simp_all add: crc_bit_inject)

lemma crc_byte_inject: "crc_byte b v = crc_byte c v \<longleftrightarrow> b = c" "crc_byte b v = crc_byte b w \<longleftrightarrow> v = w"
proof -
  have "b = c" if "(ucast b :: u16) = ucast c"
  proof (rule bit_word_eqI)
    fix i assume "i < LENGTH(8)"
    then show "bit b i = bit c i" using arg_cong [OF that, of "\<lambda>w. bit w i"] by (simp add: bit_simps)
  qed
  then show "crc_byte b v = crc_byte c v \<longleftrightarrow> b = c"
    by (auto simp only: crc_byte_def crc_bits_inject u16_xor_cancel)
  show "crc_byte b v = crc_byte b w \<longleftrightarrow> v = w"
    by (simp only: crc_byte_def crc_bits_inject u16_xor_cancel)
qed

lemma fold_crc_inject: "fold crc_byte bs v = fold crc_byte bs w \<longleftrightarrow> v = w"
  by (induction bs arbitrary: v w) (simp_all add: crc_byte_inject)

text \<open>
  C15: the table-driven checksum is the remainder of the bitwise division by the reflected
  polynomial 0xA001, it can be continued over a split message, and two messages of the
  same length that differ in exactly one byte never have the same checksum, from any
  initial value; neither has one message under two initial values.
\<close>

theorem crc16_division:
  "get_crc16 crc bs = fold crc_byte bs crc \<and>
   get_crc16 crc (xs @ ys) = get_crc16 (get_crc16 crc xs) ys \<and>
   (get_crc16 crc (xs @ b # ys) = get_crc16 crc (xs @ c # ys) \<longleftrightarrow> b = c) \<and>
   (get_crc16 crc bs = get_crc16 crc' bs \<longleftrightarrow> crc = crc')"
  by (simp add: get_crc16_bitwise fold_crc_inject crc_byte_inject)

section \<open>The software interrupt's stream\<close>

text \<open>\<^verbatim>\<open>stream_crc16::process\<close>: a page that cannot be read stops in the
  debugger. The context's word is truncated to 16 bits at every chunk.\<close>

definition stream_crc16 :: "memory_block \<Rightarrow> u8 list \<Rightarrow> u32 res \<Rightarrow> u32 res" where
  "stream_crc16 b bs c = rbind c (\<lambda>crc.
     if flags b AND (PAGE_INVALID OR PAGE_READPROT) \<noteq> 0 then Inl (Debug_Break ''Invalid page accessed during crc16 swi'')
     else Inr (ucast (get_crc16 (ucast crc) bs)))"

text \<open>\<^verbatim>\<open>crc16_direct\<close>: the result and the value it leaves in \<^verbatim>\<open>r0\<close>.\<close>

definition crc16_direct :: "'s memory \<Rightarrow> u16 \<Rightarrow> u32 \<Rightarrow> nat \<Rightarrow> (u16 \<times> u32) res" where
  "crc16_direct m crc addr len =
    rbind (process_memory stream_crc16 addr len m (Inr (ucast crc))) (\<lambda>v. Inr (ucast v, v))"

definition readable :: "memory_block \<Rightarrow> bool" where
  "readable b = (flags b AND (PAGE_INVALID OR PAGE_READPROT) = 0)"

lemma stream_crc16_fold:
  assumes "readable b"
  shows "stream_crc16 b bs (Inr (ucast crc)) = Inr (ucast (fold crc_byte bs crc))"
  using assms by (simp add: stream_crc16_def readable_def get_crc16_bitwise)


lemma crc16_direct_bytes:
  assumes "\<And>b. length (mem (blk m b)) = 512" "readable (blk m (addr2page addr m))"
    and "\<And>i. i < n \<Longrightarrow> readable (blk m (addr2page (addr + word_of_nat i) m))"
  shows "crc16_direct m crc addr n = Inr (get_crc16 crc (bytes_at m addr n), ucast (get_crc16 crc (bytes_at m addr n)))"
proof -
  have "process_memory stream_crc16 addr n m (Inr (ucast crc)) = Inr (ucast (fold crc_byte (bytes_at m addr n) crc))"
    by (rule process_memory_fold [where P = readable and h = "\<lambda>c. Inr (ucast c)", OF assms(1) stream_crc16_fold assms(2,3)])
  then show ?thesis by (simp add: crc16_direct_def get_crc16_bitwise)
qed

end
