(* ===== verification/Decomp.thy ===== *)
theory Decomp
  imports Lz77 Crc16 Cpsr "HOL-Library.Signed_Division"
begin

text \<open>
  The software interrupts of \<^verbatim>\<open>Core/HLE.cpp\<close>: division, checksum, decompression
  and their dispatch. The decompressor calls emulated code for its input bytes; that code
  is a parameter (\<open>call\<close>, the invocation of an address on the ARM9). Waiting routines
  only yield the host thread.
\<close>

section \<open>State\<close>

text \<open>\<^verbatim>\<open>class decomp\<close>: the output page \<open>b\<close>, the positions \<open>mem\<close> and \<open>end\<close> in
  it as offsets, the addresses and the callbacks.\<close>

record decomp =
  dc_b :: nat
  dc_mem :: nat
  dc_end :: nat
  dc_dst :: u32
  dc_src :: u32
  dc_cbp :: u32
  dc_lr :: u32
  dc_pc :: u32
  dc_open :: u32
  dc_close :: u32
  dc_get8 :: u32

text \<open>Both processors, the memory as the ARM9 sees it, the page table of the ARM7, and
  the static \<^verbatim>\<open>lz77<decomp>\<close> object.\<close>

record 's hle =
  p9 :: processor
  p7 :: processor
  m9 :: "'s memory"
  map7 :: "u32 \<Rightarrow> nat"
  dc :: decomp
  text_buf :: "u8 list"

definition m7 :: "'s hle \<Rightarrow> 's memory" where
  "m7 s = (m9 s)\<lparr>pmap := map7 s\<rparr>"

definition get_reg :: "nat \<Rightarrow> processor \<Rightarrow> u32" where
  "get_reg i p = regs (ctx p) ! i"

definition set_reg :: "nat \<Rightarrow> u32 \<Rightarrow> processor \<Rightarrow> processor" where
  "set_reg i v p = upd_ctx (\<lambda>c. c\<lparr>regs := (regs c)[i := v]\<rparr>) p"

section \<open>The decompressor's mixin\<close>

definition decomp_get_header :: "(u32 \<Rightarrow> 's hle \<Rightarrow> 's hle res) \<Rightarrow> 's hle \<Rightarrow> (u32 \<times> 's hle) res" where
  "decomp_get_header call s = rbind (call (dc_open (dc s)) s) (\<lambda>s. Inr (get_reg 0 (p9 s), s))"

definition decomp_get8 :: "(u32 \<Rightarrow> 's hle \<Rightarrow> 's hle res) \<Rightarrow> 's hle \<Rightarrow> (u8 \<times> 's hle) res" where
  "decomp_get8 call s =
    (let s = s\<lparr>p9 := set_reg 0 (dc_src (dc s)) (p9 s)\<rparr>;
         s = s\<lparr>dc := (dc s)\<lparr>dc_src := dc_src (dc s) + 1\<rparr>\<rparr>
     in rbind (call (dc_get8 (dc s)) s) (\<lambda>s. Inr (ucast (get_reg 0 (p9 s)), s)))"

definition decomp_flush :: "'s hle \<Rightarrow> 's hle" where
  "decomp_flush s = s\<lparr>m9 := dirty (dc_b (dc s)) (m9 s)\<rparr>"

text \<open>A write past the page's bytes is undefined in the source; it stops here.\<close>

definition decomp_put8 :: "u8 \<Rightarrow> 's hle \<Rightarrow> 's hle res" where
  "decomp_put8 c s =
    (if dc_mem (dc s) < PAGE_SIZE
     then (let s = s\<lparr>m9 := poke (dc_b (dc s)) (\<lambda>m. m[dc_mem (dc s) := c]) (m9 s)\<rparr>;
               s = s\<lparr>dc := (dc s)\<lparr>dc_mem := dc_mem (dc s) + 1\<rparr>\<rparr>
           in if dc_end (dc s) \<le> dc_mem (dc s)
              then (let s = decomp_flush s;
                        d = dc s;
                        d = d\<lparr>dc_dst := dc_dst d + word_of_nat PAGE_SIZE\<rparr>;
                        d = d\<lparr>dc_b := addr2page (dc_dst d) (m9 s)\<rparr>;
                        d = d\<lparr>dc_mem := 0\<rparr>;
                        d = d\<lparr>dc_end := PAGE_SIZE\<rparr>
                    in Inr (s\<lparr>dc := d\<rparr>))
              else Inr s)
     else Inl (Debug_Break ''write past the page''))"

definition decomp_init :: "'s handlers \<Rightarrow> 's hle \<Rightarrow> 's hle res" where
  "decomp_init hs s =
    (let src = get_reg 0 (p9 s);
         dst = get_reg 1 (p9 s);
         cbp = get_reg 2 (p9 s);
         lr = get_reg 14 (p9 s);
         pc = get_reg 15 (p9 s);
         cb = get_reg 3 (p9 s)
     in rbind (load32 hs (cb + 0x00) (m9 s)) (\<lambda>(f_open, m). let s = s\<lparr>m9 := m\<rparr> in
        rbind (load32 hs (cb + 0x04) (m9 s)) (\<lambda>(f_close, m). let s = s\<lparr>m9 := m\<rparr> in
        rbind (load32 hs (cb + 0x08) (m9 s)) (\<lambda>(f_get8, m). let s = s\<lparr>m9 := m\<rparr> in
        let off = unat (dst AND ADDRESS_MASK)
        in Inr (s\<lparr>dc := \<lparr>dc_b = addr2page dst (m9 s), dc_mem = off, dc_end = off + PAGE_SIZE,
             dc_dst = dst, dc_src = src, dc_cbp = cbp, dc_lr = lr, dc_pc = pc,
             dc_open = f_open, dc_close = f_close, dc_get8 = f_get8\<rparr>\<rparr>)))))"

definition decomp_finish :: "'s hle \<Rightarrow> 's hle" where
  "decomp_finish s =
    (let s = decomp_flush s
     in s\<lparr>p9 := set_reg 15 (dc_pc (dc s)) (set_reg 14 (dc_lr (dc s)) (p9 s))\<rparr>)"

definition LZ77UnCompVram :: "'s handlers \<Rightarrow> (u32 \<Rightarrow> 's hle \<Rightarrow> 's hle res) \<Rightarrow> 's hle \<Rightarrow> 's hle res" where
  "LZ77UnCompVram hs call s =
    rbind (decomp_init hs s) (\<lambda>s.
    rbind (decode (\<lambda>s. rbind (decomp_get_header call s) (\<lambda>(hdr, s). Inr s)) (decomp_get8 call) decomp_put8 (text_buf s) s)
      (\<lambda>(buf, s). Inr (decomp_finish (s\<lparr>text_buf := buf\<rparr>))))"

section \<open>Division, checksum, dispatch\<close>

text \<open>Both processors divide in the ARM9's registers, as the code does. The quotient of
  the smallest integer by -1 does not fit: the host's division traps.\<close>

definition hle_div :: "'s hle \<Rightarrow> 's hle res" where
  "hle_div s =
    (let p = p9 s;
         a = get_reg 0 p;
         b = get_reg 1 p
     in if b = 0 then Inl (Debug_Break ''SWI 9h division by zero'')
        else if a = 0x80000000 \<and> b = 0xFFFFFFFF then Inl (Debug_Break ''division overflow'')
        else
         let r0 = word_of_int (sint a sdiv sint b);
             r1 = a - r0;
             p = set_reg 0 r0 p;
             p = set_reg 1 r1 p;
             p = set_reg 2 (if sint r0 < 0 then - r0 else r0) p
         in Inr (s\<lparr>p9 := p\<rparr>))"

text \<open>\<^verbatim>\<open>HLE<T>::crc16\<close> on the memory the processor sees. The length is an
  \<^verbatim>\<open>int\<close>: a negative one makes the stream run away and stops here.\<close>

definition hle_crc16 :: "'s memory \<Rightarrow> processor \<Rightarrow> processor res" where
  "hle_crc16 m p =
    (if sint (get_reg 2 p) < 0 then Inl (Debug_Break ''negative length'')
     else rbind (crc16_direct m (ucast (get_reg 0 p)) (get_reg 1 p) (unat (get_reg 2 p))) (\<lambda>(crc, v).
       let p = set_reg 0 v p
       in Inr (set_reg 0 (ucast crc) p)))"

text \<open>\<^verbatim>\<open>IntrWait\<close>, \<^verbatim>\<open>wait_vblank\<close> and \<^verbatim>\<open>delay\<close> change no emulated state.\<close>

definition hle_wait :: "'s hle \<Rightarrow> 's hle res" where
  "hle_wait s = Inr s"

definition swi9 :: "'s handlers \<Rightarrow> (u32 \<Rightarrow> 's hle \<Rightarrow> 's hle res) \<Rightarrow> u32 \<Rightarrow> 's hle \<Rightarrow> 's hle res" where
  "swi9 hs call idx s = switch idx
     [(0x4, hle_wait s),
      (0x5, hle_wait s),
      (0x8, Inl (Debug_Break ''sqrt'')),
      (0x9, hle_div s),
      (0xB, Inl (Debug_Break ''CpuSet'')),
      (0xE, rbind (hle_crc16 (m9 s) (p9 s)) (\<lambda>p. Inr (s\<lparr>p9 := p\<rparr>))),
      (0x12, LZ77UnCompVram hs call s)]
     (Inl (Debug_Break ''Unhandled SWI''))"

definition swi7 :: "u32 \<Rightarrow> 's hle \<Rightarrow> 's hle res" where
  "swi7 idx s = switch idx
     [(0x3, hle_wait s),
      (0x4, hle_wait s),
      (0x5, hle_wait s),
      (0x9, hle_div s),
      (0xE, rbind (hle_crc16 (m7 s) (p7 s)) (\<lambda>p. Inr (s\<lparr>p7 := p\<rparr>)))]
     (Inl (Debug_Break ''Unhandled SWI''))"

section \<open>The mixin keeps its contract\<close>

text \<open>What the decompressor asks of the program's callback: it returns, with the byte at
  the address in \<^verbatim>\<open>r0\<close>; it may change any other register but no memory.\<close>

definition regs_ok :: "'s hle \<Rightarrow> bool" where
  "regs_ok s = (length (regs (ctx (p9 s))) = 16)"

definition reads_byte :: "(u32 \<Rightarrow> 's hle \<Rightarrow> 's hle res) \<Rightarrow> u32 \<Rightarrow> bool" where
  "reads_byte call f = (\<forall>s. regs_ok s \<longrightarrow> (\<exists>s'. call f s = Inr s' \<and> regs_ok s' \<and>
     get_reg 0 (p9 s') = ucast (byte_at (m9 s) (get_reg 0 (p9 s))) \<and> m9 s' = m9 s \<and> dc s' = dc s \<and>
     text_buf s' = text_buf s))"

text \<open>The destination range \<open>a0 ..< a0 + cap\<close> lies in distinct blocks that hold none of
  the bytes still to be read.\<close>

definition dest_ok :: "u32 \<Rightarrow> nat \<Rightarrow> 's memory \<Rightarrow> bool" where
  "dest_ok a0 cap m = (a0 AND ADDRESS_MASK = 0 \<and> (\<forall>b. length (mem (blk m b)) = PAGE_SIZE) \<and>
     (\<forall>i < cap. \<forall>j < cap. addr2page (a0 + word_of_nat i) m = addr2page (a0 + word_of_nat j) m \<longrightarrow>
        i div PAGE_SIZE = j div PAGE_SIZE))"

definition source_ok :: "u32 \<Rightarrow> nat \<Rightarrow> u32 \<Rightarrow> nat \<Rightarrow> 's memory \<Rightarrow> bool" where
  "source_ok a0 cap src n m = (\<forall>i < n. \<forall>j < cap.
     addr2page (src + word_of_nat i) m \<noteq> addr2page (a0 + word_of_nat j) m)"

definition decomp_rep :: "(u32 \<Rightarrow> 's hle \<Rightarrow> 's hle res) \<Rightarrow> u32 \<Rightarrow> nat \<Rightarrow> u32 \<Rightarrow> u32 \<Rightarrow>
    u8 list \<Rightarrow> u8 list \<Rightarrow> 's hle \<Rightarrow> bool" where
  "decomp_rep call a0 cap lr pc bs out s =
    (regs_ok s \<and> reads_byte call (dc_get8 (dc s)) \<and> dest_ok a0 cap (m9 s) \<and>
     source_ok a0 cap (dc_src (dc s)) (length bs) (m9 s) \<and>
     bytes_at (m9 s) (dc_src (dc s)) (length bs) = bs \<and> bytes_at (m9 s) a0 (length out) = out \<and>
     length out \<le> cap \<and>
     dc_dst (dc s) = a0 + word_of_nat (512 * (length out div 512)) \<and> dc_mem (dc s) = length out mod 512 \<and>
     dc_end (dc s) = 512 \<and> dc_b (dc s) = addr2page (dc_dst (dc s)) (m9 s) \<and>
     dc_lr (dc s) = lr \<and> dc_pc (dc s) = pc)"

lemma off8_aligned:
  assumes "a0 AND 0x1FF = 0"
  shows "off8 (a0 + word_of_nat i) = i mod 512"
proof -
  have "unat a0 mod 512 = 0" using assms off8_mod [of a0] by (simp add: off8_def)
  then have "(unat a0 + i) mod 512 = i mod 512" by (metis add_0 mod_add_left_eq)
  then show ?thesis unfolding off8_mod unat_add_nat by (simp add: mod_mod_page)
qed

text \<open>A byte poked at one position of the destination.\<close>

lemma byte_at_poke:
  assumes "length (mem (blk m b)) = 512" "k < 512"
  shows "byte_at (poke b (\<lambda>m. m[k := c]) m) a =
    (if addr2page a m = b \<and> off8 a = k then c else byte_at m a)"
  using assms by (auto simp: byte_at_def poke_def upd_blk_def addr2page_def)

lemma byte_at_dirty [simp]: "byte_at (dirty b m) a = byte_at m a"
  by (simp add: byte_at_def dirty_def upd_blk_def addr2page_def)

lemma page_poke_dirty [simp]:
  "addr2page a (poke b f m) = addr2page a m" "addr2page a (dirty b m) = addr2page a m"
  "length (mem (blk (dirty b m) x)) = length (mem (blk m x))"
  by (simp_all add: addr2page_def poke_def dirty_def upd_blk_def)

lemma length_poke_upd [simp]: "length (mem (blk (poke b (\<lambda>m. m[k := c]) m) x)) = length (mem (blk m x))"
  by (simp add: poke_def upd_blk_def)

lemma bytes_at_cong:
  "(\<And>i. i < n \<Longrightarrow> byte_at m' (a + word_of_nat i) = byte_at m (a + word_of_nat i)) \<Longrightarrow> bytes_at m' a n = bytes_at m a n"
  by (simp add: bytes_at_def)

lemma bytes_at_Suc: "bytes_at m a (Suc n) = bytes_at m a n @ [byte_at m (a + word_of_nat n)]"
  by (simp add: bytes_at_def)

lemma bytes_at_dirty [simp]: "bytes_at (dirty b m) a n = bytes_at m a n"
  by (simp add: bytes_at_def)

lemma dest_source_frame:
  "dest_ok a0 cap (poke b (\<lambda>m. m[k := c]) m) = dest_ok a0 cap m" "dest_ok a0 cap (dirty b m) = dest_ok a0 cap m"
  "source_ok a0 cap src n (poke b f m) = source_ok a0 cap src n m"
  "source_ok a0 cap src n (dirty b m) = source_ok a0 cap src n m"
  by (simp_all add: dest_ok_def source_ok_def)

lemma decomp_get8_rep:
  assumes "decomp_rep call a0 cap lr pc (b # bs) out s"
  shows "\<exists>s'. decomp_get8 call s = Inr (b, s') \<and> decomp_rep call a0 cap lr pc bs out s'"
proof -
  let ?src = "dc_src (dc s)"
  define s1 where "s1 = s\<lparr>p9 := set_reg 0 ?src (p9 s), dc := (dc s)\<lparr>dc_src := ?src + 1\<rparr>\<rparr>"
  have r: "regs_ok s1" "get_reg 0 (p9 s1) = ?src"
    using assms by (simp_all add: s1_def decomp_rep_def regs_ok_def set_reg_def get_reg_def)
  have s1: "m9 s1 = m9 s" "dc s1 = (dc s)\<lparr>dc_src := ?src + 1\<rparr>" by (simp_all add: s1_def)
  have read: "reads_byte call (dc_get8 (dc s))" using assms by (simp add: decomp_rep_def)
  obtain s' where s': "call (dc_get8 (dc s)) s1 = Inr s'" "regs_ok s'"
      "get_reg 0 (p9 s') = ucast (byte_at (m9 s) ?src)" "m9 s' = m9 s" "dc s' = (dc s)\<lparr>dc_src := ?src + 1\<rparr>"
    using read r unfolding reads_byte_def by (metis s1)
  have all: "bytes_at (m9 s) ?src (1 + length bs) = b # bs" using assms by (simp add: decomp_rep_def)
  then have b: "byte_at (m9 s) ?src = b" and bs: "bytes_at (m9 s) (?src + 1) (length bs) = bs"
    unfolding bytes_at_append by (simp_all add: bytes_at_def)
  have "source_ok a0 cap (?src + 1) (length bs) (m9 s)"
    unfolding source_ok_def
  proof (intro allI impI)
    fix i j assume "i < length bs" "j < cap"
    then have "addr2page (?src + word_of_nat (Suc i)) (m9 s) \<noteq> addr2page (a0 + word_of_nat j) (m9 s)"
      using assms unfolding decomp_rep_def source_ok_def by fastforce
    then show "addr2page (?src + 1 + word_of_nat i) (m9 s) \<noteq> addr2page (a0 + word_of_nat j) (m9 s)"
      by (simp add: add.assoc)
  qed
  then have "decomp_rep call a0 cap lr pc bs out s'"
    using assms s' bs by (simp add: decomp_rep_def)
  moreover have "decomp_get8 call s = Inr (b, s')"
    using s'(1,3) b by (simp add: decomp_get8_def Let_def s1_def)
  ultimately show ?thesis by blast
qed

lemma decomp_put8_rep:
  assumes rep: "decomp_rep call a0 cap lr pc bs out s" and room: "length out < cap"
  shows "\<exists>s'. decomp_put8 c s = Inr s' \<and> decomp_rep call a0 cap lr pc bs (out @ [c]) s'"
proof -
  let ?n = "length out" and ?b = "dc_b (dc s)" and ?k = "dc_mem (dc s)"
  let ?m = "poke ?b (\<lambda>m. m[?k := c]) (m9 s)"
  have len: "length (mem (blk (m9 s) x)) = 512" for x using rep by (simp add: decomp_rep_def dest_ok_def)
  have al: "a0 AND 0x1FF = 0" using rep by (simp add: decomp_rep_def dest_ok_def)
  have inj: "\<forall>i < cap. \<forall>j < cap. addr2page (a0 + word_of_nat i) (m9 s) = addr2page (a0 + word_of_nat j) (m9 s) \<longrightarrow>
      i div 512 = j div 512"
    using rep unfolding decomp_rep_def dest_ok_def by blast
  have sep: "\<forall>i < length bs. \<forall>j < cap.
      addr2page (dc_src (dc s) + word_of_nat i) (m9 s) \<noteq> addr2page (a0 + word_of_nat j) (m9 s)"
    using rep unfolding decomp_rep_def source_ok_def by blast
  have k: "?k = ?n mod 512" "?k < 512" using rep by (simp_all add: decomp_rep_def)
  have split: "a0 + word_of_nat ?n = dc_dst (dc s) + word_of_nat ?k"
  proof -
    have "word_of_nat ?n = (word_of_nat (512 * (?n div 512) + ?n mod 512) :: u32)" by simp
    then show ?thesis using rep unfolding decomp_rep_def of_nat_add by (metis add.assoc)
  qed
  have "off8 (dc_dst (dc s)) = 0"
    using rep off8_aligned [OF al, of "512 * (?n div 512)"] by (simp add: decomp_rep_def)
  then have "drop_bit 9 (dc_dst (dc s) + word_of_nat ?k) = drop_bit 9 (dc_dst (dc s)) \<and>
      off8 (dc_dst (dc s) + word_of_nat ?k) = ?k"
    using within_page [of "dc_dst (dc s)" ?k] k(2) by simp
  then have page: "addr2page (a0 + word_of_nat ?n) (m9 s) = ?b" and off: "off8 (a0 + word_of_nat ?n) = ?k"
    unfolding split using rep by (simp_all add: decomp_rep_def addr2page_def)
  have new: "byte_at ?m (a0 + word_of_nat ?n) = c"
    using byte_at_poke [OF len k(2)] page off by simp
  have old: "byte_at ?m (a0 + word_of_nat i) = byte_at (m9 s) (a0 + word_of_nat i)" if "i < ?n" for i
  proof -
    have "\<not> (addr2page (a0 + word_of_nat i) (m9 s) = ?b \<and> off8 (a0 + word_of_nat i) = ?k)"
    proof
      assume eq: "addr2page (a0 + word_of_nat i) (m9 s) = ?b \<and> off8 (a0 + word_of_nat i) = ?k"
      then have "i div 512 = ?n div 512"
        using inj [rule_format, of i ?n] page that room by simp
      moreover have "i mod 512 = ?n mod 512" using eq off8_aligned [OF al, of i] k by simp
      ultimately show False using that by (metis div_mult_mod_eq nat_less_le)
    qed
    then show ?thesis using byte_at_poke [OF len k(2)] by auto
  qed
  have src: "byte_at ?m (dc_src (dc s) + word_of_nat i) = byte_at (m9 s) (dc_src (dc s) + word_of_nat i)"
    if "i < length bs" for i
  proof -
    have "addr2page (dc_src (dc s) + word_of_nat i) (m9 s) \<noteq> ?b"
      using sep [rule_format, of i ?n] that room page by simp
    then show ?thesis using byte_at_poke [OF len k(2)] by auto
  qed
  have out: "bytes_at ?m a0 (Suc ?n) = out @ [c]"
    using rep new bytes_at_cong [of ?n ?m a0 "m9 s", OF old] unfolding bytes_at_Suc by (simp add: decomp_rep_def)
  have bs: "bytes_at ?m (dc_src (dc s)) (length bs) = bs"
    using rep bytes_at_cong [of "length bs" ?m "dc_src (dc s)" "m9 s", OF src] by (simp add: decomp_rep_def)
  show ?thesis
  proof (cases "512 \<le> ?k + 1")
    case True
    then have "Suc ?n mod 512 = 0" "Suc ?n div 512 = Suc (?n div 512)"
      using k by (simp_all add: mod_Suc div_Suc)
    moreover have "word_of_nat (512 * (?n div 512)) + 512 = (word_of_nat (512 * Suc (?n div 512)) :: u32)"
      by simp
    ultimately show ?thesis
      using True rep out bs room
      by (auto simp: decomp_put8_def decomp_flush_def Let_def decomp_rep_def regs_ok_def dest_source_frame add.assoc)
  next
    case False
    then have "Suc ?n mod 512 = Suc ?k" "Suc ?n div 512 = ?n div 512"
      using k by (simp_all add: mod_Suc div_Suc)
    then show ?thesis
      using False rep out bs room
      by (auto simp: decomp_put8_def Let_def decomp_rep_def regs_ok_def dest_source_frame)
  qed
qed

interpretation mixin: byte_mixin "decomp_get8 call" decomp_put8 "decomp_rep call a0 cap lr pc" cap for call a0 cap lr pc
  by unfold_locales (rule decomp_get8_rep, assumption, rule decomp_put8_rep)

section \<open>The decompression interrupt\<close>

text \<open>The callback that opens the source returns without touching memory.\<close>

definition opens :: "(u32 \<Rightarrow> 's hle \<Rightarrow> 's hle res) \<Rightarrow> u32 \<Rightarrow> bool" where
  "opens call f = (\<forall>s. regs_ok s \<longrightarrow> (\<exists>s'. call f s = Inr s' \<and> regs_ok s' \<and> m9 s' = m9 s \<and> dc s' = dc s \<and>
     text_buf s' = text_buf s))"

text \<open>
  C16: SWI 12h decompresses every well-formed stream. For every sequence of literals and
  back references whose last token starts before the announced size, the bytes written to
  the destination are the meaning of the sequence, starting from the window of 0xFF bytes
  (and what an earlier stream left in its last 18 places); every byte arrives, over any
  number of pages, and the link register and program counter are restored. Assumed are a
  page-aligned destination apart from the source, and callbacks that do what the interface
  documents.
\<close>

theorem lz77_decompresses:
  assumes regs: "regs_ok s" "length (text_buf s) = 4113"
    and table: "load32 hs (get_reg 3 (p9 s)) (m9 s) = Inr (fo, m9 s)"
      "load32 hs (get_reg 3 (p9 s) + 4) (m9 s) = Inr (fc, m9 s)"
      "load32 hs (get_reg 3 (p9 s) + 8) (m9 s) = Inr (fg, m9 s)"
    and callbacks: "opens call fo" "reads_byte call fg"
    and source: "bytes_at (m9 s) (get_reg 0 (p9 s)) (length (header kind lim @ enc ts)) = header kind lim @ enc ts"
    and dest: "dest_ok (get_reg 1 (p9 s)) (sum_list (map token_len ts)) (m9 s)"
      "source_ok (get_reg 1 (p9 s)) (sum_list (map token_len ts)) (get_reg 0 (p9 s))
        (length (header kind lim @ enc ts)) (m9 s)"
    and stream: "list_all token_ok ts" "fits lim 0 ts" "lim < 2 ^ 24"
  shows "\<exists>s'. LZ77UnCompVram hs call s = Inr s' \<and>
    bytes_at (m9 s') (get_reg 1 (p9 s)) (sum_list (map token_len ts)) = expand ts (initial_window (text_buf s)) \<and>
    get_reg 14 (p9 s') = get_reg 14 (p9 s) \<and> get_reg 15 (p9 s') = get_reg 15 (p9 s)"
proof -
  let ?a = "get_reg 1 (p9 s)" and ?n = "sum_list (map token_len ts)"
  let ?lr = "get_reg 14 (p9 s)" and ?pc = "get_reg 15 (p9 s)"
  have al: "?a AND 0x1FF = 0" using dest(1) by (simp add: dest_ok_def)
  obtain s1 where s1: "decomp_init hs s = Inr s1" "regs_ok s1" "m9 s1 = m9 s" "text_buf s1 = text_buf s"
    and d1: "dc s1 = \<lparr>dc_b = addr2page ?a (m9 s), dc_mem = 0, dc_end = 512, dc_dst = ?a,
        dc_src = get_reg 0 (p9 s), dc_cbp = get_reg 2 (p9 s), dc_lr = ?lr, dc_pc = ?pc,
        dc_open = fo, dc_close = fc, dc_get8 = fg\<rparr>"
    using table regs(1) al by (simp add: decomp_init_def Let_def regs_ok_def)
  obtain s2 where s2: "call fo s1 = Inr s2" "regs_ok s2" "m9 s2 = m9 s" "dc s2 = dc s1"
    using callbacks(1) s1 unfolding opens_def by metis
  have rep: "decomp_rep call ?a ?n ?lr ?pc (header kind lim @ enc ts @ []) [] s2"
    using s2 d1 callbacks(2) dest source by (simp add: decomp_rep_def bytes_at_def)
  have "rbind (decomp_get_header call s1) (\<lambda>(hdr, s). Inr s) = Inr s2"
    using s2(1) d1 by (simp add: decomp_get_header_def)
  from mixin.decode_rep [where get_header = "\<lambda>s. rbind (decomp_get_header call s) (\<lambda>(hdr, s). Inr s)",
      OF rep stream(3,1,2) order_refl regs(2) this]
  obtain buf' s3 where s3: "decode (\<lambda>s. rbind (decomp_get_header call s) (\<lambda>(hdr, s). Inr s)) (decomp_get8 call) decomp_put8
      (text_buf s) s1 = Inr (buf', s3)" "decomp_rep call ?a ?n ?lr ?pc [] (expand ts (initial_window (text_buf s))) s3"
    by blast
  have "regs_ok s3" "dc_lr (dc s3) = ?lr" "dc_pc (dc s3) = ?pc"
    and out: "bytes_at (m9 s3) ?a ?n = expand ts (initial_window (text_buf s))"
    using s3(2) length_expand [of ts "initial_window (text_buf s)"] by (simp_all add: decomp_rep_def)
  then have "get_reg 14 (p9 (decomp_finish (s3\<lparr>text_buf := buf'\<rparr>))) = ?lr"
    "get_reg 15 (p9 (decomp_finish (s3\<lparr>text_buf := buf'\<rparr>))) = ?pc"
    by (simp_all add: decomp_finish_def decomp_flush_def Let_def get_reg_def set_reg_def regs_ok_def)
  moreover have "LZ77UnCompVram hs call s = Inr (decomp_finish (s3\<lparr>text_buf := buf'\<rparr>))"
    using s1 s3(1) by (simp add: LZ77UnCompVram_def)
  ultimately show ?thesis using out by (simp add: decomp_finish_def decomp_flush_def Let_def)
qed

text \<open>A stream of one literal and one back reference to it, from block 0 to block 1; the
  table of callbacks is in block 2.\<close>

definition byte_call :: "u32 \<Rightarrow> unit hle \<Rightarrow> unit hle res" where
  "byte_call f s = Inr (s\<lparr>p9 := set_reg 0 (ucast (byte_at (m9 s) (get_reg 0 (p9 s)))) (p9 s)\<rparr>)"

definition hle0 :: "unit hle" where
  "hle0 =
    \<lparr>p9 = \<lparr>context_of = \<lambda>_. \<lparr>regs = [0, 0x200, 0, 0x400] @ replicate 12 7, cpsr = 0x1F, spsr = 0,
             x86_flags = 0, bpre = 0, control_register = 0\<rparr>, mode = CPU_USER\<rparr>,
     p7 = \<lparr>context_of = \<lambda>_. \<lparr>regs = replicate 16 0, cpsr = 0x1F, spsr = 0,
             x86_flags = 0, bpre = 0, control_register = 0\<rparr>, mode = CPU_USER\<rparr>,
     m9 = \<lparr>blk = (\<lambda>b. \<lparr>flags = 0, mem = if b = 0 then [0x10, 4, 0, 0, 0x40, 65, 0, 0] @ replicate 504 0
             else replicate 512 0\<rparr>), pmap = (\<lambda>p. if p = 0 then 0 else if p = 1 then 1 else 2), io = ()\<rparr>,
     map7 = (\<lambda>_. 0),
     dc = \<lparr>dc_b = 0, dc_mem = 0, dc_end = 0, dc_dst = 0, dc_src = 0, dc_cbp = 0, dc_lr = 0, dc_pc = 0,
            dc_open = 0, dc_close = 0, dc_get8 = 0\<rparr>,
     text_buf = replicate 4113 0\<rparr>"

lemma byte_call_ok: "opens byte_call f" "reads_byte byte_call f"
  by (simp_all add: opens_def reads_byte_def byte_call_def regs_ok_def set_reg_def get_reg_def)

lemma hle0_parts:
  "get_reg 0 (p9 hle0) = 0" "get_reg (Suc 0) (p9 hle0) = 0x200" "get_reg 3 (p9 hle0) = 0x400" "regs_ok hle0"
  "pmap (m9 hle0) p = (if p = 0 then 0 else if p = 1 then 1 else 2)"
  "mem (blk (m9 hle0) b) = (if b = 0 then [0x10, 4, 0, 0, 0x40, 65, 0, 0] @ replicate 504 0 else replicate 512 0)"
  "flags (blk (m9 hle0) b) = 0" "length (text_buf hle0) = 4113"
  by (simp_all add: hle0_def get_reg_def ctx_def regs_ok_def)

definition ts0 :: "token list" where "ts0 = [Lit 65, Ref 3 0]"

lemma ts0_facts: "list_all token_ok ts0" "fits 4 0 ts0" "sum_list (map token_len ts0) = 4"
  "header 0x10 4 @ enc ts0 = [0x10, 4, 0, 0, 0x40, 65, 0, 0]"
  by (simp_all add: ts0_def header_def Let_def byte_of_def enc.simps flag_byte_def upt_rec)

lemma lz77_decompresses_witness:
  "\<exists>s'. LZ77UnCompVram no_handlers byte_call hle0 = Inr s' \<and>
     bytes_at (m9 s') 0x200 4 = expand ts0 (initial_window (text_buf hle0))"
proof -
  have plain: "plain_page (m9 hle0) a" for a
    by (simp add: plain_flags hle0_parts)
  have zero: "load32 no_handlers a (m9 hle0) = Inr (0, m9 hle0)" if "drop_bit 9 a = 2" for a
  proof -
    have "peek32 a (m9 hle0) = 0"
      using off32_less [of a] that by (simp add: peek32_def addr2page_def hle0_parts rd32_def)
    then show ?thesis by (simp add: load_plain [OF plain] rotated_def)
  qed
  have src: "addr2page (word_of_nat i) (m9 hle0) = 0" if "i < 8" for i
  proof -
    have "i = 0 \<or> i = 1 \<or> i = 2 \<or> i = 3 \<or> i = 4 \<or> i = 5 \<or> i = 6 \<or> i = 7" using that by arith
    then show ?thesis by (elim disjE) (simp_all add: addr2page_def hle0_parts)
  qed
  have dst: "addr2page (0x200 + word_of_nat j) (m9 hle0) = 1" if "j < 4" for j
  proof -
    have "j = 0 \<or> j = 1 \<or> j = 2 \<or> j = 3" using that by arith
    then show ?thesis by (elim disjE) (simp_all add: addr2page_def hle0_parts)
  qed
  have stream: "bytes_at (m9 hle0) 0 (length [0x10, 4, 0, 0, 0x40, 65, 0, 0 :: u8]) = [0x10, 4, 0, 0, 0x40, 65, 0, 0]"
    by (simp add: bytes_at_def upt_rec byte_at_def addr2page_def off8_def hle0_parts)
  have dest: "dest_ok 0x200 4 (m9 hle0)" "source_ok 0x200 4 0 (length [0x10, 4, 0, 0, 0x40, 65, 0, 0 :: u8]) (m9 hle0)"
    by (auto simp: dest_ok_def source_ok_def hle0_parts src dst)
  show ?thesis
    using lz77_decompresses [of hle0 no_handlers 0 0 0 byte_call "0x10" 4 ts0] stream dest
    by (auto simp: hle0_parts zero byte_call_ok ts0_facts)
qed

section \<open>Division and checksum\<close>

text \<open>
  C17: SWI 9h divides like the hardware's signed division, rounding towards zero: unless
  the divisor is zero or the quotient does not fit, r0 is the quotient and r2 its absolute
  value, and nothing but r0, r1 and r2 changes; r1 however is the numerator minus the
  quotient, which is the remainder only where the quotient or the divisor's predecessor
  vanishes.
\<close>

theorem div_quotient:
  assumes "regs_ok s" and "get_reg 1 (p9 s) \<noteq> 0"
    and "get_reg 0 (p9 s) \<noteq> 0x80000000 \<or> get_reg 1 (p9 s) \<noteq> 0xFFFFFFFF"
  shows "\<exists>s'. hle_div s = Inr s' \<and>
    sint (get_reg 0 (p9 s')) = sint (get_reg 0 (p9 s)) sdiv sint (get_reg 1 (p9 s)) \<and>
    uint (get_reg 2 (p9 s')) = \<bar>sint (get_reg 0 (p9 s')) \<bar> \<and>
    get_reg 1 (p9 s') = get_reg 0 (p9 s) - get_reg 0 (p9 s') \<and>
    (\<forall>i. 2 < i \<longrightarrow> get_reg i (p9 s') = get_reg i (p9 s)) \<and> s'\<lparr>p9 := p9 s\<rparr> = s"
proof -
  let ?a = "get_reg 0 (p9 s)" and ?b = "get_reg 1 (p9 s)"
  define q where "q = sint ?a sdiv sint ?b"
  have ra: "- 2147483648 \<le> sint ?a" "sint ?a < 2147483648"
    using sint_ge [of ?a] sint_lt [of ?a] by simp_all
  have q: "- \<bar>sint ?a\<bar> \<le> q" "q \<le> \<bar>sint ?a\<bar>"
    using sdiv_int_range [of "sint ?a" "sint ?b"] by (simp_all add: q_def)
  have "q \<noteq> 2147483648"
  proof
    assume big: "q = 2147483648"
    then have a: "sint ?a = - 2147483648" using q ra by simp
    then have "sint ?b = - 1" using big int_sdiv_negated_is_minus1 [of "sint ?a" "sint ?b"] by (simp add: q_def)
    then have "?b = 0xFFFFFFFF" by (intro iffD2 [OF word_eq_iff_signed]) simp
    moreover have "?a = 0x80000000" using a by (intro iffD2 [OF word_eq_iff_signed]) simp
    ultimately show False using assms(3) by simp
  qed
  then have qr: "- 2147483648 \<le> q" "q < 2147483648" using q ra by simp_all
  then have sq: "sint (word_of_int q :: u32) = q"
    by (simp only: signed_of_int) (simp add: signed_take_bit_int_eq_self)
  have uq: "uint (if q < 0 then - word_of_int q else word_of_int q :: u32) = \<bar>q\<bar>"
  proof -
    have "(if q < 0 then - word_of_int q else word_of_int q :: u32) = word_of_int \<bar>q\<bar>" by simp
    moreover have "uint (word_of_int \<bar>q\<bar> :: u32) = \<bar>q\<bar>"
      using qr by (simp only: unsigned_of_int) (simp add: take_bit_int_eq_self)
    ultimately show ?thesis by (simp only:)
  qed
  define s' where "s' = s\<lparr>p9 := set_reg 2 (if q < 0 then - word_of_int q else word_of_int q)
      (set_reg 1 (?a - word_of_int q) (set_reg 0 (word_of_int q) (p9 s)))\<rparr>"
  have "hle_div s = Inr s'"
    using assms(2,3) sq by (auto simp: hle_div_def Let_def s'_def q_def)
  moreover have "get_reg 0 (p9 s') = word_of_int q" "get_reg 1 (p9 s') = ?a - word_of_int q"
    "get_reg 2 (p9 s') = (if q < 0 then - word_of_int q else word_of_int q)"
    "\<forall>i. 2 < i \<longrightarrow> get_reg i (p9 s') = get_reg i (p9 s)" "s'\<lparr>p9 := p9 s\<rparr> = s"
    using assms(1) by (simp_all add: s'_def get_reg_def set_reg_def regs_ok_def)
  ultimately show ?thesis
    using sq uq unfolding q_def [symmetric] by (intro exI [of _ s'] conjI) simp_all
qed

text \<open>The third register of -7 divided by 2, and the flawed second one.\<close>

definition div_state :: "u32 \<Rightarrow> u32 \<Rightarrow> unit hle" where
  "div_state a b = hle0\<lparr>p9 := set_reg 0 a (set_reg 1 b (p9 hle0))\<rparr>"

lemma div_state_regs: "regs_ok (div_state a b)" "get_reg 0 (p9 (div_state a b)) = a"
  "get_reg (Suc 0) (p9 (div_state a b)) = b"
  by (simp_all add: div_state_def hle0_def regs_ok_def get_reg_def set_reg_def ctx_def [of "\<lparr>context_of = _, mode = _\<rparr>"])

lemma div_quotient_witness:
  "\<exists>s'. hle_div (div_state (- 7) 2) = Inr s' \<and> sint (get_reg 0 (p9 s')) = - 3 \<and> uint (get_reg 2 (p9 s')) = 3"
proof -
  have "sint (- 7 :: u32) sdiv sint (2 :: u32) = - 3" by (simp add: signed_divide_int_def)
  then show ?thesis
    using div_quotient [OF div_state_regs(1), of "- 7" 2] by (auto simp: div_state_regs)
qed

lemma div_no_remainder:
  "\<exists>s'. hle_div (div_state 7 2) = Inr s' \<and> get_reg 0 (p9 s') = 3 \<and> get_reg 1 (p9 s') = 4"
  by (simp add: hle_div_def Let_def div_state_regs)
    (simp add: div_state_def hle0_def get_reg_def set_reg_def signed_divide_int_def ctx_def [of "\<lparr>context_of = _, mode = _\<rparr>"])

lemma div_on_arm9: "\<exists>s'. swi7 9 (div_state 7 2) = Inr s' \<and> p7 s' = p7 (div_state 7 2) \<and> get_reg 0 (p9 s') = 3"
  by (simp add: swi7_def hle_div_def Let_def div_state_regs)
    (simp add: div_state_def hle0_def get_reg_def set_reg_def signed_divide_int_def ctx_def [of "\<lparr>context_of = _, mode = _\<rparr>"])

text \<open>
  C18: SWI Eh leaves in r0 the bitwise checksum of the \<open>r2\<close> bytes from \<open>r1\<close> on,
  starting from the low half of r0, however the range is spread over pages, and changes
  nothing else; it does so on either processor, through that processor's page table.
\<close>

theorem crc16_swi:
  assumes "length (regs (ctx p)) = 16" and "\<And>b. length (mem (blk m b)) = PAGE_SIZE"
    and "get_reg 2 p = word_of_nat n" and "n < 2 ^ 31"
    and "readable (blk m (addr2page (get_reg 1 p) m))"
    and "\<And>i. i < n \<Longrightarrow> readable (blk m (addr2page (get_reg 1 p + word_of_nat i) m))"
  shows "hle_crc16 m p =
    Inr (set_reg 0 (ucast (fold crc_byte (bytes_at m (get_reg 1 p) n) (ucast (get_reg 0 p)))) p)"
proof -
  have n: "unat (word_of_nat n :: u32) = n" using assms(4) by (intro unat_of_nat32) simp
  have "sint (word_of_nat n :: u32) = int n"
    using assms(4) by (simp only: signed_of_nat) (simp add: signed_take_bit_int_eq_self)
  then have "\<not> sint (get_reg 2 p) < 0" by (simp only: assms(3))
  then show ?thesis
    using crc16_direct_bytes [of m "get_reg 1 p" n "ucast (get_reg 0 p)", OF assms(2,5,6)] assms(1)
    by (simp add: hle_crc16_def assms(3) n get_crc16_bitwise set_reg_def upd_ctx_def ctx_def)
qed

lemma crc16_swi_witness:
  "hle_crc16 (m9 hle0) (set_reg 2 3 (p9 hle0)) =
     Inr (set_reg 0 (ucast (fold crc_byte (bytes_at (m9 hle0) 0x200 3) 0)) (set_reg 2 3 (p9 hle0)))"
proof -
  have "get_reg (Suc 0) (set_reg 2 3 (p9 hle0)) = 0x200" "get_reg 0 (set_reg 2 3 (p9 hle0)) = 0"
    "get_reg 2 (set_reg 2 3 (p9 hle0)) = word_of_nat 3" "length (regs (ctx (set_reg 2 3 (p9 hle0)))) = 16"
    by (simp_all add: hle0_def get_reg_def set_reg_def ctx_def upd_ctx_def)
  then show ?thesis
    using crc16_swi [of "set_reg 2 3 (p9 hle0)" "m9 hle0" 3] by (simp add: hle0_parts readable_def)
qed

end
