(* ===== verification/Fifo.thy ===== *)
theory Fifo
  imports Prelude
begin

text \<open>
  The ring buffer \<^verbatim>\<open>fifo<n>\<close> of \<^verbatim>\<open>Core/fifo.h\<close>: the interface a
  client relies on (a bounded queue, stated as a locale), the buffer with its two running
  32-bit positions, the refinement of lists by buffers, and the interpretation of the
  interface at the size the emulator uses.
\<close>

section \<open>The interface: a bounded queue\<close>

datatype 'a qop = Push 'a | Pop

fun pushed :: "'a qop list \<Rightarrow> 'a list" where
  "pushed [] = []"
| "pushed (Push x # ops) = x # pushed ops"
| "pushed (Pop # ops) = pushed ops"

text \<open>A run of operations in which a push into a full and a pop from an empty queue
  stop the run.\<close>

fun qrun :: "('q \<Rightarrow> bool) \<Rightarrow> ('q \<Rightarrow> bool) \<Rightarrow> ('a \<Rightarrow> 'q \<Rightarrow> 'q) \<Rightarrow> ('q \<Rightarrow> 'a \<times> 'q) \<Rightarrow>
    'a qop list \<Rightarrow> 'q \<Rightarrow> ('a list \<times> 'q) option" where
  "qrun is_empty is_full enq deq [] q = Some ([], q)"
| "qrun is_empty is_full enq deq (Push x # ops) q =
    (if is_full q then None else qrun is_empty is_full enq deq ops (enq x q))"
| "qrun is_empty is_full enq deq (Pop # ops) q =
    (if is_empty q then None
     else map_option (\<lambda>(ys, q'). (fst (deq q) # ys, q'))
       (qrun is_empty is_full enq deq ops (snd (deq q))))"

locale bounded_queue =
  fixes cap :: nat
    and inv :: "'q \<Rightarrow> bool"
    and items :: "'q \<Rightarrow> 'a list"
    and init :: 'q
    and is_empty :: "'q \<Rightarrow> bool"
    and is_full :: "'q \<Rightarrow> bool"
    and enq :: "'a \<Rightarrow> 'q \<Rightarrow> 'q"
    and deq :: "'q \<Rightarrow> 'a \<times> 'q"
  assumes inv_init: "inv init"
    and items_init: "items init = []"
    and is_empty: "inv q \<Longrightarrow> is_empty q = (items q = [])"
    and is_full: "inv q \<Longrightarrow> is_full q = (length (items q) = cap)"
    and bounded: "inv q \<Longrightarrow> length (items q) \<le> cap"
    and enq: "inv q \<Longrightarrow> length (items q) < cap \<Longrightarrow> items (enq x q) = items q @ [x]"
    and inv_enq: "inv q \<Longrightarrow> length (items q) < cap \<Longrightarrow> inv (enq x q)"
    and deq: "inv q \<Longrightarrow> items q \<noteq> [] \<Longrightarrow> fst (deq q) # items (snd (deq q)) = items q"
    and inv_deq: "inv q \<Longrightarrow> items q \<noteq> [] \<Longrightarrow> inv (snd (deq q))"
begin

lemma not_full: "inv q \<Longrightarrow> \<not> is_full q \<Longrightarrow> length (items q) < cap"
  using is_full [of q] bounded [of q] by simp

lemma items_deq: "inv q \<Longrightarrow> items q \<noteq> [] \<Longrightarrow> items (snd (deq q)) = tl (items q)"
  using deq [of q] by (metis list.sel(3))

lemma fst_deq: "inv q \<Longrightarrow> items q \<noteq> [] \<Longrightarrow> fst (deq q) = hd (items q)"
  using deq [of q] by (metis list.sel(1))

text \<open>Nothing is lost, invented or reordered.\<close>

lemma run_conserves:
  "qrun is_empty is_full enq deq ops q = Some (ys, q') \<Longrightarrow> inv q \<Longrightarrow>
    inv q' \<and> items q @ pushed ops = ys @ items q'"
proof (induction ops arbitrary: q ys)
  case Nil
  then show ?case by simp
next
  case (Cons op ops)
  show ?case
  proof (cases op)
    case (Push x)
    then have "\<not> is_full q" and r: "qrun is_empty is_full enq deq ops (enq x q) = Some (ys, q')"
      using Cons.prems by (auto split: if_splits)
    then have "length (items q) < cap" using not_full Cons.prems by blast
    then show ?thesis using Cons.IH [OF r] Cons.prems Push by (simp add: enq inv_enq)
  next
    case Pop
    then obtain ys0 where ne: "items q \<noteq> []" and ys: "ys = fst (deq q) # ys0"
      and r: "qrun is_empty is_full enq deq ops (snd (deq q)) = Some (ys0, q')"
      using Cons.prems is_empty by (auto split: if_splits)
    then show ?thesis using Cons.IH [OF r] Cons.prems(2) Pop deq [of q] inv_deq [of q]
      by (metis append_Cons pushed.simps(3))
  qed
qed

text \<open>A run never stops as long as the lists say there is room or content.\<close>

lemma run_total:
  "inv q \<Longrightarrow> length (items q) + length ops \<le> cap \<Longrightarrow> list_all (\<lambda>op. op \<noteq> Pop) ops \<Longrightarrow>
    \<exists>q'. qrun is_empty is_full enq deq ops q = Some ([], q')"
proof (induction ops arbitrary: q)
  case Nil
  then show ?case by simp
next
  case (Cons op ops)
  then obtain x where op: "op = Push x" by (cases op) auto
  have "length (items q) < cap" using Cons.prems by simp
  then have "\<not> is_full q" and "inv (enq x q)" and "items (enq x q) = items q @ [x]"
    using Cons.prems by (simp_all add: is_full inv_enq enq)
  then show ?case using Cons.IH [of "enq x q"] Cons.prems op by simp
qed

end

section \<open>The ring buffer\<close>

text \<open>
  \<^verbatim>\<open>fifo<n>\<close>: the template parameter is the first argument of the operations,
  \<open>queue\<close> has \<open>n\<close> entries, the positions run freely and wrap at \<open>2 ^ 32\<close>.
\<close>

record fifo =
  readpos :: u32
  writepos :: u32
  queue :: "u32 list"

definition fifo_size :: "nat \<Rightarrow> fifo \<Rightarrow> u32" where
  "fifo_size n f = (writepos f - readpos f) mod word_of_nat n"

definition fifo_empty :: "fifo \<Rightarrow> bool" where
  "fifo_empty f = (writepos f = readpos f)"

definition fifo_full :: "nat \<Rightarrow> fifo \<Rightarrow> bool" where
  "fifo_full n f = (\<not> fifo_empty f \<and> fifo_size n f = 0)"

definition fifo_write :: "nat \<Rightarrow> u32 \<Rightarrow> fifo \<Rightarrow> fifo" where
  "fifo_write n data f =
    f\<lparr>queue := (queue f)[unat (writepos f mod word_of_nat n) := data],
      writepos := writepos f + 1\<rparr>"

definition fifo_top :: "nat \<Rightarrow> fifo \<Rightarrow> u32" where
  "fifo_top n f = queue f ! unat (readpos f mod word_of_nat n)"

definition fifo_read :: "nat \<Rightarrow> fifo \<Rightarrow> u32 \<times> fifo" where
  "fifo_read n f =
    (queue f ! unat (readpos f mod word_of_nat n), f\<lparr>readpos := readpos f + 1\<rparr>)"

definition fifo_reset :: "fifo \<Rightarrow> fifo" where
  "fifo_reset f = f\<lparr>readpos := 0, writepos := 0\<rparr>"

section \<open>Buffers as lists\<close>

definition fifo_count :: "fifo \<Rightarrow> nat" where
  "fifo_count f = unat (writepos f - readpos f)"

definition fifo_items :: "nat \<Rightarrow> fifo \<Rightarrow> u32 list" where
  "fifo_items n f = map (\<lambda>i. queue f ! (unat (readpos f + word_of_nat i) mod n)) [0..<fifo_count f]"

definition fifo_inv :: "nat \<Rightarrow> fifo \<Rightarrow> bool" where
  "fifo_inv n f = (length (queue f) = n \<and> fifo_count f \<le> n)"

text \<open>The sizes for which the running positions may wrap: those that divide the range
  of an \<^verbatim>\<open>unsigned long\<close>.\<close>

definition fifo_dim :: "nat \<Rightarrow> bool" where
  "fifo_dim n = (0 < n \<and> n < 2 ^ 32 \<and> n dvd 2 ^ 32)"

lemma unat_of_dim: "fifo_dim n \<Longrightarrow> unat (word_of_nat n :: u32) = n"
  by (simp add: fifo_dim_def unsigned_of_nat take_bit_eq_mod)

lemma unat_mod_dim: "fifo_dim n \<Longrightarrow> unat (w mod word_of_nat n :: u32) = unat w mod n"
  by (simp add: unat_mod_distrib unat_of_dim)

lemma slot_mod:
  assumes "fifo_dim n"
  shows "unat (w + word_of_nat i :: u32) mod n = (unat w + i) mod n"
proof -
  have "unat (w + word_of_nat i :: u32) = (unat w + i) mod 2 ^ 32"
    by (simp add: unat_word_ariths(1) unsigned_of_nat take_bit_eq_mod mod_add_right_eq)
  then show ?thesis using assms by (simp add: fifo_dim_def mod_mod_cancel)
qed

lemma writepos_eq: "writepos f = readpos f + word_of_nat (fifo_count f)"
  by (simp add: fifo_count_def)

lemma write_slot:
  "fifo_dim n \<Longrightarrow> unat (writepos f mod word_of_nat n) = (unat (readpos f) + fifo_count f) mod n"
  by (simp add: unat_mod_dim writepos_eq [of f] slot_mod)

lemma fifo_items_alt:
  "fifo_dim n \<Longrightarrow>
    fifo_items n f = map (\<lambda>i. queue f ! ((unat (readpos f) + i) mod n)) [0..<fifo_count f]"
  by (simp add: fifo_items_def slot_mod)

lemma length_fifo_items [simp]: "length (fifo_items n f) = fifo_count f"
  by (simp add: fifo_items_def)

lemma fifo_empty_count: "fifo_empty f = (fifo_count f = 0)"
  by (simp add: fifo_empty_def fifo_count_def unat_eq_0)

lemma fifo_full_count:
  assumes "fifo_dim n" "fifo_inv n f"
  shows "fifo_full n f = (fifo_count f = n)"
proof -
  have "fifo_size n f = 0 \<longleftrightarrow> fifo_count f mod n = 0"
    using unat_mod_dim [OF assms(1), of "writepos f - readpos f"]
    by (simp add: fifo_size_def fifo_count_def unat_eq_0 [symmetric])
  then show ?thesis
    using assms by (auto simp: fifo_full_def fifo_empty_count fifo_inv_def fifo_dim_def
        le_less intro: ccontr)
qed

lemma count_write:
  assumes "fifo_dim n" "fifo_count f < n"
  shows "fifo_count (fifo_write n x f) = Suc (fifo_count f)"
proof -
  have eq: "writepos f + 1 - readpos f = word_of_nat (Suc (fifo_count f))"
    by (simp add: fifo_count_def)
  have "Suc (fifo_count f) < 2 ^ 32" using assms by (simp add: fifo_dim_def)
  then have "unat (word_of_nat (Suc (fifo_count f)) :: u32) = Suc (fifo_count f)"
    by (simp add: unsigned_of_nat take_bit_eq_mod del: of_nat_Suc)
  then show ?thesis by (simp add: fifo_write_def fifo_count_def [of "_\<lparr>queue := _, writepos := _\<rparr>"] eq del: of_nat_Suc)
qed

lemma count_read:
  assumes "fifo_count f \<noteq> 0"
  shows "fifo_count (snd (fifo_read n f)) = fifo_count f - 1"
proof -
  have eq: "writepos f - (readpos f + 1) = (writepos f - readpos f) - 1" by simp
  have "writepos f - readpos f \<noteq> 0" using assms by (auto simp: fifo_count_def)
  then have "unat (writepos f - (readpos f + 1)) = unat (writepos f - readpos f) - 1"
    unfolding eq by (rule unat_minus_one)
  then show ?thesis by (simp add: fifo_read_def fifo_count_def)
qed

lemma slots_distinct:
  assumes "i < c" "c < n"
  shows "(r + i) mod n \<noteq> (r + c) mod (n::nat)"
proof
  assume "(r + i) mod n = (r + c) mod n"
  then have "n dvd (r + c) - (r + i)"
    using assms by (intro mod_eq_dvd_iff_nat [THEN iffD1]) auto
  then show False using assms by (auto dest: dvd_imp_le)
qed

lemma items_write:
  assumes dim: "fifo_dim n" and inv: "fifo_inv n f" and c: "fifo_count f < n"
  shows "fifo_items n (fifo_write n x f) = fifo_items n f @ [x]"
proof -
  let ?r = "unat (readpos f)" and ?c = "fifo_count f"
  have len: "length (queue f) = n" and pos: "0 < n"
    using inv dim by (simp_all add: fifo_inv_def fifo_dim_def)
  have "(?r + ?c) mod n \<noteq> (?r + i) mod n" if "i < ?c" for i
    using slots_distinct [OF that c] by metis
  then have "map (\<lambda>i. (queue f)[(?r + ?c) mod n := x] ! ((?r + i) mod n)) [0..<?c] =
      map (\<lambda>i. queue f ! ((?r + i) mod n)) [0..<?c]"
    by (intro map_cong) auto
  then show ?thesis
    by (simp add: fifo_items_alt [OF dim] count_write [OF dim c])
      (simp add: fifo_write_def write_slot [OF dim] len pos)
qed

lemma items_read:
  assumes dim: "fifo_dim n" and c: "fifo_count f \<noteq> 0"
  shows "fst (fifo_read n f) # fifo_items n (snd (fifo_read n f)) = fifo_items n f"
proof -
  let ?r = "unat (readpos f)"
  have "[0..<fifo_count f] = 0 # map Suc [0..<fifo_count f - 1]"
    using c by (simp add: map_Suc_upt upt_conv_Cons)
  moreover have "unat (readpos f + 1 + word_of_nat i) mod n = (?r + Suc i) mod n" for i
    using slot_mod [OF dim, of "readpos f" "Suc i"] by (simp add: add.assoc)
  moreover have "fst (fifo_read n f) = queue f ! (?r mod n)"
    by (simp add: fifo_read_def unat_mod_dim [OF dim])
  ultimately show ?thesis
    by (simp add: fifo_items_def count_read [OF c] slot_mod [OF dim] comp_def)
      (simp add: fifo_read_def)
qed

section \<open>The interpretation at the emulator's size\<close>

text \<open>\<^verbatim>\<open>fifo<16>\<close>, the inter-processor queue, after \<^verbatim>\<open>reset\<close>.\<close>

definition fifo16_init :: fifo where
  "fifo16_init = fifo_reset \<lparr>readpos = 0, writepos = 0, queue = replicate 16 0\<rparr>"

lemma dim16: "fifo_dim 16"
  by (simp add: fifo_dim_def)

lemma inv_write:
  "fifo_dim n \<Longrightarrow> fifo_inv n f \<Longrightarrow> fifo_count f < n \<Longrightarrow> fifo_inv n (fifo_write n x f)"
  using count_write [of n f x] by (simp add: fifo_inv_def) (simp add: fifo_write_def)

lemma inv_read:
  "fifo_inv n f \<Longrightarrow> fifo_count f \<noteq> 0 \<Longrightarrow> fifo_inv n (snd (fifo_read n f))"
  using count_read [of f n] unfolding fifo_inv_def by (auto simp: fifo_read_def)

lemma inv_bound: "fifo_inv n f \<Longrightarrow> fifo_count f \<le> n"
  by (simp add: fifo_inv_def)

lemma items_nil: "fifo_items n f = [] \<longleftrightarrow> fifo_count f = 0"
  by (simp add: fifo_items_def)

interpretation fifo16: bounded_queue 16 "fifo_inv 16" "fifo_items 16" fifo16_init
  fifo_empty "fifo_full 16" "fifo_write 16" "fifo_read 16"
proof (unfold_locales, goal_cases)
  case 1
  show ?case by (simp add: fifo_inv_def fifo16_init_def fifo_reset_def fifo_count_def)
next
  case 2
  show ?case by (simp add: items_nil fifo16_init_def fifo_reset_def fifo_count_def)
qed (auto simp: items_nil fifo_empty_count fifo_full_count dim16 inv_write inv_read
       items_write items_read inv_bound)

text \<open>
  C3: a run of pushes and pops of the 16 entry ring buffer, however long (the positions
  wrap at \<open>2 ^ 32\<close>), hands out exactly the pushed values in their order: what was inside
  followed by what was pushed equals what was popped followed by what is inside, and
  never more than 16 values are inside.
\<close>

theorem fifo_run_in_order:
  assumes "fifo_inv 16 f"
    and "qrun fifo_empty (fifo_full 16) (fifo_write 16) (fifo_read 16) ops f = Some (ys, f')"
  shows "fifo_items 16 f @ pushed ops = ys @ fifo_items 16 f' \<and> length (fifo_items 16 f') \<le> 16"
  using fifo16.run_conserves [OF assms(2,1)] fifo16.bounded by blast

text \<open>The positions wrap in the middle of this run.\<close>

lemma fifo_run_in_order_witness:
  "let f = \<lparr>readpos = 0xFFFFFFFF, writepos = 0xFFFFFFFF, queue = replicate 16 0\<rparr>;
       f' = \<lparr>readpos = 0, writepos = 1, queue = [8] @ replicate 14 0 @ [7]\<rparr>
   in fifo_items 16 f @ [7, 8] = [7] @ fifo_items 16 f' \<and> length (fifo_items 16 f') \<le> 16"
proof -
  have inv: "fifo_inv 16 \<lparr>readpos = 0xFFFFFFFF, writepos = 0xFFFFFFFF, queue = replicate 16 0\<rparr>"
    by code_simp
  have run: "qrun fifo_empty (fifo_full 16) (fifo_write 16) (fifo_read 16) [Push 7, Push 8, Pop]
      \<lparr>readpos = 0xFFFFFFFF, writepos = 0xFFFFFFFF, queue = replicate 16 0\<rparr> =
    Some ([7], \<lparr>readpos = 0, writepos = 1, queue = [8] @ replicate 14 0 @ [7]\<rparr>)"
    by code_simp
  show ?thesis using fifo_run_in_order [OF inv run] by (simp del: length_fifo_items)
qed

end
