(* ===== verification/Ipc.thy ===== *)
theory Ipc
  imports Fifo Interrupt Bytes
begin

text \<open>
  Inter-processor communication (\<^verbatim>\<open>ioregs\<close> and the transfer registers of
  \<^verbatim>\<open>Core/IORegs.cpp\<close>): each processor owns a synchronisation register, a control
  register and a send queue; the other processor reads the queue through its transfer
  register. Both processors' moves are a step relation; the properties hold for every
  interleaving.
\<close>

section \<open>One side\<close>

text \<open>\<^verbatim>\<open>struct ioregs\<close> (the debugger's access callbacks are parameters of the
  register page, see \<^verbatim>\<open>Io_Regs\<close>).\<close>

record ioregs =
  ipc :: u32
  ipc_fifocnt :: u32
  ipc_fifo :: fifo

definition ioregs_init :: ioregs where
  "ioregs_init = \<lparr>ipc = 0, ipc_fifocnt = 0, ipc_fifo = fifo16_init\<rparr>"

definition set_ipc :: "u32 \<Rightarrow> ioregs \<Rightarrow> ioregs" where
  "set_ipc remote_ipc r =
    r\<lparr>ipc := (ipc r AND NOT 0xF) OR (drop_bit 8 remote_ipc AND 0xF)\<rparr>"

definition get_ipc :: "ioregs \<Rightarrow> u32" where
  "get_ipc r = ipc r"

definition get_fifostate :: "ioregs \<Rightarrow> u32" where
  "get_fifostate r =
    (let state = 0;
         state = (if fifo_empty (ipc_fifo r) then state OR 0x1 else state);
         state = (if fifo_full 16 (ipc_fifo r) then state OR 0x2 else state)
     in state)"

definition pop_fifo :: "ioregs \<Rightarrow> (u32 \<times> ioregs) option" where
  "pop_fifo r =
    (if fifo_empty (ipc_fifo r) then None
     else (let (v, f) = fifo_read 16 (ipc_fifo r) in Some (v, r\<lparr>ipc_fifo := f\<rparr>)))"

definition get_fifocnt :: "ioregs \<Rightarrow> u32" where
  "get_fifocnt r = (ipc_fifocnt r AND 0xFFFFFFFC) OR get_fifostate r"

definition push_fifo :: "u32 \<Rightarrow> ioregs \<Rightarrow> ioregs res" where
  "push_fifo v r =
    (if fifo_full 16 (ipc_fifo r) then Inl (Debug_Break ''FIFO overflow'')
     else Inr (r\<lparr>ipc_fifo := fifo_write 16 v (ipc_fifo r)\<rparr>))"

definition flag_fifo :: "u32 \<Rightarrow> ioregs \<Rightarrow> ioregs" where
  "flag_fifo state r = r\<lparr>ipc_fifocnt := (ipc_fifocnt r AND 0xFFFFFCFF) OR push_bit 8 state\<rparr>"

section \<open>Both sides\<close>

text \<open>\<^verbatim>\<open>memory::registers9_1\<close>, \<^verbatim>\<open>memory::registers7_1\<close>, the pending words of
  both interrupt controllers and the display status register they share.\<close>

record ipc_sys =
  regs9 :: ioregs
  regs7 :: ioregs
  sig9 :: u32
  sig7 :: u32
  dispstat :: u32

definition ipc_reset :: ipc_sys where
  "ipc_reset = \<lparr>regs9 = ioregs_init, regs7 = ioregs_init, sig9 = 0, sig7 = 0, dispstat = 0\<rparr>"

definition fire9 :: "nat \<Rightarrow> ipc_sys \<Rightarrow> ipc_sys res" where
  "fire9 i s = (case fire i (sig9 s, dispstat s) of
     None \<Rightarrow> Inl (Debug_Break ''assert'') | Some (x, d) \<Rightarrow> Inr (s\<lparr>sig9 := x, dispstat := d\<rparr>))"

definition fire7 :: "nat \<Rightarrow> ipc_sys \<Rightarrow> ipc_sys res" where
  "fire7 i s = (case fire i (sig7 s, dispstat s) of
     None \<Rightarrow> Inl (Debug_Break ''assert'') | Some (x, d) \<Rightarrow> Inr (s\<lparr>sig7 := x, dispstat := d\<rparr>))"

text \<open>Writes to \<^verbatim>\<open>IPCSYNC\<close> (0x180) and \<^verbatim>\<open>IPCFIFOSEND\<close> (0x188).\<close>

definition sync9 :: "u32 \<Rightarrow> ipc_sys \<Rightarrow> ipc_sys" where
  "sync9 v s = s\<lparr>regs7 := set_ipc v (regs7 s)\<rparr>"

definition sync7 :: "u32 \<Rightarrow> ipc_sys \<Rightarrow> ipc_sys" where
  "sync7 v s = s\<lparr>regs9 := set_ipc v (regs9 s)\<rparr>"

definition send9 :: "u32 \<Rightarrow> ipc_sys \<Rightarrow> ipc_sys res" where
  "send9 v s = rbind (push_fifo v (regs9 s)) (\<lambda>r.
     let s = s\<lparr>regs9 := r\<rparr>;
         s = s\<lparr>regs7 := flag_fifo (get_fifostate (regs9 s)) (regs7 s)\<rparr>
     in fire7 18 s)"

definition send7 :: "u32 \<Rightarrow> ipc_sys \<Rightarrow> ipc_sys res" where
  "send7 v s = rbind (push_fifo v (regs7 s)) (\<lambda>r.
     let s = s\<lparr>regs7 := r\<rparr>;
         s = s\<lparr>regs9 := flag_fifo (get_fifostate (regs7 s)) (regs9 s)\<rparr>
     in fire9 18 s)"

text \<open>\<^verbatim>\<open>TRANSFER9::load32\<close> and \<^verbatim>\<open>TRANSFER7::load32\<close> at offset 0 of their page
  pop the other side's queue; other offsets stop.\<close>

definition TRANSFER9_load32 :: "u32 \<Rightarrow> ipc_sys \<Rightarrow> (u32 \<times> ipc_sys) res" where
  "TRANSFER9_load32 addr s =
    (if addr AND 0x1FF = 0
     then (case pop_fifo (regs7 s) of
        None \<Rightarrow> Inl (Debug_Break ''ARM7::FIFO underflow'')
      | Some (v, r) \<Rightarrow>
         let s = s\<lparr>regs7 := r\<rparr>;
             state = get_fifostate (regs7 s);
             s = s\<lparr>regs9 := flag_fifo state (regs9 s)\<rparr>
         in if state AND 1 \<noteq> 0 then rbind (fire7 17 s) (\<lambda>s. Inr (v, s)) else Inr (v, s))
     else Inl (Invalid_Read addr))"

definition TRANSFER7_load32 :: "u32 \<Rightarrow> ipc_sys \<Rightarrow> (u32 \<times> ipc_sys) res" where
  "TRANSFER7_load32 addr s =
    (if addr AND 0x1FF = 0
     then (case pop_fifo (regs9 s) of
        None \<Rightarrow> Inl (Debug_Break ''ARM9::FIFO underflow'')
      | Some (v, r) \<Rightarrow>
         let s = s\<lparr>regs9 := r\<rparr>;
             state = get_fifostate (regs9 s);
             s = s\<lparr>regs7 := flag_fifo state (regs7 s)\<rparr>
         in if state AND 1 \<noteq> 0 then rbind (fire9 17 s) (\<lambda>s. Inr (v, s)) else Inr (v, s))
     else Inl (Invalid_Read addr))"

text \<open>The narrow reads pop a whole word each and return one part of it.\<close>

definition TRANSFER9_load16u :: "u32 \<Rightarrow> ipc_sys \<Rightarrow> (u32 \<times> ipc_sys) res" where
  "TRANSFER9_load16u addr s = rbind (TRANSFER9_load32 (addr AND NOT 3) s)
     (\<lambda>(w, s). Inr (e_h w (unat (drop_bit 1 addr AND 1)), s))"

definition TRANSFER9_load16s :: "u32 \<Rightarrow> ipc_sys \<Rightarrow> (u32 \<times> ipc_sys) res" where
  "TRANSFER9_load16s addr s = rbind (TRANSFER9_load16u addr s) (\<lambda>(w, s). Inr (sext16 w, s))"

definition TRANSFER9_load8u :: "u32 \<Rightarrow> ipc_sys \<Rightarrow> (u32 \<times> ipc_sys) res" where
  "TRANSFER9_load8u addr s = rbind (TRANSFER9_load32 (addr AND NOT 3) s)
     (\<lambda>(w, s). Inr (e_b w (unat (addr AND 3)), s))"

definition TRANSFER7_load16u :: "u32 \<Rightarrow> ipc_sys \<Rightarrow> (u32 \<times> ipc_sys) res" where
  "TRANSFER7_load16u addr s = rbind (TRANSFER7_load32 (addr AND NOT 3) s)
     (\<lambda>(w, s). Inr (e_h w (unat (drop_bit 1 addr AND 1)), s))"

definition TRANSFER7_load16s :: "u32 \<Rightarrow> ipc_sys \<Rightarrow> (u32 \<times> ipc_sys) res" where
  "TRANSFER7_load16s addr s = rbind (TRANSFER7_load16u addr s) (\<lambda>(w, s). Inr (sext16 w, s))"

definition TRANSFER7_load8u :: "u32 \<Rightarrow> ipc_sys \<Rightarrow> (u32 \<times> ipc_sys) res" where
  "TRANSFER7_load8u addr s = rbind (TRANSFER7_load32 (addr AND NOT 3) s)
     (\<lambda>(w, s). Inr (e_b w (unat (addr AND 3)), s))"

section \<open>Interleavings\<close>

text \<open>The moves of the two processors that return, with what they send or receive;
  \<open>Take\<close> is the exchange with which a poll collects the pending signals.\<close>

datatype ipc_event =
    Send9 u32 | Send7 u32 | Recv9 u32 | Recv7 u32 | Sync9 u32 | Sync7 u32 | Take9 | Take7

inductive ipc_step :: "ipc_sys \<Rightarrow> ipc_event \<Rightarrow> ipc_sys \<Rightarrow> bool" where
  send9: "send9 v s = Inr s' \<Longrightarrow> ipc_step s (Send9 v) s'"
| send7: "send7 v s = Inr s' \<Longrightarrow> ipc_step s (Send7 v) s'"
| recv9: "TRANSFER9_load32 addr s = Inr (v, s') \<Longrightarrow> ipc_step s (Recv9 v) s'"
| recv7: "TRANSFER7_load32 addr s = Inr (v, s') \<Longrightarrow> ipc_step s (Recv7 v) s'"
| sync9: "ipc_step s (Sync9 v) (sync9 v s)"
| sync7: "ipc_step s (Sync7 v) (sync7 v s)"
| take9: "ipc_step s Take9 (s\<lparr>sig9 := 0\<rparr>)"
| take7: "ipc_step s Take7 (s\<lparr>sig7 := 0\<rparr>)"

inductive ipc_run :: "ipc_sys \<Rightarrow> ipc_event list \<Rightarrow> ipc_sys \<Rightarrow> bool" where
  none: "ipc_run s [] s"
| more: "ipc_run s es s' \<Longrightarrow> ipc_step s' e s'' \<Longrightarrow> ipc_run s (es @ [e]) s''"

inductive_simps ipc_step_iff:
  "ipc_step s (Send9 v) s'" "ipc_step s (Send7 v) s'" "ipc_step s (Recv9 v) s'" "ipc_step s (Recv7 v) s'"
  "ipc_step s (Sync9 v) s'" "ipc_step s (Sync7 v) s'" "ipc_step s Take9 s'" "ipc_step s Take7 s'"

definition sent9 :: "ipc_event list \<Rightarrow> u32 list" where
  "sent9 es = concat (map (\<lambda>e. case e of Send9 v \<Rightarrow> [v] | _ \<Rightarrow> []) es)"

definition sent7 :: "ipc_event list \<Rightarrow> u32 list" where
  "sent7 es = concat (map (\<lambda>e. case e of Send7 v \<Rightarrow> [v] | _ \<Rightarrow> []) es)"

definition recvd9 :: "ipc_event list \<Rightarrow> u32 list" where
  "recvd9 es = concat (map (\<lambda>e. case e of Recv9 v \<Rightarrow> [v] | _ \<Rightarrow> []) es)"

definition recvd7 :: "ipc_event list \<Rightarrow> u32 list" where
  "recvd7 es = concat (map (\<lambda>e. case e of Recv7 v \<Rightarrow> [v] | _ \<Rightarrow> []) es)"

lemmas traffic_defs = sent9_def sent7_def recvd9_def recvd7_def

text \<open>The values in flight.\<close>

abbreviation in_flight :: "ioregs \<Rightarrow> u32 list" where
  "in_flight r \<equiv> fifo_items 16 (ipc_fifo r)"

text \<open>The receive flags of a side (bits 8 and 9 of its control register) against the
  sender's queue; the empty flag is only meaningful once something has moved.\<close>

definition recv_flags :: "ioregs \<Rightarrow> ioregs \<Rightarrow> bool \<Rightarrow> bool" where
  "recv_flags sender receiver moved =
    ((bit (ipc_fifocnt receiver) 9 \<longleftrightarrow> length (in_flight sender) = 16) \<and>
     (if moved then bit (ipc_fifocnt receiver) 8 \<longleftrightarrow> in_flight sender = []
      else \<not> bit (ipc_fifocnt receiver) 8))"

definition ipc_inv :: "ipc_event list \<Rightarrow> ipc_sys \<Rightarrow> bool" where
  "ipc_inv es s =
    (fifo_inv 16 (ipc_fifo (regs9 s)) \<and> fifo_inv 16 (ipc_fifo (regs7 s)) \<and>
     sent9 es = recvd7 es @ in_flight (regs9 s) \<and>
     sent7 es = recvd9 es @ in_flight (regs7 s) \<and>
     recv_flags (regs9 s) (regs7 s) (sent9 es \<noteq> []) \<and>
     recv_flags (regs7 s) (regs9 s) (sent7 es \<noteq> []))"

section \<open>One operation at a time\<close>

lemma push_fifo_inr:
  "push_fifo v r = Inr r' \<Longrightarrow> fifo_inv 16 (ipc_fifo r) \<Longrightarrow>
    fifo_inv 16 (ipc_fifo r') \<and> in_flight r' = in_flight r @ [v] \<and> ipc_fifocnt r' = ipc_fifocnt r"
  using fifo16.not_full [of "ipc_fifo r"] fifo16.enq [of "ipc_fifo r" v] fifo16.inv_enq [of "ipc_fifo r" v]
  by (auto simp: push_fifo_def split: if_splits)

lemma pop_fifo_some:
  "pop_fifo r = Some (v, r') \<Longrightarrow> fifo_inv 16 (ipc_fifo r) \<Longrightarrow>
    fifo_inv 16 (ipc_fifo r') \<and> in_flight r = v # in_flight r' \<and> ipc_fifocnt r' = ipc_fifocnt r"
  using fifo16.is_empty [of "ipc_fifo r"] fifo16.deq [of "ipc_fifo r"] fifo16.inv_deq [of "ipc_fifo r"]
  by (auto simp: pop_fifo_def split: if_splits prod.splits)

lemma bit_fifostate:
  assumes "fifo_inv 16 (ipc_fifo r)"
  shows "bit (get_fifostate r) 0 = (in_flight r = [])"
    and "bit (get_fifostate r) 1 = (length (in_flight r) = 16)"
  using fifo16.is_empty [OF assms] fifo16.is_full [OF assms]
  by (auto simp: get_fifostate_def bit_simps)

lemma flag_fifo_simps [simp]:
  "ipc_fifo (flag_fifo st r) = ipc_fifo r"
  "bit (ipc_fifocnt (flag_fifo st r)) 8 = bit st 0"
  "bit (ipc_fifocnt (flag_fifo st r)) 9 = bit st 1"
  by (simp_all add: flag_fifo_def bit_simps)

lemma set_ipc_simps [simp]:
  "ipc_fifo (set_ipc v r) = ipc_fifo r"
  "ipc_fifocnt (set_ipc v r) = ipc_fifocnt r"
  by (simp_all add: set_ipc_def)

lemma fire_regs:
  "fire9 i s = Inr s' \<Longrightarrow> regs9 s' = regs9 s \<and> regs7 s' = regs7 s"
  "fire7 i s = Inr s' \<Longrightarrow> regs9 s' = regs9 s \<and> regs7 s' = regs7 s"
  by (auto simp: fire9_def fire7_def split: option.splits prod.splits)

lemma send_regs:
  "send9 v s = Inr s' \<Longrightarrow> \<exists>r. push_fifo v (regs9 s) = Inr r \<and> regs9 s' = r \<and>
     regs7 s' = flag_fifo (get_fifostate r) (regs7 s)"
  "send7 v s = Inr s' \<Longrightarrow> \<exists>r. push_fifo v (regs7 s) = Inr r \<and> regs7 s' = r \<and>
     regs9 s' = flag_fifo (get_fifostate r) (regs9 s)"
  by (auto simp: send9_def send7_def rbind_Inr_iff Let_def dest!: fire_regs)

lemma recv_regs:
  "TRANSFER9_load32 addr s = Inr (v, s') \<Longrightarrow> \<exists>r. pop_fifo (regs7 s) = Some (v, r) \<and> regs7 s' = r \<and>
     regs9 s' = flag_fifo (get_fifostate r) (regs9 s)"
  "TRANSFER7_load32 addr s = Inr (v, s') \<Longrightarrow> \<exists>r. pop_fifo (regs9 s) = Some (v, r) \<and> regs9 s' = r \<and>
     regs7 s' = flag_fifo (get_fifostate r) (regs7 s)"
  by (auto simp: TRANSFER9_load32_def TRANSFER7_load32_def rbind_Inr_iff Let_def
      split: if_splits option.splits dest!: fire_regs)

section \<open>The invariant\<close>

lemma traffic_snoc:
  "sent9 (es @ [e]) = sent9 es @ (case e of Send9 v \<Rightarrow> [v] | _ \<Rightarrow> [])"
  "sent7 (es @ [e]) = sent7 es @ (case e of Send7 v \<Rightarrow> [v] | _ \<Rightarrow> [])"
  "recvd9 (es @ [e]) = recvd9 es @ (case e of Recv9 v \<Rightarrow> [v] | _ \<Rightarrow> [])"
  "recvd7 (es @ [e]) = recvd7 es @ (case e of Recv7 v \<Rightarrow> [v] | _ \<Rightarrow> [])"
  by (simp_all add: traffic_defs)

lemma recv_flags_set:
  "fifo_inv 16 (ipc_fifo r) \<Longrightarrow> recv_flags r (flag_fifo (get_fifostate r) r') True"
  by (simp add: recv_flags_def bit_fifostate [unfolded One_nat_def])

lemma ipc_inv_step:
  assumes "ipc_step s e s'" and "ipc_inv es s"
  shows "ipc_inv (es @ [e]) s'"
  using assms
proof cases
  case (send9 v)
  from send_regs(1) [OF send9(2)] obtain r where "push_fifo v (regs9 s) = Inr r" "regs9 s' = r"
    "regs7 s' = flag_fifo (get_fifostate r) (regs7 s)" by blast
  with push_fifo_inr [of v "regs9 s" r] show ?thesis
    using assms(2) send9(1) by (auto simp: ipc_inv_def traffic_snoc recv_flags_set) (auto simp: recv_flags_def)
next
  case (send7 v)
  from send_regs(2) [OF send7(2)] obtain r where "push_fifo v (regs7 s) = Inr r" "regs7 s' = r"
    "regs9 s' = flag_fifo (get_fifostate r) (regs9 s)" by blast
  with push_fifo_inr [of v "regs7 s" r] show ?thesis
    using assms(2) send7(1) by (auto simp: ipc_inv_def traffic_snoc recv_flags_set) (auto simp: recv_flags_def)
next
  case (recv9 addr v)
  from recv_regs(1) [OF recv9(2)] obtain r where "pop_fifo (regs7 s) = Some (v, r)" "regs7 s' = r"
    "regs9 s' = flag_fifo (get_fifostate r) (regs9 s)" by blast
  with pop_fifo_some [of "regs7 s" v r] show ?thesis
    using assms(2) recv9(1) by (auto simp: ipc_inv_def traffic_snoc recv_flags_set) (auto simp: recv_flags_def)
next
  case (recv7 addr v)
  from recv_regs(2) [OF recv7(2)] obtain r where "pop_fifo (regs9 s) = Some (v, r)" "regs9 s' = r"
    "regs7 s' = flag_fifo (get_fifostate r) (regs7 s)" by blast
  with pop_fifo_some [of "regs9 s" v r] show ?thesis
    using assms(2) recv7(1) by (auto simp: ipc_inv_def traffic_snoc recv_flags_set) (auto simp: recv_flags_def)
qed (auto simp: ipc_inv_def traffic_snoc recv_flags_def sync9_def sync7_def)

lemma ipc_inv_reset: "ipc_inv [] ipc_reset"
  using fifo16.inv_init fifo16.items_init
  by (simp add: ipc_inv_def ipc_reset_def ioregs_init_def traffic_defs recv_flags_def)

lemma ipc_inv_run: "ipc_run s es s' \<Longrightarrow> ipc_inv [] s \<Longrightarrow> ipc_inv es s'"
  by (induction rule: ipc_run.induct) (auto intro: ipc_inv_step)

section \<open>Every interleaving\<close>

text \<open>
  C8: in every interleaving of sends, receives, synchronisation writes and signal
  collection from reset, what one processor sent is what the other has received followed
  by what is in flight, in order and without loss or duplication, in both directions, and
  never more than 16 words are in flight.
\<close>

theorem ipc_in_order:
  assumes "ipc_run ipc_reset es s"
  shows "sent9 es = recvd7 es @ in_flight (regs9 s) \<and> sent7 es = recvd9 es @ in_flight (regs7 s) \<and>
    length (in_flight (regs9 s)) \<le> 16 \<and> length (in_flight (regs7 s)) \<le> 16"
  using ipc_inv_run [OF assms ipc_inv_reset] fifo16.bounded unfolding ipc_inv_def by blast

text \<open>One word sent and received.\<close>

definition ipc_sent :: ipc_sys where
  "ipc_sent = (case send9 5 ipc_reset of Inr s \<Rightarrow> s | Inl _ \<Rightarrow> ipc_reset)"

lemma push_fifo_returns:
  "fifo_inv 16 (ipc_fifo r) \<Longrightarrow> (\<exists>r'. push_fifo v r = Inr r') = (length (in_flight r) < 16)"
  using fifo16.is_full [of "ipc_fifo r"] fifo16.bounded [of "ipc_fifo r"] by (auto simp: push_fifo_def)

lemma pop_fifo_returns:
  "fifo_inv 16 (ipc_fifo r) \<Longrightarrow> (\<exists>v r'. pop_fifo r = Some (v, r')) = (in_flight r \<noteq> [])"
  using fifo16.is_empty [of "ipc_fifo r"] by (auto simp: pop_fifo_def split: prod.splits)

lemma fire_returns: "i < 32 \<Longrightarrow> \<exists>s'. fire9 i s = Inr s'" "i < 32 \<Longrightarrow> \<exists>s'. fire7 i s = Inr s'"
  by (auto simp: fire9_def fire7_def fire_def Let_def)

lemma send_returns:
  "(\<exists>s'. send9 v s = Inr s') = (\<exists>r. push_fifo v (regs9 s) = Inr r)"
  "(\<exists>s'. send7 v s = Inr s') = (\<exists>r. push_fifo v (regs7 s) = Inr r)"
  using fire_returns [of 18] by (auto simp: send9_def send7_def rbind_Inr_iff Let_def)

lemma recv_returns:
  "(\<exists>v s' addr. TRANSFER9_load32 addr s = Inr (v, s')) = (\<exists>v r. pop_fifo (regs7 s) = Some (v, r))"
  "(\<exists>v s' addr. TRANSFER7_load32 addr s = Inr (v, s')) = (\<exists>v r. pop_fifo (regs9 s) = Some (v, r))"
proof -
  have "\<exists>v s'. TRANSFER9_load32 0 s = Inr (v, s')" if "pop_fifo (regs7 s) = Some (v, r)" for v r
  proof -
    obtain s2 where "fire7 17 (s\<lparr>regs7 := r, regs9 := flag_fifo (get_fifostate r) (regs9 s)\<rparr>) = Inr s2"
      using fire_returns(2) [of 17] by auto
    then show ?thesis
      using that by (cases "get_fifostate r AND 1 = 0") (auto simp: TRANSFER9_load32_def Let_def)
  qed
  then show "(\<exists>v s' addr. TRANSFER9_load32 addr s = Inr (v, s')) = (\<exists>v r. pop_fifo (regs7 s) = Some (v, r))"
    using recv_regs(1) by blast
  have "\<exists>v s'. TRANSFER7_load32 0 s = Inr (v, s')" if "pop_fifo (regs9 s) = Some (v, r)" for v r
  proof -
    obtain s2 where "fire9 17 (s\<lparr>regs9 := r, regs7 := flag_fifo (get_fifostate r) (regs7 s)\<rparr>) = Inr s2"
      using fire_returns(1) [of 17] by auto
    then show ?thesis
      using that by (cases "get_fifostate r AND 1 = 0") (auto simp: TRANSFER7_load32_def Let_def)
  qed
  then show "(\<exists>v s' addr. TRANSFER7_load32 addr s = Inr (v, s')) = (\<exists>v r. pop_fifo (regs9 s) = Some (v, r))"
    using recv_regs(2) by blast
qed

lemma ipc_in_order_witness:
  "sent9 [Send9 5] = recvd7 [Send9 5] @ in_flight (regs9 ipc_sent) \<and>
   sent7 [Send9 5] = recvd9 [Send9 5] @ in_flight (regs7 ipc_sent) \<and>
   length (in_flight (regs9 ipc_sent)) \<le> 16 \<and> length (in_flight (regs7 ipc_sent)) \<le> 16"
proof -
  have "fifo_inv 16 (ipc_fifo (regs9 ipc_reset))" and "in_flight (regs9 ipc_reset) = []"
    using ipc_inv_reset by (auto simp: ipc_inv_def traffic_defs)
  then obtain s where "send9 5 ipc_reset = Inr s"
    using push_fifo_returns [of "regs9 ipc_reset" 5] send_returns(1) [of 5 ipc_reset] by auto
  then have "ipc_step ipc_reset (Send9 5) ipc_sent" by (simp add: ipc_step_iff ipc_sent_def)
  from ipc_run.more [OF ipc_run.none this] have "ipc_run ipc_reset [Send9 5] ipc_sent" by simp
  then show ?thesis by (rule ipc_in_order)
qed

text \<open>
  C9: in every reachable state the moves that can be made are those the queues allow: a
  word can be sent exactly while fewer than 16 are in flight and received exactly while
  some is; no other obstacle (an assertion, a stale flag) stops the processors.
\<close>

theorem ipc_progress:
  assumes "ipc_run ipc_reset es s"
  shows "((\<exists>s'. ipc_step s (Send9 v) s') \<longleftrightarrow> length (in_flight (regs9 s)) < 16) \<and>
    ((\<exists>s'. ipc_step s (Send7 v) s') \<longleftrightarrow> length (in_flight (regs7 s)) < 16) \<and>
    ((\<exists>v s'. ipc_step s (Recv7 v) s') \<longleftrightarrow> in_flight (regs9 s) \<noteq> []) \<and>
    ((\<exists>v s'. ipc_step s (Recv9 v) s') \<longleftrightarrow> in_flight (regs7 s) \<noteq> [])"
proof -
  have inv: "fifo_inv 16 (ipc_fifo (regs9 s))" "fifo_inv 16 (ipc_fifo (regs7 s))"
    using ipc_inv_run [OF assms ipc_inv_reset] by (simp_all add: ipc_inv_def)
  note ret = push_fifo_returns [OF inv(1)] push_fifo_returns [OF inv(2)]
    pop_fifo_returns [OF inv(1)] pop_fifo_returns [OF inv(2)]
  show ?thesis
    by (simp only: ipc_step_iff send_returns recv_returns ret simp_thms)
qed

lemma ipc_progress_witness:
  "((\<exists>s'. ipc_step ipc_reset (Send9 7) s') \<longleftrightarrow> length (in_flight (regs9 ipc_reset)) < 16) \<and>
   ((\<exists>s'. ipc_step ipc_reset (Send7 7) s') \<longleftrightarrow> length (in_flight (regs7 ipc_reset)) < 16) \<and>
   ((\<exists>v s'. ipc_step ipc_reset (Recv7 v) s') \<longleftrightarrow> in_flight (regs9 ipc_reset) \<noteq> []) \<and>
   ((\<exists>v s'. ipc_step ipc_reset (Recv9 v) s') \<longleftrightarrow> in_flight (regs7 ipc_reset) \<noteq> [])"
  by (rule ipc_progress [OF ipc_run.none])

section \<open>Status and signals\<close>

text \<open>
  C10: in every reachable state the control register a processor reads shows its own
  queue empty (bit 0) and full (bit 1) exactly when it is, and the other processor's
  queue full (bit 9) exactly when it is; the receive-empty flag (bit 8) is right from the
  other side's first send on and reads as not empty before.
\<close>

theorem ipc_status:
  assumes "ipc_run ipc_reset es s"
  shows "(bit (get_fifocnt (regs9 s)) 0 \<longleftrightarrow> in_flight (regs9 s) = []) \<and>
    (bit (get_fifocnt (regs9 s)) 1 \<longleftrightarrow> length (in_flight (regs9 s)) = 16) \<and>
    (bit (get_fifocnt (regs9 s)) 8 \<longleftrightarrow> in_flight (regs7 s) = [] \<and> sent7 es \<noteq> []) \<and>
    (bit (get_fifocnt (regs9 s)) 9 \<longleftrightarrow> length (in_flight (regs7 s)) = 16) \<and>
    (bit (get_fifocnt (regs7 s)) 0 \<longleftrightarrow> in_flight (regs7 s) = []) \<and>
    (bit (get_fifocnt (regs7 s)) 1 \<longleftrightarrow> length (in_flight (regs7 s)) = 16) \<and>
    (bit (get_fifocnt (regs7 s)) 8 \<longleftrightarrow> in_flight (regs9 s) = [] \<and> sent9 es \<noteq> []) \<and>
    (bit (get_fifocnt (regs7 s)) 9 \<longleftrightarrow> length (in_flight (regs9 s)) = 16)"
proof -
  have inv: "ipc_inv es s" by (rule ipc_inv_run [OF assms ipc_inv_reset])
  then have f: "fifo_inv 16 (ipc_fifo (regs9 s))" "fifo_inv 16 (ipc_fifo (regs7 s))"
    by (simp_all add: ipc_inv_def)
  have low: "bit (get_fifocnt r) i = bit (get_fifostate r) i" if "i = 0 \<or> i = 1" for i r
    using that by (auto simp: get_fifocnt_def bit_simps)
  have high: "bit (get_fifocnt r) i = bit (ipc_fifocnt r) i" if "i = 8 \<or> i = 9" for i r
    using that by (auto simp: get_fifocnt_def get_fifostate_def bit_simps)
  show ?thesis
    using inv by (simp only: low high bit_fifostate [OF f(1)] bit_fifostate [OF f(2)] simp_thms)
      (auto simp: ipc_inv_def recv_flags_def split: if_splits)
qed

lemma ipc_status_witness:
  "(bit (get_fifocnt (regs9 ipc_reset)) 0 \<longleftrightarrow> in_flight (regs9 ipc_reset) = []) \<and>
   (bit (get_fifocnt (regs9 ipc_reset)) 8 \<longleftrightarrow> in_flight (regs7 ipc_reset) = [] \<and> sent7 [] \<noteq> [])"
  using ipc_status [OF ipc_run.none] by blast

text \<open>A send raises the other side's receive interrupt until that side collects its
  signals.\<close>

definition since_take7 :: "ipc_event list \<Rightarrow> ipc_event set" where
  "since_take7 es = set (takeWhile (\<lambda>e. e \<noteq> Take7) (rev es))"

definition since_take9 :: "ipc_event list \<Rightarrow> ipc_event set" where
  "since_take9 es = set (takeWhile (\<lambda>e. e \<noteq> Take9) (rev es))"

lemma since_snoc:
  "since_take7 (es @ [e]) = (if e = Take7 then {} else insert e (since_take7 es))"
  "since_take9 (es @ [e]) = (if e = Take9 then {} else insert e (since_take9 es))"
  by (auto simp: since_take7_def since_take9_def)

lemma fire_sig:
  "fire9 i s = Inr s' \<Longrightarrow> sig9 s' = sig9 s OR push_bit i 1 \<and> sig7 s' = sig7 s"
  "fire7 i s = Inr s' \<Longrightarrow> sig7 s' = sig7 s OR push_bit i 1 \<and> sig9 s' = sig9 s"
  by (auto simp: fire9_def fire7_def fire_def Let_def split: option.splits prod.splits if_splits)

lemma send_sig:
  "send9 v s = Inr s' \<Longrightarrow> sig7 s' = sig7 s OR push_bit 18 1 \<and> sig9 s' = sig9 s"
  "send7 v s = Inr s' \<Longrightarrow> sig9 s' = sig9 s OR push_bit 18 1 \<and> sig7 s' = sig7 s"
  unfolding send9_def send7_def by (auto simp: rbind_Inr_iff Let_def simp del: push_bit_of_1 dest!: fire_sig)

lemma recv_sig:
  "TRANSFER9_load32 addr s = Inr (v, s') \<Longrightarrow> sig9 s' = sig9 s \<and> bit (sig7 s') 18 = bit (sig7 s) 18"
  "TRANSFER7_load32 addr s = Inr (v, s') \<Longrightarrow> sig7 s' = sig7 s \<and> bit (sig9 s') 18 = bit (sig9 s) 18"
  by (auto simp: TRANSFER9_load32_def TRANSFER7_load32_def rbind_Inr_iff Let_def bit_simps
      split: if_splits option.splits dest!: fire_sig)

definition signal_inv :: "ipc_event list \<Rightarrow> ipc_sys \<Rightarrow> bool" where
  "signal_inv es s =
    ((bit (sig7 s) 18 \<longleftrightarrow> (\<exists>v. Send9 v \<in> since_take7 es)) \<and>
     (bit (sig9 s) 18 \<longleftrightarrow> (\<exists>v. Send7 v \<in> since_take9 es)))"

lemma signal_inv_step:
  assumes "ipc_step s e s'" and "signal_inv es s"
  shows "signal_inv (es @ [e]) s'"
  using assms
proof cases
  case (send9 v)
  then show ?thesis using assms(2) send_sig(1) [OF send9(2)] by (auto simp: signal_inv_def since_snoc bit_simps)
next
  case (send7 v)
  then show ?thesis using assms(2) send_sig(2) [OF send7(2)] by (auto simp: signal_inv_def since_snoc bit_simps)
next
  case (recv9 addr v)
  then show ?thesis using assms(2) recv_sig(1) [OF recv9(2)] by (auto simp: signal_inv_def since_snoc)
next
  case (recv7 addr v)
  then show ?thesis using assms(2) recv_sig(2) [OF recv7(2)] by (auto simp: signal_inv_def since_snoc)
qed (auto simp: signal_inv_def since_snoc sync9_def sync7_def)

text \<open>
  C11: in every interleaving a processor's receive interrupt (18) is pending exactly when
  the other side has sent since the processor last collected its signals: no wake-up is
  lost and none is invented.
\<close>

theorem ipc_wakeup:
  assumes "ipc_run ipc_reset es s"
  shows "(bit (sig7 s) 18 \<longleftrightarrow> (\<exists>v. Send9 v \<in> since_take7 es)) \<and>
    (bit (sig9 s) 18 \<longleftrightarrow> (\<exists>v. Send7 v \<in> since_take9 es))"
proof -
  have "ipc_run s0 es s \<Longrightarrow> signal_inv [] s0 \<Longrightarrow> signal_inv es s" for s0
    by (induction rule: ipc_run.induct) (auto intro: signal_inv_step)
  moreover have "signal_inv [] ipc_reset"
    by (simp add: signal_inv_def ipc_reset_def since_take7_def since_take9_def)
  ultimately show ?thesis using assms by (simp add: signal_inv_def)
qed

lemma ipc_wakeup_witness:
  "(bit (sig7 ipc_reset) 18 \<longleftrightarrow> (\<exists>v. Send9 v \<in> since_take7 [])) \<and>
   (bit (sig9 ipc_reset) 18 \<longleftrightarrow> (\<exists>v. Send7 v \<in> since_take9 []))"
  by (rule ipc_wakeup [OF ipc_run.none])

end
