(* ===== verification/Io_Regs.thy ===== *)
theory Io_Regs
  imports Ipc Memory
begin

text \<open>
  The register pages of both processors (\<^verbatim>\<open>REGISTERS9_1\<close>, \<^verbatim>\<open>REGISTERS7_1\<close> of
  \<^verbatim>\<open>Core/IORegs.cpp\<close>) as access handlers of the memory: the words live in the
  page's bytes, some of them also act on the other processor, on the DMA, on the video
  memory's mapping or on the serial bus with its touch screen. Plugins' callbacks, the DMA
  and the remapping are arguments; the names are for logging only and are left out.
\<close>

section \<open>State\<close>

text \<open>What is behind the register pages besides their bytes.\<close>

record io_regs =
  ipcs :: ipc_sys
  spicnt :: u32
  spidata :: u32
  spidatanum :: u32
  spi_in :: "u32 list"
  tx :: u32
  ty :: u32
  dtx :: u32
  dty :: u32

text \<open>\<^verbatim>\<open>ioregs::readcb\<close>, \<^verbatim>\<open>ioregs::writecb\<close>: every callback may change the
  value in passing.\<close>

type_synonym io_callback = "u32 \<Rightarrow> u32 \<Rightarrow> u32"

definition run_callbacks :: "io_callback list \<Rightarrow> u32 \<Rightarrow> u32 \<Rightarrow> u32" where
  "run_callbacks cbs addr value = fold (\<lambda>cb v. cb addr v) cbs value"

definition add_callback :: "io_callback option \<Rightarrow> io_callback list \<Rightarrow> io_callback list" where
  "add_callback cb cbs = (case cb of None \<Rightarrow> cbs | Some f \<Rightarrow> cbs @ [f])"

definition upd_ipcs :: "(ipc_sys \<Rightarrow> ipc_sys res) \<Rightarrow> io_regs memory \<Rightarrow> io_regs memory res" where
  "upd_ipcs f m = rbind (f (ipcs (io m))) (\<lambda>s. Inr (m\<lparr>io := (io m)\<lparr>ipcs := s\<rparr>\<rparr>))"

section \<open>The ARM9's registers\<close>

text \<open>\<open>dma\<close> gets the block and the offset of the channel's three registers.\<close>

definition REGISTERS9_1_store32 :: "io_callback list \<Rightarrow> (nat \<Rightarrow> nat \<Rightarrow> io_regs memory \<Rightarrow> io_regs memory res) \<Rightarrow>
    (io_regs memory \<Rightarrow> io_regs memory) \<Rightarrow> u32 \<Rightarrow> u32 \<Rightarrow> io_regs memory \<Rightarrow> io_regs memory res" where
  "REGISTERS9_1_store32 writecbs dma remap addr value m =
    (let b = addr2page addr m;
         subaddr = unat (addr AND (ADDRESS_MASK AND NOT 3));
         addr4k = addr AND 0x1FFF;
         value = run_callbacks writecbs addr value
     in if addr4k = 0xB8 \<or> addr4k = 0xC4 \<or> addr4k = 0xD0 \<or> addr4k = 0xDC
        then (let m = poke b (wr32 subaddr value) m in dma b (unat (addr4k - 8)) m)
        else
         rbind (if addr4k = 0x180 then upd_ipcs (\<lambda>s. Inr (sync9 value s)) m
                else if addr4k = 0x188 then upd_ipcs (send9 value) m
                else Inr m) (\<lambda>m.
         if rd32 (mem (blk m b)) subaddr \<noteq> value
         then (let m = poke b (wr32 subaddr value) m;
                   m = (if addr4k = 0x240 \<or> addr4k = 0x244 \<or> addr4k = 0x248 then remap m else m)
               in Inr (dirty b m))
         else Inr m))"

text \<open>The halfword is combined with the four bytes at the halfword's own address; at the
  page's end these run over it, which is undefined and stops here.\<close>

definition half_combine :: "u8 list \<Rightarrow> u32 \<Rightarrow> u32 \<Rightarrow> u32 res" where
  "half_combine bytes addr value =
    (let subaddr = unat (addr AND (ADDRESS_MASK AND NOT 1))
     in if subaddr + 3 < length bytes
        then Inr (set_e_h (rd32 bytes subaddr) (unat (drop_bit 1 addr AND 1)) value)
        else Inl (Debug_Break ''read past the page''))"

definition byte_combine :: "u8 list \<Rightarrow> u32 \<Rightarrow> u32 \<Rightarrow> u32" where
  "byte_combine bytes addr value =
    (let subaddr = addr AND ADDRESS_MASK
     in set_e_b (rd32 bytes (unat (subaddr AND NOT 3))) (unat (addr AND 3)) value)"

definition REGISTERS9_1_store16 :: "io_callback list \<Rightarrow> (nat \<Rightarrow> nat \<Rightarrow> io_regs memory \<Rightarrow> io_regs memory res) \<Rightarrow>
    (io_regs memory \<Rightarrow> io_regs memory) \<Rightarrow> u32 \<Rightarrow> u32 \<Rightarrow> io_regs memory \<Rightarrow> io_regs memory res" where
  "REGISTERS9_1_store16 writecbs dma remap addr value m =
    rbind (half_combine (mem (blk m (addr2page addr m))) addr value) (\<lambda>w.
      REGISTERS9_1_store32 writecbs dma remap (addr AND NOT 3) w m)"

definition REGISTERS9_1_store8 :: "io_callback list \<Rightarrow> (nat \<Rightarrow> nat \<Rightarrow> io_regs memory \<Rightarrow> io_regs memory res) \<Rightarrow>
    (io_regs memory \<Rightarrow> io_regs memory) \<Rightarrow> u32 \<Rightarrow> u32 \<Rightarrow> io_regs memory \<Rightarrow> io_regs memory res" where
  "REGISTERS9_1_store8 writecbs dma remap addr value m =
    REGISTERS9_1_store32 writecbs dma remap (addr AND NOT 3)
      (byte_combine (mem (blk m (addr2page addr m))) addr value) m"

definition REGISTERS9_1_load32 :: "io_callback list \<Rightarrow> u32 \<Rightarrow> io_regs memory \<Rightarrow> (u32 \<times> io_regs memory) res" where
  "REGISTERS9_1_load32 readcbs addr m =
    (let b = addr2page addr m;
         subaddr = unat (addr AND (ADDRESS_MASK AND NOT 3));
         addr4k = addr AND 0x1FFF;
         m = (if addr4k = 0x180 then poke b (wr32 subaddr (get_ipc (regs9 (ipcs (io m))))) m
              else if addr4k = 0x184 then poke b (wr32 subaddr (get_fifocnt (regs9 (ipcs (io m))))) m
              else m);
         m = poke b (wr32 subaddr (run_callbacks readcbs addr (rd32 (mem (blk m b)) subaddr))) m
     in Inr (rd32 (mem (blk m b)) subaddr, m))"

definition REGISTERS9_1_load16u :: "io_callback list \<Rightarrow> u32 \<Rightarrow> io_regs memory \<Rightarrow> (u32 \<times> io_regs memory) res" where
  "REGISTERS9_1_load16u readcbs addr m =
    rbind (REGISTERS9_1_load32 readcbs (addr AND NOT 3) m) (\<lambda>(w, m). Inr (e_h w (unat (drop_bit 1 addr AND 1)), m))"

definition REGISTERS9_1_load16s :: "io_callback list \<Rightarrow> u32 \<Rightarrow> io_regs memory \<Rightarrow> (u32 \<times> io_regs memory) res" where
  "REGISTERS9_1_load16s readcbs addr m =
    rbind (REGISTERS9_1_load16u readcbs addr m) (\<lambda>(w, m). Inr (sext16 w, m))"

definition REGISTERS9_1_load8u :: "io_callback list \<Rightarrow> u32 \<Rightarrow> io_regs memory \<Rightarrow> (u32 \<times> io_regs memory) res" where
  "REGISTERS9_1_load8u readcbs addr m =
    rbind (REGISTERS9_1_load32 readcbs (addr AND NOT 3) m) (\<lambda>(w, m). Inr (e_b w (unat (addr AND 3)), m))"

text \<open>Multiple transfers stop on either processor.\<close>

definition REGISTERS_store32_array :: "u32 \<Rightarrow> u32 list \<Rightarrow> io_regs memory \<Rightarrow> io_regs memory res" where
  "REGISTERS_store32_array addr ws m = Inl (Debug_Break ''Store Multiple not supported'')"

definition REGISTERS_load32_array :: "u32 \<Rightarrow> nat \<Rightarrow> io_regs memory \<Rightarrow> (u32 list \<times> io_regs memory) res" where
  "REGISTERS_load32_array addr num m = Inl (Debug_Break ''Load Multiple not supported'')"

section \<open>The serial bus and the touch screen\<close>

definition touch_setxy :: "u32 \<Rightarrow> u32 \<Rightarrow> io_regs \<Rightarrow> io_regs" where
  "touch_setxy x y r =
    (let r = r\<lparr>dtx := x - tx r\<rparr>;
         r = r\<lparr>dty := y - ty r\<rparr>;
         r = r\<lparr>tx := x\<rparr>
     in r\<lparr>ty := y\<rparr>)"

definition set_spicnt :: "u32 \<Rightarrow> io_regs \<Rightarrow> io_regs" where
  "set_spicnt value r = r\<lparr>spicnt := value AND 0xFFFF\<rparr>"

text \<open>The byte sent: a start byte resets the sequence, up to three more are kept.\<close>

definition spi_shift_in :: "u32 \<Rightarrow> io_regs \<Rightarrow> io_regs" where
  "spi_shift_in value r =
    (let start = value AND 0x80
     in if start \<noteq> 0
        then (let r = r\<lparr>spidatanum := 1\<rparr> in r\<lparr>spi_in := (spi_in r)[0 := value]\<rparr>)
        else if spidatanum r < 4
        then r\<lparr>spi_in := (spi_in r)[unat (spidatanum r) := value], spidatanum := spidatanum r + 1\<rparr>
        else r\<lparr>spidatanum := spidatanum r + 1\<rparr>)"

text \<open>The touch screen's answer on a channel and the state after it.\<close>

definition touch_channel :: "u32 \<Rightarrow> bool \<Rightarrow> io_regs \<Rightarrow> (u32 \<times> io_regs) res" where
  "touch_channel chn differential r = switch chn
     [(0, if differential then Inl (Debug_Break ''Temperature 0'') else Inr (0x2F8, r)),
      (7, if differential then Inl (Debug_Break ''Temperature 1'') else Inr (0x384, r)),
      (1, if differential
          then (let resbyte = dty r * 0xE;
                    r = (if spidatanum r = 3 then r\<lparr>dty := 0\<rparr> else r)
                in Inr (resbyte AND 0xFFF, r))
          else Inr (ty r, r)),
      (5, if differential
          then (let resbyte = dtx r;
                    r = (if spidatanum r = 3 then r\<lparr>dtx := 0\<rparr> else r)
                in Inr (resbyte, r))
          else Inr (tx r, r))]
     (Inr (0, r))"

definition set_spidat :: "u32 \<Rightarrow> io_regs \<Rightarrow> io_regs res" where
  "set_spidat value r =
    (let r = r\<lparr>spidata := 0\<rparr>;
         r = spi_shift_in value r;
         chn = drop_bit 4 (spi_in r ! 0) AND 0x7;
         differential = (spi_in r ! 0 AND 0x4 = 0)
     in if drop_bit 8 (spicnt r) AND 3 = 2
        then rbind (touch_channel chn differential r) (\<lambda>(resbyte, r).
             if spidatanum r = 2 then Inr (r\<lparr>spidata := drop_bit 5 resbyte\<rparr>)
             else if spidatanum r = 3 then Inr (r\<lparr>spidata := push_bit 3 resbyte AND 0xFF\<rparr>)
             else Inr r)
        else Inr r)"

section \<open>The ARM7's registers\<close>

definition upd_io :: "(io_regs \<Rightarrow> io_regs res) \<Rightarrow> io_regs memory \<Rightarrow> io_regs memory res" where
  "upd_io f m = rbind (f (io m)) (\<lambda>r. Inr (m\<lparr>io := r\<rparr>))"

text \<open>The cases of \<^verbatim>\<open>REGISTERS7_1::store16\<close> for the serial bus, with the update of
  the halfword that follows them; the others go through the word.\<close>

definition REGISTERS7_1_spi16 :: "u32 \<Rightarrow> u32 \<Rightarrow> io_regs memory \<Rightarrow> io_regs memory res" where
  "REGISTERS7_1_spi16 addr value m =
    (let b = addr2page addr m;
         subaddr = unat (addr AND (ADDRESS_MASK AND NOT 1))
     in rbind (if addr AND 0x1FFF = 0x1C0 then upd_io (\<lambda>r. Inr (set_spicnt value r)) m
               else upd_io (set_spidat value) m) (\<lambda>m.
        if rd16 (mem (blk m b)) subaddr \<noteq> value
        then Inr (dirty b (poke b (wr16 subaddr value) m))
        else Inr m))"

definition REGISTERS7_1_store32 :: "io_callback list \<Rightarrow> u32 \<Rightarrow> u32 \<Rightarrow> io_regs memory \<Rightarrow> io_regs memory res" where
  "REGISTERS7_1_store32 writecbs addr value m =
    (let b = addr2page addr m;
         subaddr = unat (addr AND (ADDRESS_MASK AND NOT 3));
         addr4k = addr AND 0x1FFF;
         value = run_callbacks writecbs addr value
     in if addr4k = 0x1C0
        then rbind (REGISTERS7_1_spi16 addr (e_h value 0) m) (REGISTERS7_1_spi16 (addr + 2) (e_h value 1))
        else
         rbind (if addr4k = 0x180 then upd_ipcs (\<lambda>s. Inr (sync7 value s)) m
                else if addr4k = 0x188 then upd_ipcs (send7 value) m
                else Inr m) (\<lambda>m.
         if rd32 (mem (blk m b)) subaddr \<noteq> value
         then Inr (dirty b (poke b (wr32 subaddr value) m))
         else Inr m))"

definition REGISTERS7_1_store16 :: "io_callback list \<Rightarrow> u32 \<Rightarrow> u32 \<Rightarrow> io_regs memory \<Rightarrow> io_regs memory res" where
  "REGISTERS7_1_store16 writecbs addr value m =
    (if addr AND 0x1FFF = 0x1C0 \<or> addr AND 0x1FFF = 0x1C2 then REGISTERS7_1_spi16 addr value m
     else rbind (half_combine (mem (blk m (addr2page addr m))) addr value) (\<lambda>w.
        REGISTERS7_1_store32 writecbs (addr AND NOT 3) w m))"

definition REGISTERS7_1_store8 :: "io_callback list \<Rightarrow> u32 \<Rightarrow> u32 \<Rightarrow> io_regs memory \<Rightarrow> io_regs memory res" where
  "REGISTERS7_1_store8 writecbs addr value m =
    REGISTERS7_1_store32 writecbs (addr AND NOT 3) (byte_combine (mem (blk m (addr2page addr m))) addr value) m"

text \<open>\<^verbatim>\<open>load32\<close> of the bus control register reads its halves by \<^verbatim>\<open>load16u\<close>, in
  the two cases that do not come back to \<^verbatim>\<open>load32\<close>.\<close>

definition REGISTERS7_1_load32 :: "io_callback list \<Rightarrow> u32 \<Rightarrow> io_regs memory \<Rightarrow> (u32 \<times> io_regs memory) res" where
  "REGISTERS7_1_load32 readcbs addr m =
    (let b = addr2page addr m;
         subaddr = unat (addr AND (ADDRESS_MASK AND NOT 3));
         addr4k = addr AND 0x1FFF;
         m = (if addr4k = 0x180 then poke b (wr32 subaddr (get_ipc (regs7 (ipcs (io m))))) m
              else if addr4k = 0x184 then poke b (wr32 subaddr (get_fifocnt (regs7 (ipcs (io m))))) m
              else if addr4k = 0x1C0 then poke b (wr32 subaddr (set_e_h (set_e_h 0 0 0) 1 (spidata (io m)))) m
              else m);
         m = poke b (wr32 subaddr (run_callbacks readcbs addr (rd32 (mem (blk m b)) subaddr))) m
     in Inr (rd32 (mem (blk m b)) subaddr, m))"

definition REGISTERS7_1_load16u :: "io_callback list \<Rightarrow> u32 \<Rightarrow> io_regs memory \<Rightarrow> (u32 \<times> io_regs memory) res" where
  "REGISTERS7_1_load16u readcbs addr m =
    (let addr4k = addr AND 0x1FFF
     in if addr4k = 0x1C0 then Inr (0, m)
        else if addr4k = 0x1C2 then Inr (spidata (io m), m)
        else rbind (REGISTERS7_1_load32 readcbs (addr AND NOT 3) m) (\<lambda>(w, m).
          Inr (e_h w (unat (drop_bit 1 addr AND 1)), m)))"

definition REGISTERS7_1_load16s :: "io_callback list \<Rightarrow> u32 \<Rightarrow> io_regs memory \<Rightarrow> (u32 \<times> io_regs memory) res" where
  "REGISTERS7_1_load16s readcbs addr m =
    rbind (REGISTERS7_1_load16u readcbs addr m) (\<lambda>(w, m). Inr (sext16 w, m))"

definition REGISTERS7_1_load8u :: "io_callback list \<Rightarrow> u32 \<Rightarrow> io_regs memory \<Rightarrow> (u32 \<times> io_regs memory) res" where
  "REGISTERS7_1_load8u readcbs addr m =
    rbind (REGISTERS7_1_load32 readcbs (addr AND NOT 3) m) (\<lambda>(w, m). Inr (e_b w (unat (addr AND 3)), m))"

text \<open>The transfer pages: reads pop the other side's queue, writes are only logged.\<close>

definition lift_ipc :: "(ipc_sys \<Rightarrow> (u32 \<times> ipc_sys) res) \<Rightarrow> io_regs memory \<Rightarrow> (u32 \<times> io_regs memory) res" where
  "lift_ipc f m = rbind (f (ipcs (io m))) (\<lambda>(v, s). Inr (v, m\<lparr>io := (io m)\<lparr>ipcs := s\<rparr>\<rparr>))"

definition TRANSFER_store :: "u32 \<Rightarrow> u32 \<Rightarrow> io_regs memory \<Rightarrow> io_regs memory res" where
  "TRANSFER_store addr value m = Inr m"

section \<open>Accesses are the moves of the protocol\<close>

text \<open>What the programs do with the two register pages and the two transfer pages.\<close>

datatype reg_access = Write9 u32 u32 | Write7 u32 u32 | Read9 u32 | Read7 u32 | Fetch9 u32 | Fetch7 u32

text \<open>Callbacks, DMA and remapping, the world around the pages.\<close>

record io_world =
  w_writecbs9 :: "io_callback list"
  w_readcbs9 :: "io_callback list"
  w_writecbs7 :: "io_callback list"
  w_readcbs7 :: "io_callback list"
  w_dma :: "nat \<Rightarrow> nat \<Rightarrow> io_regs memory \<Rightarrow> io_regs memory res"
  w_remap :: "io_regs memory \<Rightarrow> io_regs memory"

fun do_access :: "io_world \<Rightarrow> reg_access \<Rightarrow> io_regs memory \<Rightarrow> (u32 \<times> io_regs memory) res" where
  "do_access w (Write9 a v) m = rbind (REGISTERS9_1_store32 (w_writecbs9 w) (w_dma w) (w_remap w) a v m) (\<lambda>m. Inr (0, m))"
| "do_access w (Write7 a v) m = rbind (REGISTERS7_1_store32 (w_writecbs7 w) a v m) (\<lambda>m. Inr (0, m))"
| "do_access w (Read9 a) m = REGISTERS9_1_load32 (w_readcbs9 w) a m"
| "do_access w (Read7 a) m = REGISTERS7_1_load32 (w_readcbs7 w) a m"
| "do_access w (Fetch9 a) m = lift_ipc (TRANSFER9_load32 a) m"
| "do_access w (Fetch7 a) m = lift_ipc (TRANSFER7_load32 a) m"

text \<open>The move an access makes; \<open>r\<close> is the value it returned.\<close>

fun move_of :: "io_world \<Rightarrow> reg_access \<times> u32 \<Rightarrow> ipc_event list" where
  "move_of w (Write9 a v, r) = (let v = run_callbacks (w_writecbs9 w) a v in
     if a AND 0x1FFF = 0x180 then [Sync9 v] else if a AND 0x1FFF = 0x188 then [Send9 v] else [])"
| "move_of w (Write7 a v, r) = (let v = run_callbacks (w_writecbs7 w) a v in
     if a AND 0x1FFF = 0x180 then [Sync7 v] else if a AND 0x1FFF = 0x188 then [Send7 v] else [])"
| "move_of w (Fetch9 a, r) = [Recv9 r]"
| "move_of w (Fetch7 a, r) = [Recv7 r]"
| "move_of w (Read9 a, r) = []"
| "move_of w (Read7 a, r) = []"

inductive reg_run :: "io_world \<Rightarrow> io_regs memory \<Rightarrow> (reg_access \<times> u32) list \<Rightarrow> io_regs memory \<Rightarrow> bool" for w where
  start: "reg_run w m [] m"
| access: "reg_run w m as m' \<Longrightarrow> do_access w a m' = Inr (r, m'') \<Longrightarrow> reg_run w m (as @ [(a, r)]) m''"

inductive_cases reg_run_snocE: "reg_run w m (as @ [ar]) m'"

definition keeps_ipc :: "io_world \<Rightarrow> bool" where
  "keeps_ipc w = ((\<forall>b k m m'. w_dma w b k m = Inr m' \<longrightarrow> ipcs (io m') = ipcs (io m)) \<and>
     (\<forall>m. ipcs (io (w_remap w m)) = ipcs (io m)))"

lemma io_poke_dirty [simp]: "io (poke b f m) = io m" "io (dirty b m) = io m"
  by (simp_all add: poke_def dirty_def upd_blk_def)

lemma upd_ipcs_inr: "upd_ipcs f m = Inr m' \<Longrightarrow> f (ipcs (io m)) = Inr (ipcs (io m')) \<and> blk m' = blk m \<and> pmap m' = pmap m"
  by (auto simp: upd_ipcs_def rbind_Inr_iff)

lemma spi16_ipcs: "REGISTERS7_1_spi16 a v m = Inr m' \<Longrightarrow> ipcs (io m') = ipcs (io m)"
proof -
  have "set_spidat v r = Inr r' \<Longrightarrow> ipcs r' = ipcs r" for v r r'
    by (auto simp: set_spidat_def spi_shift_in_def touch_channel_def Let_def rbind_Inr_iff split: if_splits)
  moreover assume "REGISTERS7_1_spi16 a v m = Inr m'"
  ultimately show ?thesis
    by (auto simp: REGISTERS7_1_spi16_def upd_io_def set_spicnt_def Let_def rbind_Inr_iff split: if_splits)
qed

lemma store32_9_moves:
  assumes "REGISTERS9_1_store32 cbs dma remap a v m = Inr m'" and "keeps_ipc w" "dma = w_dma w" "remap = w_remap w"
    and "cbs = w_writecbs9 w"
  shows "(move_of w (Write9 a v, r) = [] \<and> ipcs (io m') = ipcs (io m)) \<or>
    (\<exists>e. move_of w (Write9 a v, r) = [e] \<and> ipc_step (ipcs (io m)) e (ipcs (io m')))"
  using assms unfolding keeps_ipc_def
  by (auto simp: REGISTERS9_1_store32_def Let_def rbind_Inr_iff ipc_step_iff dest!: upd_ipcs_inr split: if_splits)

lemma store32_7_moves:
  assumes "REGISTERS7_1_store32 (w_writecbs7 w) a v m = Inr m'"
  shows "(move_of w (Write7 a v, r) = [] \<and> ipcs (io m') = ipcs (io m)) \<or>
    (\<exists>e. move_of w (Write7 a v, r) = [e] \<and> ipc_step (ipcs (io m)) e (ipcs (io m')))"
  using assms
  by (auto simp: REGISTERS7_1_store32_def Let_def rbind_Inr_iff ipc_step_iff spi16_ipcs dest!: upd_ipcs_inr split: if_splits)

lemma fetch_moves:
  "lift_ipc (TRANSFER9_load32 a) m = Inr (r, m') \<Longrightarrow> ipc_step (ipcs (io m)) (Recv9 r) (ipcs (io m'))"
  "lift_ipc (TRANSFER7_load32 a) m = Inr (r, m') \<Longrightarrow> ipc_step (ipcs (io m)) (Recv7 r) (ipcs (io m'))"
  by (auto simp: lift_ipc_def rbind_Inr_iff intro: ipc_step.intros)

lemma access_moves:
  assumes "do_access w a m = Inr (r, m')" and "keeps_ipc w"
  shows "(move_of w (a, r) = [] \<and> ipcs (io m') = ipcs (io m)) \<or>
    (\<exists>e. move_of w (a, r) = [e] \<and> ipc_step (ipcs (io m)) e (ipcs (io m')))"
proof (cases a)
  case (Write9 x v)
  then show ?thesis
    using assms store32_9_moves [OF _ assms(2) refl refl refl, of x v m m' r] by (auto simp: rbind_Inr_iff)
next
  case (Write7 x v)
  then show ?thesis using assms(1) store32_7_moves [of w x v m m' r] by (auto simp: rbind_Inr_iff)
qed (use assms(1) fetch_moves in \<open>auto simp: REGISTERS9_1_load32_def REGISTERS7_1_load32_def Let_def\<close>)

lemma reg_run_moves:
  "reg_run w m as m' \<Longrightarrow> keeps_ipc w \<Longrightarrow> ipc_run (ipcs (io m)) (concat (map (move_of w) as)) (ipcs (io m'))"
proof (induction rule: reg_run.induct)
  case (start m)
  show ?case by (simp add: ipc_run.none)
next
  case (access m as m' a r m'')
  then show ?case using access_moves [of w a m' r m''] by (auto intro: ipc_run.more)
qed


definition io_mem0 :: "io_regs memory" where
  "io_mem0 = \<lparr>blk = (\<lambda>_. \<lparr>flags = PAGE_ACCESSHANDLER, mem = replicate 512 0\<rparr>), pmap = (\<lambda>_. 0),
     io = \<lparr>ipcs = ipc_reset, spicnt = 0x200, spidata = 0, spidatanum = 0, spi_in = [0, 0, 0, 0],
           tx = 0x123, ty = 0x45, dtx = 3, dty = 2\<rparr>\<rparr>"

definition world0 :: io_world where
  "world0 = \<lparr>w_writecbs9 = [], w_readcbs9 = [], w_writecbs7 = [], w_readcbs7 = [], w_dma = (\<lambda>_ _ m. Inr m), w_remap = (\<lambda>m. m)\<rparr>"


section \<open>Narrow stores\<close>

text \<open>The words that are nothing but memory.\<close>

definition plain_reg :: "u32 \<Rightarrow> bool" where
  "plain_reg addr = (addr AND 0x1FFC \<notin> {0xB8, 0xC4, 0xD0, 0xDC, 0x180, 0x188, 0x1C0, 0x240, 0x244, 0x248})"

definition only_bytes :: "u32 \<Rightarrow> (u8 list \<Rightarrow> u8 list) \<Rightarrow> io_regs memory \<Rightarrow> io_regs memory \<Rightarrow> bool" where
  "only_bytes addr f m m' =
    (let b = addr2page addr m
     in mem (blk m' b) = f (mem (blk m b)) \<and> (\<forall>x. x \<noteq> b \<longrightarrow> blk m' x = blk m x) \<and> pmap m' = pmap m \<and> io m' = io m)"

lemma word_addr:
  "addr2page (a AND NOT 3) m = addr2page a m"
  "(a AND NOT 3) AND (ADDRESS_MASK AND NOT 3) = a AND (ADDRESS_MASK AND NOT 3)"
  "(a AND NOT 3) AND 0x1FFF = a AND 0x1FFC"
proof -
  have "\<not> bit a k" if "32 \<le> k" for k using that bit_imp_le_length [of a k] by auto
  then have "drop_bit 9 (a AND NOT 3) = drop_bit 9 a" by (intro u32_eqI) (simp add: bit_simps)
  then show "addr2page (a AND NOT 3) m = addr2page a m" by (simp add: addr2page_def)
  show "(a AND NOT 3) AND (ADDRESS_MASK AND NOT 3) = a AND (ADDRESS_MASK AND NOT 3)"
    "(a AND NOT 3) AND 0x1FFF = a AND 0x1FFC"
    by (rule u32_eqI, simp add: bit_simps)+
qed

lemma word_store:
  assumes "plain_reg a" and "length (mem (blk m (addr2page a m))) = PAGE_SIZE"
  shows "\<exists>m'. REGISTERS9_1_store32 [] dma remap (a AND NOT 3) w m = Inr m' \<and> only_bytes a (wr32 (off32 a) w) m m'"
    and "\<exists>m'. REGISTERS7_1_store32 [] (a AND NOT 3) w m = Inr m' \<and> only_bytes a (wr32 (off32 a) w) m m'"
proof -
  let ?b = "addr2page a m" and ?o = "off32 a"
  let ?m = "if rd32 (mem (blk m ?b)) ?o \<noteq> w then dirty ?b (poke ?b (wr32 ?o w) m) else m"
  have only: "only_bytes a (wr32 ?o w) m ?m"
    using wr32_rd32 [of ?o "mem (blk m ?b)"] off32_less [of a] assms(2)
    by (cases "rd32 (mem (blk m ?b)) ?o = w") (auto simp: only_bytes_def dirty_def poke_def upd_blk_def Let_def)
  have "REGISTERS9_1_store32 [] dma remap (a AND NOT 3) w m = Inr ?m"
    "REGISTERS7_1_store32 [] (a AND NOT 3) w m = Inr ?m"
    using assms(1)
    by (simp_all add: REGISTERS9_1_store32_def REGISTERS7_1_store32_def Let_def run_callbacks_def plain_reg_def
        off32_def word_addr [simplified])
  then show "\<exists>m'. REGISTERS9_1_store32 [] dma remap (a AND NOT 3) w m = Inr m' \<and> only_bytes a (wr32 (off32 a) w) m m'"
    and "\<exists>m'. REGISTERS7_1_store32 [] (a AND NOT 3) w m = Inr m' \<and> only_bytes a (wr32 (off32 a) w) m m'"
    using only by blast+
qed

lemma add_disjoint: "(x::u32) AND y = 0 \<Longrightarrow> x + y = x OR y"
  by (rule disjunctive_add_eq_or)

lemma off_parts:
  "off8 a = off32 a + unat (a AND 3)"
  "\<not> bit a 1 \<Longrightarrow> off16 a = off32 a" "bit a 1 \<Longrightarrow> off16 a = off32 a + 2"
  "unat (a AND 3) < 4"
proof -
  have disj: "unat (x + y) = unat x + unat y" if "x \<le> 508" "y \<le> 3" for x y :: u32
    using that by (simp add: unat_word_ariths(1) word_le_nat_alt)
  have le: "a AND 508 \<le> 508" "a AND 3 \<le> 3" by (rule word_and_le1)+
  have "a AND 511 = (a AND 508) + (a AND 3)"
    by (subst add_disjoint; rule u32_eqI) (simp_all add: bit_simps)
  then show "off8 a = off32 a + unat (a AND 3)"
    using disj [OF le] by (simp add: off8_def off32_def)
  have "\<not> bit a 1 \<Longrightarrow> a AND 510 = a AND 508" by (rule u32_eqI) (simp add: bit_simps)
  then show "\<not> bit a 1 \<Longrightarrow> off16 a = off32 a" by (simp add: off16_def off32_def)
  have "bit a 1 \<Longrightarrow> a AND 510 = (a AND 508) + 2"
    by (subst add_disjoint; rule u32_eqI) (simp_all add: bit_simps)
  then show "bit a 1 \<Longrightarrow> off16 a = off32 a + 2"
    using disj [OF le(1), of 2] by (simp add: off16_def off32_def)
  show "unat (a AND 3) < 4" using le(2) by (simp add: word_le_nat_alt)
qed

text \<open>
  C20: byte stores, and halfword stores to the lower half of a word, change exactly the
  bytes addressed, on both processors' register pages and for every word without a
  function of its own.
\<close>

theorem register_narrow_store:
  assumes "plain_reg a" and "length (mem (blk m (addr2page a m))) = PAGE_SIZE"
  shows "(\<exists>m'. REGISTERS9_1_store8 [] dma remap a v m = Inr m' \<and> only_bytes a (wr8 (off8 a) v) m m') \<and>
    (\<exists>m'. REGISTERS7_1_store8 [] a v m = Inr m' \<and> only_bytes a (wr8 (off8 a) v) m m') \<and>
    (\<not> bit a 1 \<longrightarrow> (\<exists>m'. REGISTERS9_1_store16 [] dma remap a v m = Inr m' \<and> only_bytes a (wr16 (off16 a) v) m m') \<and>
      (\<exists>m'. REGISTERS7_1_store16 [] a v m = Inr m' \<and> only_bytes a (wr16 (off16 a) v) m m'))"
proof -
  let ?b = "addr2page a m" and ?o = "off32 a"
  let ?bytes = "mem (blk m ?b)"
  have len: "?o + 3 < length ?bytes" using off32_less [of a] assms(2) by simp
  have o32: "unat ((a AND ADDRESS_MASK) AND NOT 3) = ?o"
    unfolding off32_def by (rule arg_cong [of _ _ unat], rule u32_eqI) (simp add: bit_simps)
  have "wr32 ?o (byte_combine ?bytes a v) ?bytes = wr8 (off8 a) v ?bytes"
    using wr32_set_e_b [OF len off_parts(4), of a v] o32 by (simp add: byte_combine_def Let_def wr8_def off_parts(1))
  then have b: "only_bytes a (wr32 ?o (byte_combine ?bytes a v)) m m' = only_bytes a (wr8 (off8 a) v) m m'" for m'
    by (simp add: only_bytes_def)
  have h: "\<exists>w. half_combine ?bytes a v = Inr w \<and> only_bytes a (wr32 ?o w) m = only_bytes a (wr16 (off16 a) v) m" if "\<not> bit a 1"
  proof -
    have "drop_bit 1 a AND 1 = 0" using that by (intro u32_eqI) (simp add: bit_simps)
    then have "half_combine ?bytes a v = Inr (set_e_h (rd32 ?bytes ?o) 0 v)"
      using len off_parts(2) [OF that] by (simp add: half_combine_def Let_def off16_def)
    moreover have "wr32 ?o (set_e_h (rd32 ?bytes ?o) 0 v) ?bytes = wr16 (off16 a) v ?bytes"
      using wr32_set_e_h [OF len, of 0 v] off_parts(2) [OF that] by simp
    ultimately show ?thesis by (auto simp: only_bytes_def fun_eq_iff)
  qed
  have n: "a AND 0x1FFF \<noteq> 0x1C0 \<and> a AND 0x1FFF \<noteq> 0x1C2"
  proof -
    have "a AND 0x1FFC = (a AND 0x1FFF) AND 0x1FFC" by (rule u32_eqI) (simp add: bit_simps)
    then show ?thesis using assms(1) by (auto simp: plain_reg_def)
  qed
  have "\<exists>m'. REGISTERS9_1_store8 [] dma remap a v m = Inr m' \<and> only_bytes a (wr8 (off8 a) v) m m'"
    unfolding REGISTERS9_1_store8_def b [symmetric] by (rule word_store(1) [OF assms])
  moreover have "\<exists>m'. REGISTERS7_1_store8 [] a v m = Inr m' \<and> only_bytes a (wr8 (off8 a) v) m m'"
    unfolding REGISTERS7_1_store8_def b [symmetric] by (rule word_store(2) [OF assms])
  moreover have "(\<exists>m'. REGISTERS9_1_store16 [] dma remap a v m = Inr m' \<and> only_bytes a (wr16 (off16 a) v) m m') \<and>
      (\<exists>m'. REGISTERS7_1_store16 [] a v m = Inr m' \<and> only_bytes a (wr16 (off16 a) v) m m')" if low: "\<not> bit a 1"
  proof -
    obtain w where w: "half_combine ?bytes a v = Inr w" "only_bytes a (wr32 ?o w) m = only_bytes a (wr16 (off16 a) v) m"
      using h [OF low] by blast
    have "REGISTERS9_1_store16 [] dma remap a v m = REGISTERS9_1_store32 [] dma remap (a AND NOT 3) w m"
      "REGISTERS7_1_store16 [] a v m = REGISTERS7_1_store32 [] (a AND NOT 3) w m"
      using w(1) n by (simp_all add: REGISTERS9_1_store16_def REGISTERS7_1_store16_def)
    then show ?thesis using word_store(1) [OF assms, of dma remap w] word_store(2) [OF assms, of w] unfolding w(2) by simp
  qed
  ultimately show ?thesis by blast
qed

lemma register_narrow_store_witness:
  "\<exists>m'. REGISTERS7_1_store8 [] 0x305 0xAB io_mem0 = Inr m' \<and> only_bytes 0x305 (wr8 (off8 0x305) 0xAB) io_mem0 m'"
  by (rule register_narrow_store [THEN conjunct2, THEN conjunct1])
    (simp_all add: plain_reg_def io_mem0_def addr2page_def)

text \<open>A halfword stored to the upper half overwrites the lower half with what the upper
  half was.\<close>

lemma upper_half_clobbers:
  "half_combine [1, 2, 3, 4, 5, 6] 2 0xBBAA = Inr w \<Longrightarrow> wr32 0 w [1, 2, 3, 4, 5, 6] = [3, 4, 0xAA, 0xBB, 5, 6]"
  by (auto simp: half_combine_def Let_def rd32_def set_e_h_def wr32_def byte_of_def)

section \<open>The touch screen\<close>

definition touch_cmd :: "u32 \<Rightarrow> u32 \<Rightarrow> bool" where
  "touch_cmd c chn = (c AND 0x80 \<noteq> 0 \<and> c AND 4 \<noteq> 0 \<and> drop_bit 4 c AND 7 = chn)"

text \<open>
  C21: the serial protocol delivers the pen's position. After a control byte that selects
  a position channel in single-ended mode, the data read back after the next two bytes
  reassemble to the coordinate set last by the window system, and the position is still
  there for the next conversation.
\<close>

theorem touch_position:
  assumes "drop_bit 8 (spicnt r) AND 3 = 2" and "length (spi_in r) = 4"
    and "touch_cmd cx 5" and "touch_cmd cy 1"
  shows "\<exists>r1 r2 r3. set_spidat cx r = Inr r1 \<and> set_spidat 0 r1 = Inr r2 \<and> set_spidat 0 r2 = Inr r3 \<and>
      push_bit 5 (spidata r2) OR drop_bit 3 (spidata r3) = tx r \<and>
    (\<exists>r4 r5 r6. set_spidat cy r3 = Inr r4 \<and> set_spidat 0 r4 = Inr r5 \<and> set_spidat 0 r5 = Inr r6 \<and>
      push_bit 5 (spidata r5) OR drop_bit 3 (spidata r6) = ty r \<and> tx r6 = tx r \<and> ty r6 = ty r)"
proof -
  have join: "push_bit 5 (drop_bit 5 x) OR drop_bit 3 (push_bit 3 x AND 0xFF) = x" for x :: u32
    by (rule u32_eqI) (simp add: bit_simps)
  have convo: "\<exists>r1 r2 r3. set_spidat c q = Inr r1 \<and> set_spidat 0 r1 = Inr r2 \<and> set_spidat 0 r2 = Inr r3 \<and>
      push_bit 5 (spidata r2) OR drop_bit 3 (spidata r3) = x \<and> tx r3 = tx q \<and> ty r3 = ty q \<and>
      spicnt r3 = spicnt q \<and> length (spi_in r3) = 4"
    if "drop_bit 8 (spicnt q) AND 3 = 2" "length (spi_in q) = 4" "touch_cmd c chn" "(chn, x) = (5, tx q) \<or> (chn, x) = (1, ty q)"
    for q c chn x
    using that join by (auto simp: set_spidat_def spi_shift_in_def touch_channel_def touch_cmd_def Let_def)
  obtain r1 r2 r3 where x: "set_spidat cx r = Inr r1" "set_spidat 0 r1 = Inr r2" "set_spidat 0 r2 = Inr r3"
      "push_bit 5 (spidata r2) OR drop_bit 3 (spidata r3) = tx r" and r3: "tx r3 = tx r" "ty r3 = ty r"
      "spicnt r3 = spicnt r" "length (spi_in r3) = 4"
    using convo [OF assms(1,2,3), of "tx r"] by auto
  have "drop_bit 8 (spicnt r3) AND 3 = 2" using r3 assms(1) by simp
  from convo [OF this r3(4) assms(4), of "ty r3"] x r3 show ?thesis by auto
qed

lemma touch_position_witness:
  "\<exists>r1 r2 r3. set_spidat 0xD4 (io io_mem0) = Inr r1 \<and> set_spidat 0 r1 = Inr r2 \<and> set_spidat 0 r2 = Inr r3 \<and>
     push_bit 5 (spidata r2) OR drop_bit 3 (spidata r3) = 0x123"
proof -
  have "touch_cmd 0xD4 5" "touch_cmd 0x94 1" "drop_bit 8 (spicnt (io io_mem0)) AND 3 = 2" "length (spi_in (io io_mem0)) = 4"
    "tx (io io_mem0) = 0x123"
    by (simp_all add: touch_cmd_def io_mem0_def)
  then show ?thesis using touch_position [of "io io_mem0" "0xD4" "0x94"] by auto
qed

end
