(* ===== verification/Dma.thy ===== *)
theory Dma
  imports Memory
begin

text \<open>
  The DMA engine of \<^verbatim>\<open>Core/dma.cpp\<close>: it runs a whole transfer at the write of a
  channel's control register, unit by unit, on the memory of the ARM9. The channel's three
  registers are words of the register page itself and are read and written there at every
  unit; a transfer whose units change them may run forever, so the loop is a partial
  function.
\<close>

section \<open>The engine\<close>

text \<open>The registers of the channel at offset \<open>o'\<close> of block \<open>b\<close>.\<close>

definition dma_reg :: "nat \<Rightarrow> nat \<Rightarrow> nat \<Rightarrow> 's memory \<Rightarrow> u32" where
  "dma_reg b o' i m = rd32 (mem (blk m b)) (o' + 4 * i)"

definition set_dma_reg :: "nat \<Rightarrow> nat \<Rightarrow> nat \<Rightarrow> u32 \<Rightarrow> 's memory \<Rightarrow> 's memory" where
  "set_dma_reg b o' i v m = poke b (wr32 (o' + 4 * i) v) m"

text \<open>The code after \<^verbatim>\<open>next:\<close>; \<open>ctrl\<close> is the control word read before the unit.\<close>

definition dma_next :: "nat \<Rightarrow> nat \<Rightarrow> u32 \<Rightarrow> u32 \<Rightarrow> 's memory \<Rightarrow> 's memory" where
  "dma_next b o' ctrl sz m =
    (let m = switch (drop_bit 21 ctrl AND 3)
           [(3, set_dma_reg b o' 1 (dma_reg b o' 1 m + sz) m),
            (0, set_dma_reg b o' 1 (dma_reg b o' 1 m + sz) m),
            (1, set_dma_reg b o' 1 (dma_reg b o' 1 m - sz) m)] m;
         m = switch (drop_bit 23 ctrl AND 3)
           [(0, set_dma_reg b o' 0 (dma_reg b o' 0 m + sz) m),
            (1, set_dma_reg b o' 0 (dma_reg b o' 0 m - sz) m)] m
     in set_dma_reg b o' 2 (dma_reg b o' 2 m - 1) m)"

text \<open>One unit of 32 or 16 bits.\<close>

definition dma_move32 :: "'s handlers \<Rightarrow> u32 \<Rightarrow> u32 \<Rightarrow> 's memory \<Rightarrow> 's memory res" where
  "dma_move32 hs src dst m =
    (let bs = addr2page src m;
         bd = addr2page dst m;
         subaddr_src = unat (src AND ADDRESS_MASK);
         subaddr_dst = unat (dst AND ADDRESS_MASK)
     in rbind (if has_flag m bs PAGE_ACCESSHANDLER then load32 hs src m
               else Inr (rd32 (mem (blk m bs)) subaddr_src, m)) (\<lambda>(value, m).
        rbind (if has_flag m bd PAGE_ACCESSHANDLER then store32 hs dst value m
               else Inr (poke bd (wr32 subaddr_dst value) m)) (\<lambda>m.
        Inr (dirty bd m))))"

definition dma_move16 :: "'s handlers \<Rightarrow> u32 \<Rightarrow> u32 \<Rightarrow> 's memory \<Rightarrow> 's memory res" where
  "dma_move16 hs src dst m =
    (let bs = addr2page src m;
         bd = addr2page dst m;
         subaddr_src = unat (src AND ADDRESS_MASK);
         subaddr_dst = unat (dst AND ADDRESS_MASK)
     in rbind (if has_flag m bs PAGE_ACCESSHANDLER then load16u hs src m
               else Inr (rd16 (mem (blk m bs)) subaddr_src, m)) (\<lambda>(value, m).
        rbind (if has_flag m bd PAGE_ACCESSHANDLER then store16 hs dst value m
               else Inr (poke bd (wr16 subaddr_dst value) m)) (\<lambda>m.
        Inr (dirty bd m))))"

definition dma_step :: "'s handlers \<Rightarrow> nat \<Rightarrow> nat \<Rightarrow> 's memory \<Rightarrow> 's memory res" where
  "dma_step hs b o' m =
    (let src = dma_reg b o' 0 m;
         dst = dma_reg b o' 1 m;
         ctrl = dma_reg b o' 2 m;
         bs = addr2page src m;
         bd = addr2page dst m;
         subaddr_src = src AND ADDRESS_MASK;
         subaddr_dst = dst AND ADDRESS_MASK;
         sz = (if bit ctrl 26 then 4 else 2)
     in if has_flag m bs (PAGE_INVALID OR PAGE_READPROT) then Inr (dma_next b o' ctrl sz m)
        else if has_flag m bd (PAGE_INVALID OR PAGE_WRITEPROT) then Inr (dma_next b o' ctrl sz m)
        else if bit ctrl 26
        then (if (subaddr_src OR subaddr_dst) AND 3 \<noteq> 0 then Inr (dma_next b o' ctrl sz m)
              else rbind (dma_move32 hs src dst m) (\<lambda>m. Inr (dma_next b o' ctrl sz m)))
        else (if (subaddr_src OR subaddr_dst) AND 1 \<noteq> 0 then Inr (dma_next b o' ctrl sz m)
              else rbind (dma_move16 hs src dst m) (\<lambda>m. Inr (dma_next b o' ctrl sz m))))"

definition dma_running :: "u32 \<Rightarrow> bool" where
  "dma_running ctrl = (ctrl AND 0x801FFFFF > 0x80000000)"

text \<open>\<open>None\<close>: the transfer never ends.\<close>

partial_function (option) start_dma :: "'s handlers \<Rightarrow> nat \<Rightarrow> nat \<Rightarrow> 's memory \<Rightarrow> 's memory res option" where
  "start_dma hs b o' m =
    (if dma_running (dma_reg b o' 2 m)
     then (case dma_step hs b o' m of
             Inl t \<Rightarrow> Some (Inl t)
           | Inr m \<Rightarrow> start_dma hs b o' m)
     else Some (Inr (set_dma_reg b o' 2 0 m)))"

section \<open>Plain transfers\<close>

text \<open>The units of a plain transfer with stepping addresses.\<close>

definition dma_unit :: "u32 \<Rightarrow> u32" where
  "dma_unit ctrl = (if bit ctrl 26 then 4 else 2)"

definition dst_step :: "u32 \<Rightarrow> u32" where
  "dst_step ctrl = switch (drop_bit 21 ctrl AND 3) [(3, dma_unit ctrl), (0, dma_unit ctrl), (1, - dma_unit ctrl)] 0"

definition src_step :: "u32 \<Rightarrow> u32" where
  "src_step ctrl = switch (drop_bit 23 ctrl AND 3) [(0, dma_unit ctrl), (1, - dma_unit ctrl)] 0"

definition dma_pairs :: "u32 \<Rightarrow> u32 \<Rightarrow> u32 \<Rightarrow> nat \<Rightarrow> (u32 \<times> u32) list" where
  "dma_pairs src dst ctrl n = map (\<lambda>i. (src + word_of_nat i * src_step ctrl, dst + word_of_nat i * dst_step ctrl)) [0..<n]"

lemma dma_pairs_0 [simp]: "dma_pairs src dst ctrl 0 = []"
  by (simp add: dma_pairs_def)

lemma dma_pairs_Suc [simp]:
  "dma_pairs src dst ctrl (Suc n) = (src, dst) # dma_pairs (src + src_step ctrl) (dst + dst_step ctrl) ctrl n"
  by (simp add: dma_pairs_def upt_conv_Cons map_Suc_upt [symmetric] comp_def algebra_simps del: upt_Suc)

text \<open>Equal outside the register block.\<close>

definition same_but :: "nat \<Rightarrow> 's memory \<Rightarrow> 's memory \<Rightarrow> bool" where
  "same_but b m m' = (pmap m = pmap m' \<and> io m = io m' \<and> (\<forall>x. x \<noteq> b \<longrightarrow> blk m x = blk m' x))"

definition dma_regs_ok :: "nat \<Rightarrow> nat \<Rightarrow> 's memory \<Rightarrow> bool" where
  "dma_regs_ok b o' m = (o' + 12 \<le> length (mem (blk m b)) \<and> 4 dvd o')"

lemma set_dma_reg_frame:
  "same_but b (set_dma_reg b o' i v m) m" "dma_regs_ok b o' (set_dma_reg b o' i v m) = dma_regs_ok b o' m"
  "addr2page a (set_dma_reg b o' i v m) = addr2page a m"
  by (simp_all add: same_but_def set_dma_reg_def poke_def upd_blk_def dma_regs_ok_def addr2page_def)

lemma set_dma_reg_eqs [simp]:
  "pmap (set_dma_reg b o' i v m) = pmap m" "io (set_dma_reg b o' i v m) = io m"
  "x \<noteq> b \<Longrightarrow> blk (set_dma_reg b o' i v m) x = blk m x"
  by (simp_all add: set_dma_reg_def poke_def upd_blk_def)

lemma dma_reg_set:
  assumes "dma_regs_ok b o' m" "i < 3" "j < 3"
  shows "dma_reg b o' j (set_dma_reg b o' i v m) = (if j = i then v else dma_reg b o' j m)"
proof -
  have d: "4 dvd o' + 4 * i" "4 dvd o' + 4 * j" using assms(1) by (auto simp: dma_regs_ok_def)
  show ?thesis
  proof (cases "j = i")
    case True
    then show ?thesis using assms by (simp add: dma_reg_def set_dma_reg_def poke_def upd_blk_def dma_regs_ok_def rd32_wr32)
  next
    case False
    then show ?thesis
      using rd32_wr32_other [OF d, of v] by (simp add: dma_reg_def set_dma_reg_def poke_def upd_blk_def)
  qed
qed

text \<open>After a unit: the addresses have stepped, the count is one less.\<close>

lemma dma_next_regs:
  assumes ok: "dma_regs_ok b o' m" and ctrl: "dma_reg b o' 2 m = ctrl"
  shows "dma_reg b o' 0 (dma_next b o' ctrl (dma_unit ctrl) m) = dma_reg b o' 0 m + src_step ctrl"
    and "dma_reg b o' 1 (dma_next b o' ctrl (dma_unit ctrl) m) = dma_reg b o' 1 m + dst_step ctrl"
    and "dma_reg b o' 2 (dma_next b o' ctrl (dma_unit ctrl) m) = ctrl - 1"
    and "dma_regs_ok b o' (dma_next b o' ctrl (dma_unit ctrl) m)"
    and "same_but b (dma_next b o' ctrl (dma_unit ctrl) m) m"
proof -
  define d where "d = dma_reg b o' 1 m + dst_step ctrl"
  define s where "s = dma_reg b o' 0 m + src_step ctrl"
  define m1 where "m1 = switch (drop_bit 21 ctrl AND 3)
           [(3, set_dma_reg b o' 1 (dma_reg b o' 1 m + dma_unit ctrl) m),
            (0, set_dma_reg b o' 1 (dma_reg b o' 1 m + dma_unit ctrl) m),
            (1, set_dma_reg b o' 1 (dma_reg b o' 1 m - dma_unit ctrl) m)] m"
  define m2 where "m2 = switch (drop_bit 23 ctrl AND 3)
           [(0, set_dma_reg b o' 0 (dma_reg b o' 0 m1 + dma_unit ctrl) m1),
            (1, set_dma_reg b o' 0 (dma_reg b o' 0 m1 - dma_unit ctrl) m1)] m1"
  have next': "dma_next b o' ctrl (dma_unit ctrl) m = set_dma_reg b o' 2 (dma_reg b o' 2 m2 - 1) m2"
    by (simp add: dma_next_def m1_def m2_def Let_def)
  have m1: "dma_regs_ok b o' m1" "same_but b m1 m" "dma_reg b o' 0 m1 = dma_reg b o' 0 m"
    "dma_reg b o' 1 m1 = d" "dma_reg b o' 2 m1 = ctrl"
    using ok ctrl by (auto simp: m1_def d_def dst_step_def set_dma_reg_frame dma_reg_set same_but_def)
  have m2: "dma_regs_ok b o' m2" "same_but b m2 m1" "dma_reg b o' 0 m2 = s"
    "dma_reg b o' 1 m2 = d" "dma_reg b o' 2 m2 = ctrl"
    using m1 by (auto simp: m2_def s_def src_step_def set_dma_reg_frame dma_reg_set same_but_def)
  show "dma_reg b o' 0 (dma_next b o' ctrl (dma_unit ctrl) m) = dma_reg b o' 0 m + src_step ctrl"
    "dma_reg b o' 1 (dma_next b o' ctrl (dma_unit ctrl) m) = dma_reg b o' 1 m + dst_step ctrl"
    "dma_reg b o' 2 (dma_next b o' ctrl (dma_unit ctrl) m) = ctrl - 1"
    "dma_regs_ok b o' (dma_next b o' ctrl (dma_unit ctrl) m)"
    "same_but b (dma_next b o' ctrl (dma_unit ctrl) m) m"
    using m1 m2 set_dma_reg_frame(1) [of b o' 2 "ctrl - 1" m2]
    by (auto simp: next' dma_reg_set set_dma_reg_frame s_def d_def same_but_def)
qed

section \<open>The control word\<close>

text \<open>The control word is the channel's mode and a count of 21 bits.\<close>

definition ctrl_word :: "u32 \<Rightarrow> nat \<Rightarrow> u32" where
  "ctrl_word hi n = hi + word_of_nat n"

definition ctrl_hi :: "u32 \<Rightarrow> bool" where
  "ctrl_hi hi = (hi AND 0x1FFFFF = 0 \<and> bit hi 31)"

lemma bit_1FFFFF: "bit (0x1FFFFF :: int) k = (k < 21)"
proof -
  have "(0x1FFFFF :: int) = mask 21" by (simp add: mask_eq_exp_minus_1)
  then show ?thesis by (simp only: bit_mask_iff) auto
qed

lemma bit_ctrl_word:
  assumes "ctrl_hi hi" "n < 2 ^ 21"
  shows "bit (ctrl_word hi n) k = (if k < 21 then bit (word_of_nat n :: u32) k else bit hi k)"
proof -
  have low: "\<not> bit hi k" if "k < 21" for k
  proof -
    have "bit (hi AND 0x1FFFFF) k = bit hi k" using that by (simp add: bit_and_iff bit_1FFFFF)
    then show ?thesis using assms(1) by (simp add: ctrl_hi_def)
  qed
  have high: "\<not> bit (word_of_nat n :: u32) k" if "21 \<le> k" for k
  proof -
    have "take_bit 21 n = n" using assms(2) by (rule take_bit_nat_eq_self)
    then have "\<not> bit n k" using that by (metis bit_take_bit_iff not_le)
    then show ?thesis by (simp add: bit_simps)
  qed
  have "hi AND word_of_nat n = 0"
    by (rule bit_word_eqI) (use low high in \<open>auto simp: bit_and_iff not_le [symmetric]\<close>)
  then have "ctrl_word hi n = hi OR word_of_nat n"
    unfolding ctrl_word_def by (rule disjunctive_add_eq_or)
  then show ?thesis using low high by (auto simp: bit_or_iff)
qed

lemma ctrl_word_fields:
  assumes "ctrl_hi hi" "n < 2 ^ 21"
  shows "src_step (ctrl_word hi n) = src_step hi" "dst_step (ctrl_word hi n) = dst_step hi"
    "bit (ctrl_word hi n) 26 = bit hi 26" "dma_unit (ctrl_word hi n) = dma_unit hi"
proof -
  have d: "drop_bit 21 (ctrl_word hi n) = drop_bit 21 hi" "drop_bit 23 (ctrl_word hi n) = drop_bit 23 hi"
    by (rule bit_word_eqI, simp add: bit_drop_bit_eq bit_ctrl_word [OF assms])+
  show "bit (ctrl_word hi n) 26 = bit hi 26" by (simp add: bit_ctrl_word [OF assms])
  then show "dma_unit (ctrl_word hi n) = dma_unit hi" by (simp add: dma_unit_def)
  then show "src_step (ctrl_word hi n) = src_step hi" "dst_step (ctrl_word hi n) = dst_step hi"
    by (simp_all add: src_step_def dst_step_def d)
qed

lemma ctrl_word_running:
  assumes "ctrl_hi hi" "n < 2 ^ 21"
  shows "dma_running (ctrl_word hi n) = (0 < n)"
proof -
  have m: "bit (0x801FFFFF :: u32) k = (k < 21 \<or> k = 31)" for k
  proof -
    have "(0x801FFFFF :: u32) = 0x1FFFFF OR push_bit 31 1" by simp
    then show ?thesis by (simp only: bit_or_iff bit_push_bit_iff) (auto simp: bit_1FFFFF)
  qed
  have "ctrl_word hi n AND 0x801FFFFF = ctrl_word 0x80000000 n"
  proof (rule bit_word_eqI)
    have "ctrl_hi 0x80000000" by (simp add: ctrl_hi_def)
    moreover have "bit (0x80000000 :: u32) k = (k = 31)" for k
    proof -
      have "(0x80000000 :: u32) = push_bit 31 1" by simp
      then show ?thesis by (simp only: bit_push_bit_iff) auto
    qed
    ultimately show "bit (ctrl_word hi n AND 0x801FFFFF) k = bit (ctrl_word 0x80000000 n) k" for k
      using assms by (auto simp only: bit_and_iff bit_ctrl_word m ctrl_hi_def split: if_splits)
  qed
  moreover have "unat (ctrl_word 0x80000000 n) = 0x80000000 + n"
    using assms(2) by (simp add: ctrl_word_def unat_add_nat)
  ultimately show ?thesis by (simp add: dma_running_def word_less_nat_alt)
qed

lemma ctrl_word_pred: "ctrl_word hi (Suc n) - 1 = ctrl_word hi n"
  by (simp add: ctrl_word_def)

section \<open>A plain transfer is a copy\<close>

text \<open>Cells of the channel's width.\<close>

definition dma_rd :: "u32 \<Rightarrow> u32 \<Rightarrow> 's memory \<Rightarrow> u32" where
  "dma_rd hi = (if bit hi 26 then peek32 else peek16)"

definition dma_wr :: "u32 \<Rightarrow> u32 \<Rightarrow> u32 \<Rightarrow> 's memory \<Rightarrow> 's memory" where
  "dma_wr hi = (if bit hi 26 then poke32 else poke16)"

definition dma_cell :: "u32 \<Rightarrow> 's memory \<Rightarrow> u32 \<Rightarrow> nat \<times> nat" where
  "dma_cell hi = (if bit hi 26 then cell32 else cell16)"

definition dma_norm :: "u32 \<Rightarrow> u32 \<Rightarrow> u32" where
  "dma_norm hi = (if bit hi 26 then (\<lambda>v. v) else (\<lambda>v. v AND 0xFFFF))"

definition dma_aligned :: "u32 \<Rightarrow> u32 \<Rightarrow> bool" where
  "dma_aligned hi a = (if bit hi 26 then a AND 3 = 0 else a AND 1 = 0)"

interpretation units: cell_store plain_page "dma_cell hi" "dma_rd hi" "dma_wr hi" "dma_norm hi" for hi
proof (cases "bit hi 26")
  case True
  then show "cell_store plain_page (dma_cell hi) (dma_rd hi) (dma_wr hi) (dma_norm hi)"
    using words.cell_store_axioms by (simp add: dma_cell_def dma_rd_def dma_wr_def dma_norm_def)
next
  case False
  then show "cell_store plain_page (dma_cell hi) (dma_rd hi) (dma_wr hi) (dma_norm hi)"
    using halves.cell_store_axioms by (simp add: dma_cell_def dma_rd_def dma_wr_def dma_norm_def)
qed

lemma aligned_offsets:
  "a AND 3 = 0 \<Longrightarrow> unat (a AND 0x1FF) = off32 a" "a AND 1 = 0 \<Longrightarrow> unat (a AND 0x1FF) = off16 a"
proof -
  assume "a AND 3 = 0"
  then have "bit (a AND 3) 0 = False" "bit (a AND 3) (Suc 0) = False" by simp_all
  then have "a AND 0x1FF = a AND 508" by (intro u32_eqI) (simp add: bit_simps)
  then show "unat (a AND 0x1FF) = off32 a" by (simp add: off32_def)
next
  assume "a AND 1 = 0"
  then have "bit (a AND 1) 0 = False" by simp
  then have "a AND 0x1FF = a AND 510" by (intro u32_eqI) (simp add: bit_simps)
  then show "unat (a AND 0x1FF) = off16 a" by (simp add: off16_def)
qed

lemma aligned_or: "(x::u32) AND k = 0 \<Longrightarrow> y AND k = 0 \<Longrightarrow> ((x AND j) OR (y AND j)) AND k = 0"
proof -
  assume h: "x AND k = 0" "y AND k = 0"
  have "\<not> (bit x n \<and> bit k n)" "\<not> (bit y n \<and> bit k n)" for n
    using h by (metis bit_and_iff bit_0_eq bot_apply bot_bool_def)+
  then show ?thesis by (intro u32_eqI) (auto simp: bit_simps)
qed

lemma dma_step_plain:
  assumes "plain_page m src" "plain_page m dst" "dma_aligned ctrl src" "dma_aligned ctrl dst"
    and "dma_reg b o' 0 m = src" "dma_reg b o' 1 m = dst" "dma_reg b o' 2 m = ctrl"
  shows "dma_step hs b o' m = Inr (dma_next b o' ctrl (dma_unit ctrl) (dma_wr ctrl dst (dma_rd ctrl src m) m))"
proof (cases "bit ctrl 26")
  case True
  then have al: "src AND 3 = 0" "dst AND 3 = 0" using assms(3,4) by (simp_all add: dma_aligned_def)
  have "((src AND 0x1FF) OR (dst AND 0x1FF)) AND 3 = 0" by (rule aligned_or [OF al])
  moreover have "dma_move32 hs src dst m = Inr (poke32 dst (peek32 src m) m)"
    using plain_no_flag(1) [OF assms(1)] plain_no_flag(1) [OF assms(2)] al
    by (simp add: dma_move32_def Let_def aligned_offsets peek32_def poke32_def)
  ultimately show ?thesis
    using True assms(5-7) plain_no_flag [OF assms(1)] plain_no_flag [OF assms(2)]
    unfolding dma_step_def Let_def by (simp add: dma_unit_def dma_rd_def dma_wr_def)
next
  case False
  then have al: "src AND 1 = 0" "dst AND 1 = 0" using assms(3,4) by (simp_all add: dma_aligned_def)
  have "((src AND 0x1FF) OR (dst AND 0x1FF)) AND 1 = 0" by (rule aligned_or [OF al])
  moreover have "dma_move16 hs src dst m = Inr (poke16 dst (peek16 src m) m)"
    using plain_no_flag(1) [OF assms(1)] plain_no_flag(1) [OF assms(2)] al
    by (simp add: dma_move16_def Let_def aligned_offsets peek16_def poke16_def)
  ultimately show ?thesis
    using False assms(5-7) plain_no_flag [OF assms(1)] plain_no_flag [OF assms(2)]
    unfolding dma_step_def Let_def by (simp add: dma_unit_def dma_rd_def dma_wr_def)
qed

text \<open>Reads and writes outside the register block do not see it.\<close>

definition outside :: "nat \<Rightarrow> 's memory \<Rightarrow> u32 \<Rightarrow> bool" where
  "outside b m a = (addr2page a m \<noteq> b)"

lemma same_but_simps:
  assumes "same_but b m m'"
  shows "addr2page a m = addr2page a m'" "outside b m a = outside b m' a"
    and "outside b m a \<Longrightarrow> plain_page m a = plain_page m' a"
    and "outside b m a \<Longrightarrow> dma_rd hi a m = dma_rd hi a m'"
    and "dma_cell hi m a = dma_cell hi m' a"
    and "outside b m a \<Longrightarrow> same_but b (dma_wr hi a v m) (dma_wr hi a v m')"
  using assms
  by (auto simp: same_but_def outside_def addr2page_def plain_flags dma_rd_def dma_wr_def dma_cell_def peek_poke_defs)

lemma same_but_trans: "same_but b x y \<Longrightarrow> same_but b y z \<Longrightarrow> same_but b x z"
  by (simp add: same_but_def)

lemma same_but_refl: "same_but b m m"
  by (simp add: same_but_def)

lemma dma_wr_regs:
  assumes "outside b m a"
  shows "dma_reg b o' i (dma_wr hi a v m) = dma_reg b o' i m" "dma_regs_ok b o' (dma_wr hi a v m) = dma_regs_ok b o' m"
    "addr2page x (dma_wr hi a v m) = addr2page x m"
  using assms by (auto simp: outside_def dma_reg_def dma_regs_ok_def dma_wr_def peek_poke_defs)

lemma start_dma_copies:
  "dma_regs_ok b o' m \<Longrightarrow> ctrl_hi hi \<Longrightarrow> n < 2 ^ 21 \<Longrightarrow> dma_reg b o' 0 m = src \<Longrightarrow> dma_reg b o' 1 m = dst \<Longrightarrow>
    dma_reg b o' 2 m = ctrl_word hi n \<Longrightarrow>
    list_all (\<lambda>(s, d). dma_aligned hi s \<and> dma_aligned hi d \<and> plain_page m s \<and> plain_page m d \<and> outside b m s \<and> outside b m d)
      (dma_pairs src dst hi n) \<Longrightarrow>
    \<exists>m'. start_dma hs b o' m = Some (Inr m') \<and> dma_reg b o' 2 m' = 0 \<and>
      same_but b m' (copy_all (dma_rd hi) (dma_wr hi) (dma_pairs src dst hi n) m)"
proof (induction n arbitrary: src dst m)
  case 0
  have "\<not> dma_running (dma_reg b o' 2 m)" using ctrl_word_running [OF 0(2,3)] 0(6) by simp
  then have "start_dma hs b o' m = Some (Inr (set_dma_reg b o' 2 0 m))" by (simp add: start_dma.simps)
  then show ?case using dma_reg_set [OF 0(1), of 2 2 0] set_dma_reg_frame(1) by auto
next
  case (Suc n)
  let ?c = "ctrl_word hi (Suc n)"
  note f = ctrl_word_fields [OF Suc.prems(2,3)]
  have run: "dma_running (dma_reg b o' 2 m)" using ctrl_word_running [OF Suc.prems(2,3)] Suc.prems(6) by simp
  have here: "dma_aligned hi src" "dma_aligned hi dst" "plain_page m src" "plain_page m dst" "outside b m src" "outside b m dst"
    and rest: "list_all (\<lambda>(s, d). dma_aligned hi s \<and> dma_aligned hi d \<and> plain_page m s \<and> plain_page m d \<and>
      outside b m s \<and> outside b m d) (dma_pairs (src + src_step hi) (dst + dst_step hi) hi n)"
    using Suc.prems(7) by simp_all
  have eq: "dma_aligned ?c = dma_aligned hi" "dma_wr ?c = dma_wr hi" "dma_rd ?c = dma_rd hi"
    by (simp_all add: fun_eq_iff dma_aligned_def dma_wr_def dma_rd_def f)
  define m1 where "m1 = dma_wr hi dst (dma_rd hi src m) m"
  define m2 where "m2 = dma_next b o' ?c (dma_unit ?c) m1"
  have step: "dma_step hs b o' m = Inr m2"
    using dma_step_plain [OF here(3,4), of ?c b o' hs] here(1,2) Suc.prems(4-6) unfolding m2_def m1_def eq by simp
  have m1: "dma_regs_ok b o' m1" "dma_reg b o' 0 m1 = src" "dma_reg b o' 1 m1 = dst" "dma_reg b o' 2 m1 = ?c"
    using dma_wr_regs [OF here(6)] Suc.prems(1,4-6) by (simp_all add: m1_def)
  note nx = dma_next_regs [OF m1(1,4), folded m2_def, unfolded m1 f ctrl_word_pred]
  have s12: "same_but b m2 m1" by (rule nx(5))
  have pl: "plain_page m1 a = plain_page m a" "outside b m1 a = outside b m a" for a
    using units.plain_wr [of hi dst "dma_rd hi src m" m a] dma_wr_regs(3) [OF here(6), of a hi] by (simp_all add: m1_def outside_def)
  have "list_all (\<lambda>(s, d). dma_aligned hi s \<and> dma_aligned hi d \<and> plain_page m2 s \<and> plain_page m2 d \<and>
      outside b m2 s \<and> outside b m2 d) (dma_pairs (src + src_step hi) (dst + dst_step hi) hi n)"
    using rest by (auto simp: list_all_iff same_but_simps(2,3) [OF s12] pl)
  then obtain m' where m': "start_dma hs b o' m2 = Some (Inr m')" "dma_reg b o' 2 m' = 0"
      "same_but b m' (copy_all (dma_rd hi) (dma_wr hi) (dma_pairs (src + src_step hi) (dst + dst_step hi) hi n) m2)"
    using Suc.IH [OF nx(4) Suc.prems(2) _ nx(1,2,3)] Suc.prems(3) by auto
  have copy: "same_but b (copy_all (dma_rd hi) (dma_wr hi) ps x) (copy_all (dma_rd hi) (dma_wr hi) ps y)"
    if "same_but b x y" "list_all (\<lambda>(s, d). outside b x s \<and> outside b x d) ps" for ps and x y :: "'a memory"
    using that
  proof (induction ps arbitrary: x y)
    case (Cons p ps)
    obtain s d where p: "p = (s, d)" by (cases p)
    have out: "outside b x s" "outside b x d" using Cons.prems(2) p by simp_all
    have "same_but b (dma_wr hi d (dma_rd hi s x) x) (dma_wr hi d (dma_rd hi s y) y)"
      using same_but_simps(4,6) [OF Cons.prems(1)] out by metis
    then show ?case
      using Cons.IH Cons.prems(2) p dma_wr_regs(3) [OF out(2)] by (simp add: outside_def)
  qed simp
  have "same_but b m' (copy_all (dma_rd hi) (dma_wr hi) (dma_pairs (src + src_step hi) (dst + dst_step hi) hi n) m1)"
    using same_but_trans [OF m'(3) copy [OF s12]] rest
    by (auto simp: list_all_iff same_but_simps(2) [OF s12] pl)
  then have "same_but b m' (copy_all (dma_rd hi) (dma_wr hi) (dma_pairs src dst hi (Suc n)) m)"
    by (simp add: m1_def)
  moreover have "start_dma hs b o' m = Some (Inr m')"
    using run step m'(1) by (simp add: start_dma.simps [of hs b o' m])
  ultimately show ?case using m'(2) by blast
qed

text \<open>
  C22: a DMA transfer between plain memory and plain memory ends and copies. For either
  unit size, every mode of stepping and every count, if the source and destination cells
  are disjoint and no destination cell is written twice, each destination cell holds
  afterwards what its source held before, no other cell outside the register page changes,
  and the control register reads zero.
\<close>

theorem dma_transfer:
  assumes "dma_regs_ok b o' m" and "ctrl_hi hi" and "n < 2 ^ 21"
    and "dma_reg b o' 2 m = ctrl_word hi n"
    and "list_all (\<lambda>(s, d). dma_aligned hi s \<and> dma_aligned hi d \<and> plain_page m s \<and> plain_page m d \<and>
      outside b m s \<and> outside b m d) (dma_pairs (dma_reg b o' 0 m) (dma_reg b o' 1 m) hi n)"
    and "distinct (map (dma_cell hi m \<circ> snd) (dma_pairs (dma_reg b o' 0 m) (dma_reg b o' 1 m) hi n))"
    and "(dma_cell hi m \<circ> fst) ` set (dma_pairs (dma_reg b o' 0 m) (dma_reg b o' 1 m) hi n) \<inter>
      (dma_cell hi m \<circ> snd) ` set (dma_pairs (dma_reg b o' 0 m) (dma_reg b o' 1 m) hi n) = {}"
  shows "\<exists>m'. start_dma hs b o' m = Some (Inr m') \<and> dma_reg b o' 2 m' = 0 \<and>
    map (\<lambda>p. dma_rd hi (snd p) m') (dma_pairs (dma_reg b o' 0 m) (dma_reg b o' 1 m) hi n) =
      map (\<lambda>p. dma_rd hi (fst p) m) (dma_pairs (dma_reg b o' 0 m) (dma_reg b o' 1 m) hi n) \<and>
    (\<forall>a. outside b m a \<longrightarrow>
      dma_cell hi m a \<notin> (dma_cell hi m \<circ> snd) ` set (dma_pairs (dma_reg b o' 0 m) (dma_reg b o' 1 m) hi n) \<longrightarrow>
      dma_rd hi a m' = dma_rd hi a m)"
proof -
  let ?ps = "dma_pairs (dma_reg b o' 0 m) (dma_reg b o' 1 m) hi n"
  let ?c = "copy_all (dma_rd hi) (dma_wr hi) ?ps m"
  obtain m' where m': "start_dma hs b o' m = Some (Inr m')" "dma_reg b o' 2 m' = 0" "same_but b m' ?c"
    using start_dma_copies [OF assms(1,2,3) refl refl assms(4,5)] by blast
  have pm: "addr2page a ?c = addr2page a m" for a
    using units.cell_copy [of hi ?ps m a] by (simp add: dma_cell_def cell32_def cell16_def split: if_splits)
  have rd: "dma_rd hi a m' = dma_rd hi a ?c" if "outside b m a" for a
    using same_but_simps(2,4) [OF m'(3)] that pm by (simp add: outside_def)
  have "map (\<lambda>p. dma_rd hi (snd p) ?c) ?ps = map (\<lambda>p. dma_rd hi (fst p) m) ?ps"
    using assms(5-7) by (intro units.rd_copy) (auto simp: list_all_iff)
  moreover have "map (\<lambda>p. dma_rd hi (snd p) m') ?ps = map (\<lambda>p. dma_rd hi (snd p) ?c) ?ps"
    using assms(5) rd by (auto simp: list_all_iff)
  moreover have "dma_rd hi a m' = dma_rd hi a m" if "outside b m a" "dma_cell hi m a \<notin> (dma_cell hi m \<circ> snd) ` set ?ps" for a
    using rd [OF that(1)] units.rd_copy_other [of hi m a ?ps] that(2) by (simp add: image_comp)
  ultimately show ?thesis using m'(1,2) by auto
qed

text \<open>Two words from address 0 to address 0x200; the registers are in block 2.\<close>

definition dma_mem0 :: "unit memory" where
  "dma_mem0 = set_dma_reg 2 0 2 (ctrl_word 0x84000000 2) (set_dma_reg 2 0 1 0x200 (poke32 4 7 mem0))"

lemma dma_mem0_regs:
  "dma_regs_ok 2 0 dma_mem0" "dma_reg 2 0 0 dma_mem0 = 0" "dma_reg 2 0 1 dma_mem0 = 0x200"
  "dma_reg 2 0 2 dma_mem0 = ctrl_word 0x84000000 2"
proof -
  have b: "blk (poke32 4 7 mem0) 2 = blk mem0 2"
    by (simp add: peek_poke_defs addr2page_def mem0_def)
  have ok: "dma_regs_ok 2 0 mem0" by (simp add: dma_regs_ok_def mem0_def)
  then have "dma_regs_ok 2 0 (poke32 4 7 mem0)" by (simp add: dma_regs_ok_def b)
  moreover have "dma_reg 2 0 0 (poke32 4 7 mem0) = 0"
    unfolding dma_reg_def b by (simp add: mem0_def rd32_def)
  ultimately show "dma_regs_ok 2 0 dma_mem0" "dma_reg 2 0 0 dma_mem0 = 0" "dma_reg 2 0 1 dma_mem0 = 0x200"
    "dma_reg 2 0 2 dma_mem0 = ctrl_word 0x84000000 2"
    by (simp_all add: dma_mem0_def set_dma_reg_frame dma_reg_set)
qed

lemma dma_mem0_plain:
  "addr2page a dma_mem0 = addr2page a mem0" "plain_page dma_mem0 a"
proof -
  show p: "addr2page a dma_mem0 = addr2page a mem0"
    by (simp add: dma_mem0_def set_dma_reg_frame peek_poke_defs addr2page_def)
  have "same_but 2 dma_mem0 (poke32 4 7 mem0)"
    using same_but_trans [OF set_dma_reg_frame(1) set_dma_reg_frame(1)] by (simp add: dma_mem0_def)
  then have "plain_page dma_mem0 a = plain_page (poke32 4 7 mem0) a"
    by (rule same_but_simps(3)) (use p in \<open>simp add: outside_def addr2page_def mem0_def\<close>)
  then show "plain_page dma_mem0 a" by (simp add: words.plain_wr plain_mem0)
qed

lemma dma_mem0_pmap: "pmap dma_mem0 = (\<lambda>p. if p = 1 \<or> p = 2 then 1 else 0)"
  by (simp add: dma_mem0_def peek_poke_defs) (simp add: mem0_def)

lemma dma_transfer_witness:
  "\<exists>m'. start_dma no_handlers 2 0 dma_mem0 = Some (Inr m') \<and>
    map (\<lambda>p. dma_rd 0x84000000 (snd p) m') (dma_pairs 0 0x200 0x84000000 2) =
    map (\<lambda>p. dma_rd 0x84000000 (fst p) dma_mem0) (dma_pairs 0 0x200 0x84000000 2)"
proof -
  have "src_step 0x84000000 = 4" "dst_step 0x84000000 = 4"
    by (simp_all add: src_step_def dst_step_def dma_unit_def)
  then have ps: "dma_pairs 0 0x200 0x84000000 2 = [(0, 0x200), (4, 0x204)]"
    by (simp add: dma_pairs_def numeral_2_eq_2)
  have "\<exists>m'. start_dma no_handlers 2 0 dma_mem0 = Some (Inr m') \<and> dma_reg 2 0 2 m' = 0 \<and>
    map (\<lambda>p. dma_rd 0x84000000 (snd p) m') (dma_pairs (dma_reg 2 0 0 dma_mem0) (dma_reg 2 0 1 dma_mem0) 0x84000000 2) =
      map (\<lambda>p. dma_rd 0x84000000 (fst p) dma_mem0) (dma_pairs (dma_reg 2 0 0 dma_mem0) (dma_reg 2 0 1 dma_mem0) 0x84000000 2) \<and>
    (\<forall>a. outside 2 dma_mem0 a \<longrightarrow>
      dma_cell 0x84000000 dma_mem0 a \<notin> (dma_cell 0x84000000 dma_mem0 \<circ> snd) ` set (dma_pairs (dma_reg 2 0 0 dma_mem0) (dma_reg 2 0 1 dma_mem0) 0x84000000 2) \<longrightarrow>
      dma_rd 0x84000000 a m' = dma_rd 0x84000000 a dma_mem0)"
    by (rule dma_transfer) (simp_all add: dma_mem0_regs dma_mem0_regs(3) [simplified] ps dma_mem0_plain outside_def
        ctrl_hi_def dma_aligned_def dma_cell_def cell32_def dma_mem0_pmap addr2page_def off32_def)
  then show ?thesis unfolding dma_mem0_regs by blast
qed

end
