(* ===== verification/Jit_Emit.thy ===== *)
theory Jit_Emit
  imports Isa Bytes
begin

text \<open>
  The code generator of \<^verbatim>\<open>Core/Compiler.cpp\<close>, first part: the output stream with
  its relocation table, and the helpers that emit the x86 bytes shared by the
  instructions. Every helper is a function from emitter to emitter; the bytes are the
  bytes of the source's string literals.
\<close>

section \<open>The emitter\<close>

text \<open>The host addresses of the routines the generated code calls (\<^verbatim>\<open>init_cpu\<close>).\<close>

record host_fns =
  f_store32 :: u32
  f_store16 :: u32
  f_store8 :: u32
  f_store32_array :: u32
  f_load32 :: u32
  f_load16u :: u32
  f_load16s :: u32
  f_load8u :: u32
  f_load32_array :: u32
  f_loadcpsr :: u32
  f_storecpsr :: u32
  f_pushcallstack :: u32
  f_popcallstack :: u32
  f_branch :: u32
  f_remap_tcm :: u32
  f_swi :: u32
  f_debug_magic :: u32

text \<open>\<^verbatim>\<open>class compiler\<close>: the stream \<open>s\<close> as the bytes written so far, the positions
  to relocate, the flags' state and the instruction being compiled.\<close>

record emitter =
  out :: "u8 list"
  reloc_table :: "nat list"
  flags_updated :: bool
  ectx :: dctx
  INST_BITS :: nat
  inst_no :: nat
  lookahead_s :: bool
  fns :: host_fns

text \<open>\<^verbatim>\<open>OFFSET(z)\<close> as a byte: \<^verbatim>\<open>emulation_context\<close> holds the sixteen registers,
  then the words below.\<close>

definition REG :: "u32 \<Rightarrow> u8" where
  "REG r = ucast (push_bit 2 r)"

abbreviation OFF_cpsr :: u8 where "OFF_cpsr \<equiv> 0x40"
abbreviation OFF_spsr :: u8 where "OFF_spsr \<equiv> 0x44"
abbreviation OFF_x86_flags :: u8 where "OFF_x86_flags \<equiv> 0x48"
abbreviation OFF_bpre :: u8 where "OFF_bpre \<equiv> 0x4C"
abbreviation OFF_control_register :: u8 where "OFF_control_register \<equiv> 0x50"
abbreviation DEBUG_BREAK :: u8 where "DEBUG_BREAK \<equiv> 0xCF"
abbreviation PAGE_BASE_MASK :: u32 where "PAGE_BASE_MASK \<equiv> 0xFFFFFE00"

text \<open>A block of statements.\<close>

fun steps :: "('e \<Rightarrow> 'e) list \<Rightarrow> 'e \<Rightarrow> 'e" where
  "steps [] e = e"
| "steps (f # fs) e = steps fs (f e)"

text \<open>\<^verbatim>\<open>if (b) stmt\<close>\<close>

definition only_if :: "bool \<Rightarrow> ('e \<Rightarrow> 'e) \<Rightarrow> 'e \<Rightarrow> 'e" where
  "only_if b f = (if b then f else (\<lambda>e. e))"

definition emit :: "u8 list \<Rightarrow> emitter \<Rightarrow> emitter" where
  "emit bs e = e\<lparr>out := out e @ bs\<rparr>"

definition write32 :: "u32 \<Rightarrow> emitter \<Rightarrow> emitter" where
  "write32 w = emit (bytes32 w)"

text \<open>\<^verbatim>\<open>CALLP\<close> and \<^verbatim>\<open>JMPP\<close>: the operand is the target minus 4; \<^verbatim>\<open>epilogue\<close>
  subtracts its own address.\<close>

definition reloc :: "emitter \<Rightarrow> emitter" where
  "reloc e = e\<lparr>reloc_table := reloc_table e @ [length (out e)]\<rparr>"

definition CALLP :: "u32 \<Rightarrow> emitter \<Rightarrow> emitter" where
  "CALLP f = steps [emit [0xE8], reloc, write32 (f - 4)]"

definition JMPP :: "u32 \<Rightarrow> emitter \<Rightarrow> emitter" where
  "JMPP f = steps [emit [0xE9], reloc, write32 (f - 4)]"

section \<open>Flags and carry\<close>

definition store_carry :: "emitter \<Rightarrow> emitter" where
  "store_carry = emit [0xD1, 0xD6]"

definition load_carry :: "emitter \<Rightarrow> emitter" where
  "load_carry = emit [0xD1, 0xDE]"

definition store_flags :: "emitter \<Rightarrow> emitter" where
  "store_flags e =
    (let e = e\<lparr>flags_updated := True\<rparr>
     in if lookahead_s e then e
        else steps [emit [0x0F, 0x90, 0xC0], emit [0x9F], emit [0x89, 0x45, OFF_x86_flags]] e)"

definition load_flags :: "emitter \<Rightarrow> emitter" where
  "load_flags = steps [emit [0x8B, 0x45, OFF_x86_flags], emit [0xD0, 0xC8], emit [0x9E]]"

section \<open>Operands\<close>

definition add_ecx :: "u32 \<Rightarrow> emitter \<Rightarrow> emitter" where
  "add_ecx i = only_if (i \<noteq> 0) (steps [emit [0x81, 0xC1], write32 i])"

definition add_eax :: "u32 \<Rightarrow> emitter \<Rightarrow> emitter" where
  "add_eax i = only_if (i \<noteq> 0) (steps [emit [0x05], write32 i])"

text \<open>The offset of a program counter operand: two instructions ahead.\<close>

definition pc_offset :: "emitter \<Rightarrow> u32" where
  "pc_offset e = push_bit (INST_BITS e) (word_of_nat (inst_no e + 2)) AND NOT 3"

definition load_ecx_reg_or_pc :: "u32 \<Rightarrow> u32 \<Rightarrow> emitter \<Rightarrow> emitter" where
  "load_ecx_reg_or_pc reg offset e =
    (if reg \<noteq> 0xF
     then steps [emit [0x8B, 0x4D, REG reg], add_ecx offset] e
     else steps [emit [0x8B, 0x4D, REG 15], emit [0x81, 0xE1], write32 PAGE_BASE_MASK,
            add_ecx (offset + pc_offset e)] e)"

definition load_eax_reg_or_pc :: "u32 \<Rightarrow> u32 \<Rightarrow> emitter \<Rightarrow> emitter" where
  "load_eax_reg_or_pc reg offset e =
    (if reg \<noteq> 0xF
     then steps [emit [0x8B, 0x45, REG reg], add_eax offset] e
     else steps [emit [0x8B, 0x45, REG 15], emit [0x25], write32 PAGE_BASE_MASK,
            add_eax (offset + pc_offset e)] e)"

definition break_if_pc :: "u32 \<Rightarrow> emitter \<Rightarrow> emitter" where
  "break_if_pc reg = only_if (reg = 0xF) (emit [DEBUG_BREAK])"

definition load_edx_ecx_or_reg :: "u32 \<Rightarrow> u32 \<Rightarrow> emitter \<Rightarrow> emitter" where
  "load_edx_ecx_or_reg r1 r2 =
    (if r1 = r2 then emit [0x8B, 0xD1] else emit [0x8B, 0x55, REG r1])"

definition load_eax_ecx_or_reg :: "u32 \<Rightarrow> u32 \<Rightarrow> emitter \<Rightarrow> emitter" where
  "load_eax_ecx_or_reg r1 r2 e =
    (if r1 = r2 then emit [0x8B, 0xC1] e
     else if r1 = 0xF then load_eax_reg_or_pc r1 (push_bit (INST_BITS e) 1) e
     else load_eax_reg_or_pc r1 0 e)"

definition load_r15_ecx :: "emitter \<Rightarrow> emitter" where
  "load_r15_ecx = steps [emit [0x8B, 0x4D, REG 15], emit [0x81, 0xE1], write32 (PAGE_BASE_MASK OR 1)]"

definition store_rd_eax :: "emitter \<Rightarrow> emitter" where
  "store_rd_eax e =
    (let c = ectx e
     in steps [emit [0x89, 0x45, REG (c_rd c)],
          only_if (c_rd c = 15) (steps [emit [0x8B, 0xC8], JMPP (f_branch (fns e))])] e)"

section \<open>Shifts\<close>

definition shift_eax_imm :: "emitter \<Rightarrow> emitter" where
  "shift_eax_imm e =
    (let c = ectx e; n = c_imm c
     in case c_shift c of
          LSL \<Rightarrow> (if n = 0 then e
                  else if n \<ge> 32 then steps [emit [0xC1, 0xE0, 31], emit [0xC1, 0xE0, 1]] e
                  else emit [0xC1, 0xE0, ucast n] e)
        | LSR \<Rightarrow> (if n \<ge> 32 then steps [emit [0xC1, 0xE8, 31], emit [0xC1, 0xE8, 1]] e
                  else emit [0xC1, 0xE8, ucast n] e)
        | ASR \<Rightarrow> (if n \<noteq> 0
                  then (if n = 32 then steps [emit [0xC1, 0xF8, 31], emit [0xC1, 0xF8, 1]] e
                        else emit [0xC1, 0xF8, ucast n] e)
                  else e)
        | ROR \<Rightarrow> (if n \<noteq> 0 then emit [0xC1, 0xC8, ucast n] e else e)
        | RRX \<Rightarrow> emit [0xD1, 0xD8] e)"

definition load_shifter_imm :: "emitter \<Rightarrow> emitter" where
  "load_shifter_imm e =
    (let c = ectx e
     in steps [only_if (c_shift c = RRX) load_flags, load_eax_reg_or_pc (c_rm c) 0, shift_eax_imm, store_carry] e)"

text \<open>The jump over the shift for a zero amount is emitted with displacement zero and
  patched when the end is known.\<close>

definition patch :: "nat \<Rightarrow> emitter \<Rightarrow> emitter res" where
  "patch jmpbyte e =
    (let off = length (out e) - jmpbyte - 1
     in if off \<ge> 128 then Inl (Debug_Break ''Generated code too large'')
        else Inr (e\<lparr>out := (out e)[jmpbyte := word_of_nat off]\<rparr>))"

definition saturate_ecx :: "emitter \<Rightarrow> emitter" where
  "saturate_ecx = emit [0x6A, 0x1F, 0x5E, 0x3B, 0xCE, 0x0F, 0x47, 0xCE]"

definition shiftop_eax_ecx :: "emitter \<Rightarrow> emitter res" where
  "shiftop_eax_ecx e =
    (let c = ectx e;
         e = steps [emit [0x8B, 0x75, OFF_x86_flags], emit [0xC1, 0xEE, 0x08], emit [0x0B, 0xC9], emit [0x74]] e;
         jmpbyte = length (out e);
         e = emit [0] e;
         e = (case c_shift c of
                ROR \<Rightarrow> emit [0x83, 0xE1, 0x1F] e
              | LSR \<Rightarrow> steps [emit [0x49], saturate_ecx] e
              | ASR \<Rightarrow> steps [emit [0x49], saturate_ecx] e
              | LSL \<Rightarrow> saturate_ecx e
              | RRX \<Rightarrow> saturate_ecx e);
         e = (case c_shift c of
                LSL \<Rightarrow> emit [0xD3, 0xE0] e
              | LSR \<Rightarrow> steps [emit [0xD3, 0xE8], emit [0xC1, 0xE8, 1]] e
              | ASR \<Rightarrow> steps [emit [0xD3, 0xF8], emit [0xC1, 0xF8, 1]] e
              | ROR \<Rightarrow> emit [0xD3, 0xC8] e
              | RRX \<Rightarrow> e);
         e = store_carry e
     in patch jmpbyte e)"

section \<open>Loads and stores\<close>

definition generic_store :: "emitter \<Rightarrow> emitter" where
  "generic_store e =
    (let c = ectx e
     in steps [break_if_pc (c_rd c), load_ecx_reg_or_pc (c_rn c) 0, load_edx_ecx_or_reg (c_rd c) (c_rn c)] e)"

definition generic_loadstore_postupdate_imm :: "emitter \<Rightarrow> emitter" where
  "generic_loadstore_postupdate_imm e =
    (let c = ectx e
     in only_if (c_imm c \<noteq> 0) (steps [emit [0x81, 0x45, REG (c_rn c)], write32 (c_imm c)]) e)"

definition generic_store_p :: "emitter \<Rightarrow> emitter" where
  "generic_store_p e = steps [generic_store, add_ecx (c_imm (ectx e))] e"

definition generic_loadstore_shift :: "emitter \<Rightarrow> emitter" where
  "generic_loadstore_shift e =
    (let c = ectx e
     in if c_shift c = LSL \<and> c_imm c = 0 then emit [0x03, 0x4D, REG (c_rm c)] e
        else steps [emit [0x8B, 0x45, REG (c_rm c)], shift_eax_imm, store_carry, emit [0x03, 0xC8]] e)"

definition generic_store_r :: "emitter \<Rightarrow> emitter" where
  "generic_store_r = steps [generic_store, generic_loadstore_shift]"

definition generic_load :: "emitter \<Rightarrow> emitter" where
  "generic_load e = (let c = ectx e in load_ecx_reg_or_pc (c_rn c) (c_imm c) e)"

definition generic_load_post :: "emitter \<Rightarrow> emitter" where
  "generic_load_post e =
    (let c = ectx e in steps [break_if_pc (c_rd c), load_ecx_reg_or_pc (c_rn c) 0] e)"

text \<open>Unless \<^verbatim>\<open>U_BIT\<close> is set: negate \<^verbatim>\<open>ecx\<close>, or \<^verbatim>\<open>eax\<close>.\<close>

definition neg_ecx_unless_U :: "emitter \<Rightarrow> emitter" where
  "neg_ecx_unless_U e = only_if (c_flags (ectx e) AND U_BIT = 0) (emit [0xF7, 0xD9]) e"

definition neg_eax_unless_U :: "emitter \<Rightarrow> emitter" where
  "neg_eax_unless_U e = only_if (c_flags (ectx e) AND U_BIT = 0) (emit [0xF7, 0xD8]) e"

definition generic_load_r :: "emitter \<Rightarrow> emitter" where
  "generic_load_r e =
    (let c = ectx e
     in steps [break_if_pc (c_rd c), load_ecx_reg_or_pc (c_rn c) 0, neg_ecx_unless_U, generic_loadstore_shift] e)"

definition generic_load_rs :: "bool \<Rightarrow> bool \<Rightarrow> emitter \<Rightarrow> emitter" where
  "generic_load_rs post wb e =
    (let c = ectx e
     in steps
      ([break_if_pc (c_rd c), break_if_pc (c_rn c), load_shifter_imm, neg_eax_unless_U] @
       (if post
        then [emit [0x03, 0x45, REG (c_rn c)], emit [0x8B, 0xC8], only_if wb (emit [0x89, 0x45, REG (c_rn c)])]
        else [emit [0x8B, 0x4D, REG (c_rn c)], only_if wb (emit [0x01, 0x45, REG (c_rn c)])])) e)"

definition generic_postload_shift :: "emitter \<Rightarrow> emitter" where
  "generic_postload_shift e =
    (let c = ectx e
     in steps [emit [0x50], load_shifter_imm, neg_eax_unless_U, emit [0x01, 0x45, REG (c_rn c)],
          emit [0x8F, 0x45, REG (c_rd c)]] e)"

definition generic_load_x :: "emitter \<Rightarrow> emitter" where
  "generic_load_x e =
    (case c_emode (ectx e) of
       EM_H \<Rightarrow> CALLP (f_load16u (fns e)) e
     | EM_SB \<Rightarrow> steps [CALLP (f_load8u (fns e)), emit [0x0F, 0xBE, 0xC0]] e
     | EM_SH \<Rightarrow> CALLP (f_load16s (fns e)) e
     | EM_INVALID \<Rightarrow> emit [DEBUG_BREAK] e)"

definition generic_store_x :: "emitter \<Rightarrow> emitter" where
  "generic_store_x e =
    (case c_emode (ectx e) of
       EM_H \<Rightarrow> CALLP (f_store16 (fns e)) e
     | _ \<Rightarrow> emit [DEBUG_BREAK] e)"

section \<open>Register lists\<close>

text \<open>\<^verbatim>\<open>count\<close>: how many registers, the lowest and the highest, and whether they are
  consecutive. Without any register the code leaves the bounds uninitialised; then the
  result is not used.\<close>

definition reg_list :: "u32 \<Rightarrow> nat list" where
  "reg_list i = filter (bit i) [0..<16]"

definition count_regs :: "u32 \<Rightarrow> nat \<times> nat \<times> nat \<times> bool" where
  "count_regs i =
    (let rs = reg_list i
     in if rs = [] then (0, 0, 0, False)
        else (length rs, hd rs, last rs, last rs - hd rs + 1 = length rs))"

definition update_dest :: "nat \<Rightarrow> emitter \<Rightarrow> emitter" where
  "update_dest size' e =
    (let c = ectx e
     in if c_amode c = DA \<or> c_amode c = DB
        then steps [emit [0x83, 0x6D, REG (c_rn c)], emit [word_of_nat (4 * size')]] e
        else steps [emit [0x83, 0x45, REG (c_rn c)], emit [word_of_nat (4 * size')]] e)"

definition load_ecx_single :: "emitter \<Rightarrow> emitter" where
  "load_ecx_single e =
    (let c = ectx e
     in steps [emit [0x8B, 0x4D, REG (c_rn c)],
          (case c_amode c of
             DA \<Rightarrow> emit []
           | IA \<Rightarrow> emit []
           | DB \<Rightarrow> emit [0x83, 0xE9, 0x04]
           | IB \<Rightarrow> emit [0x83, 0xC1, 0x04])] e)"

definition push_multiple :: "nat \<Rightarrow> emitter \<Rightarrow> emitter" where
  "push_multiple num e =
    (let c = ectx e; rn = REG (c_rn c)
     in case c_amode c of
          IA \<Rightarrow> emit [0xFF, 0x75, rn] e
        | IB \<Rightarrow> steps [emit [0x8B, 0x4D, rn], emit [0x83, 0xC1, 0x04], emit [0x51]] e
        | DA \<Rightarrow> steps [emit [0x8B, 0x4D, rn], emit [0x83, 0xE9, word_of_int (4 * (int num - 1))], emit [0x51]] e
        | DB \<Rightarrow> steps [emit [0x8B, 0x4D, rn], emit [0x83, 0xE9, word_of_nat (4 * num)], emit [0x51]] e)"

definition ldm_switchuser :: "emitter \<Rightarrow> emitter" where
  "ldm_switchuser e =
    only_if (c_flags (ectx e) AND S_BIT \<noteq> 0)
      (steps [emit [0xFF, 0x75, OFF_cpsr], emit [0xB9], write32 0x10, emit [0xBA], write32 0x1F,
         CALLP (f_loadcpsr (fns e)), emit [0x59]]) e"

definition ldm_switchback :: "emitter \<Rightarrow> emitter" where
  "ldm_switchback e =
    only_if (c_flags (ectx e) AND S_BIT \<noteq> 0) (steps [emit [0xBA], write32 0x1F, CALLP (f_loadcpsr (fns e))]) e"

section \<open>Branches\<close>

definition record_callstack :: "emitter \<Rightarrow> emitter" where
  "record_callstack e = steps [emit [0x51], CALLP (f_pushcallstack (fns e)), emit [0x59]] e"

definition update_callstack :: "emitter \<Rightarrow> emitter" where
  "update_callstack e = steps [emit [0x51], CALLP (f_popcallstack (fns e)), emit [0x59]] e"

definition add_ecx_bpre :: "emitter \<Rightarrow> emitter" where
  "add_ecx_bpre e =
    steps [emit [0x81, 0xC1], write32 (c_imm (ectx e) - 4), emit [0x03, 0x4D, OFF_bpre],
      emit [0xC7, 0x45, OFF_bpre], write32 0] e"

definition cpsr_masks :: "u32 \<Rightarrow> u32" where
  "cpsr_masks i =
    [0x00000000, 0x000000FF, 0x0000FF00, 0x0000FFFF, 0x00FF0000, 0x00FF00FF, 0x00FFFF00, 0x00FFFFFF,
     0xFF000000, 0xFF0000FF, 0xFF00FF00, 0xFF00FFFF, 0xFFFF0000, 0xFFFF00FF, 0xFFFFFF00, 0xFFFFFFFF] ! unat i"

end
