(* ===== verification/Jit_Cases.thy ===== *)
theory Jit_Cases
  imports Jit_Emit
begin

text \<open>
  The code generator of \<^verbatim>\<open>Core/Compiler.cpp\<close>, second part: one definition per
  case of the switch in \<^verbatim>\<open>compile_instruction\<close>, in the order of the source.
\<close>

definition sbit :: "emitter \<Rightarrow> bool" where
  "sbit e = (c_flags (ectx e) AND S_BIT \<noteq> 0)"

text \<open>\<^verbatim>\<open>if (ctx.flags & S_BIT) store_flags();\<close>\<close>

definition update_flags :: "emitter \<Rightarrow> emitter" where
  "update_flags e = only_if (sbit e) store_flags e"

section \<open>Moves\<close>

definition jit_PLD :: "emitter \<Rightarrow> emitter" where
  "jit_PLD = emit [0x90]"

definition jit_MOV_I :: "emitter \<Rightarrow> emitter" where
  "jit_MOV_I e =
    (let c = ectx e
     in steps [break_if_pc (c_rd c), emit [0xC7, 0x45, REG (c_rd c)], write32 (c_imm c),
          only_if (sbit e) (steps [emit [0x83, 0x4D, REG (c_rd c), 0], store_flags])] e)"

definition jit_MOV_R :: "emitter \<Rightarrow> emitter" where
  "jit_MOV_R e =
    (let c = ectx e
     in if c_rd c = c_rm c \<and> c_imm c = 0
        then (if c_rd c = 12
              then steps [load_r15_ecx, emit [0x81, 0xC1], write32 (push_bit (INST_BITS e) (word_of_nat (inst_no e + 1))),
                     CALLP (f_debug_magic (fns e))] e
              else emit [0x90] e)
        else steps
         [load_shifter_imm,
          (if c_rd c = 0xF
           then steps [only_if (sbit e) (emit [DEBUG_BREAK]), emit [0x8B, 0x4D, REG 15], emit [0x83, 0xE1, 0x01],
                  emit [0x0B, 0xC8], emit [0x89, 0x4D, REG 15], JMPP (f_branch (fns e))]
           else emit [0x89, 0x45, REG (c_rd c)]),
          load_carry,
          only_if (sbit e) (steps [only_if (c_imm c = 0) (emit [0x83, 0xC8, 0x0]), store_flags])] e)"

definition jit_MOV_RR :: "emitter \<Rightarrow> emitter res" where
  "jit_MOV_RR e =
    (let c = ectx e
     in rbind (shiftop_eax_ecx (steps [break_if_pc (c_rd c), load_ecx_reg_or_pc (c_rs c) 0,
                  load_eax_ecx_or_reg (c_rm c) (c_rs c)] e))
        (\<lambda>e. Inr (steps [emit [0x89, 0x45, REG (c_rd c)],
           only_if (sbit e) (steps [emit [0x83, 0xC8, 0x0], load_carry, store_flags])] e)))"

definition jit_ORR_RR :: "emitter \<Rightarrow> emitter res" where
  "jit_ORR_RR e =
    (let c = ectx e
     in rbind (shiftop_eax_ecx (steps [break_if_pc (c_rd c), load_ecx_reg_or_pc (c_rs c) 0,
                  load_eax_ecx_or_reg (c_rm c) (c_rs c)] e))
        (\<lambda>e. Inr (steps [emit [0x09, 0x45, REG (c_rd c)], only_if (sbit e) (steps [load_carry, store_flags])] e)))"

definition jit_MVN_I :: "emitter \<Rightarrow> emitter" where
  "jit_MVN_I e =
    (let c = ectx e
     in steps [break_if_pc (c_rd c), emit [0xC7, 0x45, REG (c_rd c)], write32 (NOT (c_imm c))] e)"

definition jit_MVN_R :: "emitter \<Rightarrow> emitter" where
  "jit_MVN_R e =
    (let c = ectx e
     in steps [break_if_pc (c_rd c),
          (if c_rd c = c_rm c \<and> c_shift c = LSL \<and> c_imm c = 0
           then emit [0xF7, 0x55, REG (c_rd c)]
           else steps [load_shifter_imm, emit [0xF7, 0xD0], emit [0x89, 0x45, REG (c_rd c)]]),
          load_carry, update_flags] e)"

section \<open>Stores\<close>

definition jit_STR_I :: "emitter \<Rightarrow> emitter" where
  "jit_STR_I e = steps [generic_store, CALLP (f_store32 (fns e)), generic_loadstore_postupdate_imm] e"

definition jit_STRB_I :: "emitter \<Rightarrow> emitter" where
  "jit_STRB_I e = steps [generic_store, CALLP (f_store8 (fns e)), generic_loadstore_postupdate_imm] e"

definition jit_STRX_I :: "emitter \<Rightarrow> emitter" where
  "jit_STRX_I = steps [generic_store, generic_store_x, generic_loadstore_postupdate_imm]"

definition jit_STRX_IP :: "emitter \<Rightarrow> emitter" where
  "jit_STRX_IP = steps [generic_store_p, generic_store_x]"

definition jit_STR_IPW :: "emitter \<Rightarrow> emitter" where
  "jit_STR_IPW e = steps [generic_store_p, CALLP (f_store32 (fns e)), generic_loadstore_postupdate_imm] e"

definition jit_STRX_RP :: "emitter \<Rightarrow> emitter" where
  "jit_STRX_RP = steps [generic_store_r, generic_store_x]"

definition jit_STRB_IP :: "emitter \<Rightarrow> emitter" where
  "jit_STRB_IP e = steps [generic_store_p, CALLP (f_store8 (fns e))] e"

definition jit_STR_IP :: "emitter \<Rightarrow> emitter" where
  "jit_STR_IP e = steps [generic_store_p, CALLP (f_store32 (fns e))] e"

definition jit_STR_RP :: "emitter \<Rightarrow> emitter" where
  "jit_STR_RP e = steps [generic_store_r, CALLP (f_store32 (fns e))] e"

definition jit_STRB_RP :: "emitter \<Rightarrow> emitter" where
  "jit_STRB_RP e = steps [generic_store_r, CALLP (f_store8 (fns e))] e"

section \<open>Loads\<close>

text \<open>\<^verbatim>\<open>mov [ebp+rd], eax\<close>\<close>

definition mov_rd_eax :: "emitter \<Rightarrow> emitter" where
  "mov_rd_eax e = emit [0x89, 0x45, REG (c_rd (ectx e))] e"

definition jit_LDR_I :: "emitter \<Rightarrow> emitter" where
  "jit_LDR_I e = steps [generic_load_post, generic_loadstore_postupdate_imm, CALLP (f_load32 (fns e)), mov_rd_eax] e"

definition jit_LDR_IP :: "emitter \<Rightarrow> emitter" where
  "jit_LDR_IP e = steps [generic_load, CALLP (f_load32 (fns e)), store_rd_eax] e"

definition jit_LDRX_IP :: "emitter \<Rightarrow> emitter" where
  "jit_LDRX_IP = steps [generic_load, generic_load_x, store_rd_eax]"

definition jit_LDR_IPW :: "emitter \<Rightarrow> emitter" where
  "jit_LDR_IPW e =
    steps [generic_load, CALLP (f_load32 (fns e)), generic_loadstore_postupdate_imm, store_rd_eax] e"

definition jit_LDRB_IPW :: "emitter \<Rightarrow> emitter" where
  "jit_LDRB_IPW e =
    steps [generic_load, CALLP (f_load8u (fns e)), generic_loadstore_postupdate_imm, store_rd_eax] e"

definition jit_LDRX_IPW :: "emitter \<Rightarrow> emitter" where
  "jit_LDRX_IPW = steps [generic_load, generic_load_x, generic_loadstore_postupdate_imm, store_rd_eax]"

definition jit_LDR_R :: "emitter \<Rightarrow> emitter" where
  "jit_LDR_R e =
    steps [load_ecx_reg_or_pc (c_rn (ectx e)) 0, CALLP (f_load32 (fns e)), generic_postload_shift] e"

definition jit_LDR_RP :: "emitter \<Rightarrow> emitter" where
  "jit_LDR_RP e = steps [generic_load_rs True False, CALLP (f_load32 (fns e)), mov_rd_eax] e"

definition jit_LDR_RPW :: "emitter \<Rightarrow> emitter" where
  "jit_LDR_RPW e =
    steps [generic_load_rs True True, emit [0x89, 0x4D, REG (c_rn (ectx e))], CALLP (f_load32 (fns e)), mov_rd_eax] e"

definition jit_LDRB_I :: "emitter \<Rightarrow> emitter" where
  "jit_LDRB_I e = steps [generic_load_post, generic_loadstore_postupdate_imm, CALLP (f_load8u (fns e)), mov_rd_eax] e"

definition jit_LDRB_IP :: "emitter \<Rightarrow> emitter" where
  "jit_LDRB_IP e = steps [break_if_pc (c_rd (ectx e)), generic_load, CALLP (f_load8u (fns e)), mov_rd_eax] e"

definition jit_LDRB_RP :: "emitter \<Rightarrow> emitter" where
  "jit_LDRB_RP e = steps [generic_load_r, CALLP (f_load8u (fns e)), mov_rd_eax] e"

definition jit_LDRX_RP :: "emitter \<Rightarrow> emitter" where
  "jit_LDRX_RP = steps [generic_load_r, generic_load_x, mov_rd_eax]"

section \<open>Branches\<close>

text \<open>\<^verbatim>\<open>add ecx, imm\<close>, without the test of \<^verbatim>\<open>add_ecx\<close>, and \<^verbatim>\<open>mov [ebp+r], ecx\<close>.\<close>

definition add_ecx_imm :: "u32 \<Rightarrow> emitter \<Rightarrow> emitter" where
  "add_ecx_imm i = steps [emit [0x81, 0xC1], write32 i]"

definition mov_r_ecx :: "u32 \<Rightarrow> emitter \<Rightarrow> emitter" where
  "mov_r_ecx r = emit [0x89, 0x4D, REG r]"

definition next_offset :: "emitter \<Rightarrow> u32" where
  "next_offset e = push_bit (INST_BITS e) (word_of_nat (inst_no e + 1))"

definition jit_BLX_I :: "emitter \<Rightarrow> emitter" where
  "jit_BLX_I e =
    steps [load_r15_ecx, add_ecx_imm (next_offset e), mov_r_ecx 14, record_callstack,
      emit [0x81, 0xE1], write32 (NOT 1), emit [0x83, 0xE0, 0xFE], add_ecx_bpre, mov_r_ecx 15,
      JMPP (f_branch (fns e))] e"

definition jit_BL :: "emitter \<Rightarrow> emitter" where
  "jit_BL e =
    steps [load_r15_ecx, add_ecx_imm (next_offset e), mov_r_ecx 14, record_callstack,
      add_ecx_bpre, mov_r_ecx 15, JMPP (f_branch (fns e))] e"

definition jit_BX :: "emitter \<Rightarrow> emitter" where
  "jit_BX e =
    steps [load_ecx_reg_or_pc (c_rm (ectx e)) 0, mov_r_ecx 15, update_callstack, JMPP (f_branch (fns e))] e"

definition jit_BLX :: "emitter \<Rightarrow> emitter" where
  "jit_BLX e =
    steps [load_r15_ecx, add_ecx_imm (next_offset e), mov_r_ecx 14, record_callstack,
      load_ecx_reg_or_pc (c_rm (ectx e)) 0, mov_r_ecx 15, JMPP (f_branch (fns e))] e"

definition jit_B :: "emitter \<Rightarrow> emitter" where
  "jit_B e =
    steps [load_r15_ecx, add_ecx_imm (c_imm (ectx e) + push_bit (INST_BITS e) (word_of_nat (inst_no e))),
      mov_r_ecx 15, update_callstack, JMPP (f_branch (fns e))] e"

definition jit_BPRE :: "emitter \<Rightarrow> emitter" where
  "jit_BPRE e = steps [emit [0xC7, 0x45, OFF_bpre], write32 (c_imm (ectx e))] e"

section \<open>The system control coprocessor\<close>

definition jit_default :: "emitter \<Rightarrow> emitter" where
  "jit_default = emit [DEBUG_BREAK]"

definition jit_MRC :: "emitter \<Rightarrow> emitter" where
  "jit_MRC e =
    (let c = ectx e
     in if c_cp_num c = 0xF
        then (if c_cp_op1 c \<noteq> 0 then jit_default e
              else if c_rd c = 0xF then jit_default e
              else switch (c_rn c)
               [(0, steps [emit [0xC7, 0x45, REG (c_rd c)], write32 0x41059460]),
                (1, steps [emit [0x8B, 0x45, OFF_control_register], emit [0x89, 0x45, REG (c_rd c)]])]
               jit_default e)
        else jit_default e)"

text \<open>\<^verbatim>\<open>NOT_SUPPORTED_YET_BUT_SKIP\<close> falls through into the case after it.\<close>

definition jit_MCR :: "emitter \<Rightarrow> emitter" where
  "jit_MCR e =
    (let c = ectx e
     in if c_cp_num c = 0xF
        then (if c_cp_op1 c \<noteq> 0 then jit_default e
              else if c_rd c = 0xF then jit_default e
              else switch (c_rn c)
               [(1, steps [emit [0x8B, 0x45, REG (c_rd c)], emit [0x89, 0x45, OFF_control_register],
                       emit [0x0B, 0xC0], emit [0x75, 0x05], emit [0xB8], write32 0]),
                (2, steps [emit [0x90], emit [0x90]]),
                (3, steps [emit [0x90], emit [0x90]]),
                (5, steps [emit [0x90], emit [0x90]]),
                (6, steps [emit [0x90], emit [0x90]]),
                (7, emit [0x90]),
                (9, if c_rm c = 0x1
                    then steps [load_ecx_reg_or_pc (c_rd c) 0, emit [0xBA], write32 (c_cp_op2 c),
                           CALLP (f_remap_tcm (fns e))]
                    else emit [0x90])]
               jit_default e)
        else jit_default e)"

section \<open>Logic\<close>

text \<open>The common shape: the operation into \<^verbatim>\<open>[ebp+rn]\<close> when it is the destination,
  or into \<^verbatim>\<open>eax\<close> and from there.\<close>

definition alu_r :: "u8 \<Rightarrow> u8 \<Rightarrow> emitter \<Rightarrow> emitter" where
  "alu_r op_m_eax op_eax_m e =
    (let c = ectx e
     in if c_rn c = c_rd c then emit [op_m_eax, 0x45, REG (c_rn c)] e
        else steps [emit [op_eax_m, 0x45, REG (c_rn c)], emit [0x89, 0x45, REG (c_rd c)]] e)"

definition alu_i :: "u8 \<Rightarrow> u8 \<Rightarrow> emitter \<Rightarrow> emitter" where
  "alu_i modrm op_eax e =
    (let c = ectx e
     in if c_rn c = c_rd c then steps [emit [0x81, modrm, REG (c_rn c)], write32 (c_imm c)] e
        else steps [emit [0x8B, 0x45, REG (c_rn c)], emit [op_eax], write32 (c_imm c),
               emit [0x89, 0x45, REG (c_rd c)]] e)"

definition jit_BIC_R :: "emitter \<Rightarrow> emitter" where
  "jit_BIC_R = steps [load_shifter_imm, emit [0xF7, 0xD0], alu_r 0x21 0x23, load_carry, update_flags]"

definition jit_AND_R :: "emitter \<Rightarrow> emitter" where
  "jit_AND_R = steps [load_shifter_imm, alu_r 0x21 0x23, load_carry, update_flags]"

definition jit_EOR_R :: "emitter \<Rightarrow> emitter" where
  "jit_EOR_R = steps [load_shifter_imm, alu_r 0x31 0x33, load_carry, update_flags]"

definition jit_BIC_I :: "emitter \<Rightarrow> emitter" where
  "jit_BIC_I e =
    (let c = ectx e
     in steps [break_if_pc (c_rn c), break_if_pc (c_rd c), emit [0x8B, 0x45, REG (c_rn c)],
          emit [0x25], write32 (NOT (c_imm c)), emit [0x89, 0x45, REG (c_rd c)], update_flags] e)"

definition jit_ORR_I :: "emitter \<Rightarrow> emitter" where
  "jit_ORR_I e =
    (let c = ectx e in steps [break_if_pc (c_rn c), break_if_pc (c_rd c), alu_i 0x4D 0x0D, update_flags] e)"

definition jit_AND_I :: "emitter \<Rightarrow> emitter" where
  "jit_AND_I e =
    (let c = ectx e in steps [break_if_pc (c_rn c), break_if_pc (c_rd c), alu_i 0x65 0x25, update_flags] e)"

definition jit_EOR_I :: "emitter \<Rightarrow> emitter" where
  "jit_EOR_I e =
    (let c = ectx e in steps [break_if_pc (c_rn c), break_if_pc (c_rd c), alu_i 0x75 0x35, update_flags] e)"

section \<open>Arithmetic\<close>

definition jit_ADD_I :: "emitter \<Rightarrow> emitter" where
  "jit_ADD_I e =
    (let c = ectx e
     in steps [break_if_pc (c_rd c),
          (if c_rn c = c_rd c
           then steps [break_if_pc (c_rn c), emit [0x81, 0x45, REG (c_rn c)], write32 (c_imm c)]
           else steps [load_ecx_reg_or_pc (c_rn c) (c_imm c), emit [0x89, 0x4D, REG (c_rd c)]]),
          update_flags] e)"

definition jit_ADD_R :: "emitter \<Rightarrow> emitter" where
  "jit_ADD_R = steps [load_shifter_imm, alu_r 0x01 0x03, update_flags]"

definition jit_ADC_I :: "emitter \<Rightarrow> emitter" where
  "jit_ADC_I e =
    (let c = ectx e
     in steps [break_if_pc (c_rd c),
          (if c_rn c = c_rd c
           then steps [break_if_pc (c_rn c), load_flags, emit [0x81, 0x55, REG (c_rn c)], write32 (c_imm c)]
           else steps [load_ecx_reg_or_pc (c_rn c) (c_imm c), load_flags, emit [0x83, 0xD1, 0],
                  emit [0x89, 0x4D, REG (c_rd c)]]),
          update_flags] e)"

definition jit_ADC_R :: "emitter \<Rightarrow> emitter" where
  "jit_ADC_R = steps [load_shifter_imm, emit [0x50], load_flags, emit [0x58], alu_r 0x11 0x13, update_flags]"

definition jit_SUB_I :: "emitter \<Rightarrow> emitter" where
  "jit_SUB_I e =
    (let c = ectx e
     in steps [break_if_pc (c_rd c),
          (if c_rn c = c_rd c
           then steps [break_if_pc (c_rn c), emit [0x81, 0x6D, REG (c_rn c)], write32 (c_imm c)]
           else steps [load_ecx_reg_or_pc (c_rn c) (- c_imm c), emit [0x89, 0x4D, REG (c_rd c)]]),
          update_flags] e)"

definition jit_SUB_R :: "emitter \<Rightarrow> emitter" where
  "jit_SUB_R e =
    (let c = ectx e
     in steps [load_shifter_imm,
          (if c_rn c = c_rd c then emit [0x29, 0x45, REG (c_rn c)]
           else steps [emit [0x8B, 0x55, REG (c_rn c)], emit [0x2B, 0xD0], emit [0x89, 0x55, REG (c_rd c)]]),
          update_flags] e)"

text \<open>\<^verbatim>\<open>cmc; store_flags()\<close> under the S bit.\<close>

definition update_flags_cmc :: "emitter \<Rightarrow> emitter" where
  "update_flags_cmc e = only_if (sbit e) (steps [emit [0xF5], store_flags]) e"

definition jit_SBC_I :: "bool \<Rightarrow> emitter \<Rightarrow> emitter" where
  "jit_SBC_I flags_actual e =
    (let c = ectx e
     in steps [only_if (\<not> flags_actual) load_flags, emit [0x8B, 0x45, REG (c_rn c)], emit [0xF5],
          emit [0x1D], write32 (c_imm c), emit [0x89, 0x45, REG (c_rd c)], update_flags_cmc] e)"

definition jit_SBC_R :: "bool \<Rightarrow> emitter \<Rightarrow> emitter" where
  "jit_SBC_R flags_actual e =
    (let c = ectx e
     in steps [load_shifter_imm, emit [0x8B, 0xC8], only_if (\<not> flags_actual) load_flags, emit [0xF5],
          (if c_rn c = c_rd c then emit [0x19, 0x4D, REG (c_rn c)]
           else steps [emit [0x8B, 0x55, REG (c_rn c)], emit [0x1B, 0xD1], emit [0x89, 0x55, REG (c_rd c)]]),
          update_flags_cmc] e)"

definition jit_RSB_I :: "emitter \<Rightarrow> emitter" where
  "jit_RSB_I e =
    (let c = ectx e
     in steps [break_if_pc (c_rn c), break_if_pc (c_rd c),
          (if c_rn c = c_rd c
           then (if c_imm c = 0 then steps [emit [0xF7, 0x5D, REG (c_rn c)], update_flags]
                 else steps [emit [0xB8], write32 (c_imm c), emit [0x2B, 0x45, REG (c_rn c)],
                        emit [0x89, 0x45, REG (c_rd c)]])
           else (if c_imm c = 0
                 then steps [emit [0x8B, 0x45, REG (c_rn c)], emit [0xF7, 0xD8], emit [0x89, 0x45, REG (c_rd c)],
                        update_flags]
                 else (\<lambda>e. e)))] e)"

definition jit_RSB_R :: "emitter \<Rightarrow> emitter" where
  "jit_RSB_R e =
    (let c = ectx e
     in steps [load_shifter_imm, emit [0x2B, 0x45, REG (c_rn c)], emit [0x89, 0x45, REG (c_rd c)], update_flags] e)"

definition jit_ORR_R :: "emitter \<Rightarrow> emitter" where
  "jit_ORR_R e =
    (let c = ectx e
     in steps [load_shifter_imm, emit [0x0B, 0x45, REG (c_rn c)], emit [0x89, 0x45, REG (c_rd c)],
          load_carry, update_flags] e)"

definition jit_RSC_R :: "bool \<Rightarrow> emitter \<Rightarrow> emitter" where
  "jit_RSC_R flags_actual e =
    (let c = ectx e
     in steps [only_if (\<not> flags_actual) load_flags, emit [0xF5], emit [0x8B, 0x4D, REG (c_rn c)],
          emit [0x83, 0xD1, 0x00], load_shifter_imm, emit [0x2B, 0xC1], emit [0x89, 0x45, REG (c_rd c)],
          update_flags_cmc] e)"

definition jit_CLZ :: "emitter \<Rightarrow> emitter" where
  "jit_CLZ e =
    (let c = ectx e
     in steps [break_if_pc (c_rm c), break_if_pc (c_rd c),
          emit [0xB9], write32 0xFFFFFFFF, emit [0xC7, 0x45, REG (c_rd c)], write32 32, emit [0x8B, 0xC1],
          emit [0x23, 0x45, REG (c_rm c)], emit [0x74, 0x07], emit [0xD1, 0xE1], emit [0xFF, 0x4D, REG (c_rd c)],
          emit [0xEB, 0xF2]] e)"

section \<open>Multiplication\<close>

definition jit_MLA_R :: "emitter \<Rightarrow> emitter" where
  "jit_MLA_R e =
    (let c = ectx e
     in steps [break_if_pc (c_rm c), break_if_pc (c_rs c), break_if_pc (c_rd c), break_if_pc (c_rn c),
          emit [0x33, 0xD2], emit [0x8B, 0x45, REG (c_rm c)], emit [0xF7, 0x65, REG (c_rs c)],
          emit [0x03, 0x45, REG (c_rn c)], emit [0x89, 0x45, REG (c_rd c)], update_flags] e)"

text \<open>The long multiplications differ in \<^verbatim>\<open>mul\<close> or \<^verbatim>\<open>imul\<close> and in moving or
  adding the two halves.\<close>

definition long_mul :: "u8 \<Rightarrow> emitter \<Rightarrow> emitter" where
  "long_mul modrm e =
    (let c = ectx e
     in steps [emit [0x33, 0xD2], emit [0x8B, 0x45, REG (c_rm c)], emit [0xF7, modrm, REG (c_rs c)]] e)"

definition mov_halves :: "emitter \<Rightarrow> emitter" where
  "mov_halves e =
    (let c = ectx e in steps [emit [0x89, 0x45, REG (c_rd c)], emit [0x89, 0x55, REG (c_rn c)]] e)"

definition add_halves :: "emitter \<Rightarrow> emitter" where
  "add_halves e =
    (let c = ectx e in steps [emit [0x01, 0x45, REG (c_rd c)], emit [0x11, 0x55, REG (c_rn c)]] e)"

definition jit_UMULL :: "emitter \<Rightarrow> emitter" where
  "jit_UMULL = steps [long_mul 0x65, mov_halves, update_flags]"

definition jit_UMLAL :: "emitter \<Rightarrow> emitter" where
  "jit_UMLAL = steps [long_mul 0x65, add_halves, update_flags]"

definition jit_SMULL :: "emitter \<Rightarrow> emitter" where
  "jit_SMULL = steps [long_mul 0x6D, mov_halves, update_flags]"

definition jit_SMLAL :: "emitter \<Rightarrow> emitter" where
  "jit_SMLAL = steps [long_mul 0x6D, add_halves, update_flags]"

definition jit_MUL_R :: "emitter \<Rightarrow> emitter" where
  "jit_MUL_R e =
    (let c = ectx e
     in steps [break_if_pc (c_rm c), break_if_pc (c_rs c), break_if_pc (c_rd c),
          emit [0x8B, 0x45, REG (c_rm c)], emit [0x99], emit [0xF7, 0x6D, REG (c_rs c)],
          emit [0x89, 0x45, REG (c_rd c)], emit [0x0B, 0xC0], update_flags] e)"

section \<open>Swaps and status registers\<close>

definition jit_SWP :: "emitter \<Rightarrow> emitter" where
  "jit_SWP e =
    (let c = ectx e
     in steps [emit [0x8B, 0x4D, REG (c_rn c)], emit [0x51], CALLP (f_load32 (fns e)), emit [0x59],
          emit [0x8B, 0x55, REG (c_rm c)], emit [0x89, 0x45, REG (c_rd c)], CALLP (f_store32 (fns e))] e)"

definition jit_SWPB :: "emitter \<Rightarrow> emitter" where
  "jit_SWPB e =
    (let c = ectx e
     in steps [emit [0x8B, 0x4D, REG (c_rn c)], emit [0x51], CALLP (f_load8u (fns e)), emit [0x59],
          emit [0x8B, 0x55, REG (c_rm c)], emit [0x89, 0x45, REG (c_rd c)], CALLP (f_store8 (fns e))] e)"

definition jit_MRS :: "emitter \<Rightarrow> emitter" where
  "jit_MRS e =
    (let c = ectx e
     in steps [break_if_pc (c_rd c),
          (if c_instruction c = MRS_SPSR then emit [0x8B, 0x45, OFF_spsr] else CALLP (f_storecpsr (fns e))),
          emit [0x89, 0x45, REG (c_rd c)]] e)"

definition jit_MSR_I :: "emitter \<Rightarrow> emitter" where
  "jit_MSR_I e =
    (let c = ectx e
     in steps [break_if_pc (c_rm c),
          (if c_rn c = 0 then emit [0x90]
           else if c_instruction c = MSR_SPSR_I
           then steps [emit [0xB8], write32 (c_imm c),
                  only_if (c_rn c \<noteq> 0xF) (steps [emit [0x25], write32 (cpsr_masks (c_rn c))]),
                  emit [0x89, 0x45, OFF_spsr]]
           else steps [emit [0xB9], write32 (c_imm c), emit [0xBA], write32 (cpsr_masks (c_rn c)),
                  CALLP (f_loadcpsr (fns e)), emit [0x8B, 0xE8]])] e)"

definition jit_MSR_R :: "emitter \<Rightarrow> emitter" where
  "jit_MSR_R e =
    (let c = ectx e
     in steps [break_if_pc (c_rm c),
          (if c_rn c = 0 then emit [0x90]
           else if c_instruction c = MSR_SPSR_R
           then steps [emit [0x8B, 0x45, REG (c_rm c)],
                  only_if (c_rn c \<noteq> 0xF) (steps [emit [0x25], write32 (cpsr_masks (c_rn c))]),
                  emit [0x89, 0x45, OFF_spsr]]
           else steps [emit [0x8B, 0x4D, REG (c_rm c)], emit [0xBA], write32 (cpsr_masks (c_rn c)),
                  CALLP (f_loadcpsr (fns e)), emit [0x8B, 0xE8]])] e)"

section \<open>Tests and comparisons\<close>

definition jit_TST_I :: "emitter \<Rightarrow> emitter" where
  "jit_TST_I e =
    (let c = ectx e
     in steps [break_if_pc (c_rn c), emit [0xF7, 0x45, REG (c_rn c)], write32 (c_imm c), store_flags] e)"

definition jit_TST_R :: "emitter \<Rightarrow> emitter" where
  "jit_TST_R e =
    (let c = ectx e
     in steps [break_if_pc (c_rn c), load_shifter_imm, emit [0x85, 0x45, REG (c_rn c)], store_flags] e)"

definition jit_TEQ_I :: "emitter \<Rightarrow> emitter" where
  "jit_TEQ_I e =
    (let c = ectx e
     in steps [break_if_pc (c_rn c), emit [0x8B, 0x45, REG (c_rm c)], emit [0x35], write32 (c_imm c), store_flags] e)"

definition jit_TEQ_R :: "emitter \<Rightarrow> emitter" where
  "jit_TEQ_R e =
    (let c = ectx e
     in steps [break_if_pc (c_rn c), load_shifter_imm, emit [0x33, 0x45, REG (c_rn c)], store_flags] e)"

definition jit_CMP_I :: "emitter \<Rightarrow> emitter" where
  "jit_CMP_I e =
    (let c = ectx e
     in steps [break_if_pc (c_rn c), emit [0x81, 0x7D, REG (c_rn c)], write32 (c_imm c), emit [0xF5], store_flags] e)"

definition jit_CMN_I :: "emitter \<Rightarrow> emitter" where
  "jit_CMN_I e =
    (let c = ectx e
     in steps [break_if_pc (c_rn c), emit [0xB8], write32 (c_imm c), emit [0x03, 0x45, REG (c_rn c)], store_flags] e)"

definition jit_CMP_R :: "emitter \<Rightarrow> emitter" where
  "jit_CMP_R e =
    (let c = ectx e
     in steps [break_if_pc (c_rn c), load_shifter_imm, emit [0x39, 0x45, REG (c_rn c)], emit [0xF5], store_flags] e)"

definition jit_CMN_R :: "emitter \<Rightarrow> emitter" where
  "jit_CMN_R e =
    (let c = ectx e
     in steps [break_if_pc (c_rn c), load_shifter_imm, emit [0x03, 0x45, REG (c_rn c)], store_flags] e)"

section \<open>Multiple transfers\<close>

text \<open>The array argument of consecutive registers is the context itself.\<close>

definition push_region :: "nat \<Rightarrow> emitter \<Rightarrow> emitter" where
  "push_region lowest =
    (let ofs = REG (word_of_nat lowest)
     in if ofs = 0 then emit [0x55] else steps [emit [0x8D, 0x45, ofs], emit [0x50]])"

text \<open>The other registers are pushed one by one, from register 14 down.\<close>

definition push_regs_down :: "u32 \<Rightarrow> emitter \<Rightarrow> emitter" where
  "push_regs_down i = steps (map (\<lambda>r. emit [0xFF, 0x75, REG (word_of_nat r)]) (filter (bit i) (rev [0..<15])))"

definition pop_regs_up :: "u8 \<Rightarrow> u32 \<Rightarrow> emitter \<Rightarrow> emitter" where
  "pop_regs_up modrm i = steps (map (\<lambda>r. emit [0x8F, modrm, REG (word_of_nat r)]) (reg_list i))"

definition push_scattered :: "emitter \<Rightarrow> emitter" where
  "push_scattered e =
    (let c = ectx e
     in steps
      [only_if (bit (c_imm c) 15) (steps [load_r15_ecx, add_ecx_imm (next_offset e), emit [0x51]]),
       push_regs_down (c_imm c), emit [0x54]] e)"

definition store_multiple :: "nat \<Rightarrow> nat \<Rightarrow> bool \<Rightarrow> emitter \<Rightarrow> emitter" where
  "store_multiple num lowest region e =
    (let pop = (if region then 0 else num)
     in steps
      [(if region then push_region lowest else push_scattered),
       emit [0x6A, word_of_nat num], push_multiple num, CALLP (f_store32_array (fns e)),
       emit [0x83, 0xC4, word_of_nat (4 * (pop + 3))]] e)"

definition jit_STM :: "emitter \<Rightarrow> emitter" where
  "jit_STM e =
    (let c = ectx e;
         (num, lowest, highest, region) = count_regs (c_imm c)
     in steps
      [only_if (sbit e) (emit [DEBUG_BREAK]),
       (if num = 0 then emit [DEBUG_BREAK]
        else if num = 1
        then steps [load_ecx_single, emit [0x8B, 0x55, REG (word_of_nat highest)], CALLP (f_store32 (fns e))]
        else store_multiple num lowest region),
       only_if (c_instruction c = STM_W) (update_dest num)] e)"

text \<open>The load through a block on the stack.\<close>

definition load_stack_block :: "nat \<Rightarrow> emitter \<Rightarrow> emitter" where
  "load_stack_block num e =
    steps [emit [0x83, 0xEC, word_of_nat (4 * num)], emit [0x54], emit [0x6A, word_of_nat num], push_multiple num,
      CALLP (f_load32_array (fns e)), emit [0x83, 0xC4, 0x0C]] e"

text \<open>The register list of the instruction, in the four ways of the source.\<close>

definition load_multiple :: "nat \<Rightarrow> nat \<Rightarrow> nat \<Rightarrow> bool \<Rightarrow> emitter \<Rightarrow> emitter" where
  "load_multiple num lowest highest region e =
    (let c = ectx e
     in if sbit e
        then steps [load_stack_block num, ldm_switchuser, pop_regs_up 0x40 (c_imm c), ldm_switchback] e
        else if num = 0 then emit [DEBUG_BREAK] e
        else if num = 1
        then steps [load_ecx_single, CALLP (f_load32 (fns e)), emit [0x89, 0x45, REG (word_of_nat highest)]] e
        else if region
        then steps [push_region lowest, emit [0x6A, word_of_nat num], push_multiple num,
               CALLP (f_load32_array (fns e)), emit [0x83, 0xC4, 0x0C]] e
        else steps [load_stack_block num, pop_regs_up 0x45 (c_imm c)] e)"

definition jit_LDM :: "emitter \<Rightarrow> emitter" where
  "jit_LDM e =
    (let c = ectx e;
         (num, lowest, highest, region) = count_regs (c_imm c);
         wback = (c_instruction c = LDM_W);
         rn_in = (wback \<and> bit (c_imm c) (unat (c_rn c)));
         special = (rn_in \<and> (push_bit (unat (c_rn c)) 1 - 1) AND c_imm c = 0);
         wback = (if rn_in \<and> \<not> special then False else wback)
     in steps
      [only_if special (emit [0xFF, 0x75, REG (c_rn c)]),
       load_multiple num lowest highest region,
       only_if wback (steps [only_if special (emit [0x8F, 0x45, REG (c_rn c)]), update_dest num]),
       only_if (bit (c_imm c) 15)
         (steps [emit [0x8B, 0x4D, REG 15], update_callstack, JMPP (f_branch (fns e))])] e)"

definition jit_SWI :: "emitter \<Rightarrow> emitter" where
  "jit_SWI e = steps [emit [0xB9], write32 (c_imm (ectx e)), CALLP (f_swi (fns e))] e"

end
