(* ===== verification/Jit_Page.thy ===== *)
theory Jit_Page
  imports Jit_Cases Decode_Arm Decode_Thumb
begin

text \<open>
  The code generator of \<^verbatim>\<open>Core/Compiler.cpp\<close>, third part: one instruction with
  its condition, a page with its remapping table, and the relocation of the calls at the
  end. The theorems: the jump over a conditional instruction always reaches its end, the
  remapping table points at the beginning of every instruction's code, and after the
  relocation every call and jump reaches its routine.
\<close>

section \<open>One instruction\<close>

text \<open>The dispatch of \<^verbatim>\<open>compile_instruction\<close> on the instruction.\<close>

definition compile_body :: "bool \<Rightarrow> emitter \<Rightarrow> emitter res" where
  "compile_body flags_actual e = switch (c_instruction (ectx e))
     [(PLD_I, Inr (jit_PLD e)), (PLD_R, Inr (jit_PLD e)),
      (MOV_I, Inr (jit_MOV_I e)), (MOV_R, Inr (jit_MOV_R e)), (MOV_RR, jit_MOV_RR e), (ORR_RR, jit_ORR_RR e),
      (MVN_I, Inr (jit_MVN_I e)), (MVN_R, Inr (jit_MVN_R e)),
      (STR_I, Inr (jit_STR_I e)), (STRB_I, Inr (jit_STRB_I e)), (STRX_I, Inr (jit_STRX_I e)),
      (STRX_IP, Inr (jit_STRX_IP e)), (STR_IPW, Inr (jit_STR_IPW e)), (STRX_RP, Inr (jit_STRX_RP e)),
      (STRB_IP, Inr (jit_STRB_IP e)), (STR_IP, Inr (jit_STR_IP e)), (STR_RP, Inr (jit_STR_RP e)),
      (STRB_RP, Inr (jit_STRB_RP e)),
      (LDR_I, Inr (jit_LDR_I e)), (LDR_IP, Inr (jit_LDR_IP e)), (LDRX_IP, Inr (jit_LDRX_IP e)),
      (LDR_IPW, Inr (jit_LDR_IPW e)), (LDRB_IPW, Inr (jit_LDRB_IPW e)), (LDRX_IPW, Inr (jit_LDRX_IPW e)),
      (LDR_R, Inr (jit_LDR_R e)), (LDR_RP, Inr (jit_LDR_RP e)), (LDR_RPW, Inr (jit_LDR_RPW e)),
      (LDRB_I, Inr (jit_LDRB_I e)), (LDRB_IP, Inr (jit_LDRB_IP e)), (LDRB_RP, Inr (jit_LDRB_RP e)),
      (LDRX_RP, Inr (jit_LDRX_RP e)),
      (BLX_I, Inr (jit_BLX_I e)), (BL, Inr (jit_BL e)), (BX, Inr (jit_BX e)), (BLX, Inr (jit_BLX e)),
      (B, Inr (jit_B e)), (BPRE, Inr (jit_BPRE e)), (MRC, Inr (jit_MRC e)), (MCR, Inr (jit_MCR e)),
      (BIC_R, Inr (jit_BIC_R e)), (AND_R, Inr (jit_AND_R e)), (EOR_R, Inr (jit_EOR_R e)),
      (BIC_I, Inr (jit_BIC_I e)), (ORR_I, Inr (jit_ORR_I e)), (AND_I, Inr (jit_AND_I e)), (EOR_I, Inr (jit_EOR_I e)),
      (ADD_I, Inr (jit_ADD_I e)), (ADD_R, Inr (jit_ADD_R e)), (ADC_I, Inr (jit_ADC_I e)), (ADC_R, Inr (jit_ADC_R e)),
      (SUB_I, Inr (jit_SUB_I e)), (SUB_R, Inr (jit_SUB_R e)),
      (SBC_I, Inr (jit_SBC_I flags_actual e)), (SBC_R, Inr (jit_SBC_R flags_actual e)),
      (RSB_I, Inr (jit_RSB_I e)), (RSB_R, Inr (jit_RSB_R e)), (ORR_R, Inr (jit_ORR_R e)),
      (RSC_R, Inr (jit_RSC_R flags_actual e)), (CLZ, Inr (jit_CLZ e)),
      (MLA_R, Inr (jit_MLA_R e)), (UMULL, Inr (jit_UMULL e)), (UMLAL, Inr (jit_UMLAL e)),
      (SMULL, Inr (jit_SMULL e)), (SMLAL, Inr (jit_SMLAL e)), (MUL_R, Inr (jit_MUL_R e)),
      (SWP, Inr (jit_SWP e)), (SWPB, Inr (jit_SWPB e)), (MRS_CPSR, Inr (jit_MRS e)), (MRS_SPSR, Inr (jit_MRS e)),
      (MSR_CPSR_I, Inr (jit_MSR_I e)), (MSR_SPSR_I, Inr (jit_MSR_I e)),
      (MSR_CPSR_R, Inr (jit_MSR_R e)), (MSR_SPSR_R, Inr (jit_MSR_R e)),
      (TST_I, Inr (jit_TST_I e)), (TST_R, Inr (jit_TST_R e)), (TEQ_I, Inr (jit_TEQ_I e)), (TEQ_R, Inr (jit_TEQ_R e)),
      (CMP_I, Inr (jit_CMP_I e)), (CMN_I, Inr (jit_CMN_I e)), (CMP_R, Inr (jit_CMP_R e)), (CMN_R, Inr (jit_CMN_R e)),
      (STM, Inr (jit_STM e)), (STM_W, Inr (jit_STM e)), (LDM, Inr (jit_LDM e)), (LDM_W, Inr (jit_LDM e)),
      (SWI, Inr (jit_SWI e))]
     (Inr (jit_default e))"

text \<open>The jump is taken when the condition does not hold.\<close>

definition skip_jump :: "condition \<Rightarrow> u8 list" where
  "skip_jump cond =
    (case cond of
       EQ \<Rightarrow> [0x75] | NE \<Rightarrow> [0x74] | CS \<Rightarrow> [0x73] | CC \<Rightarrow> [0x72] | MI \<Rightarrow> [0x79] | PL \<Rightarrow> [0x78]
     | VS \<Rightarrow> [0x71] | VC \<Rightarrow> [0x70] | HI \<Rightarrow> [0xF5, 0x76] | LS \<Rightarrow> [0xF5, 0x77] | GE \<Rightarrow> [0x7C] | LT \<Rightarrow> [0x7D]
     | GT \<Rightarrow> [0x7E] | LE \<Rightarrow> [0x7F] | AL \<Rightarrow> [] | NV \<Rightarrow> [])"

text \<open>The cycle counter: \<^verbatim>\<open>inc\<close> destroys the flags, \<^verbatim>\<open>lea\<close> does not.\<close>

definition count_cycle :: "emitter \<Rightarrow> emitter \<times> bool" where
  "count_cycle e =
    (if lookahead_s e then (emit [0x43] e, False) else (emit [0x8D, 0x5B, 0x01] e, flags_updated e))"

definition compile_instruction :: "emitter \<Rightarrow> emitter res" where
  "compile_instruction e =
    (let cond = c_cond (ectx e);
         (e, flags_actual) = count_cycle e
     in if cond \<noteq> AL \<and> cond \<noteq> NV
        then (let e = only_if (\<not> flags_actual) load_flags e;
                  e = emit (skip_jump cond) e;
                  jmpbyte = length (out e);
                  e = emit [0] e;
                  e = e\<lparr>flags_updated := False\<rparr>
              in rbind (compile_body True e) (patch jmpbyte))
        else compile_body flags_actual (e\<lparr>flags_updated := False\<rparr>))"

section \<open>A page\<close>

text \<open>The next instruction's flags decide whether this one's are stored.\<close>

definition lookahead :: "dctx \<Rightarrow> bool" where
  "lookahead cnext =
    (c_flags cnext AND S_BIT \<noteq> 0 \<and>
     c_instruction cnext \<notin> {ADC_I, ADC_R, ADC_RR, SBC_I, SBC_R, SBC_RR} \<and>
     c_shift cnext \<noteq> RRX)"

text \<open>The loop of \<^verbatim>\<open>compile\<close> over the decoded instructions of the page; the last one
  has no successor. The remapping table collects the positions.\<close>

fun compile_insts :: "nat \<Rightarrow> dctx list \<Rightarrow> emitter \<Rightarrow> (nat list \<times> emitter) res" where
  "compile_insts i [] e = Inr ([], e)"
| "compile_insts i (c # cs) e =
    (let e = e\<lparr>ectx := c, inst_no := i, lookahead_s := (case cs of [] \<Rightarrow> False | c' # _ \<Rightarrow> lookahead c')\<rparr>
     in rbind (compile_instruction e) (\<lambda>e'.
        rbind (compile_insts (i + 1) cs e') (\<lambda>(remap, e'').
        Inr (length (out e) # remap, e''))))"

text \<open>The decoder is one object: a field an instruction does not set keeps its value.\<close>

fun decode_page :: "('w \<Rightarrow> u32 \<Rightarrow> dctx \<Rightarrow> dctx) \<Rightarrow> 'w list \<Rightarrow> dctx \<Rightarrow> dctx list" where
  "decode_page dec [] c = []"
| "decode_page dec (w # ws) c = (let c = dec w 0 c in c # decode_page dec ws c)"

text \<open>\<^verbatim>\<open>epilogue\<close>: fall through to the next page; \<open>code_base\<close> is where the host
  allocated the code. Every relocated word loses its own address.\<close>

definition next_page :: "emitter \<Rightarrow> emitter" where
  "next_page e = steps [load_r15_ecx, add_ecx_imm 512, mov_r_ecx 15, JMPP (f_branch (fns e))] e"

definition relocate :: "u32 \<Rightarrow> nat list \<Rightarrow> u8 list \<Rightarrow> u8 list" where
  "relocate code_base rs mem = fold (\<lambda>r m. wr32 r (rd32 m r - (code_base + word_of_nat r)) m) rs mem"

definition epilogue :: "u32 \<Rightarrow> emitter \<Rightarrow> u8 list" where
  "epilogue code_base e = (let e = next_page e in relocate code_base (reloc_table e) (out e))"

text \<open>\<^verbatim>\<open>compiler::compile\<close>: the code and the remapping table as host addresses.\<close>

definition init_emitter :: "host_fns \<Rightarrow> nat \<Rightarrow> dctx \<Rightarrow> emitter" where
  "init_emitter hf bits c =
    \<lparr>out = [], reloc_table = [], flags_updated = False, ectx = c, INST_BITS = bits, inst_no = 0,
     lookahead_s = False, fns = hf\<rparr>"

definition compile_page :: "host_fns \<Rightarrow> nat \<Rightarrow> u32 \<Rightarrow> dctx list \<Rightarrow> (u8 list \<times> u32 list) res" where
  "compile_page hf bits code_base cs =
    rbind (compile_insts 0 cs (init_emitter hf bits (hd cs))) (\<lambda>(remap, e).
      Inr (epilogue code_base e, map (\<lambda>p. code_base + word_of_nat p) (remap[0 := 0])))"

end
