(* ===== verification/Jit_Code.thy ===== *)
theory Jit_Code
  imports Jit_Page
begin

text \<open>
  What every emitting function does to the stream: it appends a bounded piece of code
  whose relocation entries are well placed and hold routines of the host. The pieces
  compose, so each instruction and each page is such a piece.
\<close>

section \<open>Pieces of code\<close>

definition routines :: "host_fns \<Rightarrow> u32 set" where
  "routines h =
    {f_store32 h, f_store16 h, f_store8 h, f_store32_array h, f_load32 h, f_load16u h, f_load16s h, f_load8u h,
     f_load32_array h, f_loadcpsr h, f_storecpsr h, f_pushcallstack h, f_popcallstack h, f_branch h,
     f_remap_tcm h, f_swi h, f_debug_magic h}"

text \<open>A relocation entry follows the opcode of a call or a jump and its four bytes hold a
  routine, minus 4.\<close>

definition good_entry :: "host_fns \<Rightarrow> u8 list \<Rightarrow> nat \<Rightarrow> bool" where
  "good_entry h bs r =
    (1 \<le> r \<and> r + 4 \<le> length bs \<and> bs ! (r - 1) \<in> {0xE8, 0xE9} \<and>
     (\<exists>f \<in> routines h. take 4 (drop r bs) = bytes32 (f - 4)))"

definition good_code :: "host_fns \<Rightarrow> u8 list \<Rightarrow> nat list \<Rightarrow> bool" where
  "good_code h bs rs = (sorted_wrt (\<lambda>a b. a + 5 \<le> b) rs \<and> list_all (good_entry h bs) rs)"

text \<open>From \<open>e\<close> to \<open>e'\<close> at most \<open>n\<close> bytes of good code are appended and nothing
  else changes but the flags' state.\<close>

definition app :: "nat \<Rightarrow> emitter \<Rightarrow> emitter \<Rightarrow> bool" where
  "app n e e' = (\<exists>bs rs u. e' = e\<lparr>out := out e @ bs, reloc_table := reloc_table e @ map ((+) (length (out e))) rs,
      flags_updated := u\<rparr> \<and> length bs \<le> n \<and> good_code (fns e) bs rs)"

lemma good_entry_append:
  "good_entry h bs r \<Longrightarrow> good_entry h (bs @ cs) r"
  "good_entry h cs r \<Longrightarrow> good_entry h (bs @ cs) (length bs + r)"
  by (auto simp: good_entry_def nth_append)

lemma good_code_append:
  assumes "good_code h bs rs" "good_code h cs ss"
  shows "good_code h (bs @ cs) (rs @ map ((+) (length bs)) ss)"
proof -
  have "a + 5 \<le> length bs + b" if "a \<in> set rs" "b \<in> set ss" for a b
    using assms that by (fastforce simp: good_code_def list_all_iff good_entry_def)
  then show ?thesis
    using assms by (auto simp: good_code_def list_all_iff sorted_wrt_append sorted_wrt_map good_entry_append)
qed

lemma app_trans: "app n e e1 \<Longrightarrow> app m e1 e2 \<Longrightarrow> app (n + m) e e2"
proof -
  assume "app n e e1" "app m e1 e2"
  then obtain bs rs u cs ss v where
    e1: "e1 = e\<lparr>out := out e @ bs, reloc_table := reloc_table e @ map ((+) (length (out e))) rs, flags_updated := u\<rparr>"
      "length bs \<le> n" "good_code (fns e) bs rs" and
    e2: "e2 = e1\<lparr>out := out e1 @ cs, reloc_table := reloc_table e1 @ map ((+) (length (out e1))) ss, flags_updated := v\<rparr>"
      "length cs \<le> m" "good_code (fns e1) cs ss"
    unfolding app_def by blast
  have "e2 = e\<lparr>out := out e @ (bs @ cs),
      reloc_table := reloc_table e @ map ((+) (length (out e))) (rs @ map ((+) (length bs)) ss), flags_updated := v\<rparr>"
    using e1(1) e2(1) by (simp add: comp_def add.assoc)
  moreover have "good_code (fns e) (bs @ cs) (rs @ map ((+) (length bs)) ss)"
    using e1 e2 by (intro good_code_append) simp_all
  ultimately show "app (n + m) e e2"
    using e1(2) e2(2) unfolding app_def by (intro exI conjI) auto
qed

lemma app_mono: "app n e e' \<Longrightarrow> n \<le> m \<Longrightarrow> app m e e'"
  unfolding app_def using order_trans by blast

lemma app_fields:
  "app n e e' \<Longrightarrow> ectx e' = ectx e \<and> fns e' = fns e \<and> INST_BITS e' = INST_BITS e \<and> inst_no e' = inst_no e \<and>
    lookahead_s e' = lookahead_s e"
  by (auto simp: app_def)

named_theorems app_rules \<open>pieces appended by the emitting functions\<close>

lemma app_refl [app_rules]: "app 0 e e"
  unfolding app_def
  by (rule exI [of _ "[]"], rule exI [of _ "[]"], rule exI [of _ "flags_updated e"]) (simp add: good_code_def)

lemma app_id [app_rules]: "app 0 e ((\<lambda>e. e) e)"
  by (rule app_refl)

lemma app_emit [app_rules]: "app (length bs) e (emit bs e)"
  unfolding app_def
  by (rule exI [of _ bs], rule exI [of _ "[]"], rule exI [of _ "flags_updated e"]) (simp add: good_code_def emit_def)

lemma app_write32 [app_rules]: "app 4 e (write32 w e)"
  using app_emit [of "bytes32 w" e] by (simp add: write32_def)

lemma app_steps_Nil [app_rules]: "app 0 e (steps [] e)"
  by (simp add: app_refl)

lemma app_steps_Cons [app_rules]:
  "app n e (f e) \<Longrightarrow> app m (f e) (steps fs (f e)) \<Longrightarrow> app (n + m) e (steps (f # fs) e)"
  using app_trans by simp

lemma app_if [app_rules]:
  "(b \<Longrightarrow> app n e x) \<Longrightarrow> (\<not> b \<Longrightarrow> app m e y) \<Longrightarrow> app (max n m) e (if b then x else y)"
  by (auto intro: app_mono)

lemma app_if_fun [app_rules]:
  "(b \<Longrightarrow> app n e (f e)) \<Longrightarrow> (\<not> b \<Longrightarrow> app m e (g e)) \<Longrightarrow> app (max n m) e ((if b then f else g) e)"
  by (auto intro: app_mono)

lemma app_only_if [app_rules]: "app n e (f e) \<Longrightarrow> app n e (only_if b f e)"
  using app_mono [OF app_refl, of n e] by (simp add: only_if_def)

lemma app_shift_case [app_rules]:
  "app a e v \<Longrightarrow> app b e w \<Longrightarrow> app c e x \<Longrightarrow> app d e y \<Longrightarrow> app k e z \<Longrightarrow>
    app (Max {a, b, c, d, k}) e (case s of LSL \<Rightarrow> v | LSR \<Rightarrow> w | ASR \<Rightarrow> x | ROR \<Rightarrow> y | RRX \<Rightarrow> z)"
  by (cases s) (auto elim: app_mono)

lemma app_emode_case [app_rules]:
  "app a e v \<Longrightarrow> app b e w \<Longrightarrow> app c e x \<Longrightarrow> app d e y \<Longrightarrow>
    app (Max {a, b, c, d}) e (case s of EM_INVALID \<Rightarrow> v | EM_H \<Rightarrow> w | EM_SB \<Rightarrow> x | EM_SH \<Rightarrow> y)"
  by (cases s) (auto elim: app_mono)

lemma app_amode_case [app_rules]:
  "app a e v \<Longrightarrow> app b e w \<Longrightarrow> app c e x \<Longrightarrow> app d e y \<Longrightarrow>
    app (Max {a, b, c, d}) e (case s of DA \<Rightarrow> v | IA \<Rightarrow> w | DB \<Rightarrow> x | IB \<Rightarrow> y)"
  by (cases s) (auto elim: app_mono)

lemma app_amode_case_fun [app_rules]:
  "app a e (v e) \<Longrightarrow> app b e (w e) \<Longrightarrow> app c e (x e) \<Longrightarrow> app d e (y e) \<Longrightarrow>
    app (Max {a, b, c, d}) e ((case s of DA \<Rightarrow> v | IA \<Rightarrow> w | DB \<Rightarrow> x | IB \<Rightarrow> y) e)"
  by (cases s) (auto elim: app_mono)

text \<open>Calls and jumps.\<close>

lemma app_call:
  assumes "op \<in> {0xE8, 0xE9}" "f \<in> routines (fns e)"
  shows "app 5 e (steps [emit [op], reloc, write32 (f - 4)] e)"
proof -
  have "good_code (fns e) (op # bytes32 (f - 4)) [1]"
    using assms by (auto simp: good_code_def good_entry_def bytes32_def)
  then show ?thesis
    unfolding app_def
    by (intro exI [of _ "op # bytes32 (f - 4)"] exI [of _ "[1]"] exI [of _ "flags_updated e"])
      (simp add: emit_def reloc_def write32_def bytes32_def)
qed

lemma app_CALLP [app_rules]: "f \<in> routines (fns e) \<Longrightarrow> app 5 e (CALLP f e)"
  unfolding CALLP_def by (rule app_call) simp_all

lemma app_JMPP [app_rules]: "f \<in> routines (fns e) \<Longrightarrow> app 5 e (JMPP f e)"
  unfolding JMPP_def by (rule app_call) simp_all

lemma routinesI:
  "f_store32 h \<in> routines h" "f_store16 h \<in> routines h" "f_store8 h \<in> routines h" "f_store32_array h \<in> routines h"
  "f_load32 h \<in> routines h" "f_load16u h \<in> routines h" "f_load16s h \<in> routines h" "f_load8u h \<in> routines h"
  "f_load32_array h \<in> routines h" "f_loadcpsr h \<in> routines h" "f_storecpsr h \<in> routines h"
  "f_pushcallstack h \<in> routines h" "f_popcallstack h \<in> routines h" "f_branch h \<in> routines h"
  "f_remap_tcm h \<in> routines h" "f_swi h \<in> routines h" "f_debug_magic h \<in> routines h"
  by (simp_all add: routines_def)


lemma routine_rules:
  assumes "fns e' = fns e"
  shows "f_store32 (fns e) \<in> routines (fns e')" "f_store16 (fns e) \<in> routines (fns e')"
    "f_store8 (fns e) \<in> routines (fns e')" "f_store32_array (fns e) \<in> routines (fns e')"
    "f_load32 (fns e) \<in> routines (fns e')" "f_load16u (fns e) \<in> routines (fns e')"
    "f_load16s (fns e) \<in> routines (fns e')" "f_load8u (fns e) \<in> routines (fns e')"
    "f_load32_array (fns e) \<in> routines (fns e')" "f_loadcpsr (fns e) \<in> routines (fns e')"
    "f_storecpsr (fns e) \<in> routines (fns e')" "f_pushcallstack (fns e) \<in> routines (fns e')"
    "f_popcallstack (fns e) \<in> routines (fns e')" "f_branch (fns e) \<in> routines (fns e')"
    "f_remap_tcm (fns e) \<in> routines (fns e')" "f_swi (fns e) \<in> routines (fns e')"
    "f_debug_magic (fns e) \<in> routines (fns e')"
  using assms by (simp_all add: routines_def)

section \<open>The helpers\<close>

lemma fns_simps [simp]:
  "fns (emit bs e) = fns e" "fns (reloc e) = fns e" "fns (write32 w e) = fns e" "fns (CALLP f e) = fns e"
  "fns (JMPP f e) = fns e" "fns (g e) = fns e \<Longrightarrow> fns (only_if b g e) = fns e"
  by (simp_all add: emit_def reloc_def write32_def CALLP_def JMPP_def only_if_def)

lemma app_store_carry [app_rules]: "app 2 e (store_carry e)"
  by (rule app_mono, unfold store_carry_def) (rule app_rules | simp)+

lemma app_load_carry [app_rules]: "app 2 e (load_carry e)"
  by (rule app_mono, unfold load_carry_def) (rule app_rules | simp)+

lemma app_set_updated [app_rules]: "app 0 e (e\<lparr>flags_updated := b\<rparr>)"
  unfolding app_def
  by (rule exI [of _ "[]"], rule exI [of _ "[]"], rule exI [of _ b]) (simp add: good_code_def)

lemma app_store_flags [app_rules]: "app 7 e (store_flags e)"
proof -
  have "app 7 (e\<lparr>flags_updated := True\<rparr>) (store_flags e)"
    by (rule app_mono, unfold store_flags_def Let_def) (rule app_rules | simp)+
  then show ?thesis using app_trans [OF app_set_updated] by fastforce
qed

lemma app_load_flags [app_rules]: "app 6 e (load_flags e)"
  by (rule app_mono, unfold load_flags_def) (rule app_rules | simp)+

lemma app_add_ecx [app_rules]: "app 6 e (add_ecx i e)"
  by (rule app_mono, unfold add_ecx_def) (rule app_rules | simp)+

lemma app_add_eax [app_rules]: "app 5 e (add_eax i e)"
  by (rule app_mono, unfold add_eax_def) (rule app_rules | simp)+

lemma app_load_ecx_reg_or_pc [app_rules]: "app 15 e (load_ecx_reg_or_pc r o' e)"
  by (rule app_mono, unfold load_ecx_reg_or_pc_def) (rule app_rules | simp)+

lemma app_load_eax_reg_or_pc [app_rules]: "app 13 e (load_eax_reg_or_pc r o' e)"
  by (rule app_mono, unfold load_eax_reg_or_pc_def) (rule app_rules | simp)+

lemma app_break_if_pc [app_rules]: "app 1 e (break_if_pc r e)"
  by (rule app_mono, unfold break_if_pc_def) (rule app_rules | simp)+

lemma fns_first [simp]:
  "fns (store_carry e) = fns e"
  "fns (load_carry e) = fns e"
  "fns (store_flags e) = fns e"
  "fns (load_flags e) = fns e"
  "fns (add_ecx i e) = fns e"
  "fns (add_eax i e) = fns e"
  "fns (load_ecx_reg_or_pc r o' e) = fns e"
  "fns (load_eax_reg_or_pc r o' e) = fns e"
  "fns (break_if_pc r e) = fns e"
  using app_fields [OF app_store_carry]
    app_fields [OF app_load_carry]
    app_fields [OF app_store_flags]
    app_fields [OF app_load_flags]
    app_fields [OF app_add_ecx]
    app_fields [OF app_add_eax]
    app_fields [OF app_load_ecx_reg_or_pc]
    app_fields [OF app_load_eax_reg_or_pc]
    app_fields [OF app_break_if_pc]
  by blast+

lemma app_load_edx_ecx_or_reg [app_rules]: "app 3 e (load_edx_ecx_or_reg r1 r2 e)"
  by (rule app_mono, unfold load_edx_ecx_or_reg_def Let_def) (rule app_rules routine_rules | simp)+

lemma fns_load_edx_ecx_or_reg [simp]: "fns (load_edx_ecx_or_reg r1 r2 e) = fns e"
  using app_fields [OF app_load_edx_ecx_or_reg] by blast

lemma app_load_eax_ecx_or_reg [app_rules]: "app 13 e (load_eax_ecx_or_reg r1 r2 e)"
  by (rule app_mono, unfold load_eax_ecx_or_reg_def Let_def) (rule app_rules routine_rules | simp)+

lemma fns_load_eax_ecx_or_reg [simp]: "fns (load_eax_ecx_or_reg r1 r2 e) = fns e"
  using app_fields [OF app_load_eax_ecx_or_reg] by blast

lemma app_load_r15_ecx [app_rules]: "app 9 e (load_r15_ecx e)"
  by (rule app_mono, unfold load_r15_ecx_def Let_def) (rule app_rules routine_rules | simp)+

lemma fns_load_r15_ecx [simp]: "fns (load_r15_ecx e) = fns e"
  using app_fields [OF app_load_r15_ecx] by blast

lemma app_store_rd_eax [app_rules]: "app 10 e (store_rd_eax e)"
  by (rule app_mono, unfold store_rd_eax_def Let_def) (rule app_rules routine_rules | simp)+

lemma fns_store_rd_eax [simp]: "fns (store_rd_eax e) = fns e"
  using app_fields [OF app_store_rd_eax] by blast

lemma app_shift_eax_imm [app_rules]: "app 6 e (shift_eax_imm e)"
  by (rule app_mono, unfold shift_eax_imm_def Let_def) (rule app_rules routine_rules | simp)+

lemma fns_shift_eax_imm [simp]: "fns (shift_eax_imm e) = fns e"
  using app_fields [OF app_shift_eax_imm] by blast

lemma app_load_shifter_imm [app_rules]: "app 27 e (load_shifter_imm e)"
  by (rule app_mono, unfold load_shifter_imm_def Let_def) (rule app_rules routine_rules | simp)+

lemma fns_load_shifter_imm [simp]: "fns (load_shifter_imm e) = fns e"
  using app_fields [OF app_load_shifter_imm] by blast

lemma app_generic_store [app_rules]: "app 19 e (generic_store e)"
  by (rule app_mono, unfold generic_store_def Let_def) (rule app_rules routine_rules | simp)+

lemma fns_generic_store [simp]: "fns (generic_store e) = fns e"
  using app_fields [OF app_generic_store] by blast

lemma app_generic_loadstore_postupdate_imm [app_rules]: "app 7 e (generic_loadstore_postupdate_imm e)"
  by (rule app_mono, unfold generic_loadstore_postupdate_imm_def Let_def) (rule app_rules routine_rules | simp)+

lemma fns_generic_loadstore_postupdate_imm [simp]: "fns (generic_loadstore_postupdate_imm e) = fns e"
  using app_fields [OF app_generic_loadstore_postupdate_imm] by blast

lemma app_generic_store_p [app_rules]: "app 25 e (generic_store_p e)"
  by (rule app_mono, unfold generic_store_p_def Let_def) (rule app_rules routine_rules | simp)+

lemma fns_generic_store_p [simp]: "fns (generic_store_p e) = fns e"
  using app_fields [OF app_generic_store_p] by blast

lemma app_generic_loadstore_shift [app_rules]: "app 13 e (generic_loadstore_shift e)"
  by (rule app_mono, unfold generic_loadstore_shift_def Let_def) (rule app_rules routine_rules | simp)+

lemma fns_generic_loadstore_shift [simp]: "fns (generic_loadstore_shift e) = fns e"
  using app_fields [OF app_generic_loadstore_shift] by blast

lemma app_generic_store_r [app_rules]: "app 32 e (generic_store_r e)"
  by (rule app_mono, unfold generic_store_r_def Let_def) (rule app_rules routine_rules | simp)+

lemma fns_generic_store_r [simp]: "fns (generic_store_r e) = fns e"
  using app_fields [OF app_generic_store_r] by blast

lemma app_generic_load [app_rules]: "app 15 e (generic_load e)"
  by (rule app_mono, unfold generic_load_def Let_def) (rule app_rules routine_rules | simp)+

lemma fns_generic_load [simp]: "fns (generic_load e) = fns e"
  using app_fields [OF app_generic_load] by blast

lemma app_generic_load_post [app_rules]: "app 16 e (generic_load_post e)"
  by (rule app_mono, unfold generic_load_post_def Let_def) (rule app_rules routine_rules | simp)+

lemma fns_generic_load_post [simp]: "fns (generic_load_post e) = fns e"
  using app_fields [OF app_generic_load_post] by blast

lemma app_neg_ecx_unless_U [app_rules]: "app 2 e (neg_ecx_unless_U e)"
  by (rule app_mono, unfold neg_ecx_unless_U_def Let_def) (rule app_rules routine_rules | simp)+

lemma fns_neg_ecx_unless_U [simp]: "fns (neg_ecx_unless_U e) = fns e"
  using app_fields [OF app_neg_ecx_unless_U] by blast

lemma app_neg_eax_unless_U [app_rules]: "app 2 e (neg_eax_unless_U e)"
  by (rule app_mono, unfold neg_eax_unless_U_def Let_def) (rule app_rules routine_rules | simp)+

lemma fns_neg_eax_unless_U [simp]: "fns (neg_eax_unless_U e) = fns e"
  using app_fields [OF app_neg_eax_unless_U] by blast

lemma app_generic_load_r [app_rules]: "app 31 e (generic_load_r e)"
  by (rule app_mono, unfold generic_load_r_def Let_def) (rule app_rules routine_rules | simp)+

lemma fns_generic_load_r [simp]: "fns (generic_load_r e) = fns e"
  using app_fields [OF app_generic_load_r] by blast

lemma app_generic_load_rs [app_rules]: "app 39 e (generic_load_rs post wb e)"
proof (cases post)
  case True
  then have t: "post = True" by simp
  show ?thesis
    by (rule app_mono, unfold generic_load_rs_def Let_def t if_True append.simps)
      (rule app_rules routine_rules | simp)+
next
  case False
  then have f: "post = False" by simp
  show ?thesis
    by (rule app_mono, unfold generic_load_rs_def Let_def f if_False append.simps)
      (rule app_rules routine_rules | simp)+
qed

lemma fns_generic_load_rs [simp]: "fns (generic_load_rs post wb e) = fns e"
  using app_fields [OF app_generic_load_rs] by blast

lemma app_generic_postload_shift [app_rules]: "app 36 e (generic_postload_shift e)"
  by (rule app_mono, unfold generic_postload_shift_def Let_def) (rule app_rules routine_rules | simp)+

lemma fns_generic_postload_shift [simp]: "fns (generic_postload_shift e) = fns e"
  using app_fields [OF app_generic_postload_shift] by blast

lemma app_generic_load_x [app_rules]: "app 8 e (generic_load_x e)"
  by (rule app_mono, unfold generic_load_x_def Let_def) (rule app_rules routine_rules | simp)+

lemma fns_generic_load_x [simp]: "fns (generic_load_x e) = fns e"
  using app_fields [OF app_generic_load_x] by blast

lemma app_generic_store_x [app_rules]: "app 5 e (generic_store_x e)"
  by (rule app_mono, unfold generic_store_x_def Let_def) (rule app_rules routine_rules | simp)+

lemma fns_generic_store_x [simp]: "fns (generic_store_x e) = fns e"
  using app_fields [OF app_generic_store_x] by blast

lemma app_update_dest [app_rules]: "app 4 e (update_dest n e)"
  by (rule app_mono, unfold update_dest_def Let_def) (rule app_rules routine_rules | simp)+

lemma fns_update_dest [simp]: "fns (update_dest n e) = fns e"
  using app_fields [OF app_update_dest] by blast

lemma app_load_ecx_single [app_rules]: "app 6 e (load_ecx_single e)"
  by (rule app_mono, unfold load_ecx_single_def Let_def) (rule app_rules routine_rules | simp)+

lemma fns_load_ecx_single [simp]: "fns (load_ecx_single e) = fns e"
  using app_fields [OF app_load_ecx_single] by blast

lemma app_push_multiple [app_rules]: "app 7 e (push_multiple n e)"
  by (rule app_mono, unfold push_multiple_def Let_def) (rule app_rules routine_rules | simp)+

lemma fns_push_multiple [simp]: "fns (push_multiple n e) = fns e"
  using app_fields [OF app_push_multiple] by blast

lemma app_ldm_switchuser [app_rules]: "app 19 e (ldm_switchuser e)"
  by (rule app_mono, unfold ldm_switchuser_def Let_def) (rule app_rules routine_rules | simp)+

lemma fns_ldm_switchuser [simp]: "fns (ldm_switchuser e) = fns e"
  using app_fields [OF app_ldm_switchuser] by blast

lemma app_ldm_switchback [app_rules]: "app 10 e (ldm_switchback e)"
  by (rule app_mono, unfold ldm_switchback_def Let_def) (rule app_rules routine_rules | simp)+

lemma fns_ldm_switchback [simp]: "fns (ldm_switchback e) = fns e"
  using app_fields [OF app_ldm_switchback] by blast

lemma app_record_callstack [app_rules]: "app 7 e (record_callstack e)"
  by (rule app_mono, unfold record_callstack_def Let_def) (rule app_rules routine_rules | simp)+

lemma fns_record_callstack [simp]: "fns (record_callstack e) = fns e"
  using app_fields [OF app_record_callstack] by blast

lemma app_update_callstack [app_rules]: "app 7 e (update_callstack e)"
  by (rule app_mono, unfold update_callstack_def Let_def) (rule app_rules routine_rules | simp)+

lemma fns_update_callstack [simp]: "fns (update_callstack e) = fns e"
  using app_fields [OF app_update_callstack] by blast

lemma app_add_ecx_bpre [app_rules]: "app 16 e (add_ecx_bpre e)"
  by (rule app_mono, unfold add_ecx_bpre_def Let_def) (rule app_rules routine_rules | simp)+

lemma fns_add_ecx_bpre [simp]: "fns (add_ecx_bpre e) = fns e"
  using app_fields [OF app_add_ecx_bpre] by blast

section \<open>The instructions\<close>

lemma app_update_flags [app_rules]: "app 7 e (update_flags e)"
  by (rule app_mono, unfold update_flags_def Let_def) (rule app_rules routine_rules | simp)+

lemma fns_update_flags [simp]: "fns (update_flags e) = fns e"
  using app_fields [OF app_update_flags] by blast

lemma app_mov_rd_eax [app_rules]: "app 3 e (mov_rd_eax e)"
  by (rule app_mono, unfold mov_rd_eax_def Let_def) (rule app_rules routine_rules | simp)+

lemma fns_mov_rd_eax [simp]: "fns (mov_rd_eax e) = fns e"
  using app_fields [OF app_mov_rd_eax] by blast

lemma app_add_ecx_imm [app_rules]: "app 6 e (add_ecx_imm i e)"
  by (rule app_mono, unfold add_ecx_imm_def Let_def) (rule app_rules routine_rules | simp)+

lemma fns_add_ecx_imm [simp]: "fns (add_ecx_imm i e) = fns e"
  using app_fields [OF app_add_ecx_imm] by blast

lemma app_mov_r_ecx [app_rules]: "app 3 e (mov_r_ecx r e)"
  by (rule app_mono, unfold mov_r_ecx_def Let_def) (rule app_rules routine_rules | simp)+

lemma fns_mov_r_ecx [simp]: "fns (mov_r_ecx r e) = fns e"
  using app_fields [OF app_mov_r_ecx] by blast

lemma app_alu_r [app_rules]: "app 6 e (alu_r x y e)"
  by (rule app_mono, unfold alu_r_def Let_def) (rule app_rules routine_rules | simp)+

lemma fns_alu_r [simp]: "fns (alu_r x y e) = fns e"
  using app_fields [OF app_alu_r] by blast

lemma app_alu_i [app_rules]: "app 11 e (alu_i x y e)"
  by (rule app_mono, unfold alu_i_def Let_def) (rule app_rules routine_rules | simp)+

lemma fns_alu_i [simp]: "fns (alu_i x y e) = fns e"
  using app_fields [OF app_alu_i] by blast

lemma app_update_flags_cmc [app_rules]: "app 8 e (update_flags_cmc e)"
  by (rule app_mono, unfold update_flags_cmc_def Let_def) (rule app_rules routine_rules | simp)+

lemma fns_update_flags_cmc [simp]: "fns (update_flags_cmc e) = fns e"
  using app_fields [OF app_update_flags_cmc] by blast

lemma app_long_mul [app_rules]: "app 8 e (long_mul x e)"
  by (rule app_mono, unfold long_mul_def Let_def) (rule app_rules routine_rules | simp)+

lemma fns_long_mul [simp]: "fns (long_mul x e) = fns e"
  using app_fields [OF app_long_mul] by blast

lemma app_mov_halves [app_rules]: "app 6 e (mov_halves e)"
  by (rule app_mono, unfold mov_halves_def Let_def) (rule app_rules routine_rules | simp)+

lemma fns_mov_halves [simp]: "fns (mov_halves e) = fns e"
  using app_fields [OF app_mov_halves] by blast

lemma app_add_halves [app_rules]: "app 6 e (add_halves e)"
  by (rule app_mono, unfold add_halves_def Let_def) (rule app_rules routine_rules | simp)+

lemma fns_add_halves [simp]: "fns (add_halves e) = fns e"
  using app_fields [OF app_add_halves] by blast

lemma app_jit_PLD [app_rules]: "app 1 e (jit_PLD e)"
  by (rule app_mono, unfold jit_PLD_def Let_def) (rule app_rules routine_rules | simp)+

lemma app_jit_MOV_I [app_rules]: "app 20 e (jit_MOV_I e)"
  by (rule app_mono, unfold jit_MOV_I_def Let_def) (rule app_rules routine_rules | simp)+

lemma app_jit_MOV_R [app_rules]: "app 56 e (jit_MOV_R e)"
  by (rule app_mono, unfold jit_MOV_R_def Let_def) (rule app_rules routine_rules | simp)+

lemma app_jit_MVN_I [app_rules]: "app 8 e (jit_MVN_I e)"
  by (rule app_mono, unfold jit_MVN_I_def Let_def) (rule app_rules routine_rules | simp)+

lemma app_jit_MVN_R [app_rules]: "app 42 e (jit_MVN_R e)"
  by (rule app_mono, unfold jit_MVN_R_def Let_def) (rule app_rules routine_rules | simp)+

lemma app_jit_STR_I [app_rules]: "app 31 e (jit_STR_I e)"
  by (rule app_mono, unfold jit_STR_I_def Let_def) (rule app_rules routine_rules | simp)+

lemma app_jit_STRB_I [app_rules]: "app 31 e (jit_STRB_I e)"
  by (rule app_mono, unfold jit_STRB_I_def Let_def) (rule app_rules routine_rules | simp)+

lemma app_jit_STRX_I [app_rules]: "app 31 e (jit_STRX_I e)"
  by (rule app_mono, unfold jit_STRX_I_def Let_def) (rule app_rules routine_rules | simp)+

lemma app_jit_STRX_IP [app_rules]: "app 30 e (jit_STRX_IP e)"
  by (rule app_mono, unfold jit_STRX_IP_def Let_def) (rule app_rules routine_rules | simp)+

lemma app_jit_STR_IPW [app_rules]: "app 37 e (jit_STR_IPW e)"
  by (rule app_mono, unfold jit_STR_IPW_def Let_def) (rule app_rules routine_rules | simp)+

lemma app_jit_STRX_RP [app_rules]: "app 37 e (jit_STRX_RP e)"
  by (rule app_mono, unfold jit_STRX_RP_def Let_def) (rule app_rules routine_rules | simp)+

lemma app_jit_STRB_IP [app_rules]: "app 30 e (jit_STRB_IP e)"
  by (rule app_mono, unfold jit_STRB_IP_def Let_def) (rule app_rules routine_rules | simp)+

lemma app_jit_STR_IP [app_rules]: "app 30 e (jit_STR_IP e)"
  by (rule app_mono, unfold jit_STR_IP_def Let_def) (rule app_rules routine_rules | simp)+

lemma app_jit_STR_RP [app_rules]: "app 37 e (jit_STR_RP e)"
  by (rule app_mono, unfold jit_STR_RP_def Let_def) (rule app_rules routine_rules | simp)+

lemma app_jit_STRB_RP [app_rules]: "app 37 e (jit_STRB_RP e)"
  by (rule app_mono, unfold jit_STRB_RP_def Let_def) (rule app_rules routine_rules | simp)+

lemma app_jit_LDR_I [app_rules]: "app 31 e (jit_LDR_I e)"
  by (rule app_mono, unfold jit_LDR_I_def Let_def) (rule app_rules routine_rules | simp)+

lemma app_jit_LDR_IP [app_rules]: "app 30 e (jit_LDR_IP e)"
  by (rule app_mono, unfold jit_LDR_IP_def Let_def) (rule app_rules routine_rules | simp)+

lemma app_jit_LDRX_IP [app_rules]: "app 33 e (jit_LDRX_IP e)"
  by (rule app_mono, unfold jit_LDRX_IP_def Let_def) (rule app_rules routine_rules | simp)+

lemma app_jit_LDR_IPW [app_rules]: "app 37 e (jit_LDR_IPW e)"
  by (rule app_mono, unfold jit_LDR_IPW_def Let_def) (rule app_rules routine_rules | simp)+

lemma app_jit_LDRB_IPW [app_rules]: "app 37 e (jit_LDRB_IPW e)"
  by (rule app_mono, unfold jit_LDRB_IPW_def Let_def) (rule app_rules routine_rules | simp)+

lemma app_jit_LDRX_IPW [app_rules]: "app 40 e (jit_LDRX_IPW e)"
  by (rule app_mono, unfold jit_LDRX_IPW_def Let_def) (rule app_rules routine_rules | simp)+

lemma app_jit_LDR_R [app_rules]: "app 56 e (jit_LDR_R e)"
  by (rule app_mono, unfold jit_LDR_R_def Let_def) (rule app_rules routine_rules | simp)+

lemma app_jit_LDR_RP [app_rules]: "app 47 e (jit_LDR_RP e)"
  by (rule app_mono, unfold jit_LDR_RP_def Let_def) (rule app_rules routine_rules | simp)+

lemma app_jit_LDR_RPW [app_rules]: "app 50 e (jit_LDR_RPW e)"
  by (rule app_mono, unfold jit_LDR_RPW_def Let_def) (rule app_rules routine_rules | simp)+

lemma app_jit_LDRB_I [app_rules]: "app 31 e (jit_LDRB_I e)"
  by (rule app_mono, unfold jit_LDRB_I_def Let_def) (rule app_rules routine_rules | simp)+

lemma app_jit_LDRB_IP [app_rules]: "app 24 e (jit_LDRB_IP e)"
  by (rule app_mono, unfold jit_LDRB_IP_def Let_def) (rule app_rules routine_rules | simp)+

lemma app_jit_LDRB_RP [app_rules]: "app 39 e (jit_LDRB_RP e)"
  by (rule app_mono, unfold jit_LDRB_RP_def Let_def) (rule app_rules routine_rules | simp)+

lemma app_jit_LDRX_RP [app_rules]: "app 42 e (jit_LDRX_RP e)"
  by (rule app_mono, unfold jit_LDRX_RP_def Let_def) (rule app_rules routine_rules | simp)+

lemma app_jit_BLX_I [app_rules]: "app 58 e (jit_BLX_I e)"
  by (rule app_mono, unfold jit_BLX_I_def Let_def) (rule app_rules routine_rules | simp)+

lemma app_jit_BL [app_rules]: "app 49 e (jit_BL e)"
  by (rule app_mono, unfold jit_BL_def Let_def) (rule app_rules routine_rules | simp)+

lemma app_jit_BX [app_rules]: "app 30 e (jit_BX e)"
  by (rule app_mono, unfold jit_BX_def Let_def) (rule app_rules routine_rules | simp)+

lemma app_jit_BLX [app_rules]: "app 48 e (jit_BLX e)"
  by (rule app_mono, unfold jit_BLX_def Let_def) (rule app_rules routine_rules | simp)+

lemma app_jit_B [app_rules]: "app 30 e (jit_B e)"
  by (rule app_mono, unfold jit_B_def Let_def) (rule app_rules routine_rules | simp)+

lemma app_jit_BPRE [app_rules]: "app 7 e (jit_BPRE e)"
  by (rule app_mono, unfold jit_BPRE_def Let_def) (rule app_rules routine_rules | simp)+

lemma app_jit_default [app_rules]: "app 1 e (jit_default e)"
  by (rule app_mono, unfold jit_default_def Let_def) (rule app_rules routine_rules | simp)+

lemma app_jit_BIC_R [app_rules]: "app 44 e (jit_BIC_R e)"
  by (rule app_mono, unfold jit_BIC_R_def Let_def) (rule app_rules routine_rules | simp)+

lemma app_jit_AND_R [app_rules]: "app 42 e (jit_AND_R e)"
  by (rule app_mono, unfold jit_AND_R_def Let_def) (rule app_rules routine_rules | simp)+

lemma app_jit_EOR_R [app_rules]: "app 42 e (jit_EOR_R e)"
  by (rule app_mono, unfold jit_EOR_R_def Let_def) (rule app_rules routine_rules | simp)+

lemma app_jit_BIC_I [app_rules]: "app 20 e (jit_BIC_I e)"
  by (rule app_mono, unfold jit_BIC_I_def Let_def) (rule app_rules routine_rules | simp)+

lemma app_jit_ORR_I [app_rules]: "app 20 e (jit_ORR_I e)"
  by (rule app_mono, unfold jit_ORR_I_def Let_def) (rule app_rules routine_rules | simp)+

lemma app_jit_AND_I [app_rules]: "app 20 e (jit_AND_I e)"
  by (rule app_mono, unfold jit_AND_I_def Let_def) (rule app_rules routine_rules | simp)+

lemma app_jit_EOR_I [app_rules]: "app 20 e (jit_EOR_I e)"
  by (rule app_mono, unfold jit_EOR_I_def Let_def) (rule app_rules routine_rules | simp)+

lemma app_jit_ADD_I [app_rules]: "app 26 e (jit_ADD_I e)"
  by (rule app_mono, unfold jit_ADD_I_def Let_def) (rule app_rules routine_rules | simp)+

lemma app_jit_ADD_R [app_rules]: "app 40 e (jit_ADD_R e)"
  by (rule app_mono, unfold jit_ADD_R_def Let_def) (rule app_rules routine_rules | simp)+

lemma app_jit_ADC_I [app_rules]: "app 35 e (jit_ADC_I e)"
  by (rule app_mono, unfold jit_ADC_I_def Let_def) (rule app_rules routine_rules | simp)+

lemma app_jit_ADC_R [app_rules]: "app 48 e (jit_ADC_R e)"
  by (rule app_mono, unfold jit_ADC_R_def Let_def) (rule app_rules routine_rules | simp)+

lemma app_jit_SUB_I [app_rules]: "app 26 e (jit_SUB_I e)"
  by (rule app_mono, unfold jit_SUB_I_def Let_def) (rule app_rules routine_rules | simp)+

lemma app_jit_SUB_R [app_rules]: "app 42 e (jit_SUB_R e)"
  by (rule app_mono, unfold jit_SUB_R_def Let_def) (rule app_rules routine_rules | simp)+

lemma app_jit_SBC_I [app_rules]: "app 26 e (jit_SBC_I fa e)"
  by (rule app_mono, unfold jit_SBC_I_def Let_def) (rule app_rules routine_rules | simp)+

lemma app_jit_SBC_R [app_rules]: "app 52 e (jit_SBC_R fa e)"
  by (rule app_mono, unfold jit_SBC_R_def Let_def) (rule app_rules routine_rules | simp)+

lemma app_jit_RSB_I [app_rules]: "app 17 e (jit_RSB_I e)"
  by (rule app_mono, unfold jit_RSB_I_def Let_def) (rule app_rules routine_rules | simp)+

lemma app_jit_RSB_R [app_rules]: "app 40 e (jit_RSB_R e)"
  by (rule app_mono, unfold jit_RSB_R_def Let_def) (rule app_rules routine_rules | simp)+

lemma app_jit_ORR_R [app_rules]: "app 42 e (jit_ORR_R e)"
  by (rule app_mono, unfold jit_ORR_R_def Let_def) (rule app_rules routine_rules | simp)+

lemma app_jit_RSC_R [app_rules]: "app 53 e (jit_RSC_R fa e)"
  by (rule app_mono, unfold jit_RSC_R_def Let_def) (rule app_rules routine_rules | simp)+

lemma app_jit_CLZ [app_rules]: "app 28 e (jit_CLZ e)"
  by (rule app_mono, unfold jit_CLZ_def Let_def) (rule app_rules routine_rules | simp)+

lemma app_jit_MLA_R [app_rules]: "app 25 e (jit_MLA_R e)"
  by (rule app_mono, unfold jit_MLA_R_def Let_def) (rule app_rules routine_rules | simp)+

lemma app_jit_UMULL [app_rules]: "app 21 e (jit_UMULL e)"
  by (rule app_mono, unfold jit_UMULL_def Let_def) (rule app_rules routine_rules | simp)+

lemma app_jit_UMLAL [app_rules]: "app 21 e (jit_UMLAL e)"
  by (rule app_mono, unfold jit_UMLAL_def Let_def) (rule app_rules routine_rules | simp)+

lemma app_jit_SMULL [app_rules]: "app 21 e (jit_SMULL e)"
  by (rule app_mono, unfold jit_SMULL_def Let_def) (rule app_rules routine_rules | simp)+

lemma app_jit_SMLAL [app_rules]: "app 21 e (jit_SMLAL e)"
  by (rule app_mono, unfold jit_SMLAL_def Let_def) (rule app_rules routine_rules | simp)+

lemma app_jit_MUL_R [app_rules]: "app 22 e (jit_MUL_R e)"
  by (rule app_mono, unfold jit_MUL_R_def Let_def) (rule app_rules routine_rules | simp)+

lemma app_jit_SWP [app_rules]: "app 21 e (jit_SWP e)"
  by (rule app_mono, unfold jit_SWP_def Let_def) (rule app_rules routine_rules | simp)+

lemma app_jit_SWPB [app_rules]: "app 21 e (jit_SWPB e)"
  by (rule app_mono, unfold jit_SWPB_def Let_def) (rule app_rules routine_rules | simp)+

lemma app_jit_MRS [app_rules]: "app 9 e (jit_MRS e)"
  by (rule app_mono, unfold jit_MRS_def Let_def) (rule app_rules routine_rules | simp)+

lemma app_jit_MSR_I [app_rules]: "app 18 e (jit_MSR_I e)"
  by (rule app_mono, unfold jit_MSR_I_def Let_def) (rule app_rules routine_rules | simp)+

lemma app_jit_MSR_R [app_rules]: "app 17 e (jit_MSR_R e)"
  by (rule app_mono, unfold jit_MSR_R_def Let_def) (rule app_rules routine_rules | simp)+

lemma app_jit_TST_I [app_rules]: "app 15 e (jit_TST_I e)"
  by (rule app_mono, unfold jit_TST_I_def Let_def) (rule app_rules routine_rules | simp)+

lemma app_jit_TST_R [app_rules]: "app 38 e (jit_TST_R e)"
  by (rule app_mono, unfold jit_TST_R_def Let_def) (rule app_rules routine_rules | simp)+

lemma app_jit_TEQ_I [app_rules]: "app 16 e (jit_TEQ_I e)"
  by (rule app_mono, unfold jit_TEQ_I_def Let_def) (rule app_rules routine_rules | simp)+

lemma app_jit_TEQ_R [app_rules]: "app 38 e (jit_TEQ_R e)"
  by (rule app_mono, unfold jit_TEQ_R_def Let_def) (rule app_rules routine_rules | simp)+

lemma app_jit_CMP_I [app_rules]: "app 16 e (jit_CMP_I e)"
  by (rule app_mono, unfold jit_CMP_I_def Let_def) (rule app_rules routine_rules | simp)+

lemma app_jit_CMN_I [app_rules]: "app 16 e (jit_CMN_I e)"
  by (rule app_mono, unfold jit_CMN_I_def Let_def) (rule app_rules routine_rules | simp)+

lemma app_jit_CMP_R [app_rules]: "app 39 e (jit_CMP_R e)"
  by (rule app_mono, unfold jit_CMP_R_def Let_def) (rule app_rules routine_rules | simp)+

lemma app_jit_CMN_R [app_rules]: "app 38 e (jit_CMN_R e)"
  by (rule app_mono, unfold jit_CMN_R_def Let_def) (rule app_rules routine_rules | simp)+

lemma app_jit_SWI [app_rules]: "app 10 e (jit_SWI e)"
  by (rule app_mono, unfold jit_SWI_def Let_def) (rule app_rules routine_rules | simp)+


lemma app_switch:
  "(\<And>f. f \<in> snd ` set cs \<Longrightarrow> app n e (f e)) \<Longrightarrow> app n e (d e) \<Longrightarrow> app n e (switch k cs d e)"
  by (induction k cs d rule: switch.induct) auto

lemma app_jit_MRC [app_rules]: "app 7 e (jit_MRC e)"
proof -
  let ?c = "ectx e"
  have a: "app 7 e (steps [emit [0xC7, 0x45, REG (c_rd ?c)], write32 0x41059460] e)"
    by (rule app_mono) (rule app_rules | simp)+
  have b: "app 7 e (steps [emit [0x8B, 0x45, OFF_control_register], emit [0x89, 0x45, REG (c_rd ?c)]] e)"
    by (rule app_mono) (rule app_rules | simp)+
  have z: "app 7 e (jit_default e)"
    by (rule app_mono) (rule app_rules | simp)+
  show ?thesis
    unfolding jit_MRC_def Let_def using a b z by (auto intro!: app_switch simp del: steps.simps)
qed

lemma app_jit_MCR [app_rules]: "app 25 e (jit_MCR e)"
proof -
  let ?c = "ectx e"
  have a: "app 25 e (steps [emit [0x8B, 0x45, REG (c_rd ?c)], emit [0x89, 0x45, OFF_control_register],
      emit [0x0B, 0xC0], emit [0x75, 0x05], emit [0xB8], write32 0] e)"
    by (rule app_mono) (rule app_rules | simp)+
  have b: "app 25 e (steps [emit [0x90], emit [0x90]] e)"
    by (rule app_mono) (rule app_rules | simp)+
  have c: "app 25 e (emit [0x90] e)"
    by (rule app_mono) (rule app_rules | simp)+
  have d: "app 25 e (steps [load_ecx_reg_or_pc (c_rd ?c) 0, emit [0xBA], write32 (c_cp_op2 ?c), CALLP (f_remap_tcm (fns e))] e)"
    by (rule app_mono) (rule app_rules routine_rules | simp)+
  have z: "app 25 e (jit_default e)"
    by (rule app_mono) (rule app_rules | simp)+
  show ?thesis
    unfolding jit_MCR_def Let_def using a b c d z by (auto intro!: app_switch simp del: steps.simps)
qed

lemma app_steps_same: "(\<And>f e'. f \<in> set fs \<Longrightarrow> app n e' (f e')) \<Longrightarrow> app (n * length fs) e (steps fs e)"
proof (induction fs arbitrary: e)
  case Nil
  then show ?case by (simp add: app_refl)
next
  case (Cons f fs)
  then have "app n e (f e)" "app (n * length fs) (f e) (steps fs (f e))" by simp_all
  then show ?case using app_trans by fastforce
qed

lemma fns_steps_same: "(\<And>f e'. f \<in> set fs \<Longrightarrow> app n e' (f e')) \<Longrightarrow> fns (steps fs e) = fns e"
  using app_fields [OF app_steps_same] by blast

lemma app_emit3: "app 3 e (emit [x, y, z] e)"
  using app_emit [of "[x, y, z]" e] by (simp add: eval_nat_numeral)

lemma app_push_regs_down [app_rules]: "app 45 e (push_regs_down i e)"
proof -
  let ?rs = "filter (bit i) (rev [0..<15])"
  have "app (3 * length (map (\<lambda>r. emit [0xFF, 0x75, REG (word_of_nat r)]) ?rs)) e (push_regs_down i e)"
    unfolding push_regs_down_def by (rule app_steps_same) (auto simp only: set_map intro!: app_emit3)
  moreover have "length ?rs \<le> 15"
    using length_filter_le [of "bit i" "rev [0..<15]"] by (simp only: length_rev length_upt)
  ultimately show ?thesis by (elim app_mono) (simp only: length_map)
qed

lemma length_jit_reg_list: "length (reg_list i) \<le> 16"
  using length_filter_le [of "bit i" "[0..<16]"] by (simp add: reg_list_def)

lemma app_pop_regs_up [app_rules]: "app 48 e (pop_regs_up x i e)"
proof -
  have "app (3 * length (map (\<lambda>r. emit [0x8F, x, REG (word_of_nat r)]) (reg_list i))) e (pop_regs_up x i e)"
    unfolding pop_regs_up_def by (rule app_steps_same) (auto simp only: set_map intro!: app_emit3)
  then show ?thesis using length_jit_reg_list [of i] by (elim app_mono) (simp only: length_map)
qed

lemma app_push_region [app_rules]: "app 4 e (push_region n e)"
  by (rule app_mono, unfold push_region_def Let_def) (rule app_rules | simp)+

lemma app_load_stack_block [app_rules]: "app 21 e (load_stack_block n e)"
  by (rule app_mono, unfold load_stack_block_def Let_def) (rule app_rules routine_rules | simp)+

lemma fns_blocks [simp]:
  "fns (push_regs_down i e) = fns e" "fns (pop_regs_up x i e) = fns e" "fns (push_region n e) = fns e"
  "fns (load_stack_block n e) = fns e"
  using app_fields [OF app_push_regs_down] app_fields [OF app_pop_regs_up] app_fields [OF app_push_region]
    app_fields [OF app_load_stack_block] by blast+

lemma app_push_scattered [app_rules]: "app 62 e (push_scattered e)"
  by (rule app_mono, unfold push_scattered_def Let_def) (rule app_rules routine_rules | simp)+

lemma fns_push_scattered [simp]: "fns (push_scattered e) = fns e"
  using app_fields [OF app_push_scattered] by blast

lemma app_store_multiple [app_rules]: "app 79 e (store_multiple n l r e)"
proof (cases r)
  case True
  then have t: "r = True" by simp
  show ?thesis
    by (rule app_mono, unfold store_multiple_def Let_def t if_True) (rule app_rules routine_rules | simp)+
next
  case False
  then have f: "r = False" by simp
  show ?thesis
    by (rule app_mono, unfold store_multiple_def Let_def f if_False) (rule app_rules routine_rules | simp)+
qed

lemma app_jit_STM [app_rules]: "app 84 e (jit_STM e)"
proof -
  obtain num lo hi region where c: "count_regs (c_imm (ectx e)) = (num, lo, hi, region)"
    by (cases "count_regs (c_imm (ectx e))") auto
  have "app 84 e (steps
      [only_if b (emit [DEBUG_BREAK]),
       (if n0 then emit [DEBUG_BREAK]
        else if n1
        then steps [load_ecx_single, emit [0x8B, 0x55, REG (word_of_nat hi)], CALLP (f_store32 (fns e))]
        else store_multiple num lo region),
       only_if w (update_dest num)] e)" for b n0 n1 w
    by (rule app_mono) (rule app_rules routine_rules | simp)+
  then show ?thesis
    unfolding jit_STM_def Let_def c prod.case by blast
qed

lemma app_load_multiple [app_rules]: "app 98 e (load_multiple n l h r e)"
  by (rule app_mono, unfold load_multiple_def Let_def) (rule app_rules routine_rules | simp)+

lemma fns_load_multiple [simp]: "fns (load_multiple n l h r e) = fns e"
  using app_fields [OF app_load_multiple] by blast

lemma app_jit_LDM [app_rules]: "app 123 e (jit_LDM e)"
proof -
  obtain num lo hi region where c: "count_regs (c_imm (ectx e)) = (num, lo, hi, region)"
    by (cases "count_regs (c_imm (ectx e))") auto
  have "app 123 e (steps
      [only_if special (emit [0xFF, 0x75, REG (c_rn (ectx e))]),
       load_multiple num lo hi region,
       only_if wback (steps [only_if special (emit [0x8F, 0x45, REG (c_rn (ectx e))]), update_dest num]),
       only_if pc (steps [emit [0x8B, 0x4D, REG 15], update_callstack, JMPP (f_branch (fns e))])] e)"
    for special wback pc
    by (rule app_mono) (rule app_rules routine_rules | simp)+
  then show ?thesis
    unfolding jit_LDM_def Let_def c prod.case by blast
qed


section \<open>Patched jumps\<close>

text \<open>The result is code; the byte patched is the distance to the end.\<close>

definition rapp :: "nat \<Rightarrow> emitter \<Rightarrow> emitter res \<Rightarrow> bool" where
  "rapp n e r = (\<exists>e'. r = Inr e' \<and> app n e e')"

lemma rapp_Inr [simp]: "rapp n e (Inr e') = app n e e'"
  by (simp add: rapp_def)

lemma rapp_mono: "rapp n e r \<Longrightarrow> n \<le> m \<Longrightarrow> rapp m e r"
  unfolding rapp_def using app_mono by blast

lemma patch_app:
  assumes "app n (emit [0] e) e'" "n < 128"
  obtains bs rs u where "length bs \<le> n" "good_code (fns e) bs rs"
    "patch (length (out e)) e' = Inr (e\<lparr>out := out e @ word_of_nat (length bs) # bs,
       reloc_table := reloc_table e @ map (\<lambda>r. length (out e) + 1 + r) rs, flags_updated := u\<rparr>)"
proof -
  obtain bs rs u where e': "e' = (emit [0] e)\<lparr>out := out (emit [0] e) @ bs,
      reloc_table := reloc_table e @ map ((+) (length (out (emit [0] e)))) rs, flags_updated := u\<rparr>"
      "length bs \<le> n" "good_code (fns e) bs rs"
    using assms(1) by (auto simp: app_def emit_def)
  have "map ((+) (length (out (emit [0] e)))) rs = map (\<lambda>r. length (out e) + 1 + r) rs"
    by (simp add: emit_def)
  then have "patch (length (out e)) e' = Inr (e\<lparr>out := out e @ word_of_nat (length bs) # bs,
       reloc_table := reloc_table e @ map (\<lambda>r. length (out e) + 1 + r) rs, flags_updated := u\<rparr>)"
    using e' assms(2) by (simp add: patch_def emit_def Let_def list_update_append)
  then show ?thesis using that e' by blast
qed

lemma good_code_Cons:
  assumes "good_code h bs rs"
  shows "good_code h (x # bs) (map Suc rs)"
proof -
  have "(+) (length [x]) = Suc" by (simp add: fun_eq_iff)
  then show ?thesis
    using good_code_append [of h "[x]" "[]" bs rs] assms by (simp add: good_code_def)
qed

lemma patch_rapp:
  assumes "app n (emit [0] e) e'" "n < 128"
  shows "rapp (n + 1) e (patch (length (out e)) e')"
proof -
  obtain bs rs u where p: "length bs \<le> n" "good_code (fns e) bs rs"
    "patch (length (out e)) e' = Inr (e\<lparr>out := out e @ word_of_nat (length bs) # bs,
       reloc_table := reloc_table e @ map (\<lambda>r. length (out e) + 1 + r) rs, flags_updated := u\<rparr>)"
    by (rule patch_app [OF assms])
  have m: "map (\<lambda>r. length (out e) + 1 + r) rs = map ((+) (length (out e))) (map Suc rs)" by simp
  show ?thesis
    unfolding rapp_def app_def p(3) m
    using p(1) good_code_Cons [OF p(2), of "word_of_nat (length bs)"]
    by (intro exI [of _ "word_of_nat (length bs) # bs"] exI conjI) (rule refl, rule refl, simp_all)
qed

lemma rapp_bind:
  assumes "rapp n e r" "\<And>e'. app n e e' \<Longrightarrow> rapp m e' (f e')"
  shows "rapp (n + m) e (rbind r f)"
  using assms unfolding rapp_def by (metis app_trans rbind_simps(2))

lemma app_saturate_ecx [app_rules]: "app 8 e (saturate_ecx e)"
  by (rule app_mono, unfold saturate_ecx_def) (rule app_rules | simp)+

lemma rapp_shiftop: "rapp 26 e (shiftop_eax_ecx e)"
proof -
  define e1 where "e1 = steps [emit [0x8B, 0x75, OFF_x86_flags], emit [0xC1, 0xEE, 0x08], emit [0x0B, 0xC9], emit [0x74]] e"
  have e1: "app 9 e e1"
    unfolding e1_def by (rule app_mono) (rule app_rules | simp)+
  have "app 16 (emit [0] e1) (store_carry
      (case s of LSL \<Rightarrow> emit [0xD3, 0xE0] x | LSR \<Rightarrow> steps [emit [0xD3, 0xE8], emit [0xC1, 0xE8, 1]] x
        | ASR \<Rightarrow> steps [emit [0xD3, 0xF8], emit [0xC1, 0xF8, 1]] x | ROR \<Rightarrow> emit [0xD3, 0xC8] x | RRX \<Rightarrow> x))"
    if "x = (case s of ROR \<Rightarrow> emit [0x83, 0xE1, 0x1F] (emit [0] e1) | LSR \<Rightarrow> steps [emit [0x49], saturate_ecx] (emit [0] e1)
          | ASR \<Rightarrow> steps [emit [0x49], saturate_ecx] (emit [0] e1) | LSL \<Rightarrow> saturate_ecx (emit [0] e1)
          | RRX \<Rightarrow> saturate_ecx (emit [0] e1))" for x and s :: shift_op
  proof -
    have x: "app 9 (emit [0] e1) x"
      unfolding that by (rule app_mono) (rule app_rules | simp)+
    have y: "app 5 x (case s of LSL \<Rightarrow> emit [0xD3, 0xE0] x | LSR \<Rightarrow> steps [emit [0xD3, 0xE8], emit [0xC1, 0xE8, 1]] x
        | ASR \<Rightarrow> steps [emit [0xD3, 0xF8], emit [0xC1, 0xF8, 1]] x | ROR \<Rightarrow> emit [0xD3, 0xC8] x | RRX \<Rightarrow> x)"
      by (rule app_mono) (rule app_rules | simp)+
    show ?thesis
      using app_trans [OF app_trans [OF x y] app_store_carry] by simp
  qed
  then have "rapp 17 e1 (shiftop_eax_ecx e)"
    unfolding shiftop_eax_ecx_def Let_def e1_def [symmetric]
    using patch_rapp [where n = 16] by fastforce
  then show ?thesis
    using e1 app_trans unfolding rapp_def by fastforce
qed

lemma rapp_jit_MOV_RR: "rapp 70 e (jit_MOV_RR e)"
proof -
  have a: "app 29 e (steps [break_if_pc (c_rd (ectx e)), load_ecx_reg_or_pc (c_rs (ectx e)) 0,
      load_eax_ecx_or_reg (c_rm (ectx e)) (c_rs (ectx e))] e)" (is "app _ _ ?e1")
    by (rule app_mono) (rule app_rules | simp)+
  have b: "app 15 e' (steps [emit [0x89, 0x45, REG (c_rd (ectx e))],
      only_if x (steps [emit [0x83, 0xC8, 0x0], load_carry, store_flags])] e')" for e' x
    by (rule app_mono) (rule app_rules | simp)+
  have "rapp 41 ?e1 (jit_MOV_RR e)"
    unfolding jit_MOV_RR_def Let_def
    by (rule rapp_mono, rule rapp_bind [OF rapp_shiftop, where m = 15]) (use b in auto)
  then show ?thesis using app_trans [OF a] unfolding rapp_def by fastforce
qed

lemma rapp_jit_ORR_RR: "rapp 70 e (jit_ORR_RR e)"
proof -
  have a: "app 29 e (steps [break_if_pc (c_rd (ectx e)), load_ecx_reg_or_pc (c_rs (ectx e)) 0,
      load_eax_ecx_or_reg (c_rm (ectx e)) (c_rs (ectx e))] e)" (is "app _ _ ?e1")
    by (rule app_mono) (rule app_rules | simp)+
  have b: "app 15 e' (steps [emit [0x09, 0x45, REG (c_rd (ectx e))],
      only_if x (steps [load_carry, store_flags])] e')" for e' x
    by (rule app_mono) (rule app_rules | simp)+
  have "rapp 41 ?e1 (jit_ORR_RR e)"
    unfolding jit_ORR_RR_def Let_def
    by (rule rapp_mono, rule rapp_bind [OF rapp_shiftop, where m = 15]) (use b in auto)
  then show ?thesis using app_trans [OF a] unfolding rapp_def by fastforce
qed


section \<open>Every instruction\<close>

lemma rapp_switch:
  "(\<And>r. r \<in> snd ` set cs \<Longrightarrow> rapp n e r) \<Longrightarrow> rapp n e d \<Longrightarrow> rapp n e (switch k cs d)"
  by (rule switch_cases)

text \<open>No instruction's code is longer than 123 bytes.\<close>

lemma rapp_compile_body: "rapp 123 e (compile_body fa e)"
  unfolding compile_body_def
  by (rule rapp_switch, auto intro: rapp_mono [OF rapp_jit_MOV_RR] rapp_mono [OF rapp_jit_ORR_RR])
    (rule app_mono, rule app_rules, simp)+


lemma app_count_cycle: "app 3 e (fst (count_cycle e))"
  using app_mono [OF app_emit [of "[0x43]" e], of 3] app_emit3 by (simp add: count_cycle_def)

lemma app_skip_jump: "app 2 e (emit (skip_jump cond) e)"
  by (rule app_mono [OF app_emit]) (simp add: skip_jump_def split: condition.splits)

lemma rapp_compile_instruction: "rapp 135 e (compile_instruction e)"
proof -
  obtain e1 fa where cc: "count_cycle e = (e1, fa)" by (cases "count_cycle e")
  have e1: "app 3 e e1" using app_count_cycle [of e] cc by simp
  show ?thesis
  proof (cases "c_cond (ectx e) \<noteq> AL \<and> c_cond (ectx e) \<noteq> NV")
    case True
    define e2 where "e2 = emit (skip_jump (c_cond (ectx e))) (only_if (\<not> fa) load_flags e1)"
    have "app 6 e1 (only_if (\<not> fa) load_flags e1)"
      by (rule app_mono) (rule app_rules | simp)+
    then have e2: "app 11 e e2"
      using app_trans [OF app_trans [OF e1] app_skip_jump] unfolding e2_def by fastforce
    obtain e3 where e3: "compile_body True ((emit [0] e2)\<lparr>flags_updated := False\<rparr>) = Inr e3"
        "app 123 ((emit [0] e2)\<lparr>flags_updated := False\<rparr>) e3"
      using rapp_compile_body unfolding rapp_def by blast
    have "app 123 (emit [0] e2) e3" using app_trans [OF app_set_updated e3(2)] by simp
    then have "rapp 124 e2 (patch (length (out e2)) e3)" using patch_rapp [of 123] by simp
    moreover have "compile_instruction e = patch (length (out e2)) e3"
      using True cc e3(1) by (simp add: compile_instruction_def Let_def e2_def)
    ultimately show ?thesis using app_trans [OF e2] unfolding rapp_def by fastforce
  next
    case False
    have "rapp 123 (e1\<lparr>flags_updated := False\<rparr>) (compile_body fa (e1\<lparr>flags_updated := False\<rparr>))"
      by (rule rapp_compile_body)
    then have "rapp 126 e (compile_body fa (e1\<lparr>flags_updated := False\<rparr>))"
      using app_trans [OF app_trans [OF e1 app_set_updated]] unfolding rapp_def by fastforce
    moreover have "compile_instruction e = compile_body fa (e1\<lparr>flags_updated := False\<rparr>)"
      using False cc by (auto simp add: compile_instruction_def Let_def)
    ultimately show ?thesis by (simp add: rapp_mono)
  qed
qed


section \<open>A page\<close>

text \<open>\<open>p\<close> is the code of instruction \<open>c\<close>, number \<open>i\<close> of its page.\<close>

definition code_of :: "host_fns \<Rightarrow> nat \<Rightarrow> nat \<Rightarrow> dctx \<Rightarrow> bool \<Rightarrow> u8 list \<Rightarrow> bool" where
  "code_of hf bits i c look p = (\<exists>e e'. ectx e = c \<and> inst_no e = i \<and> INST_BITS e = bits \<and> fns e = hf \<and>
      lookahead_s e = look \<and> compile_instruction e = Inr e' \<and> out e' = out e @ p)"

definition next_look :: "dctx list \<Rightarrow> nat \<Rightarrow> bool" where
  "next_look cs k = (Suc k < length cs \<and> lookahead (cs ! Suc k))"

lemma next_look_Cons: "next_look (c # cs) 0 = (case cs of [] \<Rightarrow> False | c' # _ \<Rightarrow> lookahead c')"
  "next_look (c # cs) (Suc k) = next_look cs k"
  by (auto simp: next_look_def split: list.splits)

definition starts :: "u8 list list \<Rightarrow> nat \<Rightarrow> nat" where
  "starts ps k = length (concat (take k ps))"

lemma starts_Cons [simp]: "starts (p # ps) 0 = 0" "starts (p # ps) (Suc k) = length p + starts ps k"
  by (simp_all add: starts_def)

text \<open>The loop over the instructions: the pieces, where they start, and the relocations.\<close>

definition pieces_ok :: "host_fns \<Rightarrow> nat \<Rightarrow> nat \<Rightarrow> dctx list \<Rightarrow> u8 list list \<Rightarrow> nat list \<Rightarrow> bool" where
  "pieces_ok hf bits i cs ps rs = (length ps = length cs \<and> good_code hf (concat ps) rs \<and>
     (\<forall>k < length cs. code_of hf bits (i + k) (cs ! k) (next_look cs k) (ps ! k) \<and> ps ! k \<noteq> [] \<and> length (ps ! k) \<le> 135))"

lemma compile_instruction_nonempty:
  assumes "compile_instruction e = Inr e'" "out e' = out e @ p"
  shows "p \<noteq> []"
proof -
  obtain e1 fa where cc: "count_cycle e = (e1, fa)" by (cases "count_cycle e")
  have l1: "length (out e) < length (out e1)" using cc by (auto simp: count_cycle_def emit_def split: if_splits)
  have body: "length (out x) \<le> length (out y)" if "compile_body b x = Inr y" for b x y
    using rapp_compile_body [of x b] that by (auto simp: rapp_def app_def)
  have "length (out e1) \<le> length (out e')"
  proof (cases "c_cond (ectx e) \<noteq> AL \<and> c_cond (ectx e) \<noteq> NV")
    case True
    define e2 where "e2 = emit [0] (emit (skip_jump (c_cond (ectx e))) (only_if (\<not> fa) load_flags e1))"
    obtain y where y: "compile_body True (e2\<lparr>flags_updated := False\<rparr>) = Inr y"
        "patch (length (out e2) - 1) y = Inr e'"
      using assms(1) True cc by (auto simp: compile_instruction_def Let_def e2_def rbind_Inr_iff emit_def)
    have "length (out e') = length (out y)" using y(2) by (auto simp: patch_def Let_def split: if_splits)
    moreover have "length (out e1) \<le> length (out e2)"
      by (simp add: e2_def emit_def only_if_def load_flags_def)
    ultimately show ?thesis using body [OF y(1)] by simp
  next
    case False
    then show ?thesis
      using assms(1) cc body [of fa "e1\<lparr>flags_updated := False\<rparr>" e'] by (auto simp: compile_instruction_def Let_def)
  qed
  then show ?thesis using l1 assms(2) by auto
qed

lemma compile_insts_code:
  "\<exists>e' ps rs. compile_insts i cs e = Inr (map (\<lambda>k. length (out e) + starts ps k) [0..<length cs], e') \<and>
    pieces_ok (fns e) (INST_BITS e) i cs ps rs \<and> out e' = out e @ concat ps \<and>
    reloc_table e' = reloc_table e @ map ((+) (length (out e))) rs \<and> fns e' = fns e"
proof (induction cs arbitrary: i e)
  case Nil
  show ?case by (rule exI [of _ e], rule exI [of _ "[]"], rule exI [of _ "[]"]) (simp add: good_code_def pieces_ok_def)
next
  case (Cons c cs)
  define e0 where "e0 = e\<lparr>ectx := c, inst_no := i, lookahead_s := next_look (c # cs) 0\<rparr>"
  obtain e1 where e1: "compile_instruction e0 = Inr e1" "app 135 e0 e1"
    using rapp_compile_instruction [of e0] unfolding rapp_def by blast
  then obtain bs rs where b: "length bs \<le> 135" "out e1 = out e @ bs"
      "reloc_table e1 = reloc_table e @ map ((+) (length (out e))) rs" "good_code (fns e) bs rs" "fns e1 = fns e"
      "INST_BITS e1 = INST_BITS e"
    by (auto simp: app_def e0_def)
  have bs: "bs \<noteq> []" using compile_instruction_nonempty [OF e1(1)] b(2) by (simp add: e0_def)
  have here: "code_of (fns e) (INST_BITS e) i c (next_look (c # cs) 0) bs"
    unfolding code_of_def using e1(1) b(2) by (intro exI [of _ e0] exI [of _ e1]) (simp add: e0_def)
  obtain e' ps ss where r: "compile_insts (i + 1) cs e1 = Inr (map (\<lambda>k. length (out e1) + starts ps k) [0..<length cs], e')"
      "pieces_ok (fns e) (INST_BITS e) (i + 1) cs ps ss" "out e' = out e1 @ concat ps"
      "reloc_table e' = reloc_table e1 @ map ((+) (length (out e1))) ss" "fns e' = fns e"
    using Cons.IH [of "i + 1" e1] b(5,6) by auto
  have "compile_insts i (c # cs) e =
      Inr (map (\<lambda>k. length (out e) + starts (bs # ps) k) [0..<length (c # cs)], e')"
    using e1(1) r(1) b(2)
    by (simp add: e0_def next_look_Cons Let_def upt_conv_Cons map_Suc_upt [symmetric] comp_def add.assoc del: upt_Suc)
  moreover have "reloc_table e' = reloc_table e @ map ((+) (length (out e))) (rs @ map ((+) (length bs)) ss)"
    using r(4) b(2,3) by (simp add: comp_def add.assoc)
  moreover have "pieces_ok (fns e) (INST_BITS e) i (c # cs) (bs # ps) (rs @ map ((+) (length bs)) ss)"
    using good_code_append [of "fns e" bs rs "concat ps" ss] b(1,4) bs here r(2)
    by (auto simp: pieces_ok_def nth_Cons next_look_Cons split: nat.split)
  ultimately show ?case
    using b(2) r(3,5) by (intro exI [of _ e'] exI [of _ "bs # ps"] exI [of _ "rs @ map ((+) (length bs)) ss"]) simp
qed

section \<open>Relocation\<close>

lemma relocate_length [simp]: "length (relocate base rs m) = length m"
  unfolding relocate_def by (induction rs arbitrary: m) auto

lemma relocate_Cons: "relocate base (r # rs) m = relocate base rs (wr32 r (rd32 m r - (base + word_of_nat r)) m)"
  by (simp add: relocate_def)

lemma relocate_other: "\<forall>r \<in> set rs. i < r \<or> r + 3 < i \<Longrightarrow> relocate base rs m ! i = m ! i"
proof (induction rs arbitrary: m)
  case Nil
  then show ?case by (simp add: relocate_def)
next
  case (Cons r rs)
  then show ?case by (simp add: relocate_Cons nth_wr32)
qed

lemma rd32_cong:
  assumes "\<And>k. k < 4 \<Longrightarrow> m ! (r + k) = m' ! (r + k)"
  shows "rd32 m r = rd32 m' r"
  using assms [of 0] assms [of 1] assms [of 2] assms [of 3] by (simp add: rd32_def)

lemma relocate_entry:
  "sorted_wrt (\<lambda>a b. a + 5 \<le> b) rs \<Longrightarrow> r \<in> set rs \<Longrightarrow> \<forall>r \<in> set rs. r + 4 \<le> length m \<Longrightarrow>
    rd32 (relocate base rs m) r = rd32 m r - (base + word_of_nat r)"
proof (induction rs arbitrary: m)
  case (Cons q rs)
  let ?m = "wr32 q (rd32 m q - (base + word_of_nat q)) m"
  show ?case
  proof (cases "r = q")
    case True
    have "rd32 (relocate base rs ?m) q = rd32 ?m q"
      by (rule rd32_cong, rule relocate_other) (use Cons.prems(1) in auto)
    then show ?thesis using True Cons.prems(3) by (simp add: relocate_Cons rd32_wr32)
  next
    case False
    then have r: "r \<in> set rs" "q + 4 \<le> r" using Cons.prems(1,2) by auto
    have "rd32 ?m r = rd32 m r" by (rule rd32_cong) (use r(2) in \<open>simp add: nth_wr32\<close>)
    then show ?thesis using Cons.IH [of ?m] Cons.prems r by (simp add: relocate_Cons)
  qed
qed simp


lemma good_entry_rd32:
  assumes "good_entry h m r"
  shows "rd32 m r + 4 \<in> routines h"
proof -
  obtain f where f: "f \<in> routines h" "take 4 (drop r m) = bytes32 (f - 4)" "r + 4 \<le> length m"
    using assms by (auto simp: good_entry_def)
  have "rd32 m r = rd32 (take 4 (drop r m)) 0" using f(3) by (simp add: rd32_def)
  then show ?thesis using f by (simp add: rd32_bytes32)
qed

text \<open>The code in front of the relocation: the pieces and the jump to the next page.\<close>

lemma app_next_page: "app 23 e (next_page e)"
  by (rule app_mono, unfold next_page_def) (rule app_rules routine_rules | simp)+

lemma compile_page_code:
  "\<exists>ps rs tail. compile_page hf bits base cs =
      Inr (relocate base rs (concat ps @ tail), map (\<lambda>k. base + word_of_nat (starts ps k)) [0..<length cs]) \<and>
    (\<exists>rs'. pieces_ok hf bits 0 cs ps rs') \<and> good_code hf (concat ps @ tail) rs \<and> length tail \<le> 23"
proof -
  have i: "out (init_emitter hf bits (hd cs)) = []" "reloc_table (init_emitter hf bits (hd cs)) = []"
      "fns (init_emitter hf bits (hd cs)) = hf" "INST_BITS (init_emitter hf bits (hd cs)) = bits"
    by (simp_all add: init_emitter_def)
  obtain e ps rs where c: "compile_insts 0 cs (init_emitter hf bits (hd cs)) = Inr (map (\<lambda>k. 0 + starts ps k) [0..<length cs], e)"
      "pieces_ok hf bits 0 cs ps rs" "out e = concat ps" "reloc_table e = map ((+) 0) rs" "fns e = hf"
    using compile_insts_code [of 0 cs "init_emitter hf bits (hd cs)"] unfolding i list.size append.left_neutral by blast
  obtain tl' ts u where t: "next_page e = e\<lparr>out := out e @ tl', reloc_table := reloc_table e @ map ((+) (length (out e))) ts,
      flags_updated := u\<rparr>" "length tl' \<le> 23" "good_code hf tl' ts"
    using app_next_page [of e] c(5) by (auto simp: app_def)
  have g: "good_code hf (concat ps @ tl') (rs @ map ((+) (length (concat ps))) ts)"
    using good_code_append [OF _ t(3)] c(2) by (simp add: pieces_ok_def)
  have "(map (starts ps) [0..<length cs])[0 := 0] = map (starts ps) [0..<length cs]"
    by (cases cs) (simp_all add: upt_conv_Cons starts_def del: upt_Suc)
  then have "compile_page hf bits base cs = Inr (relocate base (rs @ map ((+) (length (concat ps))) ts) (concat ps @ tl'),
      map (\<lambda>k. base + word_of_nat (starts ps k)) [0..<length cs])"
    using c(1,3,4) t(1) by (simp add: compile_page_def epilogue_def Let_def comp_def map_idI)
  then show ?thesis using c(2) g t(2) by blast
qed

section \<open>A page of two instructions\<close>

text \<open>The properties at a page of two instructions, \<^verbatim>\<open>mov r0, 1\<close> and \<^verbatim>\<open>bx lr\<close>.\<close>

definition sample_fns :: host_fns where
  "sample_fns = \<lparr>f_store32 = 0x1000, f_store16 = 0x1010, f_store8 = 0x1020, f_store32_array = 0x1030,
     f_load32 = 0x1040, f_load16u = 0x1050, f_load16s = 0x1060, f_load8u = 0x1070, f_load32_array = 0x1080,
     f_loadcpsr = 0x1090, f_storecpsr = 0x10A0, f_pushcallstack = 0x10B0, f_popcallstack = 0x10C0,
     f_branch = 0x10D0, f_remap_tcm = 0x10E0, f_swi = 0x10F0, f_debug_magic = 0x1100\<rparr>"

definition sample_dctx :: dctx where
  "sample_dctx = \<lparr>c_instruction = UD, c_cond = AL, c_shift = LSL, c_amode = DA, c_emode = EM_INVALID, c_flags = 0,
     c_imm = 0, c_rd = 0, c_rn = 0, c_rm = 0, c_rs = 0, c_cp_num = 0, c_cp_op1 = 0, c_cp_op2 = 0, c_op = 0, c_addr = 0\<rparr>"

definition sample_page :: "dctx list" where
  "sample_page = decode_page decode_arm [0xE3A00001, 0xE12FFF1E] sample_dctx"

lemma length_sample_page: "length sample_page = 2"
  by (simp add: sample_page_def Let_def)

section \<open>The page's properties\<close>





end
