(* ===== verification/X86.thy ===== *)
theory X86
  imports Bytes
begin

text \<open>
  The host processor, as far as the generated code uses it: the 32-bit x86 instructions
  with their encodings, and what they do to the registers, the four flags the code
  relies on, and word-aligned memory. A flag the architecture leaves undefined is taken
  from an oracle; a call of a host routine is an argument. Encodings and accesses
  outside this subset have no step.
\<close>

section \<open>Instructions\<close>

datatype x86_reg = EAX | ECX | EDX | EBX | ESP | EBP | ESI | EDI

text \<open>A register, the word at register plus signed displacement, a constant.\<close>

datatype x86_opnd = R x86_reg | M x86_reg u8 | Im u32

text \<open>\<open>Alu\<close> and \<open>Shift\<close> carry the number of the operation in its opcode group.\<close>

datatype x86_inst =
    Alu nat x86_opnd x86_opnd
  | Test x86_opnd x86_opnd
  | Mov x86_opnd x86_opnd
  | Lea x86_reg x86_opnd
  | Not_op x86_opnd
  | Neg_op x86_opnd
  | Mul x86_opnd
  | Imul x86_opnd
  | Inc x86_reg
  | Dec x86_opnd
  | Shift nat x86_opnd nat
  | Shift_CL nat x86_opnd
  | Ror_AL | Seto_AL | Lahf | Sahf | Cmc | Cdq
  | Cmova x86_reg x86_opnd
  | Movsx_EAX_AL
  | Push x86_opnd
  | Pop x86_opnd
  | Jcc nat u8
  | Jmp_short u8
  | Call u32
  | Jmp u32
  | Nop

section \<open>Encodings\<close>

definition reg_of :: "u8 \<Rightarrow> x86_reg" where
  "reg_of n = switch (n AND 7) [(0, EAX), (1, ECX), (2, EDX), (3, EBX), (4, ESP), (5, EBP), (6, ESI)] EDI"

fun next8 :: "u8 list \<Rightarrow> (u8 \<times> u8 list) option" where
  "next8 (b # bs) = Some (b, bs)"
| "next8 [] = None"

fun next32 :: "u8 list \<Rightarrow> (u32 \<times> u8 list) option" where
  "next32 (a # b # c # d # bs) = Some (rd32 [a, b, c, d] 0, bs)"
| "next32 _ = None"

text \<open>The operand of a mode byte: a register, or a base with an eight bit displacement.\<close>

definition modrm :: "u8 \<Rightarrow> u8 list \<Rightarrow> (x86_opnd \<times> u8 list) option" where
  "modrm b bs =
    (if drop_bit 6 b = 3 then Some (R (reg_of b), bs)
     else if drop_bit 6 b = 1 \<and> b AND 7 \<noteq> 4
     then Option.bind (next8 bs) (\<lambda>(d, bs). Some (M (reg_of b) d, bs))
     else None)"

definition sext8 :: "u8 \<Rightarrow> u32" where
  "sext8 b = scast b"

text \<open>The three shapes of an instruction with a mode byte: with the register and the
  operand, with the number in the register field and the operand, the same followed by
  a constant.\<close>

definition with_reg :: "(x86_opnd \<Rightarrow> x86_opnd \<Rightarrow> x86_inst) \<Rightarrow> u8 list \<Rightarrow> (x86_inst \<times> u8 list) option" where
  "with_reg f bs = Option.bind (next8 bs) (\<lambda>(b, bs). Option.bind (modrm b bs) (\<lambda>(o', bs).
     Some (f o' (R (reg_of (drop_bit 3 b))), bs)))"

definition with_num :: "(u8 \<Rightarrow> x86_opnd \<Rightarrow> u8 list \<Rightarrow> (x86_inst \<times> u8 list) option) \<Rightarrow> u8 list \<Rightarrow>
    (x86_inst \<times> u8 list) option" where
  "with_num f bs = Option.bind (next8 bs) (\<lambda>(b, bs). Option.bind (modrm b bs) (\<lambda>(o', bs).
     f (drop_bit 3 b AND 7) o' bs))"

definition with_imm32 :: "(u32 \<Rightarrow> x86_inst) \<Rightarrow> u8 list \<Rightarrow> (x86_inst \<times> u8 list) option" where
  "with_imm32 f bs = Option.bind (next32 bs) (\<lambda>(w, bs). Some (f w, bs))"

definition with_imm8 :: "(u8 \<Rightarrow> x86_inst) \<Rightarrow> u8 list \<Rightarrow> (x86_inst \<times> u8 list) option" where
  "with_imm8 f bs = Option.bind (next8 bs) (\<lambda>(b, bs). Some (f b, bs))"

definition plain :: "x86_inst \<Rightarrow> u8 list \<Rightarrow> (x86_inst \<times> u8 list) option" where
  "plain i bs = Some (i, bs)"

definition unknown :: "u8 list \<Rightarrow> (x86_inst \<times> u8 list) option" where
  "unknown bs = None"

text \<open>The group \<^verbatim>\<open>F7\<close>.\<close>

definition group_F7 :: "u8 \<Rightarrow> x86_opnd \<Rightarrow> u8 list \<Rightarrow> (x86_inst \<times> u8 list) option" where
  "group_F7 n o' = switch n
     [(0, with_imm32 (\<lambda>w. Test o' (Im w))), (2, plain (Not_op o')), (3, plain (Neg_op o')),
      (4, plain (Mul o')), (5, plain (Imul o'))] unknown"

text \<open>The group \<^verbatim>\<open>FF\<close>.\<close>

definition group_FF :: "u8 \<Rightarrow> x86_opnd \<Rightarrow> u8 list \<Rightarrow> (x86_inst \<times> u8 list) option" where
  "group_FF n o' = switch n [(1, plain (Dec o')), (6, plain (Push o'))] unknown"

text \<open>Two-byte opcodes.\<close>

definition decode_0F :: "u8 list \<Rightarrow> (x86_inst \<times> u8 list) option" where
  "decode_0F bs = Option.bind (next8 bs) (\<lambda>(b, bs). switch b
     [(0x90, with_num (\<lambda>n o'. if o' = R EAX then plain Seto_AL else unknown)),
      (0x47, with_reg (\<lambda>o' r. Cmova (case r of R x \<Rightarrow> x | _ \<Rightarrow> EAX) o')),
      (0xBE, with_reg (\<lambda>o' r. Movsx_EAX_AL))] unknown bs)"

text \<open>One-byte opcodes.\<close>

definition x86_opcode :: "u8 \<Rightarrow> u8 list \<Rightarrow> (x86_inst \<times> u8 list) option" where
  "x86_opcode b = switch b
     [(0x8B, with_reg (\<lambda>o' r. Mov r o')), (0x89, with_reg (\<lambda>o' r. Mov o' r)),
      (0xC7, with_num (\<lambda>n o'. with_imm32 (\<lambda>w. Mov o' (Im w)))),
      (0x01, with_reg (Alu 0)), (0x03, with_reg (\<lambda>o' r. Alu 0 r o')),
      (0x09, with_reg (Alu 1)), (0x0B, with_reg (\<lambda>o' r. Alu 1 r o')),
      (0x11, with_reg (Alu 2)), (0x13, with_reg (\<lambda>o' r. Alu 2 r o')),
      (0x19, with_reg (Alu 3)), (0x1B, with_reg (\<lambda>o' r. Alu 3 r o')),
      (0x21, with_reg (Alu 4)), (0x23, with_reg (\<lambda>o' r. Alu 4 r o')),
      (0x29, with_reg (Alu 5)), (0x2B, with_reg (\<lambda>o' r. Alu 5 r o')),
      (0x31, with_reg (Alu 6)), (0x33, with_reg (\<lambda>o' r. Alu 6 r o')),
      (0x39, with_reg (Alu 7)), (0x3B, with_reg (\<lambda>o' r. Alu 7 r o')),
      (0x81, with_num (\<lambda>n o'. with_imm32 (\<lambda>w. Alu (unat n) o' (Im w)))),
      (0x83, with_num (\<lambda>n o'. with_imm8 (\<lambda>d. Alu (unat n) o' (Im (sext8 d))))),
      (0x05, with_imm32 (\<lambda>w. Alu 0 (R EAX) (Im w))), (0x0D, with_imm32 (\<lambda>w. Alu 1 (R EAX) (Im w))),
      (0x15, with_imm32 (\<lambda>w. Alu 2 (R EAX) (Im w))), (0x1D, with_imm32 (\<lambda>w. Alu 3 (R EAX) (Im w))),
      (0x25, with_imm32 (\<lambda>w. Alu 4 (R EAX) (Im w))), (0x2D, with_imm32 (\<lambda>w. Alu 5 (R EAX) (Im w))),
      (0x35, with_imm32 (\<lambda>w. Alu 6 (R EAX) (Im w))), (0x3D, with_imm32 (\<lambda>w. Alu 7 (R EAX) (Im w))),
      (0x85, with_reg Test), (0xF7, with_num group_F7), (0xFF, with_num group_FF),
      (0xC1, with_num (\<lambda>n o'. with_imm8 (\<lambda>d. Shift (unat n) o' (unat d)))),
      (0xD1, with_num (\<lambda>n o'. plain (Shift (unat n) o' 1))),
      (0xD3, with_num (\<lambda>n o'. plain (Shift_CL (unat n) o'))),
      (0xD0, with_num (\<lambda>n o'. if n = 1 \<and> o' = R EAX then plain Ror_AL else unknown)),
      (0x8D, with_reg (\<lambda>o' r. Lea (case r of R x \<Rightarrow> x | _ \<Rightarrow> EAX) o')),
      (0x8F, with_num (\<lambda>n o'. plain (Pop o'))),
      (0xB8, with_imm32 (\<lambda>w. Mov (R EAX) (Im w))), (0xB9, with_imm32 (\<lambda>w. Mov (R ECX) (Im w))),
      (0xBA, with_imm32 (\<lambda>w. Mov (R EDX) (Im w))),
      (0x50, plain (Push (R EAX))), (0x51, plain (Push (R ECX))), (0x54, plain (Push (R ESP))),
      (0x55, plain (Push (R EBP))), (0x58, plain (Pop (R EAX))), (0x59, plain (Pop (R ECX))), (0x5E, plain (Pop (R ESI))),
      (0x6A, with_imm8 (\<lambda>d. Push (Im (sext8 d)))),
      (0x43, plain (Inc EBX)), (0x49, plain (Dec (R ECX))),
      (0x9F, plain Lahf), (0x9E, plain Sahf), (0xF5, plain Cmc), (0x99, plain Cdq), (0x90, plain Nop),
      (0x0F, decode_0F),
      (0x70, with_imm8 (Jcc 0)), (0x71, with_imm8 (Jcc 1)), (0x72, with_imm8 (Jcc 2)), (0x73, with_imm8 (Jcc 3)),
      (0x74, with_imm8 (Jcc 4)), (0x75, with_imm8 (Jcc 5)), (0x76, with_imm8 (Jcc 6)), (0x77, with_imm8 (Jcc 7)),
      (0x78, with_imm8 (Jcc 8)), (0x79, with_imm8 (Jcc 9)), (0x7C, with_imm8 (Jcc 12)), (0x7D, with_imm8 (Jcc 13)),
      (0x7E, with_imm8 (Jcc 14)), (0x7F, with_imm8 (Jcc 15)),
      (0xEB, with_imm8 Jmp_short), (0xE8, with_imm32 Call), (0xE9, with_imm32 Jmp)] unknown"

definition x86_decode :: "u8 list \<Rightarrow> (x86_inst \<times> u8 list) option" where
  "x86_decode bs = Option.bind (next8 bs) (\<lambda>(b, bs). x86_opcode b bs)"

section \<open>States\<close>

record x86 =
  gpr :: "x86_reg \<Rightarrow> u32"
  memw :: "u32 \<Rightarrow> u32"
  cf :: bool
  zf :: bool
  sf :: bool
  ovf :: bool

text \<open>What the architecture leaves undefined, by the number of the flag: 0 overflow,
  1 sign, 2 zero, 3 parity, 4 adjust.\<close>

type_synonym x86_undef = "x86 \<Rightarrow> nat \<Rightarrow> bool"

definition set_gpr :: "x86_reg \<Rightarrow> u32 \<Rightarrow> x86 \<Rightarrow> x86" where
  "set_gpr r v s = s\<lparr>gpr := (gpr s)(r := v)\<rparr>"

fun ea :: "x86_opnd \<Rightarrow> x86 \<Rightarrow> u32" where
  "ea (M r d) s = gpr s r + sext8 d"
| "ea _ s = 0"

fun rd_opnd :: "x86_opnd \<Rightarrow> x86 \<Rightarrow> u32 option" where
  "rd_opnd (R r) s = Some (gpr s r)"
| "rd_opnd (M r d) s = (let a = ea (M r d) s in if a AND 3 = 0 then Some (memw s a) else None)"
| "rd_opnd (Im w) s = Some w"

fun wr_opnd :: "x86_opnd \<Rightarrow> u32 \<Rightarrow> x86 \<Rightarrow> x86 option" where
  "wr_opnd (R r) v s = Some (set_gpr r v s)"
| "wr_opnd (M r d) v s = (let a = ea (M r d) s in if a AND 3 = 0 then Some (s\<lparr>memw := (memw s)(a := v)\<rparr>) else None)"
| "wr_opnd (Im w) v s = None"

section \<open>Flags\<close>

definition nz_flags :: "u32 \<Rightarrow> x86 \<Rightarrow> x86" where
  "nz_flags v s = s\<lparr>zf := (v = 0), sf := bit v 31\<rparr>"

definition carry_of :: "u32 \<Rightarrow> u32 \<Rightarrow> bool \<Rightarrow> bool" where
  "carry_of a b c = (unat a + unat b + (if c then 1 else 0) \<ge> 2 ^ 32)"

definition borrow_of :: "u32 \<Rightarrow> u32 \<Rightarrow> bool \<Rightarrow> bool" where
  "borrow_of a b c = (unat a < unat b + (if c then 1 else 0))"

definition add_overflow :: "u32 \<Rightarrow> u32 \<Rightarrow> bool \<Rightarrow> bool" where
  "add_overflow a b c = (sint a + sint b + (if c then 1 else 0) \<noteq> sint (a + b + (if c then 1 else 0)))"

definition sub_overflow :: "u32 \<Rightarrow> u32 \<Rightarrow> bool \<Rightarrow> bool" where
  "sub_overflow a b c = (sint a - sint b - (if c then 1 else 0) \<noteq> sint (a - b - (if c then 1 else 0)))"

text \<open>Result, carry and overflow of the eight operations: add, or, adc, sbb, and, sub,
  xor, cmp.\<close>

definition alu :: "nat \<Rightarrow> u32 \<Rightarrow> u32 \<Rightarrow> bool \<Rightarrow> u32 \<times> bool \<times> bool" where
  "alu n a b c = switch n
     [(0, (a + b, carry_of a b False, add_overflow a b False)),
      (1, (a OR b, False, False)),
      (2, (a + b + (if c then 1 else 0), carry_of a b c, add_overflow a b c)),
      (3, (a - b - (if c then 1 else 0), borrow_of a b c, sub_overflow a b c)),
      (4, (a AND b, False, False)),
      (5, (a - b, borrow_of a b False, sub_overflow a b False)),
      (6, (a XOR b, False, False))]
     (a - b, borrow_of a b False, sub_overflow a b False)"

text \<open>Rotations and shifts by \<open>n\<close>, \<open>1 \<le> n \<le> 31\<close>: rol is not used; rcl and rcr only by one.
  The result is the value, the carry, the overflow (if defined) and whether sign and zero
  are set from the value.\<close>

definition shift_op :: "nat \<Rightarrow> u32 \<Rightarrow> nat \<Rightarrow> bool \<Rightarrow> (u32 \<times> bool \<times> bool option \<times> bool) option" where
  "shift_op k v n c = switch k
     [(1, let w = word_rotr n v in Some (w, bit w 31, if n = 1 then Some (bit w 31 \<noteq> bit w 30) else None, False)),
      (2, if n = 1 then let w = push_bit 1 v OR (if c then 1 else 0) in Some (w, bit v 31, Some (bit w 31 \<noteq> bit v 31), False)
          else None),
      (3, if n = 1 then let w = drop_bit 1 v OR (if c then 0x80000000 else 0) in Some (w, bit v 0, Some (bit w 31 \<noteq> bit w 30), False)
          else None),
      (4, let w = push_bit n v in Some (w, bit v (32 - n), if n = 1 then Some (bit w 31 \<noteq> bit v 31) else None, True)),
      (5, Some (drop_bit n v, bit v (n - 1), if n = 1 then Some (bit v 31) else None, True)),
      (7, Some (sar v n, bit v (n - 1), if n = 1 then Some False else None, True))] None"

text \<open>The conditions of the jumps.\<close>

definition x86_cond :: "nat \<Rightarrow> x86 \<Rightarrow> bool" where
  "x86_cond n s = switch n
     [(0, ovf s), (1, \<not> ovf s), (2, cf s), (3, \<not> cf s), (4, zf s), (5, \<not> zf s), (6, cf s \<or> zf s), (7, \<not> (cf s \<or> zf s)),
      (8, sf s), (9, \<not> sf s), (12, sf s \<noteq> ovf s), (13, sf s = ovf s), (14, zf s \<or> sf s \<noteq> ovf s)]
     (\<not> (zf s \<or> sf s \<noteq> ovf s))"

section \<open>Execution\<close>

definition push_word :: "u32 \<Rightarrow> x86 \<Rightarrow> x86 option" where
  "push_word v s =
    (let a = gpr s ESP - 4
     in if a AND 3 = 0 then Some (set_gpr ESP a (s\<lparr>memw := (memw s)(a := v)\<rparr>)) else None)"

definition pop_word :: "x86 \<Rightarrow> (u32 \<times> x86) option" where
  "pop_word s =
    (let a = gpr s ESP in if a AND 3 = 0 then Some (memw s a, set_gpr ESP (a + 4) s) else None)"

definition exec_shift :: "x86_undef \<Rightarrow> nat \<Rightarrow> x86_opnd \<Rightarrow> nat \<Rightarrow> x86 \<Rightarrow> x86 option" where
  "exec_shift u k o' n s =
    (let n = n mod 32
     in if n = 0 then Some s
        else Option.bind (rd_opnd o' s) (\<lambda>v. Option.bind (shift_op k v n (cf s)) (\<lambda>(w, c, ov, nz).
          let s = s\<lparr>cf := c, ovf := (case ov of Some b \<Rightarrow> b | None \<Rightarrow> u s 0)\<rparr>;
              s = (if nz then nz_flags w s else s)
          in wr_opnd o' w s)))"

text \<open>\<open>ah\<close> after \<^verbatim>\<open>lahf\<close>: sign, zero, adjust, parity, one and carry.\<close>

definition lahf_byte :: "x86_undef \<Rightarrow> x86 \<Rightarrow> u32" where
  "lahf_byte u s =
    (if sf s then 0x80 else 0) OR (if zf s then 0x40 else 0) OR (if u s 4 then 0x10 else 0) OR
    (if u s 3 then 0x04 else 0) OR 0x02 OR (if cf s then 0x01 else 0)"

fun x86_exec :: "x86_undef \<Rightarrow> x86_inst \<Rightarrow> x86 \<Rightarrow> x86 option" where
  "x86_exec u (Alu n d o') s =
    Option.bind (rd_opnd d s) (\<lambda>a. Option.bind (rd_opnd o' s) (\<lambda>b.
      let (v, c, ov) = alu n a b (cf s);
          s = nz_flags v (s\<lparr>cf := c, ovf := ov\<rparr>)
      in if n = 7 then Some s else wr_opnd d v s))"
| "x86_exec u (Test d o') s =
    Option.bind (rd_opnd d s) (\<lambda>a. Option.bind (rd_opnd o' s) (\<lambda>b.
      Some (nz_flags (a AND b) (s\<lparr>cf := False, ovf := False\<rparr>))))"
| "x86_exec u (Mov d o') s = Option.bind (rd_opnd o' s) (\<lambda>b. wr_opnd d b s)"
| "x86_exec u (Lea r o') s = Some (set_gpr r (ea o' s) s)"
| "x86_exec u (Not_op d) s = Option.bind (rd_opnd d s) (\<lambda>a. wr_opnd d (NOT a) s)"
| "x86_exec u (Neg_op d) s =
    Option.bind (rd_opnd d s) (\<lambda>a. wr_opnd d (- a) (nz_flags (- a) (s\<lparr>cf := (a \<noteq> 0), ovf := (a = 0x80000000)\<rparr>)))"
| "x86_exec u (Mul d) s =
    Option.bind (rd_opnd d s) (\<lambda>a.
      let p = int (unat (gpr s EAX)) * int (unat a);
          lo = word_of_int p; hi = word_of_int (p div 2 ^ 32)
      in Some (set_gpr EDX hi (set_gpr EAX lo
           (s\<lparr>cf := (hi \<noteq> 0), ovf := (hi \<noteq> 0), sf := u s 1, zf := u s 2\<rparr>))))"
| "x86_exec u (Imul d) s =
    Option.bind (rd_opnd d s) (\<lambda>a.
      let p = sint (gpr s EAX) * sint a;
          lo = word_of_int p; hi = word_of_int (p div 2 ^ 32);
          big = (sint lo \<noteq> p)
      in Some (set_gpr EDX hi (set_gpr EAX lo
           (s\<lparr>cf := big, ovf := big, sf := u s 1, zf := u s 2\<rparr>))))"
| "x86_exec u (Inc r) s =
    (let v = gpr s r + 1 in Some (set_gpr r v (nz_flags v (s\<lparr>ovf := (v = 0x80000000)\<rparr>))))"
| "x86_exec u (Dec d) s =
    Option.bind (rd_opnd d s) (\<lambda>a. let v = a - 1 in wr_opnd d v (nz_flags v (s\<lparr>ovf := (v = 0x7FFFFFFF)\<rparr>)))"
| "x86_exec u (Shift k d n) s = exec_shift u k d n s"
| "x86_exec u (Shift_CL k d) s = exec_shift u k d (unat (gpr s ECX AND 0xFF)) s"
| "x86_exec u Ror_AL s =
    (let al = gpr s EAX AND 0xFF;
         w = drop_bit 1 al OR (if bit al 0 then 0x80 else 0)
     in Some (set_gpr EAX ((gpr s EAX AND NOT 0xFF) OR w) (s\<lparr>cf := bit w 7, ovf := (bit w 7 \<noteq> bit w 6)\<rparr>)))"
| "x86_exec u Seto_AL s = Some (set_gpr EAX ((gpr s EAX AND NOT 0xFF) OR (if ovf s then 1 else 0)) s)"
| "x86_exec u Lahf s = Some (set_gpr EAX ((gpr s EAX AND NOT 0xFF00) OR push_bit 8 (lahf_byte u s)) s)"
| "x86_exec u Sahf s = Some (s\<lparr>sf := bit (gpr s EAX) 15, zf := bit (gpr s EAX) 14, cf := bit (gpr s EAX) 8\<rparr>)"
| "x86_exec u Cmc s = Some (s\<lparr>cf := \<not> cf s\<rparr>)"
| "x86_exec u Cdq s = Some (set_gpr EDX (if bit (gpr s EAX) 31 then 0xFFFFFFFF else 0) s)"
| "x86_exec u (Cmova r o') s =
    Option.bind (rd_opnd o' s) (\<lambda>b. Some (if \<not> (cf s \<or> zf s) then set_gpr r b s else s))"
| "x86_exec u Movsx_EAX_AL s = Some (set_gpr EAX (sext8 (ucast (gpr s EAX))) s)"
| "x86_exec u (Push o') s = Option.bind (rd_opnd o' s) (\<lambda>v. push_word v s)"
| "x86_exec u (Pop d) s = Option.bind (pop_word s) (\<lambda>(v, s). wr_opnd d v s)"
| "x86_exec u Nop s = Some s"
| "x86_exec u _ s = None"

text \<open>A jump or a call goes to an address relative to the next instruction; a call of a
  host routine is one step and returns behind the call. The machine is the instruction
  pointer and the state.\<close>

fun x86_next :: "x86_undef \<Rightarrow> (u32 \<Rightarrow> x86 \<Rightarrow> x86 option) \<Rightarrow> x86_inst \<Rightarrow> u32 \<Rightarrow> x86 \<Rightarrow> (u32 \<times> x86) option" where
  "x86_next u host (Jcc n d) ip s = Some (if x86_cond n s then ip + sext8 d else ip, s)"
| "x86_next u host (Jmp_short d) ip s = Some (ip + sext8 d, s)"
| "x86_next u host (Jmp w) ip s = Some (ip + w, s)"
| "x86_next u host (Call w) ip s = map_option (\<lambda>t. (ip, t)) (host (ip + w) s)"
| "x86_next u host i ip s = map_option (\<lambda>t. (ip, t)) (x86_exec u i s)"

text \<open>One step of the code at \<open>base\<close>; outside of it there is none.\<close>

definition x86_step :: "x86_undef \<Rightarrow> (u32 \<Rightarrow> x86 \<Rightarrow> x86 option) \<Rightarrow> u32 \<Rightarrow> u8 list \<Rightarrow> u32 \<times> x86 \<Rightarrow> (u32 \<times> x86) option" where
  "x86_step u host base code = (\<lambda>(ip, s).
    (let bs = drop (unat (ip - base)) code
     in Option.bind (x86_decode bs) (\<lambda>(i, rest).
        x86_next u host i (ip + word_of_nat (length bs - length rest)) s)))"

inductive x86_run :: "x86_undef \<Rightarrow> (u32 \<Rightarrow> x86 \<Rightarrow> x86 option) \<Rightarrow> u32 \<Rightarrow> u8 list \<Rightarrow> u32 \<times> x86 \<Rightarrow> u32 \<times> x86 \<Rightarrow> bool"
  for u host base code where
  stop: "x86_run u host base code m m"
| step: "x86_step u host base code m = Some m' \<Longrightarrow> x86_run u host base code m' m'' \<Longrightarrow> x86_run u host base code m m''"

lemma x86_run_trans:
  "x86_run u host base code m m' \<Longrightarrow> x86_run u host base code m' m'' \<Longrightarrow> x86_run u host base code m m''"
  by (induction rule: x86_run.induct) (auto intro: x86_run.intros)

section \<open>Parsing\<close>

text \<open>A parser leaves a suffix of its input and does not look at what it leaves.\<close>

definition good_parser :: "(u8 list \<Rightarrow> ('a \<times> u8 list) option) \<Rightarrow> bool" where
  "good_parser p = (\<forall>bs i rest. p bs = Some (i, rest) \<longrightarrow>
     length rest \<le> length bs \<and> drop (length bs - length rest) bs = rest \<and> (\<forall>t. p (bs @ t) = Some (i, rest @ t)))"

lemma good_parserI:
  "(\<And>bs i rest. p bs = Some (i, rest) \<Longrightarrow> (\<exists>pre. bs = pre @ rest) \<and> (\<forall>t. p (bs @ t) = Some (i, rest @ t))) \<Longrightarrow>
    good_parser p"
  unfolding good_parser_def by fastforce

lemma good_parserD:
  assumes "good_parser p" "p bs = Some (i, rest)"
  shows "\<exists>pre. bs = pre @ rest" "p (bs @ t) = Some (i, rest @ t)"
  using assms by (simp_all add: good_parser_def) (metis append_take_drop_id)

lemma good_next8: "good_parser next8"
proof (rule good_parserI)
  fix bs :: "u8 list" and i rest assume "next8 bs = Some (i, rest)"
  then show "(\<exists>pre. bs = pre @ rest) \<and> (\<forall>t. next8 (bs @ t) = Some (i, rest @ t))" by (cases bs) auto
qed

lemma good_next32: "good_parser next32"
proof (rule good_parserI)
  fix bs :: "u8 list" and i rest assume "next32 bs = Some (i, rest)"
  then show "(\<exists>pre. bs = pre @ rest) \<and> (\<forall>t. next32 (bs @ t) = Some (i, rest @ t))"
    by (induction bs rule: next32.induct) auto
qed

lemma good_unit: "good_parser (\<lambda>bs. Some (i, bs))"
  by (rule good_parserI) simp

lemma good_none: "good_parser (\<lambda>bs. None)"
  by (rule good_parserI) simp

lemma good_bind:
  assumes p: "good_parser p" and f: "\<And>x. good_parser (f x)"
  shows "good_parser (\<lambda>bs. Option.bind (p bs) (\<lambda>(x, bs). f x bs))"
proof (rule good_parserI)
  fix bs i rest assume "Option.bind (p bs) (\<lambda>(x, bs). f x bs) = Some (i, rest)"
  then obtain x b where b: "p bs = Some (x, b)" "f x b = Some (i, rest)" by (auto simp: bind_eq_Some_conv)
  show "(\<exists>pre. bs = pre @ rest) \<and> (\<forall>t. Option.bind (p (bs @ t)) (\<lambda>(x, bs). f x bs) = Some (i, rest @ t))"
    using good_parserD(1) [OF p b(1)] good_parserD(1) [OF f b(2)] good_parserD(2) [OF p b(1)] good_parserD(2) [OF f b(2)]
    by (auto intro: exI [of _ "_ @ _"])
qed

lemma good_if: "good_parser p \<Longrightarrow> good_parser q \<Longrightarrow> good_parser (\<lambda>bs. if b then p bs else q bs)"
  by (cases b) auto

lemma good_modrm: "good_parser (modrm b)"
  unfolding modrm_def [abs_def] by (intro good_if good_bind good_next8 good_unit good_none)

lemma good_with_reg: "good_parser (with_reg f)"
  unfolding with_reg_def [abs_def] by (intro good_bind good_next8 good_modrm good_unit)

lemma good_with_num: "(\<And>n o'. good_parser (f n o')) \<Longrightarrow> good_parser (with_num f)"
  unfolding with_num_def [abs_def] by (intro good_bind good_next8 good_modrm)

lemma good_with_imm32: "good_parser (with_imm32 f)"
  unfolding with_imm32_def [abs_def] by (intro good_bind good_next32 good_unit)

lemma good_with_imm8: "good_parser (with_imm8 f)"
  unfolding with_imm8_def [abs_def] by (intro good_bind good_next8 good_unit)

lemma good_plain: "good_parser (plain i)"
  unfolding plain_def [abs_def] by (rule good_unit)

lemma good_unknown: "good_parser unknown"
  unfolding unknown_def [abs_def] by (rule good_none)

lemma good_cond: "good_parser p \<Longrightarrow> good_parser q \<Longrightarrow> good_parser (if b then p else q)"
  by simp

lemma good_switch: "list_all (\<lambda>c. good_parser (snd c)) cs \<Longrightarrow> good_parser d \<Longrightarrow> good_parser (switch k cs d)"
  by (induction k cs d rule: switch.induct) auto

lemmas good_parsers = good_with_reg good_with_num good_with_imm32 good_with_imm8 good_plain good_unknown good_cond

lemma good_group_F7: "good_parser (group_F7 n o')"
  unfolding group_F7_def by (rule good_switch; (simp only: list.pred_inject snd_conv)?; intro conjI good_parsers TrueI)

lemma good_group_FF: "good_parser (group_FF n o')"
  unfolding group_FF_def by (rule good_switch; (simp only: list.pred_inject snd_conv)?; intro conjI good_parsers TrueI)

lemma good_decode_0F: "good_parser decode_0F"
  unfolding decode_0F_def [abs_def]
  by (rule good_bind [OF good_next8], rule good_switch; (simp only: list.pred_inject snd_conv)?; intro conjI good_parsers TrueI)

lemma good_x86_opcode: "good_parser (x86_opcode b)"
  unfolding x86_opcode_def
  by (rule good_switch; (simp only: list.pred_inject snd_conv)?;
      intro conjI good_parsers good_group_F7 good_group_FF good_decode_0F TrueI)

lemma good_x86_decode: "good_parser x86_decode"
  unfolding x86_decode_def [abs_def] by (intro good_bind good_next8 good_x86_opcode)

lemma x86_decode_append: "x86_decode bs = Some (i, rest) \<Longrightarrow> x86_decode (bs @ t) = Some (i, rest @ t)"
  using good_parserD(2) [OF good_x86_decode] .

lemma x86_decode_drop: "x86_decode bs = Some (i, rest) \<Longrightarrow> drop (length bs - length rest) bs = rest"
  using good_x86_decode by (simp add: good_parser_def)

lemma x86_decode_less:
  assumes "x86_decode bs = Some (i, rest)"
  shows "length rest < length bs"
proof -
  obtain b bs' where b: "bs = b # bs'" "x86_opcode b bs' = Some (i, rest)"
    using assms by (cases bs) (auto simp: x86_decode_def)
  then show ?thesis using good_x86_opcode by (simp add: good_parser_def less_Suc_eq_le)
qed

section \<open>Code without backward jumps\<close>

text \<open>
  What a piece of code does before its relocation, where the operand of a call or a
  jump is the routine's address minus 4: it falls through at its end, or it leaves for a
  routine. A conditional jump must stay in the piece.
\<close>

datatype exit = Fall x86 | Exit u32 x86

fun x86_ctl :: "x86_undef \<Rightarrow> (u32 \<Rightarrow> x86 \<Rightarrow> x86 option) \<Rightarrow> x86_inst \<Rightarrow> nat \<Rightarrow> x86 \<Rightarrow> (nat \<times> x86 + u32 \<times> x86) option" where
  "x86_ctl u host (Jcc n d) left s =
    (if x86_cond n s then (if d < 128 \<and> unat d \<le> left then Some (Inl (unat d, s)) else None) else Some (Inl (0, s)))"
| "x86_ctl u host (Jmp_short d) left s = (if d < 128 \<and> unat d \<le> left then Some (Inl (unat d, s)) else None)"
| "x86_ctl u host (Jmp w) left s = Some (Inr (w + 4, s))"
| "x86_ctl u host (Call w) left s = map_option (\<lambda>t. Inl (0, t)) (host (w + 4) s)"
| "x86_ctl u host i left s = map_option (\<lambda>t. Inl (0, t)) (x86_exec u i s)"

function (sequential) xrun :: "x86_undef \<Rightarrow> (u32 \<Rightarrow> x86 \<Rightarrow> x86 option) \<Rightarrow> u8 list \<Rightarrow> x86 \<Rightarrow> exit option" where
  "xrun u host [] s = Some (Fall s)"
| "xrun u host (b # bs) s =
    (case x86_decode (b # bs) of None \<Rightarrow> None
     | Some (i, rest) \<Rightarrow>
       (case x86_ctl u host i (length rest) s of None \<Rightarrow> None
        | Some (Inl (k, t)) \<Rightarrow> xrun u host (drop k rest) t
        | Some (Inr (w, t)) \<Rightarrow> Some (Exit w t)))"
  by pat_completeness auto
termination
  by (relation "measure (\<lambda>(_, _, bs, _). length bs)") (auto dest: x86_decode_less)

lemma x86_ctl_more:
  "x86_ctl u host i left s = Some r \<Longrightarrow> left \<le> left' \<Longrightarrow> x86_ctl u host i left' s = Some r"
  by (induction u host i left s rule: x86_ctl.induct) (auto split: if_splits)

lemma x86_ctl_within: "x86_ctl u host i left s = Some (Inl (k, t)) \<Longrightarrow> k \<le> left"
  by (induction u host i left s rule: x86_ctl.induct) (auto split: if_splits)

text \<open>Pieces compose.\<close>

lemma xrun_append:
  "xrun u host as s = Some r \<Longrightarrow>
   xrun u host (as @ bs) s = (case r of Fall t \<Rightarrow> xrun u host bs t | Exit w t \<Rightarrow> Some (Exit w t))"
proof (induction u host as s rule: xrun.induct)
  case (2 u host b as s)
  obtain i rest q where d: "x86_decode (b # as) = Some (i, rest)" "x86_ctl u host i (length rest) s = Some q"
    using "2.prems" by (auto split: option.splits)
  have d': "x86_decode (b # as @ bs) = Some (i, rest @ bs)"
    using x86_decode_append [OF d(1), of bs] by simp
  have c': "x86_ctl u host i (length rest + length bs) s = Some q"
    by (rule x86_ctl_more [OF d(2)]) simp
  show ?case
  proof (cases q)
    case (Inl a)
    obtain k t where a: "a = (k, t)" by (cases a)
    show ?thesis
      using "2.IH" [OF d(1) refl d(2) Inl a [symmetric]] "2.prems" d d' c' Inl a x86_ctl_within [of u host i "length rest" s k t] by simp
  next
    case (Inr a)
    then show ?thesis using "2.prems" d d' c' by (cases a) auto
  qed
qed auto

end
