(* ===== verification/Arm_Sem.thy ===== *)
theory Arm_Sem
  imports Isa X86
begin

text \<open>
  What the ARM instructions mean, as the processor's manual defines them: the state a data
  instruction sees, the conditions, the shifter operand, the sixteen data processing
  operations with their flags, and the multiplications. This is the reference the
  generated code is compared with.
\<close>

section \<open>State\<close>

record arm =
  areg :: "u32 \<Rightarrow> u32"
  aN :: bool
  aZ :: bool
  aC :: bool
  aV :: bool

section \<open>Conditions\<close>

definition arm_cond :: "condition \<Rightarrow> arm \<Rightarrow> bool" where
  "arm_cond cond a =
    (case cond of
       EQ \<Rightarrow> aZ a | NE \<Rightarrow> \<not> aZ a | CS \<Rightarrow> aC a | CC \<Rightarrow> \<not> aC a | MI \<Rightarrow> aN a | PL \<Rightarrow> \<not> aN a
     | VS \<Rightarrow> aV a | VC \<Rightarrow> \<not> aV a | HI \<Rightarrow> aC a \<and> \<not> aZ a | LS \<Rightarrow> \<not> aC a \<or> aZ a
     | GE \<Rightarrow> aN a = aV a | LT \<Rightarrow> aN a \<noteq> aV a | GT \<Rightarrow> \<not> aZ a \<and> aN a = aV a | LE \<Rightarrow> aZ a \<or> aN a \<noteq> aV a
     | AL \<Rightarrow> True | NV \<Rightarrow> True)"

section \<open>The shifter operand\<close>

text \<open>The value shifted by a constant, and the carry out. The decoder turns a zero amount
  of the right shifts into 32 and that of the rotation into \<open>RRX\<close>.\<close>

definition arm_shift :: "shift_op \<Rightarrow> nat \<Rightarrow> u32 \<Rightarrow> bool \<Rightarrow> u32 \<times> bool" where
  "arm_shift sh n v c =
    (case sh of
       LSL \<Rightarrow> (if n = 0 then (v, c) else (push_bit n v, bit v (32 - n)))
     | LSR \<Rightarrow> (drop_bit n v, bit v (n - 1))
     | ASR \<Rightarrow> (if n = 32 then (if bit v 31 then 0xFFFFFFFF else 0, bit v 31) else (sar v n, bit v (n - 1)))
     | ROR \<Rightarrow> (word_rotr n v, bit v (n - 1))
     | RRX \<Rightarrow> (drop_bit 1 v OR (if c then 0x80000000 else 0), bit v 0))"

text \<open>The amounts the decoder delivers.\<close>

definition shift_ok :: "dctx \<Rightarrow> bool" where
  "shift_ok c =
    (case c_shift c of
       LSL \<Rightarrow> c_imm c < 32
     | LSR \<Rightarrow> 0 < c_imm c \<and> c_imm c \<le> 32
     | ASR \<Rightarrow> 0 < c_imm c \<and> c_imm c \<le> 32
     | ROR \<Rightarrow> 0 < c_imm c \<and> c_imm c < 32
     | RRX \<Rightarrow> c_imm c = 0)"

section \<open>Data processing\<close>

datatype dp =
  D_AND | D_EOR | D_SUB | D_RSB | D_ADD | D_ADC | D_SBC | D_RSC | D_TST | D_TEQ | D_CMP | D_CMN | D_ORR | D_MOV | D_BIC | D_MVN

text \<open>The result, the carry and the overflow of the operation on \<open>Rn\<close> and the shifter
  operand, from the carry and overflow before and the shifter's carry.\<close>

definition dp_value :: "dp \<Rightarrow> u32 \<Rightarrow> u32 \<Rightarrow> bool \<Rightarrow> u32" where
  "dp_value op a b c =
    (case op of
       D_AND \<Rightarrow> a AND b | D_EOR \<Rightarrow> a XOR b | D_SUB \<Rightarrow> a - b | D_RSB \<Rightarrow> b - a
     | D_ADD \<Rightarrow> a + b | D_ADC \<Rightarrow> a + b + (if c then 1 else 0)
     | D_SBC \<Rightarrow> a - b - (if c then 0 else 1) | D_RSC \<Rightarrow> b - a - (if c then 0 else 1)
     | D_TST \<Rightarrow> a AND b | D_TEQ \<Rightarrow> a XOR b | D_CMP \<Rightarrow> a - b | D_CMN \<Rightarrow> a + b
     | D_ORR \<Rightarrow> a OR b | D_MOV \<Rightarrow> b | D_BIC \<Rightarrow> a AND NOT b | D_MVN \<Rightarrow> NOT b)"

definition dp_carry :: "dp \<Rightarrow> u32 \<Rightarrow> u32 \<Rightarrow> bool \<Rightarrow> bool \<Rightarrow> bool" where
  "dp_carry op a b c shc =
    (case op of
       D_ADD \<Rightarrow> carry_of a b False | D_CMN \<Rightarrow> carry_of a b False | D_ADC \<Rightarrow> carry_of a b c
     | D_SUB \<Rightarrow> \<not> borrow_of a b False | D_CMP \<Rightarrow> \<not> borrow_of a b False | D_RSB \<Rightarrow> \<not> borrow_of b a False
     | D_SBC \<Rightarrow> \<not> borrow_of a b (\<not> c) | D_RSC \<Rightarrow> \<not> borrow_of b a (\<not> c)
     | _ \<Rightarrow> shc)"

definition dp_overflow :: "dp \<Rightarrow> u32 \<Rightarrow> u32 \<Rightarrow> bool \<Rightarrow> bool \<Rightarrow> bool" where
  "dp_overflow op a b c v =
    (case op of
       D_ADD \<Rightarrow> add_overflow a b False | D_CMN \<Rightarrow> add_overflow a b False | D_ADC \<Rightarrow> add_overflow a b c
     | D_SUB \<Rightarrow> sub_overflow a b False | D_CMP \<Rightarrow> sub_overflow a b False | D_RSB \<Rightarrow> sub_overflow b a False
     | D_SBC \<Rightarrow> sub_overflow a b (\<not> c) | D_RSC \<Rightarrow> sub_overflow b a (\<not> c)
     | _ \<Rightarrow> v)"

definition is_test :: "dp \<Rightarrow> bool" where
  "is_test op = (op = D_TST \<or> op = D_TEQ \<or> op = D_CMP \<or> op = D_CMN)"

text \<open>The second operand: a constant, or a shifted register.\<close>

definition operand2 :: "bool \<Rightarrow> dctx \<Rightarrow> arm \<Rightarrow> u32 \<times> bool" where
  "operand2 reg c a =
    (if reg then arm_shift (c_shift c) (unat (c_imm c)) (areg a (c_rm c)) (aC a) else (c_imm c, aC a))"

definition arm_dp :: "dp \<Rightarrow> bool \<Rightarrow> dctx \<Rightarrow> arm \<Rightarrow> arm" where
  "arm_dp op reg c a =
    (let x = areg a (c_rn c); (y, shc) = operand2 reg c a; v = dp_value op x y (aC a);
         a' = (if is_test op then a else a\<lparr>areg := (areg a)(c_rd c := v)\<rparr>)
     in if c_flags c AND S_BIT \<noteq> 0 \<or> is_test op
        then a'\<lparr>aN := bit v 31, aZ := (v = 0), aC := dp_carry op x y (aC a) shc, aV := dp_overflow op x y (aC a) (aV a)\<rparr>
        else a')"

text \<open>The decoder's names of the operations.\<close>

definition dp_inst :: "inst \<Rightarrow> (dp \<times> bool) option" where
  "dp_inst i = switch i
     [(AND_I, Some (D_AND, False)), (AND_R, Some (D_AND, True)), (EOR_I, Some (D_EOR, False)), (EOR_R, Some (D_EOR, True)),
      (SUB_I, Some (D_SUB, False)), (SUB_R, Some (D_SUB, True)), (RSB_I, Some (D_RSB, False)), (RSB_R, Some (D_RSB, True)),
      (ADD_I, Some (D_ADD, False)), (ADD_R, Some (D_ADD, True)), (ADC_I, Some (D_ADC, False)), (ADC_R, Some (D_ADC, True)),
      (SBC_I, Some (D_SBC, False)), (SBC_R, Some (D_SBC, True)), (RSC_R, Some (D_RSC, True)),
      (TST_I, Some (D_TST, False)), (TST_R, Some (D_TST, True)), (TEQ_I, Some (D_TEQ, False)), (TEQ_R, Some (D_TEQ, True)),
      (CMP_I, Some (D_CMP, False)), (CMP_R, Some (D_CMP, True)), (CMN_I, Some (D_CMN, False)), (CMN_R, Some (D_CMN, True)),
      (ORR_I, Some (D_ORR, False)), (ORR_R, Some (D_ORR, True)), (MOV_I, Some (D_MOV, False)), (MOV_R, Some (D_MOV, True)),
      (BIC_I, Some (D_BIC, False)), (BIC_R, Some (D_BIC, True)), (MVN_I, Some (D_MVN, False)), (MVN_R, Some (D_MVN, True))]
     None"

lemma carry_of_commute: "carry_of a b c = carry_of b a c"
  by (simp add: carry_of_def add.commute)

lemma add_overflow_commute: "add_overflow a b c = add_overflow b a c"
  by (simp add: add_overflow_def add.commute)

end
