(* ===== verification/Jit_Exec.thy ===== *)
theory Jit_Exec
  imports Jit_Page X86 Arm_Sem
begin

text \<open>
  Running emitted code: the encodings the code generator uses, the emulated registers as
  memory slots behind \<^verbatim>\<open>ebp\<close>, and the effect of the shared pieces of
  code: storing and loading the flags, the shifter operand.
\<close>

named_theorems xrun \<open>evaluation of a piece of code\<close>

section \<open>Encodings\<close>

lemma x86_decode_Cons [xrun]: "x86_decode (b # bs) = x86_opcode b bs"
  by (simp add: x86_decode_def)

lemma x86_opcodes [xrun]:
  "x86_opcode 0x8B = with_reg (\<lambda>o' r. Mov r o')"
  "x86_opcode 0x89 = with_reg (\<lambda>o' r. Mov o' r)"
  "x86_opcode 0xC7 = with_num (\<lambda>n o'. with_imm32 (\<lambda>w. Mov o' (Im w)))"
  "x86_opcode 1 = with_reg (Alu 0)"
  "x86_opcode 3 = with_reg (\<lambda>o' r. Alu 0 r o')"
  "x86_opcode 9 = with_reg (Alu 1)"
  "x86_opcode 0x0B = with_reg (\<lambda>o' r. Alu 1 r o')"
  "x86_opcode 0x11 = with_reg (Alu 2)"
  "x86_opcode 0x13 = with_reg (\<lambda>o' r. Alu 2 r o')"
  "x86_opcode 0x19 = with_reg (Alu 3)"
  "x86_opcode 0x1B = with_reg (\<lambda>o' r. Alu 3 r o')"
  "x86_opcode 0x21 = with_reg (Alu 4)"
  "x86_opcode 0x23 = with_reg (\<lambda>o' r. Alu 4 r o')"
  "x86_opcode 0x29 = with_reg (Alu 5)"
  "x86_opcode 0x2B = with_reg (\<lambda>o' r. Alu 5 r o')"
  "x86_opcode 0x31 = with_reg (Alu 6)"
  "x86_opcode 0x33 = with_reg (\<lambda>o' r. Alu 6 r o')"
  "x86_opcode 0x39 = with_reg (Alu 7)"
  "x86_opcode 0x3B = with_reg (\<lambda>o' r. Alu 7 r o')"
  "x86_opcode 0x81 = with_num (\<lambda>n o'. with_imm32 (\<lambda>w. Alu (unat n) o' (Im w)))"
  "x86_opcode 0x83 = with_num (\<lambda>n o'. with_imm8 (\<lambda>d. Alu (unat n) o' (Im (sext8 d))))"
  "x86_opcode 5 = with_imm32 (\<lambda>w. Alu 0 (R EAX) (Im w))"
  "x86_opcode 0x0D = with_imm32 (\<lambda>w. Alu 1 (R EAX) (Im w))"
  "x86_opcode 0x15 = with_imm32 (\<lambda>w. Alu 2 (R EAX) (Im w))"
  "x86_opcode 0x1D = with_imm32 (\<lambda>w. Alu 3 (R EAX) (Im w))"
  "x86_opcode 0x25 = with_imm32 (\<lambda>w. Alu 4 (R EAX) (Im w))"
  "x86_opcode 0x2D = with_imm32 (\<lambda>w. Alu 5 (R EAX) (Im w))"
  "x86_opcode 0x35 = with_imm32 (\<lambda>w. Alu 6 (R EAX) (Im w))"
  "x86_opcode 0x3D = with_imm32 (\<lambda>w. Alu 7 (R EAX) (Im w))"
  "x86_opcode 0x85 = with_reg Test"
  "x86_opcode 0xF7 = with_num group_F7"
  "x86_opcode 0xFF = with_num group_FF"
  "x86_opcode 0xC1 = with_num (\<lambda>n o'. with_imm8 (\<lambda>d. Shift (unat n) o' (unat d)))"
  "x86_opcode 0xD1 = with_num (\<lambda>n o'. plain (Shift (unat n) o' 1))"
  "x86_opcode 0xD3 = with_num (\<lambda>n o'. plain (Shift_CL (unat n) o'))"
  "x86_opcode 0xD0 = with_num (\<lambda>n o'. if n = 1 \<and> o' = R EAX then plain Ror_AL else unknown)"
  "x86_opcode 0x8D = with_reg (\<lambda>o' r. Lea (case r of R x \<Rightarrow> x | _ \<Rightarrow> EAX) o')"
  "x86_opcode 0x8F = with_num (\<lambda>n o'. plain (Pop o'))"
  "x86_opcode 0xB8 = with_imm32 (\<lambda>w. Mov (R EAX) (Im w))"
  "x86_opcode 0xB9 = with_imm32 (\<lambda>w. Mov (R ECX) (Im w))"
  "x86_opcode 0xBA = with_imm32 (\<lambda>w. Mov (R EDX) (Im w))"
  "x86_opcode 0x50 = plain (Push (R EAX))"
  "x86_opcode 0x51 = plain (Push (R ECX))"
  "x86_opcode 0x54 = plain (Push (R ESP))"
  "x86_opcode 0x55 = plain (Push (R EBP))"
  "x86_opcode 0x58 = plain (Pop (R EAX))"
  "x86_opcode 0x59 = plain (Pop (R ECX))"
  "x86_opcode 0x5E = plain (Pop (R ESI))"
  "x86_opcode 0x6A = with_imm8 (\<lambda>d. Push (Im (sext8 d)))"
  "x86_opcode 0x43 = plain (Inc EBX)"
  "x86_opcode 0x49 = plain (Dec (R ECX))"
  "x86_opcode 0x9F = plain Lahf"
  "x86_opcode 0x9E = plain Sahf"
  "x86_opcode 0xF5 = plain Cmc"
  "x86_opcode 0x99 = plain Cdq"
  "x86_opcode 0x90 = plain Nop"
  "x86_opcode 0x0F = decode_0F"
  "x86_opcode 0x70 = with_imm8 (Jcc 0)"
  "x86_opcode 0x71 = with_imm8 (Jcc 1)"
  "x86_opcode 0x72 = with_imm8 (Jcc 2)"
  "x86_opcode 0x73 = with_imm8 (Jcc 3)"
  "x86_opcode 0x74 = with_imm8 (Jcc 4)"
  "x86_opcode 0x75 = with_imm8 (Jcc 5)"
  "x86_opcode 0x76 = with_imm8 (Jcc 6)"
  "x86_opcode 0x77 = with_imm8 (Jcc 7)"
  "x86_opcode 0x78 = with_imm8 (Jcc 8)"
  "x86_opcode 0x79 = with_imm8 (Jcc 9)"
  "x86_opcode 0x7C = with_imm8 (Jcc 12)"
  "x86_opcode 0x7D = with_imm8 (Jcc 13)"
  "x86_opcode 0x7E = with_imm8 (Jcc 14)"
  "x86_opcode 0x7F = with_imm8 (Jcc 15)"
  "x86_opcode 0xEB = with_imm8 Jmp_short"
  "x86_opcode 0xE8 = with_imm32 Call"
  "x86_opcode 0xE9 = with_imm32 Jmp"
  by (simp_all add: x86_opcode_def)

lemma modes_reg [xrun]:
  "with_reg f (0x45 # d # bs) = Some (f (M EBP d) (R EAX), bs)"
  "with_reg f (0x4D # d # bs) = Some (f (M EBP d) (R ECX), bs)"
  "with_reg f (0x55 # d # bs) = Some (f (M EBP d) (R EDX), bs)"
  "with_reg f (0x5D # d # bs) = Some (f (M EBP d) (R EBX), bs)"
  "with_reg f (0x65 # d # bs) = Some (f (M EBP d) (R ESP), bs)"
  "with_reg f (0x6D # d # bs) = Some (f (M EBP d) (R EBP), bs)"
  "with_reg f (0x75 # d # bs) = Some (f (M EBP d) (R ESI), bs)"
  "with_reg f (0x7D # d # bs) = Some (f (M EBP d) (R EDI), bs)"
  "with_reg f (0x40 # d # bs) = Some (f (M EAX d) (R EAX), bs)"
  "with_reg f (0x5B # d # bs) = Some (f (M EBX d) (R EBX), bs)"
  "with_reg f (0xC0 # bs) = Some (f (R EAX) (R EAX), bs)"
  "with_reg f (0xC1 # bs) = Some (f (R ECX) (R EAX), bs)"
  "with_reg f (0xC4 # bs) = Some (f (R ESP) (R EAX), bs)"
  "with_reg f (0xC8 # bs) = Some (f (R EAX) (R ECX), bs)"
  "with_reg f (0xC9 # bs) = Some (f (R ECX) (R ECX), bs)"
  "with_reg f (0xCE # bs) = Some (f (R ESI) (R ECX), bs)"
  "with_reg f (0xD0 # bs) = Some (f (R EAX) (R EDX), bs)"
  "with_reg f (0xD1 # bs) = Some (f (R ECX) (R EDX), bs)"
  "with_reg f (0xD2 # bs) = Some (f (R EDX) (R EDX), bs)"
  "with_reg f (0xD6 # bs) = Some (f (R ESI) (R EDX), bs)"
  "with_reg f (0xD8 # bs) = Some (f (R EAX) (R EBX), bs)"
  "with_reg f (0xD9 # bs) = Some (f (R ECX) (R EBX), bs)"
  "with_reg f (0xDE # bs) = Some (f (R ESI) (R EBX), bs)"
  "with_reg f (0xE0 # bs) = Some (f (R EAX) (R ESP), bs)"
  "with_reg f (0xE1 # bs) = Some (f (R ECX) (R ESP), bs)"
  "with_reg f (0xE8 # bs) = Some (f (R EAX) (R EBP), bs)"
  "with_reg f (0xE9 # bs) = Some (f (R ECX) (R EBP), bs)"
  "with_reg f (0xEC # bs) = Some (f (R ESP) (R EBP), bs)"
  "with_reg f (0xEE # bs) = Some (f (R ESI) (R EBP), bs)"
  "with_reg f (0xF8 # bs) = Some (f (R EAX) (R EDI), bs)"
  by (simp_all add: with_reg_def modrm_def reg_of_def)

lemma modes_num [xrun]:
  "with_num g (0x45 # d # bs) = g 0 (M EBP d) bs"
  "with_num g (0x4D # d # bs) = g 1 (M EBP d) bs"
  "with_num g (0x55 # d # bs) = g 2 (M EBP d) bs"
  "with_num g (0x5D # d # bs) = g 3 (M EBP d) bs"
  "with_num g (0x65 # d # bs) = g 4 (M EBP d) bs"
  "with_num g (0x6D # d # bs) = g 5 (M EBP d) bs"
  "with_num g (0x75 # d # bs) = g 6 (M EBP d) bs"
  "with_num g (0x7D # d # bs) = g 7 (M EBP d) bs"
  "with_num g (0x40 # d # bs) = g 0 (M EAX d) bs"
  "with_num g (0x5B # d # bs) = g 3 (M EBX d) bs"
  "with_num g (0xC0 # bs) = g 0 (R EAX) bs"
  "with_num g (0xC1 # bs) = g 0 (R ECX) bs"
  "with_num g (0xC4 # bs) = g 0 (R ESP) bs"
  "with_num g (0xC8 # bs) = g 1 (R EAX) bs"
  "with_num g (0xC9 # bs) = g 1 (R ECX) bs"
  "with_num g (0xCE # bs) = g 1 (R ESI) bs"
  "with_num g (0xD0 # bs) = g 2 (R EAX) bs"
  "with_num g (0xD1 # bs) = g 2 (R ECX) bs"
  "with_num g (0xD2 # bs) = g 2 (R EDX) bs"
  "with_num g (0xD6 # bs) = g 2 (R ESI) bs"
  "with_num g (0xD8 # bs) = g 3 (R EAX) bs"
  "with_num g (0xD9 # bs) = g 3 (R ECX) bs"
  "with_num g (0xDE # bs) = g 3 (R ESI) bs"
  "with_num g (0xE0 # bs) = g 4 (R EAX) bs"
  "with_num g (0xE1 # bs) = g 4 (R ECX) bs"
  "with_num g (0xE8 # bs) = g 5 (R EAX) bs"
  "with_num g (0xE9 # bs) = g 5 (R ECX) bs"
  "with_num g (0xEC # bs) = g 5 (R ESP) bs"
  "with_num g (0xEE # bs) = g 5 (R ESI) bs"
  "with_num g (0xF8 # bs) = g 7 (R EAX) bs"
  by (simp_all add: with_num_def modrm_def reg_of_def)

lemma group_F7_eqs [xrun]:
  "group_F7 0 o' = with_imm32 (\<lambda>w. Test o' (Im w))" "group_F7 2 o' = plain (Not_op o')" "group_F7 3 o' = plain (Neg_op o')"
  "group_F7 4 o' = plain (Mul o')" "group_F7 5 o' = plain (Imul o')"
  by (simp_all add: group_F7_def)

lemma group_FF_eqs [xrun]: "group_FF 1 o' = plain (Dec o')" "group_FF 6 o' = plain (Push o')"
  by (simp_all add: group_FF_def)

lemma decode_0F_eqs [xrun]:
  "decode_0F (0x90 # bs) = with_num (\<lambda>n o'. if o' = R EAX then plain Seto_AL else unknown) bs"
  "decode_0F (0x47 # bs) = with_reg (\<lambda>o' r. Cmova (case r of R x \<Rightarrow> x | _ \<Rightarrow> EAX) o') bs"
  "decode_0F (0xBE # bs) = with_reg (\<lambda>o' r. Movsx_EAX_AL) bs"
  by (simp_all add: decode_0F_def)

lemma sext8_0 [xrun]: "sext8 0 = 0"
  by (simp add: sext8_def)

lemma plain_eq [xrun]: "plain i bs = Some (i, bs)"
  by (simp add: plain_def)

lemma next32_bytes32: "next32 (bytes32 w @ bs) = Some (w, bs)"
proof -
  have "bytes32 w = [bytes32 w ! 0, bytes32 w ! 1, bytes32 w ! 2, bytes32 w ! 3]" by (simp add: bytes32_def)
  then obtain a b c d where "bytes32 w = [a, b, c, d]" by blast
  then show ?thesis using rd32_bytes32 [of w] by simp
qed

lemma with_imm_eqs [xrun]:
  "with_imm32 f (bytes32 w @ bs) = Some (f w, bs)" "with_imm32 f (bytes32 w) = Some (f w, [])"
  "with_imm8 g (d # bs) = Some (g d, bs)"
  using next32_bytes32 [of w bs] next32_bytes32 [of w "[]"] by (simp_all add: with_imm32_def with_imm8_def)

lemma alu_eqs [xrun]:
  "alu 0 a b c = (a + b, carry_of a b False, add_overflow a b False)"
  "alu (Suc 0) a b c = (a OR b, False, False)"
  "alu 2 a b c = (a + b + (if c then 1 else 0), carry_of a b c, add_overflow a b c)"
  "alu 3 a b c = (a - b - (if c then 1 else 0), borrow_of a b c, sub_overflow a b c)"
  "alu 4 a b c = (a AND b, False, False)"
  "alu 5 a b c = (a - b, borrow_of a b False, sub_overflow a b False)"
  "alu 6 a b c = (a XOR b, False, False)"
  "alu 7 a b c = (a - b, borrow_of a b False, sub_overflow a b False)"
  by (simp_all add: alu_def)

declare rd_opnd.simps(2) [simp del] wr_opnd.simps(2) [simp del]

section \<open>The emulated registers\<close>

text \<open>The words behind \<^verbatim>\<open>ebp\<close>: the registers, then \<^verbatim>\<open>cpsr\<close>, \<^verbatim>\<open>spsr\<close>,
  \<^verbatim>\<open>x86_flags\<close>, \<^verbatim>\<open>bpre\<close>, \<^verbatim>\<open>control_register\<close>.\<close>

abbreviation s_flags :: u32 where "s_flags \<equiv> 18"
abbreviation s_bpre :: u32 where "s_bpre \<equiv> 19"

definition slot :: "x86 \<Rightarrow> u32 \<Rightarrow> u32" where
  "slot s r = memw s (gpr s EBP + 4 * r)"

definition set_slot :: "u32 \<Rightarrow> u32 \<Rightarrow> x86 \<Rightarrow> x86" where
  "set_slot r v s = s\<lparr>memw := (memw s)(gpr s EBP + 4 * r := v)\<rparr>"

definition ctx_ok :: "x86 \<Rightarrow> bool" where
  "ctx_ok s = (gpr s EBP AND 3 = 0)"

lemma sext8_REG:
  assumes "r < 32"
  shows "sext8 (REG r) = 4 * r"
proof -
  have low: "\<not> bit r i" if "5 \<le> i" for i using bit_below [of r 5 i] assms that by auto
  have "4 * r = push_bit 2 r" by (simp add: push_bit_eq_mult)
  then show ?thesis using low
    by (intro u32_eqI) (auto simp: sext8_def REG_def bit_simps min_def)
qed

lemma and3_add:
  assumes "a AND 3 = (0::u32)"
  shows "(a + 4 * r) AND 3 = 0"
proof -
  have "unat (a + 4 * r) = (unat a + 4 * unat r) mod 4294967296" by (simp add: unat_word_ariths mod_simps)
  moreover have "(unat a + 4 * unat r) mod 4294967296 mod 4 = (unat a + 4 * unat r) mod 4"
    by (rule mod_mod_cancel) simp
  ultimately show ?thesis using assms unfolding aligned_mod4 by simp
qed

lemma slot_inject:
  assumes "r < 32" "r' < (32::u32)"
  shows "(b + 4 * r = b + 4 * r') = (r = r')"
proof -
  have u: "unat (4 * x) = 4 * unat x" if "x < 32" for x :: u32
    using that by (simp add: unat_word_ariths word_less_nat_alt)
  have "r = r'" if "4 * r = 4 * r'"
    using u [OF assms(1)] u [OF assms(2)] that by (simp add: word_unat_eq_iff)
  then show ?thesis by auto
qed

lemma rd_slot [xrun]: "ctx_ok s \<Longrightarrow> r < 32 \<Longrightarrow> rd_opnd (M EBP (REG r)) s = Some (slot s r)"
  by (simp add: ctx_ok_def sext8_REG and3_add slot_def rd_opnd.simps(2))

lemma wr_slot [xrun]: "ctx_ok s \<Longrightarrow> r < 32 \<Longrightarrow> wr_opnd (M EBP (REG r)) v s = Some (set_slot r v s)"
  by (simp add: ctx_ok_def sext8_REG and3_add set_slot_def wr_opnd.simps(2))

lemma REG_offsets: "0x40 = REG 16" "0x44 = REG 17" "0x48 = REG 18" "0x4C = REG 19" "0x50 = REG 20"
  by (simp_all add: REG_def)

lemma rd_slot_offset [xrun]:
  assumes "ctx_ok s"
  shows "rd_opnd (M EBP 0x40) s = Some (slot s 16)" "rd_opnd (M EBP 0x44) s = Some (slot s 17)"
    "rd_opnd (M EBP 0x48) s = Some (slot s 18)" "rd_opnd (M EBP 0x4C) s = Some (slot s 19)"
    "rd_opnd (M EBP 0x50) s = Some (slot s 20)"
  unfolding REG_offsets by (rule rd_slot [OF assms], simp)+

lemma wr_slot_offset [xrun]:
  assumes "ctx_ok s"
  shows "wr_opnd (M EBP 0x40) v s = Some (set_slot 16 v s)" "wr_opnd (M EBP 0x44) v s = Some (set_slot 17 v s)"
    "wr_opnd (M EBP 0x48) v s = Some (set_slot 18 v s)" "wr_opnd (M EBP 0x4C) v s = Some (set_slot 19 v s)"
    "wr_opnd (M EBP 0x50) v s = Some (set_slot 20 v s)"
  unfolding REG_offsets by (rule wr_slot [OF assms], simp)+

section \<open>States\<close>

named_theorems xstate \<open>fields of updated states\<close>

lemma gpr_set_gpr [xstate]: "gpr (set_gpr x v s) y = (if x = y then v else gpr s y)"
  by (simp add: set_gpr_def)

lemma set_gpr_frame [xstate]:
  "memw (set_gpr x v s) = memw s" "cf (set_gpr x v s) = cf s" "zf (set_gpr x v s) = zf s"
  "sf (set_gpr x v s) = sf s" "ovf (set_gpr x v s) = ovf s"
  by (simp_all add: set_gpr_def)

lemma set_slot_frame [xstate]:
  "gpr (set_slot r v s) = gpr s" "cf (set_slot r v s) = cf s" "zf (set_slot r v s) = zf s"
  "sf (set_slot r v s) = sf s" "ovf (set_slot r v s) = ovf s"
  by (simp_all add: set_slot_def)

lemma nz_flags_frame [xstate]:
  "gpr (nz_flags v s) = gpr s" "memw (nz_flags v s) = memw s" "cf (nz_flags v s) = cf s" "ovf (nz_flags v s) = ovf s"
  "zf (nz_flags v s) = (v = 0)" "sf (nz_flags v s) = bit v 31"
  by (simp_all add: nz_flags_def)

lemma slot_set_slot [xstate]: "r < 32 \<Longrightarrow> r' < 32 \<Longrightarrow> slot (set_slot r v s) r' = (if r = r' then v else slot s r')"
  by (simp add: slot_def set_slot_def) (metis slot_inject)

lemma slot_frame [xstate]:
  "x \<noteq> EBP \<Longrightarrow> slot (set_gpr x v s) = slot s" "slot (nz_flags v s) = slot s"
  "slot (s\<lparr>cf := c\<rparr>) = slot s" "slot (s\<lparr>ovf := c\<rparr>) = slot s" "slot (s\<lparr>zf := c\<rparr>) = slot s" "slot (s\<lparr>sf := c\<rparr>) = slot s"
  by (simp_all add: slot_def fun_eq_iff xstate)

lemma ctx_ok_frame [xstate]:
  "x \<noteq> EBP \<Longrightarrow> ctx_ok (set_gpr x v s) = ctx_ok s" "ctx_ok (nz_flags v s) = ctx_ok s" "ctx_ok (set_slot r v s) = ctx_ok s"
  "ctx_ok (s\<lparr>cf := c\<rparr>) = ctx_ok s" "ctx_ok (s\<lparr>ovf := c\<rparr>) = ctx_ok s" "ctx_ok (s\<lparr>zf := c\<rparr>) = ctx_ok s"
  "ctx_ok (s\<lparr>sf := c\<rparr>) = ctx_ok s"
  by (simp_all add: ctx_ok_def xstate)

text \<open>The emulated processor.\<close>

definition arm_of :: "x86 \<Rightarrow> arm" where
  "arm_of s = \<lparr>areg = (\<lambda>r. if r < 16 then slot s r else 0), aN = bit (slot s s_flags) 15, aZ = bit (slot s s_flags) 14,
     aC = bit (slot s s_flags) 8, aV = bit (slot s s_flags) 0\<rparr>"

text \<open>What a piece of code leaves alone: the host registers not in \<open>rs\<close>, the slots not
  in \<open>ss\<close>, and memory but the slots and the free part of the stack.\<close>

definition outside :: "x86 \<Rightarrow> u32 \<Rightarrow> bool" where
  "outside s a = ((\<forall>r < 32. a \<noteq> gpr s EBP + 4 * r) \<and> (\<forall>k. 0 < k \<and> k < 64 \<longrightarrow> a \<noteq> gpr s ESP - 4 * k))"

definition keeps :: "x86_reg set \<Rightarrow> u32 set \<Rightarrow> x86 \<Rightarrow> x86 \<Rightarrow> bool" where
  "keeps rs ss s t = ((\<forall>x. x \<notin> rs \<longrightarrow> gpr t x = gpr s x) \<and> (\<forall>r < 32. r \<notin> ss \<longrightarrow> slot t r = slot s r) \<and>
     (\<forall>a. outside s a \<longrightarrow> memw t a = memw s a))"

lemma outside_frame [xstate]:
  "x \<noteq> EBP \<Longrightarrow> x \<noteq> ESP \<Longrightarrow> outside (set_gpr x v s) a = outside s a" "outside (nz_flags v s) a = outside s a"
  "outside (set_slot r v s) a = outside s a" "outside (s\<lparr>cf := c\<rparr>) a = outside s a" "outside (s\<lparr>ovf := c\<rparr>) a = outside s a"
  "outside (s\<lparr>zf := c\<rparr>) a = outside s a" "outside (s\<lparr>sf := c\<rparr>) a = outside s a"
  by (simp_all add: outside_def xstate)

text \<open>The stack is away from the emulated registers.\<close>

definition stack_ok :: "x86 \<Rightarrow> bool" where
  "stack_ok s = (gpr s ESP AND 3 = 0 \<and> 0x400 \<le> gpr s ESP - gpr s EBP)"

lemma stack_apart:
  assumes "stack_ok s" "r < 32" "k < 64"
  shows "gpr s EBP + 4 * r \<noteq> gpr s ESP - 4 * k"
proof
  assume "gpr s EBP + 4 * r = gpr s ESP - 4 * k"
  then have e: "gpr s ESP - gpr s EBP = 4 * (r + k)" by (simp add: algebra_simps)
  have "unat (4 * (r + k)) \<le> 4 * (unat r + unat k)"
    by (simp add: unat_word_ariths mod_mult_right_eq)
  also have "\<dots> < 0x400" using assms(2,3) by (simp add: word_less_nat_alt)
  finally have "4 * (r + k) < 0x400" by (simp add: word_less_nat_alt)
  then have "\<not> 0x400 \<le> gpr s ESP - gpr s EBP" unfolding e by (simp only: not_le)
  then show False using assms(1) by (simp add: stack_ok_def)
qed

definition pushed :: "u32 \<Rightarrow> x86 \<Rightarrow> x86" where
  "pushed v s = set_gpr ESP (gpr s ESP - 4) (s\<lparr>memw := (memw s)(gpr s ESP - 4 := v)\<rparr>)"

lemma push_word_eq [xrun]: "stack_ok s \<Longrightarrow> push_word v s = Some (pushed v s)"
  using and3_add [of "gpr s ESP" "-1"] by (simp add: push_word_def pushed_def stack_ok_def Let_def)

lemma pushed_frame [xstate]:
  "gpr (pushed v s) x = (if x = ESP then gpr s ESP - 4 else gpr s x)" "cf (pushed v s) = cf s" "zf (pushed v s) = zf s"
  "sf (pushed v s) = sf s" "ovf (pushed v s) = ovf s" "ctx_ok (pushed v s) = ctx_ok s"
  "memw (pushed v s) (gpr s ESP - 4) = v"
  by (simp_all add: pushed_def xstate ctx_ok_def)

lemma slot_pushed [xstate]: "stack_ok s \<Longrightarrow> r < 32 \<Longrightarrow> slot (pushed v s) r = slot s r"
  using stack_apart [of s r 1] by (simp add: slot_def xstate) (simp add: pushed_def xstate)

lemma memw_pushed: "outside s a \<Longrightarrow> memw (pushed v s) a = memw s a"
  by (auto simp: pushed_def xstate outside_def dest: spec [of _ 1])

section \<open>Pieces of code\<close>

text \<open>The bytes an emitting function appends; nothing but the flag state changes besides.\<close>

definition emits :: "(emitter \<Rightarrow> emitter) \<Rightarrow> emitter \<Rightarrow> u8 list \<Rightarrow> bool" where
  "emits f e bs = (out (f e) = out e @ bs \<and> ectx (f e) = ectx e \<and> INST_BITS (f e) = INST_BITS e \<and> inst_no (f e) = inst_no e \<and>
     lookahead_s (f e) = lookahead_s e \<and> fns (f e) = fns e)"

text \<open>Emitted code takes the host from \<open>s\<close> to \<open>t\<close>, at its end.\<close>

definition does :: "x86_undef \<Rightarrow> (u32 \<Rightarrow> x86 \<Rightarrow> x86 option) \<Rightarrow> (emitter \<Rightarrow> emitter) \<Rightarrow> emitter \<Rightarrow> x86 \<Rightarrow> x86 \<Rightarrow> bool" where
  "does u host f e s t = (\<exists>bs. emits f e bs \<and> xrun u host bs s = Some (Fall t))"

lemma doesI: "emits f e bs \<Longrightarrow> xrun u host bs s = Some (Fall t) \<Longrightarrow> does u host f e s t"
  by (auto simp: does_def)

lemma does_steps_Nil: "does u host (steps []) e s s"
  by (rule doesI [of _ _ "[]"]) (simp_all add: emits_def)

lemma does_steps_Cons:
  assumes "does u host f e s t" "does u host (steps fs) (f e) t t'"
  shows "does u host (steps (f # fs)) e s t'"
proof -
  obtain as bs where "emits f e as" "xrun u host as s = Some (Fall t)" "emits (steps fs) (f e) bs"
    "xrun u host bs t = Some (Fall t')"
    using assms by (auto simp: does_def)
  then show ?thesis by (intro doesI [of _ _ "as @ bs"]) (simp_all add: emits_def xrun_append)
qed

lemma does_env: 
  assumes "does u host f e s t"
  shows "ectx (f e) = ectx e" "INST_BITS (f e) = INST_BITS e" "inst_no (f e) = inst_no e" "lookahead_s (f e) = lookahead_s e"
    "fns (f e) = fns e"
  using assms by (auto simp: does_def emits_def)

text \<open>Straight pieces by evaluation.\<close>

lemmas emit_simps = emit_def write32_def Let_def break_if_pc_def only_if_def

lemma does_skip: "does u host (\<lambda>e. e) e s s"
  by (rule doesI [of _ _ "[]"]) (simp_all add: emits_def)

section \<open>Flags\<close>

lemma flag_bits:
  "bit (lahf_byte u s) 7 = sf s" "bit (lahf_byte u s) 6 = zf s" "bit (lahf_byte u s) 0 = cf s"
  by (auto simp: lahf_byte_def bit_simps bit_numeral_rec)

lemma keepsI:
  assumes "\<And>x. x \<notin> rs \<Longrightarrow> gpr t x = gpr s x" "\<And>r. r < 32 \<Longrightarrow> r \<notin> ss \<Longrightarrow> slot t r = slot s r"
    "\<And>a. outside s a \<Longrightarrow> memw t a = memw s a"
  shows "keeps rs ss s t"
  using assms by (auto simp: keeps_def)

lemma keeps_trans: "keeps rs ss s t \<Longrightarrow> keeps rs' ss' t t' \<Longrightarrow> EBP \<notin> rs \<Longrightarrow> ESP \<notin> rs \<Longrightarrow>
    keeps (rs \<union> rs') (ss \<union> ss') s t'"
  by (simp add: keeps_def outside_def)

lemma memw_set_slot [xstate]: "outside s a \<Longrightarrow> q < 32 \<Longrightarrow> memw (set_slot q v s) a = memw s a"
  by (auto simp: set_slot_def outside_def)

text \<open>The stored flags have zeros around the overflow bit, which the rotation relies on.\<close>

definition flags_wf :: "x86 \<Rightarrow> bool" where
  "flags_wf s = (\<not> bit (slot s s_flags) 7)"

lemma does_store_flags:
  assumes "ctx_ok s"
  shows "\<exists>t. does u host store_flags e s t \<and> keeps {EAX} {s_flags} s t \<and>
    sf t = sf s \<and> zf t = zf s \<and> cf t = cf s \<and> ovf t = ovf s \<and>
    (if lookahead_s e then slot t s_flags = slot s s_flags else
      bit (slot t s_flags) 15 = sf s \<and> bit (slot t s_flags) 14 = zf s \<and> bit (slot t s_flags) 8 = cf s \<and>
      bit (slot t s_flags) 0 = ovf s \<and> flags_wf t)"
proof (cases "lookahead_s e")
  case True
  then show ?thesis
    by (intro exI [of _ s] conjI keepsI doesI [of _ _ "[]"]) (simp_all add: emits_def store_flags_def)
next
  case False
  define s1 where "s1 = set_gpr EAX ((gpr s EAX AND NOT 0xFF) OR (if ovf s then 1 else 0)) s"
  define w where "w = (gpr s1 EAX AND NOT 0xFF00) OR push_bit 8 (lahf_byte u s1)"
  have w: "bit w 15 = sf s" "bit w 14 = zf s" "bit w 8 = cf s" "bit w 0 = ovf s" "\<not> bit w 7"
    by (simp_all add: w_def s1_def bit_simps bit_numeral_rec flag_bits xstate)
  have "emits store_flags e [0x0F, 0x90, 0xC0, 0x9F, 0x89, 0x45, OFF_x86_flags]"
    using False by (simp add: emits_def store_flags_def emit_simps)
  moreover have "xrun u host [0x0F, 0x90, 0xC0, 0x9F, 0x89, 0x45, OFF_x86_flags] s = Some (Fall (set_slot 18 w (set_gpr EAX w s1)))"
    using assms by (simp add: xrun xstate s1_def w_def)
  ultimately have "does u host store_flags e s (set_slot 18 w (set_gpr EAX w s1))" by (rule doesI)
  then show ?thesis using False w
    by (intro exI [of _ "set_slot 18 w (set_gpr EAX w s1)"] conjI keepsI) (simp_all add: xstate s1_def flags_wf_def)
qed

definition flags_live :: "x86 \<Rightarrow> bool" where
  "flags_live s = (sf s = bit (slot s s_flags) 15 \<and> zf s = bit (slot s s_flags) 14 \<and> cf s = bit (slot s s_flags) 8 \<and>
     ovf s = bit (slot s s_flags) 0)"

lemma does_ex:
  "emits f e bs \<Longrightarrow> \<exists>t. xrun u host bs s = Some (Fall t) \<and> P t \<Longrightarrow> \<exists>t. does u host f e s t \<and> P t"
  by (auto simp: does_def)

lemma does_load_flags:
  assumes "ctx_ok s" "flags_wf s"
  shows "\<exists>t. does u host load_flags e s t \<and> keeps {EAX} {} s t \<and> flags_live t \<and> memw t = memw s"
proof (rule does_ex)
  show "emits load_flags e [0x8B, 0x45, OFF_x86_flags, 0xD0, 0xC8, 0x9E]"
    by (simp add: emits_def load_flags_def emit_simps)
  show "\<exists>t. xrun u host [0x8B, 0x45, OFF_x86_flags, 0xD0, 0xC8, 0x9E] s = Some (Fall t) \<and> keeps {EAX} {} s t \<and>
      flags_live t \<and> memw t = memw s"
    using assms by (simp add: xrun xstate Let_def keeps_def flags_live_def flags_wf_def bit_simps bit_numeral_rec)
qed

section \<open>The shifter operand\<close>

lemma exec_shift_eq [xrun]:
  "0 < n \<Longrightarrow> n < 32 \<Longrightarrow> exec_shift u k o' n s =
    Option.bind (rd_opnd o' s) (\<lambda>v. Option.bind (shift_op k v n (cf s)) (\<lambda>(w, c, ov, nz).
      let s = s\<lparr>cf := c, ovf := (case ov of Some b \<Rightarrow> b | None \<Rightarrow> u s 0)\<rparr>; s = (if nz then nz_flags w s else s)
      in wr_opnd o' w s))"
  by (simp add: exec_shift_def)

lemma shift_op_eqs [xrun]:
  "shift_op (Suc 0) v n c = (let w = word_rotr n v in Some (w, bit w 31, if n = 1 then Some (bit w 31 \<noteq> bit w 30) else None, False))"
  "shift_op 2 v (Suc 0) c = (let w = push_bit 1 v OR (if c then 1 else 0) in Some (w, bit v 31, Some (bit w 31 \<noteq> bit v 31), False))"
  "shift_op 3 v (Suc 0) c =
    (let w = drop_bit 1 v OR (if c then 0x80000000 else 0) in Some (w, bit v 0, Some (bit w 31 \<noteq> bit w 30), False))"
  "shift_op 4 v n c = (let w = push_bit n v in Some (w, bit v (32 - n), if n = 1 then Some (bit w 31 \<noteq> bit v 31) else None, True))"
  "shift_op 5 v n c = Some (drop_bit n v, bit v (n - 1), if n = 1 then Some (bit v 31) else None, True)"
  "shift_op 7 v n c = Some (sar v n, bit v (n - 1), if n = 1 then Some False else None, True)"
  by (simp_all add: shift_op_def)

lemma unat_ucast_u8: "n < 256 \<Longrightarrow> unat (ucast (n::u32) :: u8) = unat n"
  by (simp add: unsigned_ucast_eq unsigned_take_bit_eq word_less_nat_alt take_bit_nat_eq_self)

lemma double_bit_0: "\<not> bit (x * 2 :: u32) 0"
  by (simp add: bit_0)

lemma sar_sign: "sar v 31 = (if bit v 31 then 0xFFFFFFFF else 0)"
  by (rule u32_eqI) (auto simp: sar_def bit_signed_drop_bit_iff bit_numeral_rec)

lemma sar_all: "sar (sar v 31) (Suc 0) = (if bit v 31 then 0xFFFFFFFF else 0)" "bit (sar v 31) 0 = bit v 31"
  unfolding sar_sign by (simp_all add: sar_def)

text \<open>An amount that is emitted as it is.\<close>

definition shift_amount :: "u32 \<Rightarrow> bool" where
  "shift_amount n = (0 < n \<and> n < 32)"

text \<open>The emitted bytes of the shift, and what they do.\<close>

lemmas shifter_defs = load_shifter_imm_def load_eax_reg_or_pc_def shift_eax_imm_def store_carry_def add_eax_def

lemma does_load_shifter_imm:
  fixes e :: emitter
  defines "c \<equiv> ectx e"
  assumes "ctx_ok s" "flags_wf s" "c_rm c < 15" "shift_ok c"
  shows "\<exists>t. does u host load_shifter_imm e s t \<and> keeps {EAX, ESI} {} s t \<and>
    gpr t EAX = fst (arm_shift (c_shift c) (unat (c_imm c)) (slot s (c_rm c)) (bit (slot s s_flags) 8)) \<and>
    bit (gpr t ESI) 0 = (if c_shift c = LSL \<and> c_imm c = 0 then cf s
      else snd (arm_shift (c_shift c) (unat (c_imm c)) (slot s (c_rm c)) (bit (slot s s_flags) 8))) \<and>
    (c_imm c \<noteq> 0 \<and> c_shift c \<noteq> ROR \<longrightarrow> sf t = bit (gpr t EAX) 31 \<and> zf t = (gpr t EAX = 0))"
proof -
  let ?n = "c_imm c"
  let ?P = "\<lambda>t. keeps {EAX, ESI} {} s t \<and>
    gpr t EAX = fst (arm_shift (c_shift c) (unat ?n) (slot s (c_rm c)) (bit (slot s s_flags) 8)) \<and>
    bit (gpr t ESI) 0 = (if c_shift c = LSL \<and> ?n = 0 then cf s
      else snd (arm_shift (c_shift c) (unat ?n) (slot s (c_rm c)) (bit (slot s s_flags) 8))) \<and>
    (?n \<noteq> 0 \<and> c_shift c \<noteq> ROR \<longrightarrow> sf t = bit (gpr t EAX) 31 \<and> zf t = (gpr t EAX = 0))"
  have r: "c_rm c < 32" "c_rm c \<noteq> 15" using assms by (auto simp: word_less_nat_alt)
  have plain: "\<exists>t. does u host load_shifter_imm e s t \<and> ?P t" if
    "emits load_shifter_imm e ([0x8B, 0x45, REG (c_rm c)] @ sh @ [0xD1, 0xD6])"
    "\<exists>t. xrun u host ([0x8B, 0x45, REG (c_rm c)] @ sh @ [0xD1, 0xD6]) s = Some (Fall t) \<and> ?P t" for sh
    using that by (rule does_ex)
  have n: "unat (ucast ?n :: u8) = unat ?n" "0 < unat ?n" "unat ?n < 32" "\<not> 32 \<le> ?n" "?n \<noteq> 0"
    if "shift_amount ?n"
    using that by (auto simp: shift_amount_def word_less_nat_alt word_le_nat_alt unat_ucast_u8)
  show ?thesis
  proof (cases "c_shift c")
    case LSL
    then have k: "?n < 32" using assms(5) by (simp add: shift_ok_def)
    show ?thesis
    proof (cases "?n = 0")
      case True
      show ?thesis
        by (rule plain [of "[]"]; use c_def LSL True r assms(2) in
          \<open>simp add: emits_def shifter_defs emit_simps xrun xstate keeps_def arm_shift_def bit_simps double_bit_0\<close>)
    next
      case False
      then have a: "shift_amount ?n" using k by (auto simp: shift_amount_def word_neq_0_conv)
      show ?thesis
        by (rule plain [of "[0xC1, 0xE0, ucast ?n]"]; use c_def LSL False r assms(2) n [OF a] in
          \<open>simp add: emits_def shifter_defs emit_simps xrun xstate keeps_def arm_shift_def bit_simps double_bit_0\<close>)
    qed
  next
    case LSR
    then have k: "0 < ?n" "?n \<le> 32" using assms(5) by (simp_all add: shift_ok_def)
    show ?thesis
    proof (cases "?n = 32")
      case True
      show ?thesis
        by (rule plain [of "[0xC1, 0xE8, 31, 0xC1, 0xE8, 1]"]; use c_def LSR True r assms(2) in
          \<open>simp add: emits_def shifter_defs emit_simps xrun xstate keeps_def arm_shift_def bit_simps double_bit_0\<close>)
    next
      case False
      then have a: "shift_amount ?n" using k by (auto simp: shift_amount_def word_neq_0_conv)
      show ?thesis
        by (rule plain [of "[0xC1, 0xE8, ucast ?n]"]; use c_def LSR False r assms(2) n [OF a] in
          \<open>simp add: emits_def shifter_defs emit_simps xrun xstate keeps_def arm_shift_def bit_simps double_bit_0\<close>)
    qed
  next
    case ASR
    then have k: "0 < ?n" "?n \<le> 32" using assms(5) by (simp_all add: shift_ok_def)
    show ?thesis
    proof (cases "?n = 32")
      case True
      show ?thesis
        by (rule plain [of "[0xC1, 0xF8, 31, 0xC1, 0xF8, 1]"]; use c_def ASR True r assms(2) in
          \<open>simp add: emits_def shifter_defs emit_simps xrun xstate keeps_def arm_shift_def bit_simps double_bit_0 sar_all\<close>)
    next
      case False
      then have a: "shift_amount ?n" using k by (auto simp: shift_amount_def word_neq_0_conv)
      show ?thesis
        by (rule plain [of "[0xC1, 0xF8, ucast ?n]"]; use c_def ASR False r assms(2) n [OF a] in
          \<open>simp add: emits_def shifter_defs emit_simps xrun xstate keeps_def arm_shift_def bit_simps double_bit_0\<close>)
    qed
  next
    case ROR
    then have a: "shift_amount ?n" using assms(5) by (auto simp: shift_ok_def shift_amount_def)
    then have m: "(31 + unat ?n) mod 32 = unat ?n - Suc 0" using n by (auto simp: mod_if)
    show ?thesis
      by (rule plain [of "[0xC1, 0xC8, ucast ?n]"]; use c_def ROR r assms(2) n [OF a] m in
          \<open>simp add: emits_def shifter_defs emit_simps xrun xstate keeps_def arm_shift_def bit_simps double_bit_0\<close>)
  next
    case RRX
    then have z: "?n = 0" using assms(5) by (simp add: shift_ok_def)
    obtain lf t1 where lf: "emits load_flags e lf" "xrun u host lf s = Some (Fall t1)" "keeps {EAX} {} s t1" "flags_live t1"
      using does_load_flags [OF assms(2,3)] unfolding does_def by metis
    have k1: "ctx_ok t1" "slot t1 (c_rm c) = slot s (c_rm c)" "slot t1 s_flags = slot s s_flags"
      using lf(3) assms(2) r by (simp_all add: keeps_def ctx_ok_def)
    have em: "emits load_shifter_imm e (lf @ [0x8B, 0x45, REG (c_rm c), 0xD1, 0xD8, 0xD1, 0xD6])"
      using lf(1) RRX r z by (simp add: emits_def shifter_defs emit_simps c_def)
    have "\<exists>t. xrun u host [0x8B, 0x45, REG (c_rm c), 0xD1, 0xD8, 0xD1, 0xD6] t1 = Some (Fall t) \<and> keeps {EAX, ESI} {} t1 t \<and>
        gpr t EAX = fst (arm_shift RRX 0 (slot s (c_rm c)) (bit (slot s s_flags) 8)) \<and>
        bit (gpr t ESI) 0 = snd (arm_shift RRX 0 (slot s (c_rm c)) (bit (slot s s_flags) 8))"
      using k1 r lf(4) by (simp add: xrun xstate keeps_def arm_shift_def bit_simps double_bit_0 flags_live_def)
    then obtain t where t: "xrun u host [0x8B, 0x45, REG (c_rm c), 0xD1, 0xD8, 0xD1, 0xD6] t1 = Some (Fall t)" "keeps {EAX, ESI} {} t1 t"
        "gpr t EAX = fst (arm_shift RRX 0 (slot s (c_rm c)) (bit (slot s s_flags) 8))"
        "bit (gpr t ESI) 0 = snd (arm_shift RRX 0 (slot s (c_rm c)) (bit (slot s s_flags) 8))" by blast
    have "does u host load_shifter_imm e s t"
      using em xrun_append [OF lf(2)] t(1) by (intro doesI) auto
    moreover have "keeps {EAX, ESI} {} s t" using keeps_trans [OF lf(3) t(2)] by (simp add: insert_commute)
    ultimately show ?thesis using t(3,4) RRX z by auto
  qed
qed

end
