(* ===== verification/Jit_Alu.thy ===== *)
theory Jit_Alu
  imports Jit_Exec
begin

text \<open>
  The code of the data processing instructions: each computes what \<open>Arm_Sem\<close> says.
\<close>

section \<open>Outcomes\<close>

definition scratch :: "x86_reg set" where
  "scratch = {EAX, ECX, EDX, ESI}"

text \<open>The operation before its flags are stored: the destination, if any, holds \<open>v\<close>;
  the host's flags are the ones claimed.\<close>

definition computes :: "u32 set \<Rightarrow> u32 \<Rightarrow> bool \<Rightarrow> bool option \<Rightarrow> bool option \<Rightarrow> x86 \<Rightarrow> x86 \<Rightarrow> bool" where
  "computes rd v nz c ov s t =
    (keeps scratch rd s t \<and> (\<forall>r \<in> rd. slot t r = v) \<and> (nz \<longrightarrow> sf t = bit v 31 \<and> zf t = (v = 0)) \<and>
     (\<forall>b. c = Some b \<longrightarrow> cf t = b) \<and> (\<forall>b. ov = Some b \<longrightarrow> ovf t = b))"

text \<open>The same after its flags are stored, if they are.\<close>

definition stores :: "bool \<Rightarrow> u32 set \<Rightarrow> u32 \<Rightarrow> bool \<Rightarrow> bool option \<Rightarrow> bool option \<Rightarrow> x86 \<Rightarrow> x86 \<Rightarrow> bool" where
  "stores set_flags rd v nz c ov s t =
    (keeps scratch (rd \<union> (if set_flags then {s_flags} else {})) s t \<and> (\<forall>r \<in> rd. slot t r = v) \<and>
     (set_flags \<longrightarrow> flags_wf t \<and> flags_live t \<and> (nz \<longrightarrow> bit (slot t s_flags) 15 = bit v 31 \<and> bit (slot t s_flags) 14 = (v = 0)) \<and>
       (\<forall>b. c = Some b \<longrightarrow> bit (slot t s_flags) 8 = b) \<and> (\<forall>b. ov = Some b \<longrightarrow> bit (slot t s_flags) 0 = b)))"

lemma steps_append: "steps (as @ bs) e = steps bs (steps as e)"
  by (induction as arbitrary: e) simp_all

lemma does_then:
  assumes "does u host f e s t" "does u host g (f e) t t'"
  shows "does u host (\<lambda>e. g (f e)) e s t'"
  using does_steps_Cons [OF assms(1) does_steps_Cons [OF assms(2) does_steps_Nil]] by (simp add: does_def emits_def)

lemma keeps_ctx_ok: "keeps rs ss s t \<Longrightarrow> EBP \<notin> rs \<Longrightarrow> ctx_ok s \<Longrightarrow> ctx_ok t"
  by (simp add: keeps_def ctx_ok_def)

lemma keeps_mono: "keeps rs ss s t \<Longrightarrow> rs \<subseteq> rs' \<Longrightarrow> ss \<subseteq> ss' \<Longrightarrow> keeps rs' ss' s t"
  by (auto simp: keeps_def)

lemma keeps_scratch_trans:
  assumes "keeps rs ss s t" "keeps rs' ss' t t'" "rs \<subseteq> scratch" "rs' \<subseteq> scratch" "ss \<union> ss' \<subseteq> ss''"
  shows "keeps scratch ss'' s t'"
proof (rule keeps_mono)
  show "keeps (rs \<union> rs') (ss \<union> ss') s t'"
    using assms(3) by (intro keeps_trans [OF assms(1,2)]) (auto simp: scratch_def)
qed (use assms in auto)

text \<open>Storing the flags keeps the outcome.\<close>

lemma computes_store_flags:
  assumes "ctx_ok s" "does u host f e s t" "computes rd v nz c ov s t" "s_flags \<notin> rd" "rd \<subseteq> {r. r < 32}"
  shows "\<exists>t'. does u host (\<lambda>e. store_flags (f e)) e s t' \<and> stores (\<not> lookahead_s e) rd v nz c ov s t'"
proof -
  have k: "keeps scratch rd s t" using assms(3) by (simp add: computes_def)
  have "ctx_ok t" using keeps_ctx_ok [OF k _ assms(1)] by (simp add: scratch_def)
  from does_store_flags [OF this, of u host "f e"] obtain t' where
    t': "does u host store_flags (f e) t t'" "keeps {EAX} {s_flags} t t'"
      "sf t' = sf t \<and> zf t' = zf t \<and> cf t' = cf t \<and> ovf t' = ovf t"
      "if lookahead_s (f e) then slot t' s_flags = slot t s_flags else
        bit (slot t' s_flags) 15 = sf t \<and> bit (slot t' s_flags) 14 = zf t \<and> bit (slot t' s_flags) 8 = cf t \<and>
        bit (slot t' s_flags) 0 = ovf t \<and> flags_wf t'" by blast
  have l: "lookahead_s (f e) = lookahead_s e" by (rule does_env [OF assms(2)])
  have k2: "keeps {EAX} (if lookahead_s e then {} else {s_flags}) t t'"
    using t'(2,4) l by (auto simp: keeps_def split: if_splits)
  have "keeps scratch (rd \<union> (if \<not> lookahead_s e then {s_flags} else {})) s t'"
    by (rule keeps_scratch_trans [OF k k2]) (auto simp: scratch_def)
  moreover have "\<forall>r \<in> rd. slot t' r = v"
    using assms(3-5) t'(2) by (auto simp: computes_def keeps_def)
  ultimately have "stores (\<not> lookahead_s e) rd v nz c ov s t'"
    using t'(3,4) l assms(3) by (auto simp: stores_def computes_def flags_live_def)
  then show ?thesis using does_then [OF assms(2) t'(1)] by blast
qed

lemma computes_update_flags:
  assumes "ctx_ok s" "does u host f e s t" "computes rd v nz c ov s t" "s_flags \<notin> rd" "rd \<subseteq> {r. r < 32}"
  shows "\<exists>t'. does u host (\<lambda>e. update_flags (f e)) e s t' \<and> stores (sbit e \<and> \<not> lookahead_s e) rd v nz c ov s t'"
proof (cases "sbit e")
  case True
  then have "update_flags (f e) = store_flags (f e)"
    using does_env(1) [OF assms(2)] by (simp add: update_flags_def only_if_def sbit_def)
  with computes_store_flags [OF assms] True show ?thesis by (auto simp: does_def emits_def)
next
  case False
  then have "update_flags (f e) = f e"
    using does_env(1) [OF assms(2)] by (simp add: update_flags_def only_if_def sbit_def)
  then show ?thesis using assms(2,3) False
    by (intro exI [of _ t]) (auto simp: does_def emits_def stores_def computes_def)
qed

section \<open>Constant operands\<close>

lemma does_cong: "does u host f e s t \<Longrightarrow> f e = g e \<Longrightarrow> does u host g e s t"
  by (simp add: does_def emits_def)

text \<open>Evaluation of a straight piece.\<close>

abbreviation code_at :: "(emitter \<Rightarrow> emitter) \<Rightarrow> emitter \<Rightarrow> u8 list" where
  "code_at f e \<equiv> drop (length (out e)) (out (f e))"

lemma computes_eval:
  "emits f e (code_at f e) \<Longrightarrow> \<exists>t. xrun u host (code_at f e) s = Some (Fall t) \<and> computes rd v nz c ov s t \<Longrightarrow>
    \<exists>t. does u host f e s t \<and> computes rd v nz c ov s t"
  by (rule does_ex)

lemma computes_after:
  assumes "does u host f e s t1" "keeps rs {} s t1" "rs \<subseteq> scratch" "rd \<subseteq> {r. r < 32}"
    "\<exists>t. does u host g (f e) t1 t \<and> computes rd v nz c ov t1 t"
  shows "\<exists>t. does u host (\<lambda>e. g (f e)) e s t \<and> computes rd v nz c ov s t"
proof -
  obtain t where t: "does u host g (f e) t1 t" "computes rd v nz c ov t1 t" using assms(5) by blast
  have "keeps scratch rd s t"
    by (rule keeps_scratch_trans [OF assms(2) _ assms(3) order_refl]) (use t(2) in \<open>auto simp: computes_def\<close>)
  with t(2) have "computes rd v nz c ov s t" by (simp add: computes_def)
  with does_then [OF assms(1) t(1)] show ?thesis by blast
qed

definition regs_ok :: "dctx \<Rightarrow> bool" where
  "regs_ok c = (c_rd c < 15 \<and> c_rn c < 15 \<and> c_rm c < 15)"

lemma regs_okD:
  assumes "regs_ok c"
  shows "c_rd c < 32" "c_rn c < 32" "c_rm c < 32" "c_rd c \<noteq> 15" "c_rn c \<noteq> 15" "c_rm c \<noteq> 15" "c_rd c \<noteq> 18" "c_rn c \<noteq> 18"
    "c_rm c \<noteq> 18" "c_rm c < 15"
  using assms by (auto simp: regs_ok_def word_less_nat_alt)

lemmas compute_simps = computes_def keeps_def scratch_def emits_def emit_simps xrun xstate

text \<open>The cores of the instructions: their steps without the flags.\<close>

definition alu_i_core :: "u8 \<Rightarrow> u8 \<Rightarrow> emitter \<Rightarrow> emitter" where
  "alu_i_core a b e = steps [break_if_pc (c_rn (ectx e)), break_if_pc (c_rd (ectx e)), alu_i a b] e"

lemma alu_i_computes:
  assumes "ctx_ok s" "regs_ok (ectx e)"
  shows
   "\<exists>t. does u host (alu_i_core 0x65 0x25) e s t \<and>
      computes {c_rd (ectx e)} (slot s (c_rn (ectx e)) AND c_imm (ectx e)) True None None s t"
   "\<exists>t. does u host (alu_i_core 0x75 0x35) e s t \<and>
      computes {c_rd (ectx e)} (slot s (c_rn (ectx e)) XOR c_imm (ectx e)) True None None s t"
   "\<exists>t. does u host (alu_i_core 0x4D 0x0D) e s t \<and>
      computes {c_rd (ectx e)} (slot s (c_rn (ectx e)) OR c_imm (ectx e)) True None None s t"
  using regs_okD [OF assms(2)] assms(1)
  by (cases "c_rn (ectx e) = c_rd (ectx e)"; intro computes_eval; simp add: compute_simps alu_i_core_def alu_i_def)+

definition bic_i_core :: "emitter \<Rightarrow> emitter" where
  "bic_i_core e =
    (let c = ectx e
     in steps [break_if_pc (c_rn c), break_if_pc (c_rd c), emit [0x8B, 0x45, REG (c_rn c)],
          emit [0x25], write32 (NOT (c_imm c)), emit [0x89, 0x45, REG (c_rd c)]] e)"

lemma bic_i_computes:
  assumes "ctx_ok s" "regs_ok (ectx e)"
  shows "\<exists>t. does u host bic_i_core e s t \<and>
    computes {c_rd (ectx e)} (slot s (c_rn (ectx e)) AND NOT (c_imm (ectx e))) True None None s t"
  using regs_okD [OF assms(2)] assms(1) by (intro computes_eval; simp add: compute_simps bic_i_core_def)

definition add_i_core :: "u8 \<Rightarrow> (u32 \<Rightarrow> u32) \<Rightarrow> emitter \<Rightarrow> emitter" where
  "add_i_core a f e =
    (let c = ectx e
     in steps [break_if_pc (c_rd c),
          (if c_rn c = c_rd c
           then steps [break_if_pc (c_rn c), emit [0x81, a, REG (c_rn c)], write32 (c_imm c)]
           else steps [load_ecx_reg_or_pc (c_rn c) (f (c_imm c)), emit [0x89, 0x4D, REG (c_rd c)]])] e)"

lemma add_i_computes:
  assumes "ctx_ok s" "regs_ok (ectx e)"
  defines "a \<equiv> slot s (c_rn (ectx e))" and "b \<equiv> c_imm (ectx e)"
  defines "live \<equiv> c_rn (ectx e) = c_rd (ectx e) \<or> b \<noteq> 0"
  shows
   "\<exists>t. does u host (add_i_core 0x45 (\<lambda>i. i)) e s t \<and> computes {c_rd (ectx e)} (a + b) live
      (if live then Some (carry_of a b False) else None) (if live then Some (add_overflow a b False) else None) s t"
   "\<exists>t. does u host (add_i_core 0x6D uminus) e s t \<and> computes {c_rd (ectx e)} (a - b) live None None s t"
  using regs_okD [OF assms(2)] assms(1)
  by (cases "c_rn (ectx e) = c_rd (ectx e)"; cases "b = 0"; intro computes_eval;
      simp add: compute_simps add_i_core_def load_ecx_reg_or_pc_def add_ecx_def a_def b_def live_def)+

lemma keeps_slots:
  assumes "keeps rs ss s t" "EBP \<notin> rs" "ctx_ok s"
  shows "ctx_ok t" "r < 32 \<Longrightarrow> r \<notin> ss \<Longrightarrow> slot t r = slot s r"
  using assms by (simp_all add: keeps_def ctx_ok_def)

text \<open>A piece that leaves a word in \<^verbatim>\<open>ecx\<close>, then the flags loaded.\<close>

lemma load_ecx_flags:
  assumes "ctx_ok s" "flags_wf s" "regs_ok (ectx e)"
  shows "\<exists>t. does u host (\<lambda>e. load_flags (load_ecx_reg_or_pc (c_rn (ectx e)) i e)) e s t \<and> keeps {EAX, ECX} {} s t \<and>
    gpr t ECX = slot s (c_rn (ectx e)) + i \<and> flags_live t"
proof -
  let ?f = "\<lambda>e. load_ecx_reg_or_pc (c_rn (ectx e)) i e"
  note r = regs_okD [OF assms(3)]
  have "\<exists>t. does u host ?f e s t \<and> keeps {ECX} {} s t \<and> gpr t ECX = slot s (c_rn (ectx e)) + i"
    using r assms(1) by (intro does_ex [of _ _ "code_at ?f e"]; cases "i = 0";
      simp add: compute_simps load_ecx_reg_or_pc_def add_ecx_def)
  then obtain t1 where t1: "does u host ?f e s t1" "keeps {ECX} {} s t1" "gpr t1 ECX = slot s (c_rn (ectx e)) + i" by blast
  have w: "ctx_ok t1" "flags_wf t1"
    using keeps_slots [OF t1(2) _ assms(1)] assms(2) by (simp_all add: flags_wf_def)
  obtain t where t: "does u host load_flags (?f e) t1 t" "keeps {EAX} {} t1 t" "flags_live t"
    using does_load_flags [OF w] by blast
  have "keeps {EAX, ECX} {} s t" using keeps_trans [OF t1(2) t(2)] by (simp add: insert_commute)
  moreover have "gpr t ECX = slot s (c_rn (ectx e)) + i" using t(2) t1(3) by (simp add: keeps_def)
  ultimately show ?thesis using does_then [OF t1(1) t(1)] t(3) by blast
qed

definition adc_i_core :: "emitter \<Rightarrow> emitter" where
  "adc_i_core e =
    (let c = ectx e
     in steps [break_if_pc (c_rd c),
          (if c_rn c = c_rd c
           then steps [break_if_pc (c_rn c), load_flags, emit [0x81, 0x55, REG (c_rn c)], write32 (c_imm c)]
           else steps [load_ecx_reg_or_pc (c_rn c) (c_imm c), load_flags, emit [0x83, 0xD1, 0],
                  emit [0x89, 0x4D, REG (c_rd c)]])] e)"

lemma adc_i_computes:
  assumes "ctx_ok s" "flags_wf s" "regs_ok (ectx e)"
  defines "a \<equiv> slot s (c_rn (ectx e))" and "b \<equiv> c_imm (ectx e)" and "c \<equiv> bit (slot s s_flags) 8"
  defines "same \<equiv> c_rn (ectx e) = c_rd (ectx e)"
  shows "\<exists>t. does u host adc_i_core e s t \<and> computes {c_rd (ectx e)} (a + b + (if c then 1 else 0)) True
    (if same then Some (carry_of a b c) else None) (if same then Some (add_overflow a b c) else None) s t"
proof (cases "c_rn (ectx e) = c_rd (ectx e)")
  case True
  note r = regs_okD [OF assms(3)]
  obtain t1 where t1: "does u host load_flags e s t1" "keeps {EAX} {} s t1" "flags_live t1"
    using does_load_flags [OF assms(1,2)] by blast
  let ?g = "\<lambda>e. steps [emit [0x81, 0x55, REG (c_rn (ectx e))], write32 (c_imm (ectx e))] e"
  have e1: "ectx (load_flags e) = ectx e" by (rule does_env [OF t1(1)])
  have "\<exists>t. does u host (\<lambda>e. ?g (load_flags e)) e s t \<and> computes {c_rd (ectx e)} (a + b + (if c then 1 else 0)) True
    (if same then Some (carry_of a b c) else None) (if same then Some (add_overflow a b c) else None) s t"
    using r keeps_slots [OF t1(2) _ assms(1)] t1(3) e1 True
    by (intro computes_after [OF t1(1,2)] computes_eval)
      (simp_all add: compute_simps flags_live_def a_def b_def c_def same_def)
  then show ?thesis
    using True r by (elim ex_forward conj_forward does_cong) (simp_all add: adc_i_core_def emit_simps e1)
next
  case False
  note r = regs_okD [OF assms(3)]
  let ?f = "\<lambda>e. load_flags (load_ecx_reg_or_pc (c_rn (ectx e)) (c_imm (ectx e)) e)"
  obtain t1 where t1: "does u host ?f e s t1" "keeps {EAX, ECX} {} s t1" "gpr t1 ECX = a + b" "flags_live t1"
    using load_ecx_flags [OF assms(1-3)] unfolding a_def b_def does_def emits_def by metis
  let ?g = "\<lambda>e. steps [emit [0x83, 0xD1, 0], emit [0x89, 0x4D, REG (c_rd (ectx e))]] e"
  have e1: "ectx (?f e) = ectx e" by (rule does_env [OF t1(1)])
  have "\<exists>t. does u host (\<lambda>e. ?g (?f e)) e s t \<and> computes {c_rd (ectx e)} (a + b + (if c then 1 else 0)) True
    (if same then Some (carry_of a b c) else None) (if same then Some (add_overflow a b c) else None) s t"
    using r keeps_slots [OF t1(2) _ assms(1)] t1(3,4) e1 False
    by (intro computes_after [OF t1(1,2)] computes_eval)
      (simp_all add: compute_simps flags_live_def a_def b_def c_def same_def)
  then show ?thesis
    using False r e1 by (elim ex_forward conj_forward does_cong) (simp_all add: adc_i_core_def emit_simps)
qed

definition sbc_i_core :: "bool \<Rightarrow> emitter \<Rightarrow> emitter" where
  "sbc_i_core fa e =
    (let c = ectx e
     in steps [only_if (\<not> fa) load_flags, emit [0x8B, 0x45, REG (c_rn c)], emit [0xF5],
          emit [0x1D], write32 (c_imm c), emit [0x89, 0x45, REG (c_rd c)]] e)"

text \<open>The flags, live already or loaded.\<close>

lemma live_flags:
  assumes "ctx_ok s" "flags_wf s" "fa \<longrightarrow> flags_live s"
  shows "\<exists>t. does u host (only_if (\<not> fa) load_flags) e s t \<and> keeps {EAX} {} s t \<and> flags_live t"
proof (cases fa)
  case True
  then show ?thesis using assms(3) by (intro exI [of _ s]) (simp add: only_if_def does_skip keeps_def)
next
  case False
  then show ?thesis using does_load_flags [OF assms(1,2), of u host e] by (auto simp: only_if_def)
qed

lemma sbc_i_computes:
  assumes "ctx_ok s" "flags_wf s" "fa \<longrightarrow> flags_live s" "regs_ok (ectx e)"
  defines "a \<equiv> slot s (c_rn (ectx e))" and "b \<equiv> c_imm (ectx e)" and "c \<equiv> bit (slot s s_flags) 8"
  shows "\<exists>t. does u host (sbc_i_core fa) e s t \<and> computes {c_rd (ectx e)} (a - b - (if c then 0 else 1)) True
    (Some (borrow_of a b (\<not> c))) (Some (sub_overflow a b (\<not> c))) s t"
proof -
  note r = regs_okD [OF assms(4)]
  let ?f = "only_if (\<not> fa) load_flags"
  obtain t1 where t1: "does u host ?f e s t1" "keeps {EAX} {} s t1" "flags_live t1"
    using live_flags [OF assms(1-3)] by blast
  let ?g = "\<lambda>e. steps [emit [0x8B, 0x45, REG (c_rn (ectx e))], emit [0xF5],
          emit [0x1D], write32 (c_imm (ectx e)), emit [0x89, 0x45, REG (c_rd (ectx e))]] e"
  have e1: "ectx (?f e) = ectx e" by (rule does_env [OF t1(1)])
  have "\<exists>t. does u host (\<lambda>e. ?g (?f e)) e s t \<and> computes {c_rd (ectx e)} (a - b - (if c then 0 else 1)) True
    (Some (borrow_of a b (\<not> c))) (Some (sub_overflow a b (\<not> c))) s t"
    using r keeps_slots [OF t1(2) _ assms(1)] t1(3) e1
    by (intro computes_after [OF t1(1,2)] computes_eval)
      (simp_all add: compute_simps flags_live_def a_def b_def c_def)
  then show ?thesis
    by (elim ex_forward conj_forward does_cong) (simp_all add: sbc_i_core_def Let_def e1)
qed

lemma mov_i_computes:
  assumes "ctx_ok s" "regs_ok (ectx e)"
  shows "\<exists>t. does u host (\<lambda>e. steps [break_if_pc (c_rd (ectx e)), emit [0xC7, 0x45, REG (c_rd (ectx e))], write32 (c_imm (ectx e)),
       emit [0x83, 0x4D, REG (c_rd (ectx e)), 0]] e) e s t \<and> computes {c_rd (ectx e)} (c_imm (ectx e)) True (Some False) (Some False) s t"
    "\<exists>t. does u host (\<lambda>e. steps [break_if_pc (c_rd (ectx e)), emit [0xC7, 0x45, REG (c_rd (ectx e))], write32 (c_imm (ectx e))] e) e s t \<and>
       computes {c_rd (ectx e)} (c_imm (ectx e)) False None None s t"
    "\<exists>t. does u host jit_MVN_I e s t \<and> computes {c_rd (ectx e)} (NOT (c_imm (ectx e))) False None None s t"
  using regs_okD [OF assms(2)] assms(1)
  by (intro computes_eval; simp add: compute_simps jit_MVN_I_def)+

text \<open>The reverse subtraction: the flags follow only where the operand is zero, and there is
  no code at all for another register and another constant.\<close>

definition rsb_i_core :: "emitter \<Rightarrow> emitter" where
  "rsb_i_core e =
    (let c = ectx e
     in steps [break_if_pc (c_rn c), break_if_pc (c_rd c),
          (if c_rn c = c_rd c
           then (if c_imm c = 0 then emit [0xF7, 0x5D, REG (c_rn c)]
                 else steps [emit [0xB8], write32 (c_imm c), emit [0x2B, 0x45, REG (c_rn c)],
                        emit [0x89, 0x45, REG (c_rd c)]])
           else (if c_imm c = 0
                 then steps [emit [0x8B, 0x45, REG (c_rn c)], emit [0xF7, 0xD8], emit [0x89, 0x45, REG (c_rd c)]]
                 else (\<lambda>e. e)))] e)"

lemma rsb_i_computes:
  assumes "ctx_ok s" "regs_ok (ectx e)" "c_rn (ectx e) = c_rd (ectx e) \<or> c_imm (ectx e) = 0"
  shows "\<exists>t. does u host rsb_i_core e s t \<and>
    computes {c_rd (ectx e)} (c_imm (ectx e) - slot s (c_rn (ectx e))) (c_imm (ectx e) = 0) None None s t"
  using regs_okD [OF assms(2)] assms(1,3)
  by (cases "c_rn (ectx e) = c_rd (ectx e)"; cases "c_imm (ectx e) = 0"; simp; intro computes_eval;
      simp add: compute_simps rsb_i_core_def)

text \<open>The comparisons.\<close>

lemma test_i_computes:
  assumes "ctx_ok s" "regs_ok (ectx e)"
  defines "a \<equiv> slot s (c_rn (ectx e))" and "b \<equiv> c_imm (ectx e)"
  shows
   "\<exists>t. does u host (\<lambda>e. steps [break_if_pc (c_rn (ectx e)), emit [0xF7, 0x45, REG (c_rn (ectx e))], write32 (c_imm (ectx e))] e) e s t \<and>
      computes {} (a AND b) True None None s t"
   "\<exists>t. does u host (\<lambda>e. steps [break_if_pc (c_rn (ectx e)), emit [0x81, 0x7D, REG (c_rn (ectx e))], write32 (c_imm (ectx e)), emit [0xF5]] e) e s t \<and>
      computes {} (a - b) True (Some (\<not> borrow_of a b False)) (Some (sub_overflow a b False)) s t"
   "\<exists>t. does u host (\<lambda>e. steps [break_if_pc (c_rn (ectx e)), emit [0xB8], write32 (c_imm (ectx e)), emit [0x03, 0x45, REG (c_rn (ectx e))]] e) e s t \<and>
      computes {} (a + b) True (Some (carry_of a b False)) (Some (add_overflow a b False)) s t"
  using regs_okD [OF assms(2)] assms(1)
  by (intro computes_eval; simp add: compute_simps a_def b_def carry_of_commute [of "c_imm (ectx e)"]
      add_overflow_commute [of "c_imm (ectx e)"] add.commute [of "c_imm (ectx e)"])+

section \<open>Register operands\<close>

text \<open>The shifter's value and carry, from the emulated registers.\<close>

definition sh_value :: "dctx \<Rightarrow> x86 \<Rightarrow> u32" where
  "sh_value c s = fst (arm_shift (c_shift c) (unat (c_imm c)) (slot s (c_rm c)) (bit (slot s s_flags) 8))"

definition sh_carry :: "dctx \<Rightarrow> x86 \<Rightarrow> bool" where
  "sh_carry c s = snd (arm_shift (c_shift c) (unat (c_imm c)) (slot s (c_rm c)) (bit (slot s s_flags) 8))"

definition unshifted :: "dctx \<Rightarrow> bool" where
  "unshifted c = (c_shift c = LSL \<and> c_imm c = 0)"

definition shifted :: "dctx \<Rightarrow> x86 \<Rightarrow> x86 \<Rightarrow> bool" where
  "shifted c s t =
    (ctx_ok t \<and> (\<forall>r < 32. slot t r = slot s r) \<and> gpr t EAX = sh_value c s \<and> (\<not> unshifted c \<longrightarrow> bit (gpr t ESI) 0 = sh_carry c s) \<and>
     (c_imm c \<noteq> 0 \<and> c_shift c \<noteq> ROR \<longrightarrow> sf t = bit (gpr t EAX) 31 \<and> zf t = (gpr t EAX = 0)))"

lemma shifter:
  assumes "ctx_ok s" "flags_wf s" "regs_ok (ectx e)" "shift_ok (ectx e)"
  shows "\<exists>t. does u host load_shifter_imm e s t \<and> keeps {EAX, ESI} {} s t \<and> shifted (ectx e) s t"
proof -
  obtain t where "does u host load_shifter_imm e s t" "keeps {EAX, ESI} {} s t" "gpr t EAX = sh_value (ectx e) s"
    "bit (gpr t ESI) 0 = (if unshifted (ectx e) then cf s else sh_carry (ectx e) s)"
    "c_imm (ectx e) \<noteq> 0 \<and> c_shift (ectx e) \<noteq> ROR \<longrightarrow> sf t = bit (gpr t EAX) 31 \<and> zf t = (gpr t EAX = 0)"
    using does_load_shifter_imm [OF assms(1,2) regs_okD(10) [OF assms(3)] assms(4), of u host]
    unfolding sh_value_def sh_carry_def unshifted_def by blast
  then show ?thesis using keeps_slots [of "{EAX, ESI}" "{}" s t] assms(1) by (auto simp: shifted_def)
qed

lemma shifter_then:
  assumes "ctx_ok s" "flags_wf s" "regs_ok (ectx e)" "shift_ok (ectx e)" "rd \<subseteq> {r. r < 32}"
    "\<And>t1 e1. ectx e1 = ectx e \<Longrightarrow> shifted (ectx e) s t1 \<Longrightarrow> keeps {EAX, ESI} {} s t1 \<Longrightarrow>
      \<exists>t. does u host (steps fs) e1 t1 t \<and> computes rd v nz c ov t1 t"
  shows "\<exists>t. does u host (steps (load_shifter_imm # fs)) e s t \<and> computes rd v nz c ov s t"
proof -
  obtain t1 where t1: "does u host load_shifter_imm e s t1" "keeps {EAX, ESI} {} s t1" "shifted (ectx e) s t1"
    using shifter [OF assms(1-4)] by blast
  have "\<exists>t. does u host (\<lambda>e. steps fs (load_shifter_imm e)) e s t \<and> computes rd v nz c ov s t"
    by (rule computes_after [OF t1(1,2) _ assms(5) assms(6) [OF does_env(1) [OF t1(1)] t1(3,2)]]) (simp add: scratch_def)
  then show ?thesis by (elim ex_forward conj_forward does_cong) simp
qed

text \<open>The operand to the right.\<close>

lemma y_left:
  "sh_value c s AND x = x AND sh_value c s" "NOT (sh_value c s) AND x = x AND NOT (sh_value c s)"
  "sh_value c s OR x = x OR sh_value c s" "sh_value c s XOR x = x XOR sh_value c s" "sh_value c s + x = x + sh_value c s"
  by (simp_all add: and.commute or.commute xor.commute add.commute)

lemma carry_left: "carry_of (sh_value c s) x b = carry_of x (sh_value c s) b"
  "add_overflow (sh_value c s) x b = add_overflow x (sh_value c s) b"
  by (rule carry_of_commute, rule add_overflow_commute)

lemma logic_r_computes:
  fixes e :: emitter
  defines "c \<equiv> ectx e"
  assumes "ctx_ok s" "flags_wf s" "regs_ok (ectx e)" "shift_ok (ectx e)"
  defines "a \<equiv> slot s (c_rn c)" and "y \<equiv> sh_value c s" and "sc \<equiv> if unshifted c then None else Some (sh_carry c s)"
  shows
   "\<exists>t. does u host (steps [load_shifter_imm, alu_r 0x21 0x23, load_carry]) e s t \<and> computes {c_rd c} (a AND y) True sc None s t"
   "\<exists>t. does u host (steps [load_shifter_imm, alu_r 0x31 0x33, load_carry]) e s t \<and> computes {c_rd c} (a XOR y) True sc None s t"
   "\<exists>t. does u host (steps [load_shifter_imm, emit [0xF7, 0xD0], alu_r 0x21 0x23, load_carry]) e s t \<and>
      computes {c_rd c} (a AND NOT y) True sc None s t"
   "\<exists>t. does u host (steps [load_shifter_imm, emit [0x0B, 0x45, REG (c_rn c)], emit [0x89, 0x45, REG (c_rd c)], load_carry]) e s t \<and>
      computes {c_rd c} (a OR y) True sc None s t"
  by ((rule shifter_then [OF assms(2-5)], simp add: regs_okD [OF assms(4)] c_def, cases "c_rn (ectx e) = c_rd (ectx e)"; intro computes_eval;
      simp add: compute_simps alu_r_def load_carry_def shifted_def a_def y_def sc_def c_def regs_okD [OF assms(4)] y_left)+)

lemma arith_r_computes:
  fixes e :: emitter
  defines "c \<equiv> ectx e"
  assumes "ctx_ok s" "flags_wf s" "regs_ok (ectx e)" "shift_ok (ectx e)"
  defines "a \<equiv> slot s (c_rn c)" and "y \<equiv> sh_value c s"
  shows
   "\<exists>t. does u host (steps [load_shifter_imm, alu_r 1 3]) e s t \<and>
      computes {c_rd c} (a + y) True (Some (carry_of a y False)) (Some (add_overflow a y False)) s t"
   "\<exists>t. does u host (steps [load_shifter_imm,
          (if c_rn c = c_rd c then emit [0x29, 0x45, REG (c_rn c)]
           else steps [emit [0x8B, 0x55, REG (c_rn c)], emit [0x2B, 0xD0], emit [0x89, 0x55, REG (c_rd c)]])]) e s t \<and>
      computes {c_rd c} (a - y) True None (Some (sub_overflow a y False)) s t"
   "\<exists>t. does u host (steps [load_shifter_imm, emit [0x2B, 0x45, REG (c_rn c)], emit [0x89, 0x45, REG (c_rd c)]]) e s t \<and>
      computes {c_rd c} (y - a) True None (Some (sub_overflow y a False)) s t"
   "\<exists>t. does u host (steps [load_shifter_imm, emit [0xF7, 0xD0], emit [0x89, 0x45, REG (c_rd c)], load_carry]) e s t \<and>
      computes {c_rd c} (NOT y) False None None s t"
   "\<exists>t. does u host (steps [load_shifter_imm, emit [0x85, 0x45, REG (c_rn c)]]) e s t \<and> computes {} (a AND y) True None None s t"
   "\<exists>t. does u host (steps [load_shifter_imm, emit [0x33, 0x45, REG (c_rn c)]]) e s t \<and> computes {} (a XOR y) True None None s t"
   "\<exists>t. does u host (steps [load_shifter_imm, emit [0x39, 0x45, REG (c_rn c)], emit [0xF5]]) e s t \<and>
      computes {} (a - y) True (Some (\<not> borrow_of a y False)) (Some (sub_overflow a y False)) s t"
   "\<exists>t. does u host (steps [load_shifter_imm, emit [0x03, 0x45, REG (c_rn c)]]) e s t \<and>
      computes {} (a + y) True (Some (carry_of a y False)) (Some (add_overflow a y False)) s t"
  by ((rule shifter_then [OF assms(2-5)], simp add: regs_okD [OF assms(4)] c_def, cases "c_rn (ectx e) = c_rd (ectx e)"; intro computes_eval;
      simp add: compute_simps alu_r_def load_carry_def shifted_def a_def y_def c_def regs_okD [OF assms(4)] y_left carry_left)+)

text \<open>The moves.\<close>

lemma mov_r_computes:
  fixes e :: emitter
  defines "c \<equiv> ectx e"
  assumes "ctx_ok s" "flags_wf s" "regs_ok (ectx e)" "shift_ok (ectx e)"
  defines "y \<equiv> sh_value c s"
  shows
   "\<exists>t. does u host (steps [load_shifter_imm, emit [0x89, 0x45, REG (c_rd c)], load_carry]) e s t \<and>
      computes {c_rd c} y (c_imm c \<noteq> 0 \<and> c_shift c \<noteq> ROR) (if unshifted c then None else Some (sh_carry c s)) None s t"
   "\<exists>t. does u host (steps [load_shifter_imm, emit [0x89, 0x45, REG (c_rd c)], load_carry, emit [0x83, 0xC8, 0]]) e s t \<and>
      computes {c_rd c} y True (Some False) (Some False) s t"
  by ((rule shifter_then [OF assms(2-5)], simp add: regs_okD [OF assms(4)] c_def; intro computes_eval;
      simp add: compute_simps load_carry_def shifted_def y_def c_def regs_okD [OF assms(4)])+)

text \<open>With the carry: the flags are loaded after the shifter, which destroys them.\<close>

lemma shifted_wf: "shifted c s t \<Longrightarrow> flags_wf s \<Longrightarrow> flags_wf t"
  by (simp add: shifted_def flags_wf_def)

lemma flags_frame: "keeps {EAX} {} s t \<Longrightarrow> ctx_ok s \<Longrightarrow> r < 32 \<Longrightarrow> slot t r = slot s r" "keeps {EAX} {} s t \<Longrightarrow> ctx_ok s \<Longrightarrow> ctx_ok t"
  by (rule keeps_slots(2) [of "{EAX}" "{}"], simp_all) (rule keeps_slots(1) [of "{EAX}" "{}"], simp_all)

lemma sbc_r_computes:
  fixes e :: emitter
  defines "c \<equiv> ectx e"
  assumes "ctx_ok s" "flags_wf s" "regs_ok (ectx e)" "shift_ok (ectx e)"
  defines "a \<equiv> slot s (c_rn c)" and "y \<equiv> sh_value c s" and "b \<equiv> bit (slot s s_flags) 8"
  shows
   "\<exists>t. does u host (steps [load_shifter_imm, emit [0x8B, 0xC8], load_flags, emit [0xF5],
          (if c_rn c = c_rd c then emit [0x19, 0x4D, REG (c_rn c)]
           else steps [emit [0x8B, 0x55, REG (c_rn c)], emit [0x1B, 0xD1], emit [0x89, 0x55, REG (c_rd c)]])]) e s t \<and>
      computes {c_rd c} (a - y - (if b then 0 else 1)) True (Some (borrow_of a y (\<not> b))) (Some (sub_overflow a y (\<not> b))) s t"
proof (rule shifter_then [OF assms(2-5)])
  note r = regs_okD [OF assms(4)]
  show "{c_rd c} \<subseteq> {r. r < 32}" using r by (simp add: c_def)
  fix t1 and e1 :: emitter assume e1: "ectx e1 = ectx e" and sh: "shifted (ectx e) s t1"
  let ?f = "\<lambda>e. load_flags (emit [0x8B, 0xC8] e)"
  let ?g = "steps [emit [0xF5], (if c_rn c = c_rd c then emit [0x19, 0x4D, REG (c_rn c)]
     else steps [emit [0x8B, 0x55, REG (c_rn c)], emit [0x1B, 0xD1], emit [0x89, 0x55, REG (c_rd c)]])]"
  have ok: "ctx_ok t1" "slot t1 s_flags = slot s s_flags" "slot t1 (c_rn c) = slot s (c_rn c)" "gpr t1 EAX = y"
    using sh r by (simp_all add: shifted_def y_def c_def)
  define t2 where "t2 = set_gpr ECX y t1"
  have d2: "does u host (emit [0x8B, 0xC8]) e1 t1 t2"
    using ok by (intro doesI [of _ _ "[0x8B, 0xC8]"]) (simp_all add: emits_def emit_def xrun t2_def)
  have ok2: "ctx_ok t2" "flags_wf t2" "keeps {ECX} {} t1 t2" "gpr t2 ECX = y"
    using ok(1) shifted_wf [OF sh assms(3)] by (simp_all add: t2_def xstate flags_wf_def keeps_def)
  obtain t3 where t3: "does u host load_flags (emit [0x8B, 0xC8] e1) t2 t3" "keeps {EAX} {} t2 t3" "flags_live t3"
    using does_load_flags [OF ok2(1,2)] by blast
  have d3: "does u host ?f e1 t1 t3" by (rule does_then [OF d2 t3(1)])
  have k3: "keeps {EAX, ECX} {} t1 t3" using keeps_trans [OF ok2(3) t3(2)] by simp
  have ok3: "ctx_ok t3" "gpr t3 ECX = y" "slot t3 s_flags = slot s s_flags" "slot t3 (c_rn c) = a"
    using keeps_slots [OF k3 _ ok(1)] t3(2) ok2(4) ok(2,3) r by (simp_all add: keeps_def a_def c_def)
  have "\<exists>t. does u host (\<lambda>e. ?g (?f e)) e1 t1 t \<and>
      computes {c_rd c} (a - y - (if b then 0 else 1)) True (Some (borrow_of a y (\<not> b))) (Some (sub_overflow a y (\<not> b))) t1 t"
    by (rule computes_after [OF d3 k3], simp add: scratch_def, use r in \<open>simp add: c_def\<close>,
        cases "c_rn c = c_rd c"; intro computes_eval; use r ok3 t3(3) in \<open>simp add: compute_simps flags_live_def b_def c_def\<close>)
  then show "\<exists>t. does u host (steps [emit [0x8B, 0xC8], load_flags, emit [0xF5],
          (if c_rn c = c_rd c then emit [0x19, 0x4D, REG (c_rn c)]
           else steps [emit [0x8B, 0x55, REG (c_rn c)], emit [0x1B, 0xD1], emit [0x89, 0x55, REG (c_rd c)]])]) e1 t1 t \<and>
      computes {c_rd c} (a - y - (if b then 0 else 1)) True (Some (borrow_of a y (\<not> b))) (Some (sub_overflow a y (\<not> b))) t1 t"
    by (elim ex_forward conj_forward does_cong) simp
qed

lemma sh_cong:
  assumes "slot t (c_rm c) = slot s (c_rm c)" "slot t s_flags = slot s s_flags"
  shows "sh_value c t = sh_value c s" "sh_carry c t = sh_carry c s"
  using assms by (simp_all add: sh_value_def sh_carry_def)

lemma rsc_r_computes:
  fixes e :: emitter
  defines "c \<equiv> ectx e"
  assumes "ctx_ok s" "flags_wf s" "regs_ok (ectx e)" "shift_ok (ectx e)" "fa \<longrightarrow> flags_live s"
  defines "a \<equiv> slot s (c_rn c)" and "y \<equiv> sh_value c s" and "b \<equiv> bit (slot s s_flags) 8"
  shows
   "\<exists>t. does u host (steps [only_if (\<not> fa) load_flags, emit [0xF5], emit [0x8B, 0x4D, REG (c_rn c)],
          emit [0x83, 0xD1, 0x00], load_shifter_imm, emit [0x2B, 0xC1], emit [0x89, 0x45, REG (c_rd c)]]) e s t \<and>
      computes {c_rd c} (y - a - (if b then 0 else 1)) True None None s t"
proof -
  note r = regs_okD [OF assms(4), folded c_def]
  let ?f = "only_if (\<not> fa) load_flags"
  let ?h = "steps [emit [0xF5], emit [0x8B, 0x4D, REG (c_rn c)], emit [0x83, 0xD1, 0x00]]"
  let ?g = "steps [load_shifter_imm, emit [0x2B, 0xC1], emit [0x89, 0x45, REG (c_rd c)]]"
  obtain t1 where t1: "does u host ?f e s t1" "keeps {EAX} {} s t1" "flags_live t1"
    using live_flags [OF assms(2,3,6)] by blast
  note k1 = flags_frame [OF t1(2) assms(2)]
  have "\<exists>t. does u host ?h (?f e) t1 t \<and> keeps {ECX} {} t1 t \<and> gpr t ECX = a + (if b then 0 else 1)"
    using k1 r t1(3) by (intro does_ex [of _ _ "code_at ?h (?f e)"]; simp add: compute_simps flags_live_def a_def b_def)
  then obtain t2 where t2: "does u host ?h (?f e) t1 t2" "keeps {ECX} {} t1 t2" "gpr t2 ECX = a + (if b then 0 else 1)" by blast
  have d2: "does u host (\<lambda>e. ?h (?f e)) e s t2" by (rule does_then [OF t1(1) t2(1)])
  have k2: "keeps {ECX, EAX} {} s t2" using keeps_trans [OF t1(2) t2(2)] by simp
  have e2: "ectx (?h (?f e)) = c" using does_env(1) [OF d2] by (simp add: c_def)
  have ok2: "ctx_ok t2" "flags_wf t2" "sh_value c t2 = y"
    using keeps_slots [OF k2 _ assms(2)] assms(3) r sh_cong [of t2 c s] by (simp_all add: flags_wf_def y_def)
  have "\<exists>t. does u host (\<lambda>e. ?g (?h (?f e))) e s t \<and> computes {c_rd c} (y - a - (if b then 0 else 1)) True None None s t"
  proof (rule computes_after [OF d2 k2])
    show "\<exists>t. does u host ?g (?h (?f e)) t2 t \<and> computes {c_rd c} (y - a - (if b then 0 else 1)) True None None t2 t"
    proof (rule shifter_then [OF ok2(1,2)])
      fix t3 and e3 :: emitter
      assume "ectx e3 = ectx (?h (?f e))" "shifted (ectx (?h (?f e))) t2 t3" "keeps {EAX, ESI} {} t2 t3"
      then show "\<exists>t. does u host (steps [emit [0x2B, 0xC1], emit [0x89, 0x45, REG (c_rd c)]]) e3 t3 t \<and>
          computes {c_rd c} (y - a - (if b then 0 else 1)) True None None t3 t"
        using r e2 ok2(3) t2(3) by (intro computes_eval; simp add: compute_simps shifted_def diff_diff_eq [symmetric] diff_eq_eq add.commute)
    qed (use e2 r assms(4,5) in \<open>simp_all add: c_def\<close>)
  qed (use r in \<open>auto simp: scratch_def\<close>)
  then show ?thesis by (elim ex_forward conj_forward does_cong) simp
qed

lemma memw_set_slot_other: "a \<noteq> gpr s EBP + 4 * q \<Longrightarrow> memw (set_slot q v s) a = memw s a"
  by (simp add: set_slot_def)

lemma adc_r_computes:
  fixes e :: emitter
  defines "c \<equiv> ectx e"
  assumes "ctx_ok s" "flags_wf s" "regs_ok (ectx e)" "shift_ok (ectx e)" "stack_ok s"
  defines "a \<equiv> slot s (c_rn c)" and "y \<equiv> sh_value c s" and "b \<equiv> bit (slot s s_flags) 8"
  shows
   "\<exists>t. does u host (steps [load_shifter_imm, emit [0x50], load_flags, emit [0x58], alu_r 0x11 0x13]) e s t \<and>
      computes {c_rd c} (a + y + (if b then 1 else 0)) True (Some (carry_of a y b)) (Some (add_overflow a y b)) s t"
proof (rule shifter_then [OF assms(2-5)])
  note r = regs_okD [OF assms(4), folded c_def]
  show "{c_rd c} \<subseteq> {r. r < 32}" using r by simp
  fix t1 and e1 :: emitter
  assume e1: "ectx e1 = ectx e" and sh: "shifted (ectx e) s t1" and k1: "keeps {EAX, ESI} {} s t1"
  have ok: "ctx_ok t1" "\<And>r. r < 32 \<Longrightarrow> slot t1 r = slot s r" "gpr t1 EAX = y" "stack_ok t1"
    using sh k1 assms(6) by (simp_all add: shifted_def y_def c_def stack_ok_def keeps_def)
  define t2 where "t2 = pushed y t1"
  have d2: "does u host (emit [0x50]) e1 t1 t2"
    using ok by (intro doesI [of _ _ "[0x50]"]) (simp_all add: emits_def emit_def xrun t2_def)
  have ok2: "ctx_ok t2" "flags_wf t2" "\<And>r. r < 32 \<Longrightarrow> slot t2 r = slot s r"
    using ok shifted_wf [OF sh assms(3)] by (simp_all add: t2_def xstate flags_wf_def)
  obtain t3 where t3: "does u host load_flags (emit [0x50] e1) t2 t3" "keeps {EAX} {} t2 t3" "flags_live t3" "memw t3 = memw t2"
    using does_load_flags [OF ok2(1,2)] by blast
  have ok3: "ctx_ok t3" "\<And>r. r < 32 \<Longrightarrow> slot t3 r = slot s r" "\<And>x. x \<noteq> EAX \<Longrightarrow> gpr t3 x = gpr t2 x"
    "\<And>x. x \<noteq> EAX \<Longrightarrow> x \<noteq> ESP \<Longrightarrow> gpr t3 x = gpr t1 x"
    using flags_frame [OF t3(2) ok2(1)] ok2(3) t3(2) by (auto simp: keeps_def t2_def xstate)
  have esp: "gpr t3 ESP = gpr t1 ESP - 4" using ok3(3) [of ESP] by (simp add: t2_def xstate)
  have "(gpr t1 ESP - 4) AND 3 = 0" using and3_add [of "gpr t1 ESP" "-1"] ok(4) by (simp add: stack_ok_def)
  then have pop: "pop_word t3 = Some (y, set_gpr ESP (gpr t1 ESP) t3)"
    by (simp add: pop_word_def Let_def esp t3(4) t2_def xstate)
  have out: "memw t3 x = memw t1 x" if "outside t1 x" for x using memw_pushed [OF that] by (simp add: t3(4) t2_def)
  have apart: "x \<noteq> gpr t1 EBP + 4 * c_rd c" if "outside t1 x" for x using that r by (auto simp: outside_def)
  define e3 where "e3 = load_flags (emit [0x50] e1)"
  have "ectx e3 = c" using does_env(1) [OF does_then [OF d2 t3(1)]] e1 by (simp add: e3_def c_def)
  then have "\<exists>t. does u host (steps [emit [0x58], alu_r 0x11 0x13]) e3 t3 t \<and>
      computes {c_rd c} (a + y + (if b then 1 else 0)) True (Some (carry_of a y b)) (Some (add_overflow a y b)) t1 t"
    using r ok3 ok(2) t3(3) pop out apart
    by (intro does_ex [of _ _ "code_at (steps [emit [0x58], alu_r 0x11 0x13]) e3"]; cases "c_rn c = c_rd c";
        simp add: compute_simps alu_r_def flags_live_def memw_set_slot_other a_def b_def y_def y_left carry_left)
  then obtain t where t: "does u host (steps [emit [0x58], alu_r 0x11 0x13]) e3 t3 t"
      "computes {c_rd c} (a + y + (if b then 1 else 0)) True (Some (carry_of a y b)) (Some (add_overflow a y b)) t1 t" by blast
  have "does u host (\<lambda>e. steps [emit [0x58], alu_r 0x11 0x13] (load_flags (emit [0x50] e))) e1 t1 t"
    using does_then [OF does_then [OF d2 t3(1)] t(1) [unfolded e3_def]] .
  then have "does u host (steps [emit [0x50], load_flags, emit [0x58], alu_r 0x11 0x13]) e1 t1 t"
    by (rule does_cong) simp
  with t(2) show "\<exists>t. does u host (steps [emit [0x50], load_flags, emit [0x58], alu_r 0x11 0x13]) e1 t1 t \<and>
      computes {c_rd c} (a + y + (if b then 1 else 0)) True (Some (carry_of a y b)) (Some (add_overflow a y b)) t1 t" by blast
qed

end
