(* ===== verification/Jit_Data.thy ===== *)
theory Jit_Data
  imports Jit_Alu
begin

text \<open>
  The data processing instructions as a whole: which part of an instruction's meaning the
  generated code gets right, and the theorems that it does.
\<close>

section \<open>Where the code is exact\<close>

text \<open>The result. There is no code for a reverse subtraction of another register from a
  constant; a move of a register to itself is dropped, also when it rotates through the
  carry, and that of \<^verbatim>\<open>r12\<close> is a call of the debugger; \<^verbatim>\<open>sbc\<close> relies on the
  flags in memory.\<close>

definition jit_value :: "bool \<Rightarrow> dctx \<Rightarrow> bool" where
  "jit_value fa c = switch (c_instruction c)
     [(RSB_I, c_rn c = c_rd c \<or> c_imm c = 0), (SBC_R, \<not> fa),
      (MOV_R, \<not> (c_rd c = c_rm c \<and> c_imm c = 0 \<and> (c_shift c = RRX \<or> c_rd c = 12)))] True"

text \<open>The sign and the zero flag.\<close>

definition jit_nz :: "dctx \<Rightarrow> bool" where
  "jit_nz c = switch (c_instruction c)
     [(MVN_I, False), (MVN_R, False), (TEQ_I, False), (RSB_I, c_imm c = 0),
      (ADD_I, c_rn c = c_rd c \<or> c_imm c \<noteq> 0), (SUB_I, c_rn c = c_rd c \<or> c_imm c \<noteq> 0),
      (MOV_R, \<not> (c_rd c = c_rm c \<and> c_imm c = 0) \<and> c_shift c \<noteq> ROR)] True"

text \<open>The carry.\<close>

definition jit_c :: "dctx \<Rightarrow> bool" where
  "jit_c c = switch (c_instruction c)
     [(ADD_I, c_rn c = c_rd c \<or> c_imm c \<noteq> 0), (ADD_R, True), (ADC_I, c_rn c = c_rd c), (ADC_R, True),
      (SBC_I, True), (SBC_R, True), (CMP_I, True), (CMP_R, True), (CMN_I, True), (CMN_R, True),
      (AND_R, \<not> unshifted c), (EOR_R, \<not> unshifted c), (BIC_R, \<not> unshifted c), (ORR_R, \<not> unshifted c),
      (MOV_R, c_imm c \<noteq> 0)] False"

text \<open>The overflow.\<close>

definition jit_v :: "dctx \<Rightarrow> bool" where
  "jit_v c = switch (c_instruction c)
     [(ADD_I, c_rn c = c_rd c \<or> c_imm c \<noteq> 0), (ADD_R, True), (ADC_I, c_rn c = c_rd c), (ADC_R, True),
      (SBC_I, True), (SBC_R, True), (SUB_R, True), (RSB_R, True), (CMP_I, True), (CMP_R, True), (CMN_I, True), (CMN_R, True)]
     False"

section \<open>Agreement with the processor\<close>

definition sets_flags :: "dp \<Rightarrow> emitter \<Rightarrow> bool" where
  "sets_flags op e = ((sbit e \<or> is_test op) \<and> \<not> lookahead_s e)"

definition agrees :: "dp \<Rightarrow> bool \<Rightarrow> emitter \<Rightarrow> x86 \<Rightarrow> x86 \<Rightarrow> bool" where
  "agrees op reg e s t =
    (let c = ectx e; a = arm_dp op reg c (arm_of s)
     in keeps scratch ((if is_test op then {} else {c_rd c}) \<union> (if sets_flags op e then {s_flags} else {})) s t \<and> flags_wf t \<and>
       areg (arm_of t) = areg a \<and>
       (sets_flags op e \<longrightarrow> (jit_nz c \<longrightarrow> aN (arm_of t) = aN a \<and> aZ (arm_of t) = aZ a) \<and>
         (jit_c c \<longrightarrow> aC (arm_of t) = aC a) \<and> (jit_v c \<longrightarrow> aV (arm_of t) = aV a) \<and>
         (jit_nz c \<longrightarrow> flags_live t)))"

text \<open>The second operand in the slots.\<close>

definition opnd_value :: "bool \<Rightarrow> dctx \<Rightarrow> x86 \<Rightarrow> u32" where
  "opnd_value reg c s = (if reg then sh_value c s else c_imm c)"

definition opnd_carry :: "bool \<Rightarrow> dctx \<Rightarrow> x86 \<Rightarrow> bool" where
  "opnd_carry reg c s = (if reg then sh_carry c s else bit (slot s s_flags) 8)"

lemma arm_of_fields [simp]:
  "areg (arm_of s) = (\<lambda>r. if r < 16 then slot s r else 0)" "aN (arm_of s) = bit (slot s s_flags) 15"
  "aZ (arm_of s) = bit (slot s s_flags) 14" "aC (arm_of s) = bit (slot s s_flags) 8" "aV (arm_of s) = bit (slot s s_flags) 0"
  by (simp_all add: arm_of_def)

lemma regs_ok16: "regs_ok c \<Longrightarrow> c_rd c < 16 \<and> c_rn c < 16 \<and> c_rm c < 16"
  by (auto simp: regs_ok_def word_less_nat_alt)

lemma operand2_slots: "regs_ok c \<Longrightarrow> operand2 reg c (arm_of s) = (opnd_value reg c s, opnd_carry reg c s)"
  using regs_ok16 [of c] by (simp add: operand2_def opnd_value_def opnd_carry_def sh_value_def sh_carry_def)

lemma arm_dp_fields:
  "areg (arm_dp op reg c a) = (if is_test op then areg a else
     (areg a)(c_rd c := dp_value op (areg a (c_rn c)) (fst (operand2 reg c a)) (aC a)))"
  "c_flags c AND S_BIT \<noteq> 0 \<or> is_test op \<Longrightarrow>
     aN (arm_dp op reg c a) = bit (dp_value op (areg a (c_rn c)) (fst (operand2 reg c a)) (aC a)) 31"
  "c_flags c AND S_BIT \<noteq> 0 \<or> is_test op \<Longrightarrow>
     aZ (arm_dp op reg c a) = (dp_value op (areg a (c_rn c)) (fst (operand2 reg c a)) (aC a) = 0)"
  "c_flags c AND S_BIT \<noteq> 0 \<or> is_test op \<Longrightarrow>
     aC (arm_dp op reg c a) = dp_carry op (areg a (c_rn c)) (fst (operand2 reg c a)) (aC a) (snd (operand2 reg c a))"
  "c_flags c AND S_BIT \<noteq> 0 \<or> is_test op \<Longrightarrow>
     aV (arm_dp op reg c a) = dp_overflow op (areg a (c_rn c)) (fst (operand2 reg c a)) (aC a) (aV a)"
  by (simp_all add: arm_dp_def Let_def split: prod.split)

lemma stores_agrees:
  assumes st: "stores f rd v nz cc ov s t" and ok: "flags_wf s" "regs_ok (ectx e)"
    and f: "f \<longrightarrow> sets_flags op e" "f \<or> \<not> sets_flags op e \<or> \<not> (jit_nz (ectx e) \<or> jit_c (ectx e) \<or> jit_v (ectx e))"
    and rd: "rd = (if is_test op then {} else {c_rd (ectx e)})"
    and v: "v = dp_value op (slot s (c_rn (ectx e))) (opnd_value reg (ectx e) s) (bit (slot s s_flags) 8)"
    and nz: "sets_flags op e \<and> jit_nz (ectx e) \<longrightarrow> nz"
    and cc: "sets_flags op e \<and> jit_c (ectx e) \<longrightarrow> cc = Some (dp_carry op (slot s (c_rn (ectx e))) (opnd_value reg (ectx e) s)
      (bit (slot s s_flags) 8) (opnd_carry reg (ectx e) s))"
    and ov: "sets_flags op e \<and> jit_v (ectx e) \<longrightarrow> ov = Some (dp_overflow op (slot s (c_rn (ectx e))) (opnd_value reg (ectx e) s)
      (bit (slot s s_flags) 8) (bit (slot s s_flags) 0))"
  shows "agrees op reg e s t"
proof -
  note r = regs_okD [OF ok(2)] regs_ok16 [OF ok(2)]
  let ?rd = "if is_test op then {} else {c_rd (ectx e)}"
  have k: "keeps scratch (rd \<union> (if f then {s_flags} else {})) s t" using st by (simp add: stores_def)
  have k': "keeps scratch (?rd \<union> (if sets_flags op e then {s_flags} else {})) s t"
    by (rule keeps_mono [OF k]) (use f(1) rd in auto)
  have old: "slot t x = slot s x" if "x < 32" "x \<notin> rd" "x \<noteq> s_flags" for x
    using k that by (auto simp: keeps_def)
  have wf: "flags_wf t"
  proof (cases f)
    case False
    then have "slot t s_flags = slot s s_flags" using k rd r by (auto simp: keeps_def)
    then show ?thesis using ok(1) by (simp add: flags_wf_def)
  qed (use st in \<open>simp add: stores_def\<close>)
  have regs: "areg (arm_of t) = areg (arm_dp op reg (ectx e) (arm_of s))"
  proof
    fix x :: u32
    have lt: "x < 32 \<and> x \<noteq> s_flags" if "x < 16" using that by (auto simp: word_less_nat_alt)
    show "areg (arm_of t) x = areg (arm_dp op reg (ectx e) (arm_of s)) x"
      using old [of x] lt st r rd v by (auto simp: arm_dp_fields operand2_slots [OF ok(2)] stores_def)
  qed
  have flags: "(jit_nz (ectx e) \<longrightarrow> aN (arm_of t) = aN (arm_dp op reg (ectx e) (arm_of s)) \<and> aZ (arm_of t) = aZ (arm_dp op reg (ectx e) (arm_of s))) \<and>
      (jit_c (ectx e) \<longrightarrow> aC (arm_of t) = aC (arm_dp op reg (ectx e) (arm_of s))) \<and>
      (jit_v (ectx e) \<longrightarrow> aV (arm_of t) = aV (arm_dp op reg (ectx e) (arm_of s)))" if "sets_flags op e"
    using that f(2) st nz cc ov v r by (auto simp: arm_dp_fields operand2_slots [OF ok(2)] stores_def sets_flags_def sbit_def)
  have live: "flags_live t" if "sets_flags op e" "jit_nz (ectx e)"
    using that f(2) st by (auto simp: stores_def)
  show ?thesis using k' wf regs flags live unfolding agrees_def Let_def by blast
qed

section \<open>The instructions\<close>

text \<open>What an instruction's core has to deliver.\<close>

definition delivers :: "dp \<Rightarrow> bool \<Rightarrow> emitter \<Rightarrow> u32 set \<Rightarrow> u32 \<Rightarrow> bool \<Rightarrow> bool option \<Rightarrow> bool option \<Rightarrow> x86 \<Rightarrow> bool" where
  "delivers op reg e rd v nz cc ov s =
    (let c = ectx e; x = slot s (c_rn c); y = opnd_value reg c s; b = bit (slot s s_flags) 8
     in rd = (if is_test op then {} else {c_rd c}) \<and> v = dp_value op x y b \<and> (sets_flags op e \<and> jit_nz c \<longrightarrow> nz) \<and>
       (sets_flags op e \<and> jit_c c \<longrightarrow> cc = Some (dp_carry op x y b (opnd_carry reg c s))) \<and>
       (sets_flags op e \<and> jit_v c \<longrightarrow> ov = Some (dp_overflow op x y b (bit (slot s s_flags) 0))))"

lemma delivers_agrees:
  assumes "delivers op reg e rd v nz cc ov s" "stores f rd v nz cc ov s t" "flags_wf s" "regs_ok (ectx e)"
    "f \<longrightarrow> sets_flags op e" "f \<or> \<not> sets_flags op e \<or> \<not> (jit_nz (ectx e) \<or> jit_c (ectx e) \<or> jit_v (ectx e))"
  shows "agrees op reg e s t"
  using assms(1) by (intro stores_agrees [OF assms(2-6)]) (simp_all add: delivers_def Let_def)

lemma rd_facts: "regs_ok (ectx e) \<Longrightarrow> delivers op reg e rd v nz cc ov s \<Longrightarrow> s_flags \<notin> rd \<and> rd \<subseteq> {r. r < 32}"
  using regs_okD [of "ectx e"] by (auto simp: delivers_def Let_def)

lemma agrees_update:
  assumes "ctx_ok s" "flags_wf s" "regs_ok (ectx e)" "\<exists>t. does u host f e s t \<and> computes rd v nz cc ov s t"
    "jit e = update_flags (f e)" "\<not> is_test op" "delivers op reg e rd v nz cc ov s"
  shows "\<exists>t. does u host jit e s t \<and> agrees op reg e s t"
proof -
  obtain t where "does u host (\<lambda>e. update_flags (f e)) e s t" "stores (sbit e \<and> \<not> lookahead_s e) rd v nz cc ov s t"
    using assms(4) computes_update_flags [OF assms(1)] rd_facts [OF assms(3,7)] by blast
  then show ?thesis
    using delivers_agrees [OF assms(7) _ assms(2,3)] assms(5,6)
    by (intro exI [of _ t] conjI) (auto simp: sets_flags_def elim!: does_cong)
qed

lemma agrees_store:
  assumes "ctx_ok s" "flags_wf s" "regs_ok (ectx e)" "\<exists>t. does u host f e s t \<and> computes rd v nz cc ov s t"
    "jit e = store_flags (f e)" "is_test op \<or> sbit e" "delivers op reg e rd v nz cc ov s"
  shows "\<exists>t. does u host jit e s t \<and> agrees op reg e s t"
proof -
  obtain t where "does u host (\<lambda>e. store_flags (f e)) e s t" "stores (\<not> lookahead_s e) rd v nz cc ov s t"
    using assms(4) computes_store_flags [OF assms(1)] rd_facts [OF assms(3,7)] by blast
  then show ?thesis
    using delivers_agrees [OF assms(7) _ assms(2,3)] assms(5,6)
    by (intro exI [of _ t] conjI) (auto simp: sets_flags_def elim!: does_cong)
qed

lemma agrees_plain:
  assumes "flags_wf s" "regs_ok (ectx e)" "\<exists>t. does u host f e s t \<and> computes rd v nz cc ov s t"
    "jit e = f e" "\<not> sets_flags op e \<or> \<not> (jit_nz (ectx e) \<or> jit_c (ectx e) \<or> jit_v (ectx e))" "delivers op reg e rd v nz cc ov s"
  shows "\<exists>t. does u host jit e s t \<and> agrees op reg e s t"
proof -
  obtain t where t: "does u host f e s t" "computes rd v nz cc ov s t" using assms(3) by blast
  then have "stores False rd v nz cc ov s t" by (simp add: computes_def stores_def)
  then show ?thesis
    using t(1) delivers_agrees [OF assms(6) _ assms(1,2)] assms(4,5) by (intro exI [of _ t] conjI) (auto elim!: does_cong)
qed

lemma agrees_cmc:
  assumes "ctx_ok s" "flags_wf s" "regs_ok (ectx e)" "\<exists>t. does u host f e s t \<and> computes rd v nz cc ov s t"
    "jit e = update_flags_cmc (f e)" "\<not> is_test op" "delivers op reg e rd v nz (map_option Not cc) ov s"
  shows "\<exists>t. does u host jit e s t \<and> agrees op reg e s t"
proof -
  obtain t where t: "does u host f e s t" "computes rd v nz cc ov s t" using assms(4) by blast
  note e1 = does_env(1) [OF t(1)]
  show ?thesis
  proof (cases "sbit e")
    case True
    let ?t = "t\<lparr>cf := \<not> cf t\<rparr>"
    have "does u host (emit [0xF5]) (f e) t ?t"
      by (intro doesI [of _ _ "[0xF5]"]) (simp_all add: emits_def emit_def xrun)
    then have "does u host (\<lambda>e. emit [0xF5] (f e)) e s ?t" by (rule does_then [OF t(1)])
    moreover have "computes rd v nz (map_option Not cc) ov s ?t"
      using t(2) by (auto simp: computes_def keeps_def xstate)
    ultimately have "\<exists>t. does u host (\<lambda>e. emit [0xF5] (f e)) e s t \<and> computes rd v nz (map_option Not cc) ov s t" by blast
    moreover have "jit e = store_flags (emit [0xF5] (f e))"
      using True e1 assms(5) by (simp add: update_flags_cmc_def only_if_def sbit_def)
    ultimately show ?thesis using assms(7) True by (intro agrees_store [OF assms(1-3), of u host "\<lambda>e. emit [0xF5] (f e)"]) auto
  next
    case False
    have "jit e = f e" using False e1 assms(5) by (simp add: update_flags_cmc_def only_if_def sbit_def)
    moreover have "computes rd v nz (map_option Not cc) ov s t \<or> \<not> sets_flags op e" using False assms(6) by (simp add: sets_flags_def)
    moreover have "delivers op reg e rd v nz cc ov s"
      using assms(6,7) False by (simp add: delivers_def Let_def sets_flags_def)
    ultimately show ?thesis
      using False assms(6) by (intro agrees_plain [OF assms(2-4)]) (simp_all add: sets_flags_def)
  qed
qed

lemmas claim_defs = delivers_def Let_def is_test_def opnd_value_def opnd_carry_def dp_value_def dp_carry_def dp_overflow_def
  jit_nz_def jit_c_def jit_v_def

subsection \<open>Constants\<close>

lemma AND_I_agrees:
  assumes "ctx_ok s" "flags_wf s" "regs_ok (ectx e)" "c_instruction (ectx e) = AND_I"
  shows "\<exists>t. does u host jit_AND_I e s t \<and> agrees D_AND False e s t"
  by (rule agrees_update [OF assms(1-3) alu_i_computes(1) [OF assms(1,3)]]; use assms(4) in \<open>simp add: claim_defs jit_AND_I_def alu_i_core_def\<close>)

lemma EOR_I_agrees:
  assumes "ctx_ok s" "flags_wf s" "regs_ok (ectx e)" "c_instruction (ectx e) = EOR_I"
  shows "\<exists>t. does u host jit_EOR_I e s t \<and> agrees D_EOR False e s t"
  by (rule agrees_update [OF assms(1-3) alu_i_computes(2) [OF assms(1,3)]]; use assms(4) in \<open>simp add: claim_defs jit_EOR_I_def alu_i_core_def\<close>)

lemma ORR_I_agrees:
  assumes "ctx_ok s" "flags_wf s" "regs_ok (ectx e)" "c_instruction (ectx e) = ORR_I"
  shows "\<exists>t. does u host jit_ORR_I e s t \<and> agrees D_ORR False e s t"
  by (rule agrees_update [OF assms(1-3) alu_i_computes(3) [OF assms(1,3)]]; use assms(4) in \<open>simp add: claim_defs jit_ORR_I_def alu_i_core_def\<close>)

lemma BIC_I_agrees:
  assumes "ctx_ok s" "flags_wf s" "regs_ok (ectx e)" "c_instruction (ectx e) = BIC_I"
  shows "\<exists>t. does u host jit_BIC_I e s t \<and> agrees D_BIC False e s t"
  by (rule agrees_update [OF assms(1-3) bic_i_computes [OF assms(1,3)]]; use assms(4) in \<open>simp add: claim_defs jit_BIC_I_def bic_i_core_def\<close>)

lemma ADD_I_agrees:
  assumes "ctx_ok s" "flags_wf s" "regs_ok (ectx e)" "c_instruction (ectx e) = ADD_I"
  shows "\<exists>t. does u host jit_ADD_I e s t \<and> agrees D_ADD False e s t"
  by (rule agrees_update [OF assms(1-3) add_i_computes(1) [OF assms(1,3)]]; use assms(4) in \<open>simp add: claim_defs jit_ADD_I_def add_i_core_def\<close>)

lemma SUB_I_agrees:
  assumes "ctx_ok s" "flags_wf s" "regs_ok (ectx e)" "c_instruction (ectx e) = SUB_I"
  shows "\<exists>t. does u host jit_SUB_I e s t \<and> agrees D_SUB False e s t"
  by (rule agrees_update [OF assms(1-3) add_i_computes(2) [OF assms(1,3)]]; use assms(4) in \<open>simp add: claim_defs jit_SUB_I_def add_i_core_def\<close>)

lemma ADC_I_agrees:
  assumes "ctx_ok s" "flags_wf s" "regs_ok (ectx e)" "c_instruction (ectx e) = ADC_I"
  shows "\<exists>t. does u host jit_ADC_I e s t \<and> agrees D_ADC False e s t"
  by (rule agrees_update [OF assms(1-3) adc_i_computes [OF assms(1-3)]]; use assms(4) in \<open>simp add: claim_defs jit_ADC_I_def adc_i_core_def\<close>)

lemma SBC_I_agrees:
  assumes "ctx_ok s" "flags_wf s" "regs_ok (ectx e)" "c_instruction (ectx e) = SBC_I"
    "fa \<longrightarrow> flags_live s"
  shows "\<exists>t. does u host (jit_SBC_I fa) e s t \<and> agrees D_SBC False e s t"
  by (rule agrees_cmc [OF assms(1-3) sbc_i_computes [OF assms(1,2,5,3)]]; use assms(4) in \<open>simp add: claim_defs jit_SBC_I_def sbc_i_core_def\<close>)

lemma MVN_I_agrees:
  assumes "ctx_ok s" "flags_wf s" "regs_ok (ectx e)" "c_instruction (ectx e) = MVN_I"
  shows "\<exists>t. does u host jit_MVN_I e s t \<and> agrees D_MVN False e s t"
  by (rule agrees_plain [OF assms(2,3) mov_i_computes(3) [OF assms(1,3)]]; use assms(4) in \<open>simp add: claim_defs\<close>)

lemma MOV_I_agrees:
  assumes "ctx_ok s" "flags_wf s" "regs_ok (ectx e)" "c_instruction (ectx e) = MOV_I"
  shows "\<exists>t. does u host jit_MOV_I e s t \<and> agrees D_MOV False e s t"
proof (cases "sbit e")
  case True
  show ?thesis
    by (rule agrees_store [OF assms(1-3) mov_i_computes(1) [OF assms(1,3)]]; use True assms(4) in \<open>simp add: claim_defs jit_MOV_I_def only_if_def\<close>)
next
  case False
  show ?thesis
    by (rule agrees_plain [OF assms(2,3) mov_i_computes(2) [OF assms(1,3)]];
        use False assms(4) in \<open>simp add: claim_defs jit_MOV_I_def only_if_def sets_flags_def\<close>)
qed

lemma RSB_I_agrees:
  assumes "ctx_ok s" "flags_wf s" "regs_ok (ectx e)" "c_instruction (ectx e) = RSB_I"
    "c_rn (ectx e) = c_rd (ectx e) \<or> c_imm (ectx e) = 0"
  shows "\<exists>t. does u host jit_RSB_I e s t \<and> agrees D_RSB False e s t"
proof (cases "c_imm (ectx e) = 0")
  case True
  show ?thesis
    by (rule agrees_update [OF assms(1-3) rsb_i_computes [OF assms(1,3,5)]]; use True assms(4) in \<open>simp add: claim_defs jit_RSB_I_def rsb_i_core_def\<close>)
next
  case False
  show ?thesis
    by (rule agrees_plain [OF assms(2,3) rsb_i_computes [OF assms(1,3,5)]];
        use False assms(4,5) in \<open>simp add: claim_defs jit_RSB_I_def rsb_i_core_def\<close>)
qed

lemma TST_I_agrees:
  assumes "ctx_ok s" "flags_wf s" "regs_ok (ectx e)" "c_instruction (ectx e) = TST_I"
  shows "\<exists>t. does u host jit_TST_I e s t \<and> agrees D_TST False e s t"
  by (rule agrees_store [OF assms(1-3) test_i_computes(1) [OF assms(1,3)]]; use assms(4) in \<open>simp add: claim_defs jit_TST_I_def\<close>)

lemma CMP_I_agrees:
  assumes "ctx_ok s" "flags_wf s" "regs_ok (ectx e)" "c_instruction (ectx e) = CMP_I"
  shows "\<exists>t. does u host jit_CMP_I e s t \<and> agrees D_CMP False e s t"
  by (rule agrees_store [OF assms(1-3) test_i_computes(2) [OF assms(1,3)]]; use assms(4) in \<open>simp add: claim_defs jit_CMP_I_def\<close>)

lemma CMN_I_agrees:
  assumes "ctx_ok s" "flags_wf s" "regs_ok (ectx e)" "c_instruction (ectx e) = CMN_I"
  shows "\<exists>t. does u host jit_CMN_I e s t \<and> agrees D_CMN False e s t"
  by (rule agrees_store [OF assms(1-3) test_i_computes(3) [OF assms(1,3)]]; use assms(4) in \<open>simp add: claim_defs jit_CMN_I_def\<close>)

subsection \<open>Registers\<close>

lemma AND_R_agrees:
  assumes "ctx_ok s" "flags_wf s" "regs_ok (ectx e)" "c_instruction (ectx e) = AND_R" "shift_ok (ectx e)"
  shows "\<exists>t. does u host jit_AND_R e s t \<and> agrees D_AND True e s t"
  by (rule agrees_update [OF assms(1-3) logic_r_computes(1) [OF assms(1,2,3,5)]]; use assms(4) in \<open>simp add: claim_defs jit_AND_R_def\<close>)

lemma EOR_R_agrees:
  assumes "ctx_ok s" "flags_wf s" "regs_ok (ectx e)" "c_instruction (ectx e) = EOR_R" "shift_ok (ectx e)"
  shows "\<exists>t. does u host jit_EOR_R e s t \<and> agrees D_EOR True e s t"
  by (rule agrees_update [OF assms(1-3) logic_r_computes(2) [OF assms(1,2,3,5)]]; use assms(4) in \<open>simp add: claim_defs jit_EOR_R_def\<close>)

lemma BIC_R_agrees:
  assumes "ctx_ok s" "flags_wf s" "regs_ok (ectx e)" "c_instruction (ectx e) = BIC_R" "shift_ok (ectx e)"
  shows "\<exists>t. does u host jit_BIC_R e s t \<and> agrees D_BIC True e s t"
  by (rule agrees_update [OF assms(1-3) logic_r_computes(3) [OF assms(1,2,3,5)]]; use assms(4) in \<open>simp add: claim_defs jit_BIC_R_def\<close>)

lemma ORR_R_agrees:
  assumes "ctx_ok s" "flags_wf s" "regs_ok (ectx e)" "c_instruction (ectx e) = ORR_R" "shift_ok (ectx e)"
  shows "\<exists>t. does u host jit_ORR_R e s t \<and> agrees D_ORR True e s t"
  by (rule agrees_update [OF assms(1-3) logic_r_computes(4) [OF assms(1,2,3,5)]]; use assms(4) in \<open>simp add: claim_defs jit_ORR_R_def\<close>)

lemma ADD_R_agrees:
  assumes "ctx_ok s" "flags_wf s" "regs_ok (ectx e)" "c_instruction (ectx e) = ADD_R" "shift_ok (ectx e)"
  shows "\<exists>t. does u host jit_ADD_R e s t \<and> agrees D_ADD True e s t"
  by (rule agrees_update [OF assms(1-3) arith_r_computes(1) [OF assms(1,2,3,5)]]; use assms(4) in \<open>simp add: claim_defs jit_ADD_R_def\<close>)

lemma SUB_R_agrees:
  assumes "ctx_ok s" "flags_wf s" "regs_ok (ectx e)" "c_instruction (ectx e) = SUB_R" "shift_ok (ectx e)"
  shows "\<exists>t. does u host jit_SUB_R e s t \<and> agrees D_SUB True e s t"
  by (rule agrees_update [OF assms(1-3) arith_r_computes(2) [OF assms(1,2,3,5)]]; use assms(4) in \<open>simp add: claim_defs jit_SUB_R_def\<close>)

lemma RSB_R_agrees:
  assumes "ctx_ok s" "flags_wf s" "regs_ok (ectx e)" "c_instruction (ectx e) = RSB_R" "shift_ok (ectx e)"
  shows "\<exists>t. does u host jit_RSB_R e s t \<and> agrees D_RSB True e s t"
  by (rule agrees_update [OF assms(1-3) arith_r_computes(3) [OF assms(1,2,3,5)]]; use assms(4) in \<open>simp add: claim_defs jit_RSB_R_def\<close>)

lemma test_break: "regs_ok (ectx e) \<Longrightarrow> break_if_pc (c_rn (ectx e)) e' = e'"
  using regs_okD [of "ectx e"] by (simp add: break_if_pc_def only_if_def)

lemma TST_R_agrees:
  assumes "ctx_ok s" "flags_wf s" "regs_ok (ectx e)" "c_instruction (ectx e) = TST_R" "shift_ok (ectx e)"
  shows "\<exists>t. does u host jit_TST_R e s t \<and> agrees D_TST True e s t"
  by (rule agrees_store [OF assms(1-3) arith_r_computes(5) [OF assms(1,2,3,5)]]; use assms(4) in \<open>simp add: claim_defs jit_TST_R_def test_break [OF assms(3)]\<close>)

lemma TEQ_R_agrees:
  assumes "ctx_ok s" "flags_wf s" "regs_ok (ectx e)" "c_instruction (ectx e) = TEQ_R" "shift_ok (ectx e)"
  shows "\<exists>t. does u host jit_TEQ_R e s t \<and> agrees D_TEQ True e s t"
  by (rule agrees_store [OF assms(1-3) arith_r_computes(6) [OF assms(1,2,3,5)]]; use assms(4) in \<open>simp add: claim_defs jit_TEQ_R_def test_break [OF assms(3)]\<close>)

lemma CMP_R_agrees:
  assumes "ctx_ok s" "flags_wf s" "regs_ok (ectx e)" "c_instruction (ectx e) = CMP_R" "shift_ok (ectx e)"
  shows "\<exists>t. does u host jit_CMP_R e s t \<and> agrees D_CMP True e s t"
  by (rule agrees_store [OF assms(1-3) arith_r_computes(7) [OF assms(1,2,3,5)]]; use assms(4) in \<open>simp add: claim_defs jit_CMP_R_def test_break [OF assms(3)]\<close>)

lemma CMN_R_agrees:
  assumes "ctx_ok s" "flags_wf s" "regs_ok (ectx e)" "c_instruction (ectx e) = CMN_R" "shift_ok (ectx e)"
  shows "\<exists>t. does u host jit_CMN_R e s t \<and> agrees D_CMN True e s t"
  by (rule agrees_store [OF assms(1-3) arith_r_computes(8) [OF assms(1,2,3,5)]]; use assms(4) in \<open>simp add: claim_defs jit_CMN_R_def test_break [OF assms(3)]\<close>)

lemma ADC_R_agrees:
  assumes "ctx_ok s" "flags_wf s" "regs_ok (ectx e)" "c_instruction (ectx e) = ADC_R" "shift_ok (ectx e)"
    "stack_ok s"
  shows "\<exists>t. does u host jit_ADC_R e s t \<and> agrees D_ADC True e s t"
  by (rule agrees_update [OF assms(1-3) adc_r_computes [OF assms(1,2,3,5,6)]]; use assms(4) in \<open>simp add: claim_defs jit_ADC_R_def\<close>)

lemma SBC_R_agrees:
  assumes "ctx_ok s" "flags_wf s" "regs_ok (ectx e)" "c_instruction (ectx e) = SBC_R" "shift_ok (ectx e)"
  shows "\<exists>t. does u host (jit_SBC_R False) e s t \<and> agrees D_SBC True e s t"
  by (rule agrees_cmc [OF assms(1-3) sbc_r_computes [OF assms(1,2,3,5)]]; use assms(4) in \<open>simp add: claim_defs jit_SBC_R_def only_if_def\<close>)

lemma RSC_R_agrees:
  assumes "ctx_ok s" "flags_wf s" "regs_ok (ectx e)" "c_instruction (ectx e) = RSC_R" "shift_ok (ectx e)"
    "fa \<longrightarrow> flags_live s"
  shows "\<exists>t. does u host (jit_RSC_R fa) e s t \<and> agrees D_RSC True e s t"
  by (rule agrees_cmc [OF assms(1-3) rsc_r_computes [OF assms(1,2,3,5,6)]]; use assms(4) in \<open>simp add: claim_defs jit_RSC_R_def\<close>)

lemma MVN_R_agrees:
  assumes "ctx_ok s" "flags_wf s" "regs_ok (ectx e)" "c_instruction (ectx e) = MVN_R" "shift_ok (ectx e)"
  shows "\<exists>t. does u host jit_MVN_R e s t \<and> agrees D_MVN True e s t"
proof (cases "c_rd (ectx e) = c_rm (ectx e) \<and> unshifted (ectx e)")
  case True
  have "\<exists>t. does u host (steps [emit [0xF7, 0x55, REG (c_rd (ectx e))], load_carry]) e s t \<and>
      computes {c_rd (ectx e)} (NOT (sh_value (ectx e) s)) False None None s t"
    using True regs_okD [OF assms(3)] assms(1)
    by (intro computes_eval; simp add: compute_simps load_carry_def sh_value_def unshifted_def arm_shift_def)
  note core = this
  show ?thesis
    by (rule agrees_update [OF assms(1-3) core]; use True regs_okD [OF assms(3)] assms(4) in
      \<open>simp add: claim_defs jit_MVN_R_def unshifted_def break_if_pc_def only_if_def\<close>)
next
  case False
  then have nc: "\<not> (c_rd (ectx e) = c_rm (ectx e) \<and> c_shift (ectx e) = LSL \<and> c_imm (ectx e) = 0)"
    by (auto simp: unshifted_def)
  note eq = jit_MVN_R_def [of e, unfolded Let_def if_not_P [OF nc]]
  show ?thesis
    by (rule agrees_update [OF assms(1-3) arith_r_computes(4) [OF assms(1,2,3,5)]];
        use regs_okD(4) [OF assms(3)] assms(4) in \<open>simp add: claim_defs eq break_if_pc_def only_if_def\<close>)
qed

lemma MOV_R_agrees:
  assumes "ctx_ok s" "flags_wf s" "regs_ok (ectx e)" "c_instruction (ectx e) = MOV_R" "shift_ok (ectx e)"
    "jit_value fa (ectx e)"
  shows "\<exists>t. does u host jit_MOV_R e s t \<and> agrees D_MOV True e s t"
proof (cases "c_rd (ectx e) = c_rm (ectx e) \<and> c_imm (ectx e) = 0")
  case True
  then have l: "c_shift (ectx e) = LSL" "c_rd (ectx e) \<noteq> 12"
    using assms(4-6) by (auto simp: jit_value_def shift_ok_def split: shift_op.splits)
  have core: "\<exists>t. does u host (emit [0x90]) e s t \<and> computes {c_rd (ectx e)} (sh_value (ectx e) s) False None None s t"
    using True l regs_okD [OF assms(3)] by (intro computes_eval; simp add: compute_simps sh_value_def arm_shift_def)
  show ?thesis
    by (rule agrees_plain [OF assms(2,3) core]; use True l assms(4) in \<open>simp add: claim_defs jit_MOV_R_def\<close>)
next
  case False
  note eq = jit_MOV_R_def [of e, unfolded Let_def if_not_P [OF False] if_not_P [OF regs_okD(4) [OF assms(3)]]]
  note jit = eq claim_defs only_if_def
  consider "\<not> sbit e" | "sbit e" "c_imm (ectx e) = 0" | "sbit e" "c_imm (ectx e) \<noteq> 0" by blast
  then show ?thesis
  proof cases
    case 1
    show ?thesis
      by (rule agrees_plain [OF assms(2,3) mov_r_computes(1) [OF assms(1,2,3,5)]]; use 1 assms(4) in \<open>simp add: jit sets_flags_def\<close>)
  next
    case 2
    show ?thesis
      by (rule agrees_store [OF assms(1-3) mov_r_computes(2) [OF assms(1,2,3,5)]]; use 2 assms(4) in \<open>simp add: jit\<close>)
  next
    case 3
    show ?thesis
      by (rule agrees_store [OF assms(1-3) mov_r_computes(1) [OF assms(1,2,3,5)]]; use 3 assms(4) in \<open>simp add: jit unshifted_def\<close>)
  qed
qed

section \<open>The dispatch\<close>

definition rdoes :: "x86_undef \<Rightarrow> (u32 \<Rightarrow> x86 \<Rightarrow> x86 option) \<Rightarrow> (emitter \<Rightarrow> emitter res) \<Rightarrow> emitter \<Rightarrow> x86 \<Rightarrow> x86 \<Rightarrow> bool" where
  "rdoes u host f e s t = (\<exists>e'. f e = Inr e' \<and> does u host (\<lambda>_. e') e s t)"

lemma body_agreesI:
  "compile_body fa e = Inr (f e) \<Longrightarrow> \<exists>t. does u host f e s t \<and> agrees op reg e s t \<Longrightarrow>
    \<exists>t. rdoes u host (compile_body fa) e s t \<and> agrees op reg e s t"
  by (auto simp: rdoes_def does_def emits_def)

lemma body_eqs:
  "c_instruction (ectx e) = AND_I \<Longrightarrow> compile_body fa e = Inr (jit_AND_I e)"
  "c_instruction (ectx e) = AND_R \<Longrightarrow> compile_body fa e = Inr (jit_AND_R e)"
  "c_instruction (ectx e) = EOR_I \<Longrightarrow> compile_body fa e = Inr (jit_EOR_I e)"
  "c_instruction (ectx e) = EOR_R \<Longrightarrow> compile_body fa e = Inr (jit_EOR_R e)"
  "c_instruction (ectx e) = SUB_I \<Longrightarrow> compile_body fa e = Inr (jit_SUB_I e)"
  "c_instruction (ectx e) = SUB_R \<Longrightarrow> compile_body fa e = Inr (jit_SUB_R e)"
  "c_instruction (ectx e) = RSB_I \<Longrightarrow> compile_body fa e = Inr (jit_RSB_I e)"
  "c_instruction (ectx e) = RSB_R \<Longrightarrow> compile_body fa e = Inr (jit_RSB_R e)"
  "c_instruction (ectx e) = ADD_I \<Longrightarrow> compile_body fa e = Inr (jit_ADD_I e)"
  "c_instruction (ectx e) = ADD_R \<Longrightarrow> compile_body fa e = Inr (jit_ADD_R e)"
  "c_instruction (ectx e) = ADC_I \<Longrightarrow> compile_body fa e = Inr (jit_ADC_I e)"
  "c_instruction (ectx e) = ADC_R \<Longrightarrow> compile_body fa e = Inr (jit_ADC_R e)"
  "c_instruction (ectx e) = SBC_I \<Longrightarrow> compile_body fa e = Inr (jit_SBC_I fa e)"
  "c_instruction (ectx e) = SBC_R \<Longrightarrow> compile_body fa e = Inr (jit_SBC_R fa e)"
  "c_instruction (ectx e) = RSC_R \<Longrightarrow> compile_body fa e = Inr (jit_RSC_R fa e)"
  "c_instruction (ectx e) = TST_I \<Longrightarrow> compile_body fa e = Inr (jit_TST_I e)"
  "c_instruction (ectx e) = TST_R \<Longrightarrow> compile_body fa e = Inr (jit_TST_R e)"
  "c_instruction (ectx e) = TEQ_R \<Longrightarrow> compile_body fa e = Inr (jit_TEQ_R e)"
  "c_instruction (ectx e) = CMP_I \<Longrightarrow> compile_body fa e = Inr (jit_CMP_I e)"
  "c_instruction (ectx e) = CMP_R \<Longrightarrow> compile_body fa e = Inr (jit_CMP_R e)"
  "c_instruction (ectx e) = CMN_I \<Longrightarrow> compile_body fa e = Inr (jit_CMN_I e)"
  "c_instruction (ectx e) = CMN_R \<Longrightarrow> compile_body fa e = Inr (jit_CMN_R e)"
  "c_instruction (ectx e) = ORR_I \<Longrightarrow> compile_body fa e = Inr (jit_ORR_I e)"
  "c_instruction (ectx e) = ORR_R \<Longrightarrow> compile_body fa e = Inr (jit_ORR_R e)"
  "c_instruction (ectx e) = MOV_I \<Longrightarrow> compile_body fa e = Inr (jit_MOV_I e)"
  "c_instruction (ectx e) = MOV_R \<Longrightarrow> compile_body fa e = Inr (jit_MOV_R e)"
  "c_instruction (ectx e) = BIC_I \<Longrightarrow> compile_body fa e = Inr (jit_BIC_I e)"
  "c_instruction (ectx e) = BIC_R \<Longrightarrow> compile_body fa e = Inr (jit_BIC_R e)"
  "c_instruction (ectx e) = MVN_I \<Longrightarrow> compile_body fa e = Inr (jit_MVN_I e)"
  "c_instruction (ectx e) = MVN_R \<Longrightarrow> compile_body fa e = Inr (jit_MVN_R e)"
  by (simp_all add: compile_body_def)

lemma dp_inst_cases:
  assumes "dp_inst i = Some (op, reg)"
  obtains "i = AND_I" "op = D_AND" "reg = False"
  | "i = AND_R" "op = D_AND" "reg = True"
  | "i = EOR_I" "op = D_EOR" "reg = False"
  | "i = EOR_R" "op = D_EOR" "reg = True"
  | "i = SUB_I" "op = D_SUB" "reg = False"
  | "i = SUB_R" "op = D_SUB" "reg = True"
  | "i = RSB_I" "op = D_RSB" "reg = False"
  | "i = RSB_R" "op = D_RSB" "reg = True"
  | "i = ADD_I" "op = D_ADD" "reg = False"
  | "i = ADD_R" "op = D_ADD" "reg = True"
  | "i = ADC_I" "op = D_ADC" "reg = False"
  | "i = ADC_R" "op = D_ADC" "reg = True"
  | "i = SBC_I" "op = D_SBC" "reg = False"
  | "i = SBC_R" "op = D_SBC" "reg = True"
  | "i = RSC_R" "op = D_RSC" "reg = True"
  | "i = TST_I" "op = D_TST" "reg = False"
  | "i = TST_R" "op = D_TST" "reg = True"
  | "i = TEQ_R" "op = D_TEQ" "reg = True"
  | "i = CMP_I" "op = D_CMP" "reg = False"
  | "i = CMP_R" "op = D_CMP" "reg = True"
  | "i = CMN_I" "op = D_CMN" "reg = False"
  | "i = CMN_R" "op = D_CMN" "reg = True"
  | "i = ORR_I" "op = D_ORR" "reg = False"
  | "i = ORR_R" "op = D_ORR" "reg = True"
  | "i = MOV_I" "op = D_MOV" "reg = False"
  | "i = MOV_R" "op = D_MOV" "reg = True"
  | "i = BIC_I" "op = D_BIC" "reg = False"
  | "i = BIC_R" "op = D_BIC" "reg = True"
  | "i = MVN_I" "op = D_MVN" "reg = False"
  | "i = MVN_R" "op = D_MVN" "reg = True"
  | "i = TEQ_I" "op = D_TEQ" "reg = False"
  using assms unfolding dp_inst_def by (simp split: if_splits)

lemma data_code:
  assumes "ctx_ok s" "flags_wf s" "stack_ok s" "regs_ok (ectx e)" "dp_inst (c_instruction (ectx e)) = Some (op, reg)"
    "reg \<longrightarrow> shift_ok (ectx e)" "jit_value fa (ectx e)" "fa \<and> c_instruction (ectx e) \<in> {SBC_I, RSC_R} \<longrightarrow> flags_live s"
    "c_instruction (ectx e) \<noteq> TEQ_I"
  shows "\<exists>t. rdoes u host (compile_body fa) e s t \<and> agrees op reg e s t"
proof -
  note a = assms(1,2,4)
  from assms(5) show ?thesis
  proof (cases rule: dp_inst_cases)
    case 1
    show ?thesis unfolding 1(2,3) by (rule body_agreesI [where f = jit_AND_I], rule body_eqs(1) [OF 1(1)], rule AND_I_agrees [OF a 1(1)])
  next
    case 2
    then have sh: "shift_ok (ectx e)" using assms(6) by simp
    show ?thesis unfolding 2(2,3) by (rule body_agreesI [where f = jit_AND_R], rule body_eqs(2) [OF 2(1)], rule AND_R_agrees [OF a 2(1) sh])
  next
    case 3
    show ?thesis unfolding 3(2,3) by (rule body_agreesI [where f = jit_EOR_I], rule body_eqs(3) [OF 3(1)], rule EOR_I_agrees [OF a 3(1)])
  next
    case 4
    then have sh: "shift_ok (ectx e)" using assms(6) by simp
    show ?thesis unfolding 4(2,3) by (rule body_agreesI [where f = jit_EOR_R], rule body_eqs(4) [OF 4(1)], rule EOR_R_agrees [OF a 4(1) sh])
  next
    case 5
    show ?thesis unfolding 5(2,3) by (rule body_agreesI [where f = jit_SUB_I], rule body_eqs(5) [OF 5(1)], rule SUB_I_agrees [OF a 5(1)])
  next
    case 6
    then have sh: "shift_ok (ectx e)" using assms(6) by simp
    show ?thesis unfolding 6(2,3) by (rule body_agreesI [where f = jit_SUB_R], rule body_eqs(6) [OF 6(1)], rule SUB_R_agrees [OF a 6(1) sh])
  next
    case 7
    then have rs: "c_rn (ectx e) = c_rd (ectx e) \<or> c_imm (ectx e) = 0" using assms(7) by (simp add: jit_value_def)
    show ?thesis unfolding 7(2,3) by (rule body_agreesI [where f = jit_RSB_I], rule body_eqs(7) [OF 7(1)], rule RSB_I_agrees [OF a 7(1) rs])
  next
    case 8
    then have sh: "shift_ok (ectx e)" using assms(6) by simp
    show ?thesis unfolding 8(2,3) by (rule body_agreesI [where f = jit_RSB_R], rule body_eqs(8) [OF 8(1)], rule RSB_R_agrees [OF a 8(1) sh])
  next
    case 9
    show ?thesis unfolding 9(2,3) by (rule body_agreesI [where f = jit_ADD_I], rule body_eqs(9) [OF 9(1)], rule ADD_I_agrees [OF a 9(1)])
  next
    case 10
    then have sh: "shift_ok (ectx e)" using assms(6) by simp
    show ?thesis unfolding 10(2,3) by (rule body_agreesI [where f = jit_ADD_R], rule body_eqs(10) [OF 10(1)], rule ADD_R_agrees [OF a 10(1) sh])
  next
    case 11
    show ?thesis unfolding 11(2,3) by (rule body_agreesI [where f = jit_ADC_I], rule body_eqs(11) [OF 11(1)], rule ADC_I_agrees [OF a 11(1)])
  next
    case 12
    then have sh: "shift_ok (ectx e)" using assms(6) by simp
    show ?thesis unfolding 12(2,3) by (rule body_agreesI [where f = jit_ADC_R], rule body_eqs(12) [OF 12(1)], rule ADC_R_agrees [OF a 12(1) sh assms(3)])
  next
    case 13
    then have lv: "fa \<longrightarrow> flags_live s" using assms(8) by simp
    show ?thesis unfolding 13(2,3) by (rule body_agreesI [where f = "jit_SBC_I fa"], rule body_eqs(13) [OF 13(1)], rule SBC_I_agrees [OF a 13(1) lv])
  next
    case 14
    then have sh: "shift_ok (ectx e)" using assms(6) by simp
    have f: "\<not> fa" using 14 assms(7) by (simp add: jit_value_def)
    show ?thesis unfolding 14(2,3) by (rule body_agreesI [where f = "jit_SBC_R False"], use body_eqs(14) [OF 14(1)] f in simp, rule SBC_R_agrees [OF a 14(1) sh])
  next
    case 15
    then have lv: "fa \<longrightarrow> flags_live s" using assms(8) by simp
    from 15 have sh: "shift_ok (ectx e)" using assms(6) by simp
    show ?thesis unfolding 15(2,3) by (rule body_agreesI [where f = "jit_RSC_R fa"], rule body_eqs(15) [OF 15(1)], rule RSC_R_agrees [OF a 15(1) sh lv])
  next
    case 16
    show ?thesis unfolding 16(2,3) by (rule body_agreesI [where f = jit_TST_I], rule body_eqs(16) [OF 16(1)], rule TST_I_agrees [OF a 16(1)])
  next
    case 17
    then have sh: "shift_ok (ectx e)" using assms(6) by simp
    show ?thesis unfolding 17(2,3) by (rule body_agreesI [where f = jit_TST_R], rule body_eqs(17) [OF 17(1)], rule TST_R_agrees [OF a 17(1) sh])
  next
    case 18
    then have sh: "shift_ok (ectx e)" using assms(6) by simp
    show ?thesis unfolding 18(2,3) by (rule body_agreesI [where f = jit_TEQ_R], rule body_eqs(18) [OF 18(1)], rule TEQ_R_agrees [OF a 18(1) sh])
  next
    case 19
    show ?thesis unfolding 19(2,3) by (rule body_agreesI [where f = jit_CMP_I], rule body_eqs(19) [OF 19(1)], rule CMP_I_agrees [OF a 19(1)])
  next
    case 20
    then have sh: "shift_ok (ectx e)" using assms(6) by simp
    show ?thesis unfolding 20(2,3) by (rule body_agreesI [where f = jit_CMP_R], rule body_eqs(20) [OF 20(1)], rule CMP_R_agrees [OF a 20(1) sh])
  next
    case 21
    show ?thesis unfolding 21(2,3) by (rule body_agreesI [where f = jit_CMN_I], rule body_eqs(21) [OF 21(1)], rule CMN_I_agrees [OF a 21(1)])
  next
    case 22
    then have sh: "shift_ok (ectx e)" using assms(6) by simp
    show ?thesis unfolding 22(2,3) by (rule body_agreesI [where f = jit_CMN_R], rule body_eqs(22) [OF 22(1)], rule CMN_R_agrees [OF a 22(1) sh])
  next
    case 23
    show ?thesis unfolding 23(2,3) by (rule body_agreesI [where f = jit_ORR_I], rule body_eqs(23) [OF 23(1)], rule ORR_I_agrees [OF a 23(1)])
  next
    case 24
    then have sh: "shift_ok (ectx e)" using assms(6) by simp
    show ?thesis unfolding 24(2,3) by (rule body_agreesI [where f = jit_ORR_R], rule body_eqs(24) [OF 24(1)], rule ORR_R_agrees [OF a 24(1) sh])
  next
    case 25
    show ?thesis unfolding 25(2,3) by (rule body_agreesI [where f = jit_MOV_I], rule body_eqs(25) [OF 25(1)], rule MOV_I_agrees [OF a 25(1)])
  next
    case 26
    then have sh: "shift_ok (ectx e)" using assms(6) by simp
    show ?thesis unfolding 26(2,3) by (rule body_agreesI [where f = jit_MOV_R], rule body_eqs(26) [OF 26(1)], rule MOV_R_agrees [OF a 26(1) sh assms(7)])
  next
    case 27
    show ?thesis unfolding 27(2,3) by (rule body_agreesI [where f = jit_BIC_I], rule body_eqs(27) [OF 27(1)], rule BIC_I_agrees [OF a 27(1)])
  next
    case 28
    then have sh: "shift_ok (ectx e)" using assms(6) by simp
    show ?thesis unfolding 28(2,3) by (rule body_agreesI [where f = jit_BIC_R], rule body_eqs(28) [OF 28(1)], rule BIC_R_agrees [OF a 28(1) sh])
  next
    case 29
    show ?thesis unfolding 29(2,3) by (rule body_agreesI [where f = jit_MVN_I], rule body_eqs(29) [OF 29(1)], rule MVN_I_agrees [OF a 29(1)])
  next
    case 30
    then have sh: "shift_ok (ectx e)" using assms(6) by simp
    show ?thesis unfolding 30(2,3) by (rule body_agreesI [where f = jit_MVN_R], rule body_eqs(30) [OF 30(1)], rule MVN_R_agrees [OF a 30(1) sh])
  next
    case 31
    then show ?thesis using assms(9) by simp
  qed
qed

end
