(* ===== verification/Jit_Cond.thy ===== *)
theory Jit_Cond
  imports Jit_Code Jit_Data
begin

text \<open>
  Whole instructions: the cycle counter, the condition and the body.
\<close>

section \<open>The prologue\<close>

text \<open>The cycle counter is \<^verbatim>\<open>ebx\<close>.\<close>

definition ticked :: "x86 \<Rightarrow> x86" where
  "ticked s = set_gpr EBX (gpr s EBX + 1) s"

lemma ticked_frame [xstate]:
  "gpr (ticked s) x = (if x = EBX then gpr s EBX + 1 else gpr s x)" "memw (ticked s) = memw s" "slot (ticked s) = slot s"
  "ctx_ok (ticked s) = ctx_ok s" "outside (ticked s) a = outside s a"
  by (auto simp: ticked_def xstate)

lemma arm_of_cong: "(\<And>r. r < 32 \<Longrightarrow> slot t r = slot s r) \<Longrightarrow> arm_of t = arm_of s"
  by (auto simp: arm_of_def fun_eq_iff word_less_nat_alt)

lemma sext8_1: "sext8 1 = 1"
  by (simp add: sext8_def)

text \<open>The flags the condition is tested on: live from the last instruction, or loaded.\<close>

definition flags_actual :: "emitter \<Rightarrow> bool" where
  "flags_actual e = (flags_updated e \<and> \<not> lookahead_s e)"

lemma count_cycle_snd: "snd (count_cycle e) = flags_actual e"
  by (auto simp: count_cycle_def flags_actual_def emit_def)

lemma does_count_cycle:
  "\<exists>t. does u host (\<lambda>e. fst (count_cycle e)) e s t \<and> keeps {} {} (ticked s) t \<and> (flags_actual e \<longrightarrow> flags_live s \<longrightarrow> flags_live t)"
proof (cases "lookahead_s e")
  case True
  show ?thesis
    by (rule does_ex [of _ _ "[0x43]"])
      (use True in \<open>simp_all add: emits_def count_cycle_def emit_def xrun xstate keeps_def flags_actual_def Let_def\<close>)
next
  case False
  show ?thesis
    by (rule does_ex [of _ _ "[0x8D, 0x5B, 1]"])
      (use False in \<open>simp_all add: emits_def count_cycle_def emit_def xrun xstate keeps_def flags_live_def Let_def sext8_1\<close>)
qed

lemma does_prologue:
  assumes "ctx_ok s" "flags_wf s" "flags_actual e \<longrightarrow> flags_live s"
  shows "\<exists>t. does u host (\<lambda>e'. only_if (\<not> flags_actual e) load_flags (fst (count_cycle e'))) e s t \<and>
    keeps {EAX} {} (ticked s) t \<and> flags_live t"
proof -
  obtain t1 where t1: "does u host (\<lambda>e. fst (count_cycle e)) e s t1" "keeps {} {} (ticked s) t1"
      "flags_actual e \<longrightarrow> flags_live s \<longrightarrow> flags_live t1"
    using does_count_cycle by blast
  have ok: "ctx_ok t1" "flags_wf t1" "flags_actual e \<longrightarrow> flags_live t1"
    using assms t1(2,3) by (auto simp: keeps_def ctx_ok_def flags_wf_def xstate)
  obtain t where t: "does u host (only_if (\<not> flags_actual e) load_flags) (fst (count_cycle e)) t1 t" "keeps {EAX} {} t1 t" "flags_live t"
    using live_flags [OF ok] by blast
  have "keeps {EAX} {} (ticked s) t" using keeps_trans [OF t1(2) t(2)] by simp
  then show ?thesis using does_then [OF t1(1) t(1)] t(3) by blast
qed

section \<open>The condition\<close>

text \<open>The body's state: for \<^verbatim>\<open>HI\<close> and \<^verbatim>\<open>LS\<close> the carry has been inverted.\<close>

definition body_state :: "condition \<Rightarrow> x86 \<Rightarrow> x86" where
  "body_state cond t = (if cond = HI \<or> cond = LS then t\<lparr>cf := \<not> cf t\<rparr> else t)"

lemma xrun_skip_jump:
  assumes "flags_live t" "length bs < 128" "cond \<noteq> AL" "cond \<noteq> NV"
  shows "xrun u host (skip_jump cond @ word_of_nat (length bs) # bs) t =
    (if arm_cond cond (arm_of t) then xrun u host bs (body_state cond t) else Some (Fall (body_state cond t)))"
proof -
  have d: "unat (word_of_nat (length bs) :: u8) = length bs" "(word_of_nat (length bs) :: u8) < 128"
    using assms(2) by (simp_all add: unat_of_nat8 word_less_nat_alt)
  show ?thesis
    using assms(1,3,4) d
    by (cases cond) (auto simp: skip_jump_def xrun x86_cond_def arm_cond_def flags_live_def body_state_def)
qed

section \<open>The emitted code\<close>

definition conditional :: "emitter \<Rightarrow> bool" where
  "conditional e = (c_cond (ectx e) \<noteq> AL \<and> c_cond (ectx e) \<noteq> NV)"

text \<open>The body \<open>bs\<close> of the instruction, compiled behind whatever is there already.\<close>

definition body_code :: "bool \<Rightarrow> emitter \<Rightarrow> emitter \<Rightarrow> u8 list \<Rightarrow> bool" where
  "body_code fa e e3 bs = (ectx e3 = ectx e \<and> INST_BITS e3 = INST_BITS e \<and> inst_no e3 = inst_no e \<and>
     lookahead_s e3 = lookahead_s e \<and> fns e3 = fns e \<and> (\<exists>e4. compile_body fa e3 = Inr e4 \<and> out e4 = out e3 @ bs))"

text \<open>The prologue as a function of the emitter.\<close>

definition prologue :: "emitter \<Rightarrow> emitter" where
  "prologue e = only_if (\<not> flags_actual e) load_flags (fst (count_cycle e))"

lemma compile_instruction_conditional:
  assumes "conditional e" "emits prologue e pre"
  obtains e' e3 bs where "compile_instruction e = Inr e'"
    "out e' = out e @ pre @ skip_jump (c_cond (ectx e)) @ word_of_nat (length bs) # bs"
    "body_code True e e3 bs" "length bs < 128"
proof -
  define e2 where "e2 = emit (skip_jump (c_cond (ectx e))) (prologue e)"
  let ?e3 = "(emit [0] e2)\<lparr>flags_updated := False\<rparr>"
  have env: "ectx ?e3 = ectx e" "INST_BITS ?e3 = INST_BITS e" "inst_no ?e3 = inst_no e" "lookahead_s ?e3 = lookahead_s e" "fns ?e3 = fns e"
    "out e2 = out e @ pre @ skip_jump (c_cond (ectx e))"
    using assms(2) by (simp_all add: e2_def emit_def emits_def)
  obtain e1 fa where cc: "count_cycle e = (e1, fa)" by (cases "count_cycle e")
  then have "fa = flags_actual e" "prologue e = only_if (\<not> fa) load_flags e1"
    using count_cycle_snd [of e] by (simp_all add: prologue_def)
  then have i: "compile_instruction e = rbind (compile_body True ?e3) (patch (length (out e2)))"
    using assms(1) cc by (simp add: compile_instruction_def conditional_def e2_def Let_def)
  obtain e4 where e4: "compile_body True ?e3 = Inr e4" "app 123 ?e3 e4"
    using rapp_compile_body [of ?e3 True] unfolding rapp_def by blast
  then obtain bs where bs: "out e4 = out ?e3 @ bs" "length bs \<le> 123" by (auto simp: app_def)
  let ?e' = "e4\<lparr>out := (out e4)[length (out e2) := word_of_nat (length bs)]\<rparr>"
  have "patch (length (out e2)) e4 = Inr ?e'" using bs by (simp add: patch_def emit_def Let_def)
  then have "compile_instruction e = Inr ?e'" using i e4(1) by simp
  moreover have "out ?e' = out e @ pre @ skip_jump (c_cond (ectx e)) @ word_of_nat (length bs) # bs"
    using bs env by (simp add: emit_def list_update_append)
  moreover have "body_code True e ?e3 bs" using env e4(1) bs(1) by (simp add: body_code_def)
  ultimately show ?thesis using that bs(2) by simp
qed

text \<open>
  The condition of every conditional instruction, whatever it does. Its code counts
  the cycle, then runs the code of the body exactly when the ARM condition holds on the
  emulated flags; otherwise it is done, and the registers and flags are what they were.
\<close>

lemma conditional_run:
  assumes "conditional e" "ctx_ok s" "flags_wf s" "flags_actual e \<longrightarrow> flags_live s"
  shows "\<exists>e' e3 pre bs s1. compile_instruction e = Inr e' \<and> out e' = out e @ pre @ bs \<and> body_code True e e3 bs \<and>
    xrun u host (pre @ bs) s = (if arm_cond (c_cond (ectx e)) (arm_of s) then xrun u host bs s1 else Some (Fall s1)) \<and>
    arm_of s1 = arm_of s \<and> keeps {EAX} {} (ticked s) s1 \<and>
    (c_cond (ectx e) \<noteq> HI \<and> c_cond (ectx e) \<noteq> LS \<longrightarrow> flags_live s1)"
proof -
  obtain t where t: "does u host prologue e s t" "keeps {EAX} {} (ticked s) t" "flags_live t"
    using does_prologue [OF assms(2-4), of u host] by (auto simp: prologue_def does_def emits_def)
  then obtain pre where pre: "emits prologue e pre" "xrun u host pre s = Some (Fall t)" by (auto simp: does_def)
  obtain e' e3 bs where c: "compile_instruction e = Inr e'"
      "out e' = out e @ pre @ skip_jump (c_cond (ectx e)) @ word_of_nat (length bs) # bs" "body_code True e e3 bs" "length bs < 128"
    by (rule compile_instruction_conditional [OF assms(1) pre(1)])
  let ?s1 = "body_state (c_cond (ectx e)) t"
  have a: "arm_of t = arm_of s" using t(2) by (intro arm_of_cong) (simp add: keeps_def xstate)
  have k: "keeps {EAX} {} (ticked s) ?s1" using t(2) by (simp add: body_state_def keeps_def xstate)
  have a1: "arm_of ?s1 = arm_of s"
    using a arm_of_cong [of "t\<lparr>cf := \<not> cf t\<rparr>" t] by (simp add: body_state_def xstate)
  have live: "c_cond (ectx e) \<noteq> HI \<and> c_cond (ectx e) \<noteq> LS \<longrightarrow> flags_live ?s1" using t(3) by (simp add: body_state_def)
  have "xrun u host ((pre @ skip_jump (c_cond (ectx e)) @ [word_of_nat (length bs)]) @ bs) s =
      (if arm_cond (c_cond (ectx e)) (arm_of s) then xrun u host bs ?s1 else Some (Fall ?s1))"
    using xrun_append [OF pre(2), of "skip_jump (c_cond (ectx e)) @ word_of_nat (length bs) # bs"]
      xrun_skip_jump [OF t(3) c(4)] assms(1) a by (simp add: conditional_def)
  then show ?thesis
    using c a1 k live by (intro exI [of _ e'] exI [of _ e3] exI [of _ "pre @ skip_jump (c_cond (ectx e)) @ [word_of_nat (length bs)]"]
      exI [of _ bs] exI [of _ ?s1]) simp
qed

lemma compile_instruction_always:
  assumes "\<not> conditional e" "emits (\<lambda>e. fst (count_cycle e)) e pre"
  shows "compile_instruction e = compile_body (flags_actual e) ((fst (count_cycle e))\<lparr>flags_updated := False\<rparr>)"
  using assms count_cycle_snd [of e] by (auto simp: compile_instruction_def conditional_def Let_def split: prod.split)

section \<open>Data processing\<close>

text \<open>The instruction is one whose code is right: no \<^verbatim>\<open>teq\<close> with a constant; none
  that needs the carry where the condition has inverted it.\<close>

definition jit_ok :: "emitter \<Rightarrow> bool" where
  "jit_ok e =
    (let c = ectx e; fa = conditional e \<or> flags_actual e
     in jit_value fa c \<and> c_instruction c \<noteq> TEQ_I \<and>
       (c_cond c = HI \<or> c_cond c = LS \<longrightarrow> c_instruction c \<noteq> SBC_I \<and> c_instruction c \<noteq> RSC_R))"

lemma agrees_env:
  assumes "agrees op reg e3 s1 t" "ectx e3 = ectx e" "lookahead_s e3 = lookahead_s e" "arm_of s1 = arm_of s" "keeps {EAX} {} s' s1"
    "ctx_ok s'" "arm_of s' = arm_of s"
  shows "agrees op reg e s' t"
proof -
  have f: "sets_flags op e3 = sets_flags op e" using assms(2,3) by (simp add: sets_flags_def sbit_def)
  have "keeps scratch ((if is_test op then {} else {c_rd (ectx e)}) \<union> (if sets_flags op e then {s_flags} else {})) s' t"
    using assms(1,2) f by (intro keeps_scratch_trans [OF assms(5)]) (auto simp: agrees_def Let_def scratch_def)
  then show ?thesis using assms(1,2,4,7) f by (simp add: agrees_def Let_def)
qed

lemma arm_of_ticked [simp]: "arm_of (ticked s) = arm_of s"
  by (rule arm_of_cong) (simp add: xstate)

text \<open>What an instruction leaves behind.\<close>

definition dp_step :: "dp \<Rightarrow> bool \<Rightarrow> emitter \<Rightarrow> x86 \<Rightarrow> x86 \<Rightarrow> bool" where
  "dp_step op reg e s t =
    (if arm_cond (c_cond (ectx e)) (arm_of s) then agrees op reg e (ticked s) t
     else keeps {EAX} {} (ticked s) t \<and> flags_wf t \<and>
       (c_cond (ectx e) \<noteq> HI \<and> c_cond (ectx e) \<noteq> LS \<longrightarrow> flags_live t))"

lemma keeps_stack_ok: "keeps rs ss s t \<Longrightarrow> EBP \<notin> rs \<Longrightarrow> ESP \<notin> rs \<Longrightarrow> stack_ok s \<Longrightarrow> stack_ok t"
  by (simp add: keeps_def stack_ok_def)

lemma data_instruction:
  assumes "dp_inst (c_instruction (ectx e)) = Some (op, reg)" "regs_ok (ectx e)" "reg \<longrightarrow> shift_ok (ectx e)" "jit_ok e"
    "ctx_ok s" "flags_wf s" "stack_ok s" "flags_actual e \<longrightarrow> flags_live s"
  shows "\<exists>e' bs t. compile_instruction e = Inr e' \<and> out e' = out e @ bs \<and> xrun u host bs s = Some (Fall t) \<and> dp_step op reg e s t"
proof (cases "conditional e")
  case True
  obtain e' e3 pre bs s1 where c: "compile_instruction e = Inr e'" "out e' = out e @ pre @ bs" "body_code True e e3 bs"
    "xrun u host (pre @ bs) s = (if arm_cond (c_cond (ectx e)) (arm_of s) then xrun u host bs s1 else Some (Fall s1))"
    "arm_of s1 = arm_of s" "keeps {EAX} {} (ticked s) s1" "c_cond (ectx e) \<noteq> HI \<and> c_cond (ectx e) \<noteq> LS \<longrightarrow> flags_live s1"
    using conditional_run [OF True assms(5,6,8), of u host] by blast
  have ok: "ctx_ok s1" "flags_wf s1" "stack_ok s1"
    using keeps_slots [OF c(6)] keeps_stack_ok [OF c(6)] assms(5-7) by (simp_all add: xstate flags_wf_def stack_ok_def)
  have ticked: "ctx_ok (ticked s)" "arm_of (ticked s) = arm_of s" using assms(5) by (simp_all add: xstate)
  show ?thesis
  proof (cases "arm_cond (c_cond (ectx e)) (arm_of s)")
    case holds: True
    obtain e4 where e4: "compile_body True e3 = Inr e4" "out e4 = out e3 @ bs" and e3: "ectx e3 = ectx e" "lookahead_s e3 = lookahead_s e"
      using c(3) by (auto simp: body_code_def)
    have "jit_value True (ectx e3) \<and> c_instruction (ectx e3) \<noteq> TEQ_I \<and> (c_instruction (ectx e3) \<in> {SBC_I, RSC_R} \<longrightarrow> flags_live s1)"
      using assms(4) True c(7) e3 by (auto simp: jit_ok_def Let_def)
    then obtain t where t: "rdoes u host (compile_body True) e3 s1 t" "agrees op reg e3 s1 t"
      using data_code [OF ok, of e3 op reg True u host] assms(1-3) e3 by auto
    have x: "xrun u host bs s1 = Some (Fall t)" using t(1) e4 by (auto simp: rdoes_def does_def emits_def)
    have "agrees op reg e (ticked s) t" by (rule agrees_env [OF t(2) e3 c(5,6) ticked])
    then show ?thesis using c(1,2,4) holds x by (auto simp: dp_step_def)
  next
    case False
    then show ?thesis using c(1,2,4,6,7) ok(2) by (auto simp: dp_step_def)
  qed
next
  case False
  obtain s1 where s1: "does u host (\<lambda>e. fst (count_cycle e)) e s s1" "keeps {} {} (ticked s) s1"
      "flags_actual e \<longrightarrow> flags_live s \<longrightarrow> flags_live s1"
    using does_count_cycle by blast
  then obtain pre where pre: "emits (\<lambda>e. fst (count_cycle e)) e pre" "xrun u host pre s = Some (Fall s1)" by (auto simp: does_def)
  let ?e3 = "(fst (count_cycle e))\<lparr>flags_updated := False\<rparr>"
  have e3: "ectx ?e3 = ectx e" "lookahead_s ?e3 = lookahead_s e" "out ?e3 = out e @ pre"
    using pre(1) by (simp_all add: emits_def)
  have ok: "ctx_ok s1" "flags_wf s1" "stack_ok s1"
    using keeps_slots [OF s1(2)] keeps_stack_ok [OF s1(2)] assms(5-7) by (simp_all add: xstate flags_wf_def stack_ok_def)
  have a1: "arm_of s1 = arm_of s" using s1(2) by (intro arm_of_cong) (simp add: keeps_def xstate)
  have "jit_value (flags_actual e) (ectx ?e3) \<and> c_instruction (ectx ?e3) \<noteq> TEQ_I \<and> (flags_actual e \<longrightarrow> flags_live s1)"
    using assms(4,8) False s1(3) e3 by (auto simp: jit_ok_def Let_def)
  then obtain t where t: "rdoes u host (compile_body (flags_actual e)) ?e3 s1 t" "agrees op reg ?e3 s1 t"
    using data_code [OF ok, of ?e3 op reg "flags_actual e" u host] assms(1-3) e3 by auto
  obtain e' bs where b: "compile_body (flags_actual e) ?e3 = Inr e'" "out e' = out ?e3 @ bs" "xrun u host bs s1 = Some (Fall t)"
    using t(1) by (auto simp: rdoes_def does_def emits_def)
  have k: "keeps {EAX} {} (ticked s) s1" by (rule keeps_mono [OF s1(2)]) auto
  have "agrees op reg e (ticked s) t"
    by (rule agrees_env [OF t(2) e3(1,2) a1 k]) (use assms(5) in \<open>simp_all add: xstate\<close>)
  moreover have "arm_cond (c_cond (ectx e)) (arm_of s)" using False by (auto simp: conditional_def arm_cond_def)
  moreover have "compile_instruction e = Inr e'" using compile_instruction_always [OF False pre(1)] b(1) by simp
  ultimately show ?thesis
    using b(2,3) e3(3) xrun_append [OF pre(2), of bs] by (auto simp: dp_step_def)
qed

end
