(* ===== verification/Jit_Block.thy ===== *)
theory Jit_Block
  imports Jit_Cond
begin

text \<open>
  Straight blocks: the code of consecutive data processing instructions, run by the host
  processor wherever the page was allocated, takes the emulated registers where the ARM
  program takes them.
\<close>

section \<open>Pieces inside a page\<close>

text \<open>A piece that calls no routine runs at its place in the page.\<close>

lemma sext8_forward: "d < 128 \<Longrightarrow> sext8 d = word_of_nat (unat d)"
proof -
  assume d: "d < (128::u8)"
  have "\<not> bit d n" if "7 \<le> n" for n
  proof
    assume "bit d n"
    then have "odd (unat d div 2 ^ n)" by (simp add: bit_unsigned_iff flip: bit_iff_odd)
    then have "2 ^ n \<le> unat d" by (cases "unat d < 2 ^ n") auto
    then show False using d that power_increasing [of 7 n "2::nat"] by (simp add: word_less_nat_alt)
  qed
  then show ?thesis
    by (intro u32_eqI) (auto simp: sext8_def bit_simps min_def)
qed

lemma x86_next_other:
  assumes "x86_ctl u (\<lambda>_ _. None) i left s = Some (Inl (k, t))"
  shows "x86_next u host i ip s = Some (ip + word_of_nat k, t)"
  using assms by (cases i) (auto simp: sext8_forward split: if_splits)

lemma x86_ctl_no_exit: "x86_ctl u (\<lambda>_ _. None) i left s = Some (Inr (w, t)) \<Longrightarrow> \<exists>v. i = Jmp v"
  by (cases i) (auto split: if_splits)

lemma xrun_x86_run:
  assumes "xrun u (\<lambda>_ _. None) bs s = Some (Fall t)" "length (pre @ bs @ post) < 2 ^ 32"
  shows "x86_run u host base (pre @ bs @ post) (base + word_of_nat (length pre), s) (base + word_of_nat (length (pre @ bs)), t)"
  using assms
proof (induction u "\<lambda>(_::u32) (_::x86). None :: x86 option" bs s arbitrary: pre rule: xrun.induct)
  case (1 u s)
  then show ?case by (simp add: x86_run.stop)
next
  case (2 u b bs s)
  let ?code = "pre @ (b # bs) @ post"
  obtain i rest k s1 where d: "x86_decode (b # bs) = Some (i, rest)" and
      c: "x86_ctl u (\<lambda>_ _. None) i (length rest) s = Some (Inl (k, s1))" and x: "xrun u (\<lambda>_ _. None) (drop k rest) s1 = Some (Fall t)"
    using "2.prems"(1) by (auto split: option.splits sum.splits)
  have k: "k \<le> length rest" by (rule x86_ctl_within [OF c])
  have l: "length rest < length (b # bs)" by (rule x86_decode_less [OF d])
  obtain n where n: "n = length (b # bs) - length rest + k" "n \<le> length (b # bs)" "drop n (b # bs) = drop k rest"
  proof
    show "length (b # bs) - length rest + k = length (b # bs) - length rest + k" ..
    show "length (b # bs) - length rest + k \<le> length (b # bs)" using k l by simp
    have "drop (length (b # bs) - length rest + k) (b # bs) = drop k (drop (length (b # bs) - length rest) (b # bs))"
      by (simp only: drop_drop add.commute)
    also have "\<dots> = drop k rest" by (simp only: x86_decode_drop [OF d])
    finally show "drop (length (b # bs) - length rest + k) (b # bs) = drop k rest" .
  qed
  define pre' where "pre' = pre @ take n (b # bs)"
  have code: "pre @ (b # bs) @ post = pre' @ drop k rest @ post"
    by (simp only: pre'_def append_assoc n(3) [symmetric]) (metis append_assoc append_take_drop_id)
  have len: "length pre' = length pre + n" using n(2) by (simp add: pre'_def)
  have ip: "unat (word_of_nat (length pre) :: u32) = length pre" using "2.prems"(2) by (simp add: unat_of_nat32)
  have "x86_step u host base (pre @ (b # bs) @ post) (base + word_of_nat (length pre), s) =
      Some (base + word_of_nat (length pre) + word_of_nat (length (b # bs) - length rest) + word_of_nat k, s1)"
    using x86_decode_append [OF d, of post] x86_next_other [OF c, of host] l by (simp add: x86_step_def Let_def ip)
  moreover have "base + word_of_nat (length pre) + word_of_nat (length (b # bs) - length rest) + word_of_nat k =
      base + (word_of_nat (length pre') :: u32)"
    by (simp only: len n(1) of_nat_add add.assoc)
  ultimately have step: "x86_step u host base (pre @ (b # bs) @ post) (base + word_of_nat (length pre), s) =
      Some (base + word_of_nat (length pre'), s1)" by simp
  have "length (pre' @ drop k rest @ post) < 2 ^ 32" using "2.prems"(2) code by metis
  then have "x86_run u host base (pre' @ drop k rest @ post) (base + word_of_nat (length pre'), s1)
      (base + word_of_nat (length (pre' @ drop k rest)), t)"
    by (rule "2.hyps" [OF d refl c refl refl x])
  moreover have "length (pre' @ drop k rest) = length (pre @ b # bs)" using arg_cong [OF code, of length] by simp
  ultimately show ?case unfolding code using step [unfolded code] by (simp only: x86_run.step)
qed

section \<open>What an instruction leaves in the compiler\<close>

text \<open>Emitting functions that leave the flags' state and the relocations alone.\<close>

definition silent :: "(emitter \<Rightarrow> emitter) \<Rightarrow> emitter \<Rightarrow> bool" where
  "silent f e = (ectx (f e) = ectx e \<and> flags_updated (f e) = flags_updated e \<and> reloc_table (f e) = reloc_table e)"

lemma silent_basic [simp]:
  "ectx (emit bs e) = ectx e" "flags_updated (emit bs e) = flags_updated e" "reloc_table (emit bs e) = reloc_table e"
  "ectx (write32 w e) = ectx e" "flags_updated (write32 w e) = flags_updated e" "reloc_table (write32 w e) = reloc_table e"
  "ectx (only_if b f e) = (if b then ectx (f e) else ectx e)"
  "flags_updated (only_if b f e) = (if b then flags_updated (f e) else flags_updated e)"
  "reloc_table (only_if b f e) = (if b then reloc_table (f e) else reloc_table e)"
  by (simp_all add: emit_def write32_def only_if_def)

lemma silent_load_flags [simp]:
  "ectx (load_flags e) = ectx e" "flags_updated (load_flags e) = flags_updated e" "reloc_table (load_flags e) = reloc_table e"
  by (simp_all add: load_flags_def)

lemma silent_carry [simp]:
  "ectx (store_carry e) = ectx e" "flags_updated (store_carry e) = flags_updated e" "reloc_table (store_carry e) = reloc_table e"
  "ectx (load_carry e) = ectx e" "flags_updated (load_carry e) = flags_updated e" "reloc_table (load_carry e) = reloc_table e"
  by (simp_all add: store_carry_def load_carry_def)

lemma silent_operand [simp]:
  "ectx (load_eax_reg_or_pc r o' e) = ectx e" "flags_updated (load_eax_reg_or_pc r o' e) = flags_updated e"
  "reloc_table (load_eax_reg_or_pc r o' e) = reloc_table e"
  "ectx (load_ecx_reg_or_pc r o' e) = ectx e" "flags_updated (load_ecx_reg_or_pc r o' e) = flags_updated e"
  "reloc_table (load_ecx_reg_or_pc r o' e) = reloc_table e"
  by (simp_all add: load_eax_reg_or_pc_def load_ecx_reg_or_pc_def add_eax_def add_ecx_def)

lemma silent_shift [simp]:
  "ectx (shift_eax_imm e) = ectx e" "flags_updated (shift_eax_imm e) = flags_updated e" "reloc_table (shift_eax_imm e) = reloc_table e"
  by (simp_all add: shift_eax_imm_def Let_def split: shift_op.split)

lemma silent_shifter [simp]:
  "ectx (load_shifter_imm e) = ectx e" "flags_updated (load_shifter_imm e) = flags_updated e"
  "reloc_table (load_shifter_imm e) = reloc_table e"
  by (simp_all add: load_shifter_imm_def Let_def)

lemma silent_store_flags [simp]:
  "ectx (store_flags e) = ectx e" "reloc_table (store_flags e) = reloc_table e" "flags_updated (store_flags e)"
  by (simp_all add: store_flags_def Let_def)

lemma silent_update_flags [simp]:
  "ectx (update_flags e) = ectx e" "reloc_table (update_flags e) = reloc_table e"
  "flags_updated (update_flags e) = (sbit e \<or> flags_updated e)"
  "ectx (update_flags_cmc e) = ectx e" "reloc_table (update_flags_cmc e) = reloc_table e"
  "flags_updated (update_flags_cmc e) = (sbit e \<or> flags_updated e)"
  by (simp_all add: update_flags_def update_flags_cmc_def)

lemma silent_alu [simp]:
  "ectx (alu_i a b e) = ectx e" "flags_updated (alu_i a b e) = flags_updated e" "reloc_table (alu_i a b e) = reloc_table e"
  "ectx (alu_r a b e) = ectx e" "flags_updated (alu_r a b e) = flags_updated e" "reloc_table (alu_r a b e) = reloc_table e"
  by (simp_all add: alu_i_def alu_r_def Let_def)

text \<open>Without the S bit nothing is noted.\<close>

lemmas jit_data_defs = jit_AND_I_def jit_AND_R_def jit_EOR_I_def jit_EOR_R_def jit_SUB_I_def jit_SUB_R_def jit_RSB_I_def jit_RSB_R_def
  jit_ADD_I_def jit_ADD_R_def jit_ADC_I_def jit_ADC_R_def jit_SBC_I_def jit_SBC_R_def jit_RSC_R_def jit_ORR_I_def jit_ORR_R_def
  jit_BIC_I_def jit_BIC_R_def jit_MOV_I_def jit_MVN_I_def jit_MVN_R_def

lemma data_silent:
  "\<not> sbit e \<Longrightarrow> flags_updated (jit_AND_I e) = flags_updated e"
  "\<not> sbit e \<Longrightarrow> flags_updated (jit_AND_R e) = flags_updated e"
  "\<not> sbit e \<Longrightarrow> flags_updated (jit_EOR_I e) = flags_updated e"
  "\<not> sbit e \<Longrightarrow> flags_updated (jit_EOR_R e) = flags_updated e"
  "\<not> sbit e \<Longrightarrow> flags_updated (jit_SUB_I e) = flags_updated e"
  "\<not> sbit e \<Longrightarrow> flags_updated (jit_SUB_R e) = flags_updated e"
  "\<not> sbit e \<Longrightarrow> flags_updated (jit_RSB_I e) = flags_updated e"
  "\<not> sbit e \<Longrightarrow> flags_updated (jit_RSB_R e) = flags_updated e"
  "\<not> sbit e \<Longrightarrow> flags_updated (jit_ADD_I e) = flags_updated e"
  "\<not> sbit e \<Longrightarrow> flags_updated (jit_ADD_R e) = flags_updated e"
  "\<not> sbit e \<Longrightarrow> flags_updated (jit_ADC_I e) = flags_updated e"
  "\<not> sbit e \<Longrightarrow> flags_updated (jit_ADC_R e) = flags_updated e"
  "\<not> sbit e \<Longrightarrow> flags_updated (jit_SBC_I fa e) = flags_updated e"
  "\<not> sbit e \<Longrightarrow> flags_updated (jit_SBC_R fa e) = flags_updated e"
  "\<not> sbit e \<Longrightarrow> flags_updated (jit_RSC_R fa e) = flags_updated e"
  "\<not> sbit e \<Longrightarrow> flags_updated (jit_ORR_I e) = flags_updated e"
  "\<not> sbit e \<Longrightarrow> flags_updated (jit_ORR_R e) = flags_updated e"
  "\<not> sbit e \<Longrightarrow> flags_updated (jit_BIC_I e) = flags_updated e"
  "\<not> sbit e \<Longrightarrow> flags_updated (jit_BIC_R e) = flags_updated e"
  "\<not> sbit e \<Longrightarrow> flags_updated (jit_MOV_I e) = flags_updated e"
  "\<not> sbit e \<Longrightarrow> flags_updated (jit_MVN_I e) = flags_updated e"
  "\<not> sbit e \<Longrightarrow> flags_updated (jit_MVN_R e) = flags_updated e"
  by (simp_all add: jit_data_defs Let_def break_if_pc_def sbit_def)

lemma MOV_R_silent:
  "\<not> sbit e \<Longrightarrow> c_rd (ectx e) \<noteq> 15 \<Longrightarrow> \<not> (c_rd (ectx e) = 12 \<and> c_rm (ectx e) = 12 \<and> c_imm (ectx e) = 0) \<Longrightarrow>
    flags_updated (jit_MOV_R e) = flags_updated e"
  by (auto simp: jit_MOV_R_def Let_def sbit_def)

lemma body_silent:
  assumes "compile_body fa e = Inr e'" "dp_inst (c_instruction (ectx e)) = Some (op, reg)" "\<not> is_test op" "\<not> sbit e" "regs_ok (ectx e)"
    "jit_value True (ectx e)" "reg \<longrightarrow> shift_ok (ectx e)"
  shows "flags_updated e' = flags_updated e"
proof -
  show ?thesis
    using assms(2)
  proof (cases rule: dp_inst_cases)
    case 26
    have "compile_body fa e = Inr (jit_MOV_R e)" using 26 by (simp add: compile_body_def)
    moreover have "flags_updated (jit_MOV_R e) = flags_updated e"
      by (rule MOV_R_silent [OF assms(4)]) (use assms(5-7) 26 in \<open>auto simp: jit_value_def regs_ok_def\<close>)
    ultimately show ?thesis using assms(1) by simp
  next
    case 27
    then show ?thesis using assms(1,4) by (auto simp: compile_body_def data_silent)
  qed (use assms(1,3,4) in \<open>auto simp: body_eqs compile_body_def data_silent is_test_def\<close>)
qed

section \<open>Straight blocks\<close>

text \<open>The ARM processor on one instruction, if it is data processing.\<close>

definition arm_exec :: "dctx \<Rightarrow> arm \<Rightarrow> arm" where
  "arm_exec c a =
    (case dp_inst (c_instruction c) of
       Some (op, reg) \<Rightarrow> if arm_cond (c_cond c) a then arm_dp op reg c a else a
     | None \<Rightarrow> a)"

text \<open>The instructions whose code is exact. One that sets flags needs all four right, must
  store them (so the next may not be one that overwrites them), and leave them in the host
  as they are in memory, which the inverted carry of \<^verbatim>\<open>hi\<close> and \<^verbatim>\<open>ls\<close> prevents.\<close>

definition exact_inst :: "bool \<Rightarrow> dctx \<Rightarrow> bool" where
  "exact_inst la c =
    (case dp_inst (c_instruction c) of
       None \<Rightarrow> False
     | Some (op, reg) \<Rightarrow>
         regs_ok c \<and> (reg \<longrightarrow> shift_ok c) \<and> jit_value True c \<and> c_instruction c \<noteq> TEQ_I \<and>
         (c_cond c = HI \<or> c_cond c = LS \<longrightarrow> c_instruction c \<noteq> SBC_I \<and> c_instruction c \<noteq> RSC_R) \<and>
         (c_flags c AND S_BIT \<noteq> 0 \<or> is_test op \<longrightarrow>
            jit_nz c \<and> jit_c c \<and> jit_v c \<and> \<not> la \<and> c_cond c \<noteq> HI \<and> c_cond c \<noteq> LS))"

definition next_lookahead :: "dctx list \<Rightarrow> bool" where
  "next_lookahead cs = (case cs of [] \<Rightarrow> False | c # _ \<Rightarrow> lookahead c)"

fun exact_block :: "dctx list \<Rightarrow> bool" where
  "exact_block [] = True"
| "exact_block (c # cs) = (exact_inst (next_lookahead cs) c \<and> exact_block cs)"

lemma jit_value_mono: "jit_value True c \<Longrightarrow> jit_value fa c"
  by (auto simp: jit_value_def split: if_splits)

text \<open>The flags' state between instructions.\<close>

definition flags_sync :: "emitter \<Rightarrow> x86 \<Rightarrow> bool" where
  "flags_sync e s = (flags_updated e \<longrightarrow> flags_live s)"

lemma compile_instruction_body:
  assumes "compile_instruction e = Inr e'"
  obtains fa e3 e4 where "compile_body fa e3 = Inr e4" "ectx e3 = ectx e" "\<not> flags_updated e3" "flags_updated e' = flags_updated e4"
proof (cases "conditional e")
  case True
  define e2 where "e2 = emit (skip_jump (c_cond (ectx e))) (prologue e)"
  let ?e3 = "(emit [0] e2)\<lparr>flags_updated := False\<rparr>"
  obtain e1 fa where cc: "count_cycle e = (e1, fa)" by (cases "count_cycle e")
  then have fa: "fa = flags_actual e" "prologue e = only_if (\<not> fa) load_flags e1"
    using count_cycle_snd [of e] by (simp_all add: prologue_def)
  then have "rbind (compile_body True ?e3) (patch (length (out e2))) = Inr e'"
    using assms True cc by (simp add: compile_instruction_def conditional_def e2_def Let_def)
  then obtain e4 where "compile_body True ?e3 = Inr e4" "patch (length (out e2)) e4 = Inr e'" by (auto simp: rbind_def split: sum.splits)
  moreover have "ectx e1 = ectx e" using cc by (auto simp: count_cycle_def split: if_splits)
  ultimately show ?thesis using fa(2)
    by (intro that [of True ?e3 e4]) (auto simp: e2_def patch_def Let_def split: if_splits)
next
  case False
  obtain e1 fa where cc: "count_cycle e = (e1, fa)" by (cases "count_cycle e")
  then have "ectx e1 = ectx e" by (auto simp: count_cycle_def split: if_splits)
  then show ?thesis using assms False cc that [of fa "e1\<lparr>flags_updated := False\<rparr>" e']
    by (auto simp: compile_instruction_def conditional_def Let_def)
qed

text \<open>The host and the compiler between two instructions.\<close>

definition host_ok :: "emitter \<Rightarrow> x86 \<Rightarrow> bool" where
  "host_ok e s = (ctx_ok s \<and> flags_wf s \<and> stack_ok s \<and> flags_sync e s)"

definition frame :: "nat \<Rightarrow> x86 \<Rightarrow> x86 \<Rightarrow> bool" where
  "frame n s t = (gpr t EBX = gpr s EBX + word_of_nat n \<and> gpr t EBP = gpr s EBP \<and> gpr t ESP = gpr s ESP \<and>
     (\<forall>a. outside s a \<longrightarrow> memw t a = memw s a))"

lemma outside_frame_cong: "gpr t EBP = gpr s EBP \<Longrightarrow> gpr t ESP = gpr s ESP \<Longrightarrow> outside t a = outside s a"
  by (simp add: outside_def)

lemma frame_trans: "frame n s t \<Longrightarrow> frame m t r \<Longrightarrow> frame (n + m) s r"
  using outside_frame_cong [of t s] by (simp add: frame_def)

lemma keeps_ticked_frame:
  assumes "keeps rs ss (ticked s) t" "EBX \<notin> rs" "EBP \<notin> rs" "ESP \<notin> rs"
  shows "frame 1 s t"
  using assms by (auto simp: keeps_def frame_def xstate)

lemma dp_step_host:
  assumes "dp_step op reg e s t" "host_ok e s"
  shows "frame 1 s t" "flags_wf t" "ctx_ok t" "stack_ok t"
proof -
  show f: "frame 1 s t"
  proof (cases "arm_cond (c_cond (ectx e)) (arm_of s)")
    case True
    then obtain ss where "keeps scratch ss (ticked s) t" using assms(1) by (auto simp: dp_step_def agrees_def Let_def)
    then show ?thesis by (rule keeps_ticked_frame) (simp_all add: scratch_def)
  next
    case False
    then have "keeps {EAX} {} (ticked s) t" using assms(1) by (simp add: dp_step_def)
    then show ?thesis by (rule keeps_ticked_frame) simp_all
  qed
  show "flags_wf t" using assms(1) by (auto simp: dp_step_def agrees_def Let_def split: if_splits)
  show "ctx_ok t" "stack_ok t" using f assms(2) by (auto simp: frame_def host_ok_def ctx_ok_def stack_ok_def)
qed

lemma dp_step_arm:
  assumes "dp_step op reg e s t" "dp_inst (c_instruction (ectx e)) = Some (op, reg)" "exact_inst (lookahead_s e) (ectx e)"
  shows "arm_of t = arm_exec (ectx e) (arm_of s)"
proof (cases "arm_cond (c_cond (ectx e)) (arm_of s)")
  case True
  then have a: "agrees op reg e (ticked s) t" using assms(1) by (simp add: dp_step_def)
  let ?a = "arm_dp op reg (ectx e) (arm_of s)"
  have r: "areg (arm_of t) = areg ?a" using a by (simp add: agrees_def Let_def)
  have "aN (arm_of t) = aN ?a \<and> aZ (arm_of t) = aZ ?a \<and> aC (arm_of t) = aC ?a \<and> aV (arm_of t) = aV ?a"
  proof (cases "c_flags (ectx e) AND S_BIT \<noteq> 0 \<or> is_test op")
    case True
    then show ?thesis using a assms(2,3) by (auto simp: agrees_def Let_def sets_flags_def sbit_def exact_inst_def)
  next
    case False
    have "c_rd (ectx e) \<noteq> s_flags" using assms(2,3) by (auto simp: exact_inst_def dest: regs_okD)
    then have "slot t s_flags = slot s s_flags"
      using a False by (simp add: agrees_def Let_def sets_flags_def sbit_def keeps_def xstate)
    then show ?thesis using False by (simp add: arm_dp_def Let_def split: prod.split)
  qed
  then have "arm_of t = ?a" using r by simp
  then show ?thesis using True assms(2) by (simp add: arm_exec_def)
next
  case False
  then have "arm_of t = arm_of s" using assms(1) by (intro arm_of_cong) (simp add: dp_step_def keeps_def xstate)
  then show ?thesis using False assms(2) by (simp add: arm_exec_def)
qed

lemma dp_step_regs:
  assumes "dp_step op reg e s t" "dp_inst (c_instruction (ectx e)) = Some (op, reg)"
  shows "areg (arm_of t) = areg (arm_exec (ectx e) (arm_of s))"
proof (cases "arm_cond (c_cond (ectx e)) (arm_of s)")
  case True
  then show ?thesis using assms by (simp add: dp_step_def agrees_def Let_def arm_exec_def)
next
  case False
  then have "arm_of t = arm_of s" using assms(1) by (intro arm_of_cong) (simp add: dp_step_def keeps_def xstate)
  then show ?thesis using False assms(2) by (simp add: arm_exec_def)
qed

lemma dp_step_flags:
  assumes "dp_step op reg e s t" "dp_inst (c_instruction (ectx e)) = Some (op, reg)" "regs_ok (ectx e)"
  shows "if arm_cond (c_cond (ectx e)) (arm_of s) \<and> sets_flags op e
     then (jit_nz (ectx e) \<longrightarrow> aN (arm_of t) = aN (arm_exec (ectx e) (arm_of s)) \<and> aZ (arm_of t) = aZ (arm_exec (ectx e) (arm_of s))) \<and>
       (jit_c (ectx e) \<longrightarrow> aC (arm_of t) = aC (arm_exec (ectx e) (arm_of s))) \<and>
       (jit_v (ectx e) \<longrightarrow> aV (arm_of t) = aV (arm_exec (ectx e) (arm_of s)))
     else slot t s_flags = slot s s_flags"
  using assms regs_okD [OF assms(3)]
  by (auto simp: dp_step_def agrees_def Let_def arm_exec_def keeps_def xstate simp del: arm_of_fields split: if_splits)

lemma dp_step_sync:
  assumes "dp_step op reg e s t" "dp_inst (c_instruction (ectx e)) = Some (op, reg)" "exact_inst (lookahead_s e) (ectx e)"
    "compile_instruction e = Inr e'"
  shows "flags_sync e' t"
proof (cases "c_flags (ectx e) AND S_BIT \<noteq> 0 \<or> is_test op")
  case True
  then have "flags_live t"
    using assms(1-3) by (auto simp: dp_step_def agrees_def Let_def sets_flags_def sbit_def exact_inst_def split: if_splits)
  then show ?thesis by (simp add: flags_sync_def)
next
  case False
  obtain fa e3 e4 where b: "compile_body fa e3 = Inr e4" "ectx e3 = ectx e" "\<not> flags_updated e3" "flags_updated e' = flags_updated e4"
    by (rule compile_instruction_body [OF assms(4)])
  have "flags_updated e4 = flags_updated e3"
    by (rule body_silent [OF b(1), of op reg]) (use False assms(2,3) b(2) in \<open>auto simp: exact_inst_def sbit_def\<close>)
  then show ?thesis using b by (simp add: flags_sync_def)
qed

lemma exact_step:
  assumes "exact_inst (lookahead_s e) (ectx e)" "host_ok e s"
  shows "\<exists>e' bs t. compile_instruction e = Inr e' \<and> out e' = out e @ bs \<and> xrun u host bs s = Some (Fall t) \<and>
    arm_of t = arm_exec (ectx e) (arm_of s) \<and> frame 1 s t \<and> host_ok e' t"
proof -
  obtain op reg where d: "dp_inst (c_instruction (ectx e)) = Some (op, reg)"
    using assms(1) by (auto simp: exact_inst_def split: option.splits)
  have ok: "regs_ok (ectx e)" "reg \<longrightarrow> shift_ok (ectx e)" "jit_ok e"
    using assms(1) d by (auto simp: exact_inst_def jit_ok_def Let_def jit_value_mono)
  have h: "ctx_ok s" "flags_wf s" "stack_ok s" "flags_actual e \<longrightarrow> flags_live s"
    using assms(2) by (auto simp: host_ok_def flags_sync_def flags_actual_def)
  obtain e' bs t where c: "compile_instruction e = Inr e'" "out e' = out e @ bs" "xrun u host bs s = Some (Fall t)" "dp_step op reg e s t"
    using data_instruction [OF d ok h, of u host] by blast
  then show ?thesis
    using dp_step_host [OF c(4) assms(2)] dp_step_arm [OF c(4) d assms(1)] dp_step_sync [OF c(4) d assms(1) c(1)]
    by (auto simp: host_ok_def)
qed

lemma host_ok_env [simp]: "host_ok (e\<lparr>ectx := c, inst_no := n, lookahead_s := b\<rparr>) s = host_ok e s"
  by (simp add: host_ok_def flags_sync_def)

lemma block_run:
  assumes "exact_block cs" "host_ok e s"
  shows "\<exists>remap e' bs t. compile_insts i cs e = Inr (remap, e') \<and> out e' = out e @ bs \<and> xrun u host bs s = Some (Fall t) \<and>
    arm_of t = fold arm_exec cs (arm_of s) \<and> frame (length cs) s t \<and> host_ok e' t"
  using assms
proof (induction cs arbitrary: i e s)
  case Nil
  then show ?case by (simp add: frame_def)
next
  case (Cons c cs)
  let ?e = "e\<lparr>ectx := c, inst_no := i, lookahead_s := next_lookahead cs\<rparr>"
  obtain e1 bs t where c: "compile_instruction ?e = Inr e1" "out e1 = out e @ bs" "xrun u host bs s = Some (Fall t)"
      "arm_of t = arm_exec c (arm_of s)" "frame 1 s t" "host_ok e1 t"
    using exact_step [of ?e s u host] Cons.prems by auto
  obtain remap e' bs' t' where cs: "compile_insts (i + 1) cs e1 = Inr (remap, e')" "out e' = out e1 @ bs'"
      "xrun u host bs' t = Some (Fall t')" "arm_of t' = fold arm_exec cs (arm_of t)" "frame (length cs) t t'" "host_ok e' t'"
    using Cons.IH [OF _ c(6)] Cons.prems(1) by (metis exact_block.simps(2))
  have "compile_insts i (c # cs) e = Inr (length (out e) # remap, e')"
    using c(1) cs(1) by (simp add: next_lookahead_def)
  moreover have "xrun u host (bs @ bs') s = Some (Fall t')" using xrun_append [OF c(3)] cs(3) by simp
  moreover have "frame (length (c # cs)) s t'" using frame_trans [OF c(5) cs(5)] by simp
  ultimately show ?case using c(2,4) cs(2,4,6) by (intro exI [of _ "length (out e) # remap"] exI [of _ e'] exI [of _ "bs @ bs'"]) auto
qed

section \<open>A sample host\<close>

text \<open>The context at \<open>0x1000\<close> with seven in register zero, the stack at \<open>0x9000\<close>.\<close>

definition sample_host :: x86 where
  "sample_host = \<lparr>gpr = (\<lambda>x. if x = EBP then 0x1000 else if x = ESP then 0x9000 else 0),
     memw = (\<lambda>a. if a = 0x1000 then 7 else 0), cf = False, zf = False, sf = False, ovf = False\<rparr>"

abbreviation sample_undef :: x86_undef where "sample_undef \<equiv> \<lambda>_ _. False"
abbreviation no_host :: "u32 \<Rightarrow> x86 \<Rightarrow> x86 option" where "no_host \<equiv> \<lambda>_ _. None"

text \<open>\<^verbatim>\<open>cmp r0, #1\<close>; \<^verbatim>\<open>addne r1, r0, r0, lsl #2\<close>.\<close>

definition sample_block :: "dctx list" where
  "sample_block =
    [sample_dctx\<lparr>c_instruction := CMP_I, c_flags := 1, c_imm := 1\<rparr>,
     sample_dctx\<lparr>c_instruction := ADD_R, c_cond := NE, c_imm := 2, c_rd := 1\<rparr>]"

definition sample_emitter :: "dctx \<Rightarrow> emitter" where
  "sample_emitter c = init_emitter sample_fns 2 c"

lemma sample_host_ok: "\<not> flags_updated e \<Longrightarrow> host_ok e sample_host"
  by (simp add: host_ok_def ctx_ok_def flags_wf_def stack_ok_def flags_sync_def slot_def sample_host_def)

lemma sample_block_exact: "exact_block sample_block"
  by (simp add: sample_block_def sample_dctx_def exact_inst_def next_lookahead_def lookahead_def dp_inst_def regs_ok_def shift_ok_def
      jit_value_def jit_nz_def jit_c_def jit_v_def is_test_def)

lemma sample_block_result: "areg (fold arm_exec sample_block (arm_of sample_host)) 1 = 35"
  by (simp add: sample_block_def sample_dctx_def arm_exec_def dp_inst_def arm_cond_def arm_dp_def operand2_def dp_value_def arm_shift_def
      is_test_def slot_def sample_host_def arm_of_def)

lemma sample_conditional:
  "conditional (sample_emitter (sample_block ! 1))" "\<not> flags_updated (sample_emitter c)" "ectx (sample_emitter c) = c"
  by (simp_all add: sample_emitter_def conditional_def sample_block_def sample_dctx_def init_emitter_def)

lemma sample_inst:
  "dp_inst (c_instruction (sample_block ! 1)) = Some (D_ADD, True)" "regs_ok (sample_block ! 1)" "shift_ok (sample_block ! 1)"
  "jit_ok (sample_emitter (sample_block ! 1))"
  by (simp_all add: sample_block_def sample_dctx_def dp_inst_def regs_ok_def shift_ok_def jit_ok_def jit_value_def sample_emitter_def
      init_emitter_def Let_def)

section \<open>The properties of the generated code\<close>

text \<open>
  C25: the condition of every conditional instruction, whatever it does. Its code counts
  the cycle, then runs the code of the body exactly when the ARM condition holds on the
  emulated flags; otherwise it is done, and the registers and flags are what they were.
\<close>

theorem conditional_execution:
  assumes "conditional e" "host_ok e s"
  shows "\<exists>e' e3 pre bs s1. compile_instruction e = Inr e' \<and> out e' = out e @ pre @ bs \<and> body_code True e e3 bs \<and>
    xrun u host (pre @ bs) s = (if arm_cond (c_cond (ectx e)) (arm_of s) then xrun u host bs s1 else Some (Fall s1)) \<and>
    arm_of s1 = arm_of s \<and> keeps {EAX} {} (ticked s) s1 \<and>
    (c_cond (ectx e) \<noteq> HI \<and> c_cond (ectx e) \<noteq> LS \<longrightarrow> flags_live s1)"
  by (rule conditional_run [OF assms(1)]) (use assms(2) in \<open>auto simp: host_ok_def flags_sync_def flags_actual_def\<close>)

theorem conditional_execution_witness:
  "\<exists>e' e3 pre bs s1. compile_instruction (sample_emitter (sample_block ! 1)) = Inr e' \<and>
    body_code True (sample_emitter (sample_block ! 1)) e3 bs \<and>
    xrun sample_undef no_host (pre @ bs) sample_host = xrun sample_undef no_host bs s1 \<and> arm_of s1 = arm_of sample_host"
proof -
  have "arm_cond (c_cond (ectx (sample_emitter (sample_block ! 1)))) (arm_of sample_host)"
    by (simp add: sample_emitter_def init_emitter_def sample_block_def sample_dctx_def arm_cond_def slot_def sample_host_def)
  then show ?thesis
    using conditional_execution [OF sample_conditional(1) sample_host_ok [OF sample_conditional(2)], of sample_undef no_host] by auto
qed



text \<open>
  C27: the flags after a data processing instruction. When it is executed and stores its
  flags, the ones the compiler gets right (\<open>jit_nz\<close>, \<open>jit_c\<close>, \<open>jit_v\<close>) are those of the
  processor; when its condition fails or it does not store them they are unchanged.
\<close>

theorem data_flags:
  assumes "dp_inst (c_instruction (ectx e)) = Some (op, reg)" "regs_ok (ectx e)" "shift_ok (ectx e)" "jit_ok e" "host_ok e s"
  shows "\<exists>e' bs t. compile_instruction e = Inr e' \<and> out e' = out e @ bs \<and> xrun u host bs s = Some (Fall t) \<and>
    (if arm_cond (c_cond (ectx e)) (arm_of s) \<and> sets_flags op e
     then (jit_nz (ectx e) \<longrightarrow> aN (arm_of t) = aN (arm_exec (ectx e) (arm_of s)) \<and> aZ (arm_of t) = aZ (arm_exec (ectx e) (arm_of s))) \<and>
       (jit_c (ectx e) \<longrightarrow> aC (arm_of t) = aC (arm_exec (ectx e) (arm_of s))) \<and>
       (jit_v (ectx e) \<longrightarrow> aV (arm_of t) = aV (arm_exec (ectx e) (arm_of s)))
     else slot t s_flags = slot s s_flags)"
proof -
  have "ctx_ok s" "flags_wf s" "stack_ok s" "flags_actual e \<longrightarrow> flags_live s"
    using assms(5) by (auto simp: host_ok_def flags_sync_def flags_actual_def)
  then obtain e' bs t where c: "compile_instruction e = Inr e'" "out e' = out e @ bs" "xrun u host bs s = Some (Fall t)" "dp_step op reg e s t"
    using data_instruction [OF assms(1,2) _ assms(4), of s u host] assms(3) by blast
  then show ?thesis using dp_step_flags [OF c(4) assms(1,2)] by blast
qed

theorem data_flags_witness:
  "\<exists>e' bs t. compile_instruction (sample_emitter (sample_block ! 0)) = Inr e' \<and> out e' = bs \<and>
    xrun sample_undef no_host bs sample_host = Some (Fall t) \<and> aC (arm_of t) \<and> \<not> aZ (arm_of t)"
proof -
  note ev = sample_emitter_def init_emitter_def sample_block_def sample_dctx_def
  have h: "dp_inst (c_instruction (ectx (sample_emitter (sample_block ! 0)))) = Some (D_CMP, False)"
    "regs_ok (ectx (sample_emitter (sample_block ! 0)))" "shift_ok (ectx (sample_emitter (sample_block ! 0)))"
    "jit_ok (sample_emitter (sample_block ! 0))" "sets_flags D_CMP (sample_emitter (sample_block ! 0))"
    "jit_nz (ectx (sample_emitter (sample_block ! 0)))" "jit_c (ectx (sample_emitter (sample_block ! 0)))"
    "arm_cond (c_cond (ectx (sample_emitter (sample_block ! 0)))) (arm_of sample_host)" "out (sample_emitter (sample_block ! 0)) = []"
    by (simp_all add: ev dp_inst_def regs_ok_def shift_ok_def jit_ok_def jit_value_def jit_nz_def jit_c_def sets_flags_def is_test_def
        arm_cond_def Let_def)
  have "aC (arm_exec (ectx (sample_emitter (sample_block ! 0))) (arm_of sample_host))"
    "\<not> aZ (arm_exec (ectx (sample_emitter (sample_block ! 0))) (arm_of sample_host))"
    by (simp_all add: ev arm_exec_def dp_inst_def arm_cond_def arm_dp_def operand2_def dp_value_def dp_carry_def borrow_of_def
        is_test_def slot_def sample_host_def arm_of_def)
  then show ?thesis
    using data_flags [OF h(1-4) sample_host_ok [OF sample_conditional(2)], of sample_undef no_host] h(5-9) by auto
qed

text \<open>
  C28: a block of data processing instructions whose code is exact, conditional ones
  among them, compiles; its code, anywhere inside the page's code and wherever the host
  allocated the page, runs from its first byte to the byte behind it and takes the
  emulated registers and flags where the ARM processor takes them in those instructions.
  One cycle is counted for each of them, executed or not.
\<close>

theorem page_block:
  assumes "exact_block cs" "host_ok e s"
  shows "\<exists>remap e' bs t. compile_insts i cs e = Inr (remap, e') \<and> out e' = out e @ bs \<and>
    (length (pre @ bs @ post) < 2 ^ 32 \<longrightarrow> x86_run u host base (pre @ bs @ post)
      (base + word_of_nat (length pre), s) (base + word_of_nat (length (pre @ bs)), t)) \<and>
    arm_of t = fold arm_exec cs (arm_of s) \<and> frame (length cs) s t \<and> host_ok e' t"
proof -
  obtain remap e' bs t where "compile_insts i cs e = Inr (remap, e')" "out e' = out e @ bs"
      "xrun u (\<lambda>_ _. None) bs s = Some (Fall t)"
      "arm_of t = fold arm_exec cs (arm_of s)" "frame (length cs) s t" "host_ok e' t"
    using block_run [OF assms, of i u "\<lambda>_ _. None"] by blast
  then show ?thesis using xrun_x86_run [of u bs s t pre post host base] by blast
qed

theorem page_block_witness:
  "\<exists>remap e' bs t. compile_insts 0 sample_block (sample_emitter sample_dctx) = Inr (remap, e') \<and> out e' = bs \<and>
    (length bs < 2 ^ 32 \<longrightarrow>
      x86_run sample_undef no_host 0x400000 bs (0x400000, sample_host) (0x400000 + word_of_nat (length bs), t)) \<and>
    areg (arm_of t) 1 = 35 \<and> gpr t EBX = 2"
proof -
  have "out (sample_emitter sample_dctx) = []" "length sample_block = 2" "gpr sample_host EBX = 0"
    by (simp_all add: sample_emitter_def init_emitter_def sample_block_def sample_host_def)
  then obtain remap e' bs t where b: "compile_insts 0 sample_block (sample_emitter sample_dctx) = Inr (remap, e')" "out e' = bs"
      "length bs < 2 ^ 32 \<longrightarrow>
        x86_run sample_undef no_host 0x400000 bs (0x400000, sample_host) (0x400000 + word_of_nat (length bs), t)"
      "arm_of t = fold arm_exec sample_block (arm_of sample_host)" "gpr t EBX = 2"
    using page_block [OF sample_block_exact sample_host_ok [OF sample_conditional(2)], of 0 sample_dctx "[]" "[]" sample_undef no_host "0x400000"]
    by (auto simp: frame_def)
  show ?thesis
    by (rule exI [of _ remap], rule exI [of _ e'], rule exI [of _ bs], rule exI [of _ t])
      (use b sample_block_result in \<open>simp del: arm_of_fields\<close>)
qed

end
