(* ===== verification/Callstack.thy ===== *)
theory Callstack
  imports Memory
begin

text \<open>
  The call stack the debugger shows: \<^verbatim>\<open>callstack_tracer\<close> of \<^verbatim>\<open>Core/HLE.h\<close>, a ring
  of the latest return addresses that calls push to and branches to registers pop from.
  The theorem: the ring implements a stack of at most 1024 frames that forgets its oldest
  one, whatever calls and branches come in which order.
\<close>

section \<open>The ring\<close>

abbreviation MAX_DEPTH :: nat where "MAX_DEPTH \<equiv> 1024"
abbreviation MAX_DEPTH_MASK :: u32 where "MAX_DEPTH_MASK \<equiv> 0x3FF"

record callstack_context =
  max_depth :: u32
  ctr :: u32
  stack :: "u32 list"

text \<open>The static context: zero but for the constructor's \<open>max_depth\<close>.\<close>

definition callstack0 :: callstack_context where
  "callstack0 = \<lparr>max_depth = 1024, ctr = 0, stack = replicate MAX_DEPTH 0\<rparr>"

text \<open>Entry one is the first one used.\<close>

definition push :: "u32 \<Rightarrow> callstack_context \<Rightarrow> callstack_context" where
  "push addr c =
    (let c = c\<lparr>ctr := ctr c + 1\<rparr>;
         c = c\<lparr>ctr := ctr c AND MAX_DEPTH_MASK\<rparr>
     in c\<lparr>stack := (stack c)[unat (ctr c) := addr]\<rparr>)"

definition pop :: "u32 \<Rightarrow> callstack_context \<Rightarrow> callstack_context" where
  "pop addr c =
    (if stack c ! unat (ctr c) = addr
     then let c = c\<lparr>ctr := ctr c - 1\<rparr> in c\<lparr>ctr := ctr c AND MAX_DEPTH_MASK\<rparr>
     else c)"

section \<open>The stack it stands for\<close>

datatype call_event = Call_from u32 | Branch_to u32

fun track :: "call_event list \<Rightarrow> callstack_context \<Rightarrow> callstack_context" where
  "track [] c = c"
| "track (Call_from a # es) c = track es (push a c)"
| "track (Branch_to a # es) c = track es (pop a c)"

text \<open>Frames, the latest first.\<close>

fun frames :: "call_event list \<Rightarrow> u32 list \<Rightarrow> u32 list" where
  "frames [] st = st"
| "frames (Call_from a # es) st = frames es (take MAX_DEPTH (a # st))"
| "frames (Branch_to a # es) st = frames es (if st \<noteq> [] \<and> hd st = a then tl st else st)"

text \<open>The ring read backwards from the counter.\<close>

definition recent :: "callstack_context \<Rightarrow> nat \<Rightarrow> u32" where
  "recent c i = stack c ! ((unat (ctr c) + (MAX_DEPTH - i)) mod MAX_DEPTH)"

definition ring_ok :: "callstack_context \<Rightarrow> bool" where
  "ring_ok c = (ctr c < 1024 \<and> length (stack c) = MAX_DEPTH)"

definition holds_frames :: "u32 list \<Rightarrow> callstack_context \<Rightarrow> bool" where
  "holds_frames st c = (ring_ok c \<and> length st \<le> MAX_DEPTH \<and> (\<forall>i < length st. recent c i = st ! i))"

lemma and_3FF: "unat (w AND MAX_DEPTH_MASK) = unat w mod 1024"
proof -
  have "w AND MAX_DEPTH_MASK = take_bit 10 w" by (rule u32_eqI) (simp add: bit_simps)
  then show ?thesis by (simp add: unsigned_take_bit_eq) (simp add: take_bit_eq_mod)
qed

lemma ring_ok0: "ring_ok callstack0"
  by (simp add: ring_ok_def callstack0_def)

lemma ctr_less: "ring_ok c \<Longrightarrow> unat (ctr c) < 1024"
  by (simp add: ring_ok_def word_less_nat_alt)

lemma unat_ctr_push: "ring_ok c \<Longrightarrow> unat (ctr (push a c)) = (unat (ctr c) + 1) mod 1024"
  using ctr_less [of c] by (simp add: push_def Let_def and_3FF unat_add_u32)

lemma unat_ctr_pop: "ring_ok c \<Longrightarrow> unat ((ctr c - 1) AND MAX_DEPTH_MASK) = (unat (ctr c) + 1023) mod 1024"
proof -
  assume "ring_ok c"
  have "ctr c - 1 = ctr c + 0xFFFFFFFF" by simp
  then have "unat (ctr c - 1) = (unat (ctr c) + 4294967295) mod 4294967296" by (simp only: unat_add_u32) simp
  moreover have "(unat (ctr c) + 4294967295) mod 4294967296 mod 1024 = (unat (ctr c) + 4294967295) mod 1024"
    by (rule mod_mod_cancel) simp
  moreover have "unat (ctr c) + 4294967295 = (unat (ctr c) + 1023) + 1024 * 4194303" by simp
  ultimately show ?thesis unfolding and_3FF by (simp only: mod_mult_self2)
qed

lemma ring_ok_push: "ring_ok c \<Longrightarrow> ring_ok (push a c)"
  using unat_ctr_push [of c a] by (simp add: ring_ok_def word_less_nat_alt) (simp add: push_def Let_def)

lemma ring_ok_pop: "ring_ok c \<Longrightarrow> ring_ok (pop a c)"
  using unat_ctr_pop [of c] by (simp add: ring_ok_def pop_def Let_def word_less_nat_alt)

lemma mod_shift_neq: "n < 1024 \<Longrightarrow> 0 < d \<Longrightarrow> d < 1024 \<Longrightarrow> (n + d) mod 1024 \<noteq> (n::nat)"
  by (cases "n + d < 1024") (simp_all add: mod_if, arith)

lemma recent_push:
  assumes "ring_ok c" "i < MAX_DEPTH"
  shows "recent (push a c) i = (if i = 0 then a else recent c (i - 1))"
proof -
  let ?n = "(unat (ctr c) + 1) mod 1024"
  have st: "stack (push a c) = (stack c)[?n := a]" using unat_ctr_push [OF assms(1), of a] by (simp add: push_def Let_def)
  have l: "length (stack c) = 1024" "unat (ctr c) < 1024" using assms(1) ctr_less by (simp_all add: ring_ok_def)
  show ?thesis
  proof (cases "i = 0")
    case True
    then show ?thesis using l by (simp add: recent_def st unat_ctr_push [OF assms(1)])
  next
    case False
    have "(?n + (1024 - i)) mod 1024 = (unat (ctr c) + (1024 - (i - 1))) mod 1024"
    proof -
      have "(?n + (1024 - i)) mod 1024 = (unat (ctr c) + 1 + (1024 - i)) mod 1024" by (simp only: mod_add_left_eq)
      moreover have "unat (ctr c) + 1 + (1024 - i) = unat (ctr c) + (1024 - (i - 1))" using False assms(2) by simp
      ultimately show ?thesis by (simp only:)
    qed
    moreover have "(?n + (1024 - i)) mod 1024 \<noteq> ?n" by (rule mod_shift_neq) (use False assms(2) in simp_all)
    ultimately show ?thesis using False by (simp add: recent_def st unat_ctr_push [OF assms(1)])
  qed
qed

lemma recent_pop:
  assumes "ring_ok c" "i < MAX_DEPTH"
  shows "recent (pop a c) i = (if recent c 0 = a then recent c (i + 1) else recent c i)"
proof -
  have l: "unat (ctr c) < 1024" by (rule ctr_less [OF assms(1)])
  have "((unat (ctr c) + 1023) mod 1024 + (1024 - i)) mod 1024 = (unat (ctr c) + (1024 - (i + 1))) mod 1024"
  proof -
    have "((unat (ctr c) + 1023) mod 1024 + (1024 - i)) mod 1024 = (unat (ctr c) + 1023 + (1024 - i)) mod 1024"
      by (simp only: mod_add_left_eq)
    moreover have "unat (ctr c) + 1023 + (1024 - i) = unat (ctr c) + (1024 - (i + 1)) + 1024" using assms(2) by simp
    ultimately show ?thesis by (simp only: mod_add_self2)
  qed
  then show ?thesis using l by (auto simp: recent_def pop_def Let_def unat_ctr_pop [OF assms(1)])
qed

lemma holds_push: "holds_frames st c \<Longrightarrow> holds_frames (take MAX_DEPTH (a # st)) (push a c)"
  by (auto simp: holds_frames_def ring_ok_push recent_push nth_Cons')

lemma holds_pop: "holds_frames st c \<Longrightarrow> holds_frames (if st \<noteq> [] \<and> hd st = a then tl st else st) (pop a c)"
proof (cases "st = []")
  case False
  assume h: "holds_frames st c"
  then have top: "recent c 0 = hd st" using False by (simp add: holds_frames_def hd_conv_nth)
  show ?thesis using h False
    by (auto simp: holds_frames_def ring_ok_pop recent_pop top nth_tl)
qed (simp add: holds_frames_def ring_ok_pop)

lemma holds_track: "holds_frames st c \<Longrightarrow> holds_frames (frames es st) (track es c)"
proof (induction es c arbitrary: st rule: track.induct)
  case (2 a es c)
  show ?case using "2.IH" [OF holds_push [OF "2.prems"]] by (simp only: frames.simps track.simps)
next
  case (3 a es c)
  show ?case using "3.IH" [OF holds_pop [OF "3.prems"]] by (simp only: frames.simps track.simps)
qed simp

text \<open>
  C29: after any sequence of calls and branches the ring holds the frames of a stack that
  keeps its latest 1024 frames: a call pushes the return address, a branch to the address
  on top pops it, any other branch changes nothing. The frames are the entries from the
  counter downwards, and the counter stays inside the ring.
\<close>

theorem callstack_refines:
  "unat (ctr (track es callstack0)) < MAX_DEPTH \<and>
   map (recent (track es callstack0)) [0..<length (frames es [])] = frames es []"
proof -
  have "holds_frames [] callstack0" by (simp add: holds_frames_def ring_ok0)
  then have "holds_frames (frames es []) (track es callstack0)" by (rule holds_track)
  then show ?thesis by (auto simp: holds_frames_def ctr_less intro: nth_equalityI)
qed

end
