(* ===== verification/Page_Cache.thy ===== *)
theory Page_Cache
  imports Jit_Code Memory
begin

text \<open>
  The cache of compiled pages: \<^verbatim>\<open>memory_block::recompile\<close> and \<^verbatim>\<open>flush\<close> of
  \<^verbatim>\<open>Core/Mem.cpp\<close>, and the branch out of a page of \<^verbatim>\<open>Core/HLE.cpp\<close>, which finds
  or makes the code it goes to. The theorems: whatever is stored, loaded and compiled, a
  page that is not marked dirty has the code of its current bytes, and a branch therefore
  always lands at the instruction's code in current code.
\<close>

section \<open>Compiled blocks\<close>

datatype cpu = ARM7 | ARM9
datatype iset = IS_ARM | IS_THUMB

definition INSTRUCTION_SIZE_LG2 :: "iset \<Rightarrow> nat" where
  "INSTRUCTION_SIZE_LG2 U = (case U of IS_ARM \<Rightarrow> 2 | IS_THUMB \<Rightarrow> 1)"

text \<open>\<^verbatim>\<open>dirty_flag<T>::VALUE\<close>\<close>

definition dirty_flag :: "cpu \<Rightarrow> u32" where
  "dirty_flag T = (case T of ARM9 \<Rightarrow> PAGE_DIRTY_J9 | ARM7 \<Rightarrow> PAGE_DIRTY_J7)"

record compiled_block =
  cb_code :: "u8 list"
  cb_remap :: "u32 list"

text \<open>
  The blocks with the page tables of both processors, the compiled code of every block
  (\<^verbatim>\<open>get_jit<T,U>\<close>, a null pointer is \<open>None\<close>), the counter of recompilations, the
  number of allocations so far, and the page each processor branched to last.
\<close>

record 's pages =
  pmem :: "'s memory"
  maps :: "cpu \<Rightarrow> u32 \<Rightarrow> nat"
  jit :: "nat \<Rightarrow> cpu \<Rightarrow> iset \<Rightarrow> compiled_block option"
  recompiles :: "nat \<Rightarrow> u32"
  allocs :: nat
  last_page :: "cpu \<Rightarrow> nat"

text \<open>
  What is not in the sources: the addresses of the routines, where the host allocates the
  code of compilation \<open>n\<close>, what its uninitialised decoder holds, and the patches of the
  debugger's breakpoints, which replace bytes of the code.
\<close>

record jit_env =
  e_fns :: "cpu \<Rightarrow> host_fns"
  e_alloc :: "nat \<Rightarrow> u32"
  e_ctx :: "nat \<Rightarrow> dctx"
  e_patch :: "cpu \<Rightarrow> iset \<Rightarrow> nat \<Rightarrow> u8 list \<Rightarrow> u8 list"

text \<open>The memory as one processor sees it.\<close>

definition view :: "cpu \<Rightarrow> 's pages \<Rightarrow> 's memory" where
  "view T s = (pmem s)\<lparr>pmap := maps s T\<rparr>"

definition put_view :: "'s memory \<Rightarrow> 's pages \<Rightarrow> 's pages" where
  "put_view m s = s\<lparr>pmem := m\<rparr>"

section \<open>Compilation\<close>

text \<open>The instructions of the page's bytes.\<close>

definition page_insts :: "iset \<Rightarrow> u8 list \<Rightarrow> dctx \<Rightarrow> dctx list" where
  "page_insts U bs c =
    (case U of
       IS_ARM \<Rightarrow> decode_page decode_arm (map (\<lambda>i. rd32 bs (4 * i)) [0..<128]) c
     | IS_THUMB \<Rightarrow> decode_page decode_thumb (map (\<lambda>i. rd16 bs (2 * i)) [0..<256]) c)"

text \<open>\<^verbatim>\<open>compiler::compile<T,U>\<close> on a new block.\<close>

definition compile_cb :: "jit_env \<Rightarrow> cpu \<Rightarrow> iset \<Rightarrow> nat \<Rightarrow> u8 list \<Rightarrow> (u8 list \<times> u32 list) res" where
  "compile_cb env T U n bs =
    compile_page (e_fns env T) (INSTRUCTION_SIZE_LG2 U) (e_alloc env n) (page_insts U bs (e_ctx env n))"

text \<open>\<^verbatim>\<open>memory_block::recompile<T,U>\<close> without the message to the log.\<close>

definition recompile :: "jit_env \<Rightarrow> cpu \<Rightarrow> iset \<Rightarrow> nat \<Rightarrow> 's pages \<Rightarrow> 's pages res" where
  "recompile env T U b s =
    (let s = s\<lparr>recompiles := (recompiles s)(b := recompiles s b + 1)\<rparr>
     in rbind (compile_cb env T U (allocs s) (mem (blk (pmem s) b))) (\<lambda>(code, remap).
        let cb = \<lparr>cb_code = e_patch env T U b code, cb_remap = remap\<rparr>
        in Inr (s\<lparr>jit := (jit s)(b := (jit s b)(T := (jit s b T)(U := Some cb))), allocs := allocs s + 1\<rparr>)))"

text \<open>\<^verbatim>\<open>if (get_jit<T,U>()) recompile<T,U>()\<close>\<close>

definition recompile_present :: "jit_env \<Rightarrow> cpu \<Rightarrow> iset \<Rightarrow> nat \<Rightarrow> 's pages \<Rightarrow> 's pages res" where
  "recompile_present env T U b s = (if jit s b T U \<noteq> None then recompile env T U b s else Inr s)"

text \<open>The dirty page of one processor.\<close>

definition refresh :: "jit_env \<Rightarrow> cpu \<Rightarrow> nat \<Rightarrow> 's pages \<Rightarrow> 's pages res" where
  "refresh env T b s =
    (if has_flag (pmem s) b (dirty_flag T)
     then let s = s\<lparr>pmem := upd_blk b (\<lambda>p. p\<lparr>flags := flags p AND NOT (dirty_flag T)\<rparr>) (pmem s)\<rparr>
          in rbind (recompile_present env T IS_ARM b s) (recompile_present env T IS_THUMB b)
     else Inr s)"

text \<open>\<^verbatim>\<open>memory_block::flush\<close>\<close>

definition flush :: "jit_env \<Rightarrow> nat \<Rightarrow> 's pages \<Rightarrow> 's pages res" where
  "flush env b s = rbind (refresh env ARM7 b s) (refresh env ARM9 b)"

text \<open>\<^verbatim>\<open>HLE<T>::compile_and_link_branch_a_real\<close> after the poll of the interrupts: the
  host address to go on at.\<close>

definition enter_page :: "jit_env \<Rightarrow> cpu \<Rightarrow> u32 \<Rightarrow> 's pages \<Rightarrow> (u32 \<times> 's pages) res" where
  "enter_page env T addr s =
    (let b = addr2page addr (view T s);
         s = s\<lparr>last_page := (last_page s)(T := b)\<rparr>
     in if has_flag (pmem s) b PAGE_EXECPROT then Inl (Invalid_Branch addr)
        else rbind (refresh env T b s) (\<lambda>s.
         let U = (if addr AND 1 \<noteq> 0 then IS_THUMB else IS_ARM);
             inst = unat (drop_bit (INSTRUCTION_SIZE_LG2 U) (addr AND ADDRESS_MASK))
         in rbind (if jit s b T U = None then recompile env T U b s else Inr s) (\<lambda>s.
            Inr (cb_remap (the (jit s b T U)) ! inst, s))))"

definition compile_and_link_branch :: "jit_env \<Rightarrow> (cpu \<Rightarrow> 's pages \<Rightarrow> 's pages res) \<Rightarrow> cpu \<Rightarrow> u32 \<Rightarrow> 's pages \<Rightarrow> (u32 \<times> 's pages) res" where
  "compile_and_link_branch env poll T addr s = rbind (poll T s) (enter_page env T addr)"

section \<open>Coherence\<close>

text \<open>The block is what compiling the bytes \<open>bs\<close> gives.\<close>

definition current :: "jit_env \<Rightarrow> cpu \<Rightarrow> iset \<Rightarrow> nat \<Rightarrow> u8 list \<Rightarrow> compiled_block \<Rightarrow> bool" where
  "current env T U b bs cb = (\<exists>n code remap. compile_cb env T U n bs = Inr (code, remap) \<and>
     cb = \<lparr>cb_code = e_patch env T U b code, cb_remap = remap\<rparr>)"

definition coherent :: "nat set \<Rightarrow> jit_env \<Rightarrow> 's pages \<Rightarrow> bool" where
  "coherent X env s = (\<forall>b T U cb. b \<notin> X \<longrightarrow> jit s b T U = Some cb \<longrightarrow> \<not> has_flag (pmem s) b (dirty_flag T) \<longrightarrow>
     current env T U b (mem (blk (pmem s) b)) cb)"

text \<open>A change of the memory that marks the pages it changes, and unmarks none. The pages
  of registers, \<open>X\<close>, are exempt: their handlers write registers without marking.\<close>

definition marks :: "nat set \<Rightarrow> 's memory \<Rightarrow> 's memory \<Rightarrow> bool" where
  "marks X m m' = (\<forall>b T. b \<notin> X \<longrightarrow> mem (blk m' b) \<noteq> mem (blk m b) \<or> has_flag m b (dirty_flag T) \<longrightarrow>
     has_flag m' b (dirty_flag T))"

lemma marks_refl [simp, intro]: "marks X m m"
  by (simp add: marks_def)

lemma marks_trans: "marks X m m1 \<Longrightarrow> marks X m1 m2 \<Longrightarrow> marks X m m2"
  unfolding marks_def by metis

lemma dirty_flag_bits: "w AND dirty_flag T \<noteq> 0 \<longleftrightarrow> bit w (case T of ARM7 \<Rightarrow> 4 | ARM9 \<Rightarrow> 5)"
proof -
  have "w AND push_bit n 1 \<noteq> 0 \<longleftrightarrow> bit w n" if "n < 32" for n :: nat and w :: u32
  proof
    assume "w AND push_bit n 1 \<noteq> 0"
    then obtain k where "bit (w AND push_bit n 1) k" by (auto simp: bit_eq_iff)
    then show "bit w n" by (auto simp: bit_simps)
  next
    assume "bit w n"
    then have "bit (w AND push_bit n 1) n" using that by (simp add: bit_simps)
    then show "w AND push_bit n 1 \<noteq> 0" by (metis bit_0_eq bot_apply bot_bool_def)
  qed
  from this [of 4 w] this [of 5 w] show ?thesis by (cases T) (simp_all add: dirty_flag_def)
qed

lemma bit_dirty_flag: "bit (dirty_flag T) n = (n = (case T of ARM7 \<Rightarrow> 4 | ARM9 \<Rightarrow> 5))"
proof -
  have "dirty_flag T = push_bit (case T of ARM7 \<Rightarrow> 4 | ARM9 \<Rightarrow> 5) 1" by (simp add: dirty_flag_def split: cpu.split)
  then show ?thesis by (auto simp: bit_simps split: cpu.splits)
qed

lemma has_dirty: "has_flag m b (dirty_flag T) \<longleftrightarrow> bit (flags (blk m b)) (case T of ARM7 \<Rightarrow> 4 | ARM9 \<Rightarrow> 5)"
  by (simp add: has_flag_def dirty_flag_bits)

lemma marks_poke_dirty: "marks X m (dirty b (poke b f m))"
  by (auto simp: marks_def has_dirty dirty_def poke_def upd_blk_def bit_simps bit_numeral_rec split: cpu.split)

lemma marks_dirty: "marks X m m' \<Longrightarrow> marks X m (dirty b m')"
  by (auto simp: marks_def has_dirty dirty_def upd_blk_def bit_simps bit_numeral_rec split: cpu.splits)

lemma coherent_marks:
  assumes "coherent X env s" "marks X (pmem s) m"
  shows "coherent X env (put_view m s)"
  using assms unfolding coherent_def marks_def put_view_def by simp metis

section \<open>Accesses\<close>

text \<open>The virtual functions of the regions mark what they change.\<close>

definition handlers_mark :: "nat set \<Rightarrow> 's handlers \<Rightarrow> bool" where
  "handlers_mark X hs =
    ((\<forall>b a m r. h_load32 hs b a m = Inr r \<longrightarrow> marks X m (snd r)) \<and> (\<forall>b a m r. h_load16u hs b a m = Inr r \<longrightarrow> marks X m (snd r)) \<and>
     (\<forall>b a m r. h_load16s hs b a m = Inr r \<longrightarrow> marks X m (snd r)) \<and> (\<forall>b a m r. h_load8u hs b a m = Inr r \<longrightarrow> marks X m (snd r)) \<and>
     (\<forall>b a n m r. h_load32_array hs b a n m = Inr r \<longrightarrow> marks X m (snd r)) \<and>
     (\<forall>b a v m m'. h_store32 hs b a v m = Inr m' \<longrightarrow> marks X m m') \<and> (\<forall>b a v m m'. h_store16 hs b a v m = Inr m' \<longrightarrow> marks X m m') \<and>
     (\<forall>b a v m m'. h_store8 hs b a v m = Inr m' \<longrightarrow> marks X m m') \<and>
     (\<forall>b a ws m m'. h_store32_array hs b a ws m = Inr m' \<longrightarrow> marks X m m'))"

lemma marks_stores:
  assumes "handlers_mark X hs"
  shows "store32 hs a v m = Inr m' \<Longrightarrow> marks X m m'" "store16 hs a v m = Inr m' \<Longrightarrow> marks X m m'" "store8 hs a v m = Inr m' \<Longrightarrow> marks X m m'"
  using assms
  by (auto simp: store32_def store16_def store8_def Let_def handlers_mark_def marks_poke_dirty split: if_splits)

lemma marks_loads:
  assumes "handlers_mark X hs"
  shows "load32 hs a m = Inr r \<Longrightarrow> marks X m (snd r)" "load16u hs a m = Inr r \<Longrightarrow> marks X m (snd r)"
    "load16s hs a m = Inr r \<Longrightarrow> marks X m (snd r)" "load8u hs a m = Inr r \<Longrightarrow> marks X m (snd r)"
  using assms by (cases r; auto simp: load32_def load16u_def load16s_def load8u_def Let_def handlers_mark_def split: if_splits)+

lemma marks_load_array: "handlers_mark X hs \<Longrightarrow> load32_array hs a n m = Inr r \<Longrightarrow> marks X m (snd r)"
  by (cases r) (auto simp: load32_array_def Let_def handlers_mark_def rbind_Inr_iff split: if_splits)

text \<open>Within the loop the page is marked when it is left.\<close>

definition marks_but :: "nat set \<Rightarrow> nat \<Rightarrow> 's memory \<Rightarrow> 's memory \<Rightarrow> bool" where
  "marks_but X b m m' = marks X m (dirty b m')"

lemma dirty_dirty: "has_flag (dirty b m) c (dirty_flag T) = (c = b \<or> has_flag m c (dirty_flag T))"
  by (auto simp: has_dirty dirty_def upd_blk_def bit_simps bit_numeral_rec split: cpu.split)

lemma mem_dirty [simp]: "mem (blk (dirty b m) c) = mem (blk m c)"
  by (simp add: dirty_def upd_blk_def)

lemma has_flag_poke: "has_flag (poke b f m) c x = has_flag m c x"
  by (simp add: poke_def upd_blk_def has_flag_def)

lemma mem_poke: "mem (blk (poke b f m) c) = (if c = b then f (mem (blk m b)) else mem (blk m c))"
  by (simp add: poke_def upd_blk_def)

lemma marks_but_poke: "marks_but X b m m' \<Longrightarrow> marks_but X b m (poke b f m')"
  by (auto simp: marks_but_def marks_def dirty_dirty has_flag_poke mem_poke split: if_splits)

lemma marks_store_loop: "marks_but X b m0 m \<Longrightarrow> marks X m0 (snd (store32_loop ws addr b sub m))"
proof (induction ws addr b sub m rule: store32_loop.induct)
  case (1 addr b sub m)
  then show ?case by (simp add: marks_but_def)
next
  case (2 w ws addr b sub m)
  let ?m = "poke b (wr32 sub w) m"
  have m: "marks_but X b m0 ?m" by (rule marks_but_poke [OF "2.prems"])
  then have d: "marks X m0 (dirty b ?m)" by (simp add: marks_but_def)
  then have "marks_but X b' m0 (dirty b ?m)" for b' by (simp add: marks_but_def marks_dirty)
  then show ?case
    using "2.IH"(1) [OF refl refl _ refl refl refl] "2.IH"(2) [OF refl refl _ m] d by (auto simp: Let_def)
qed

lemma marks_store_array: "handlers_mark X hs \<Longrightarrow> marks X m (snd (store32_array hs a ws m))"
  by (auto simp: store32_array_def Let_def handlers_mark_def marks_but_def marks_dirty intro!: marks_store_loop split: sum.split)

section \<open>Compiling always succeeds\<close>

lemma recompile_spec:
  obtains cb where "recompile env T U b s = Inr (s\<lparr>recompiles := (recompiles s)(b := recompiles s b + 1),
      jit := (jit s)(b := (jit s b)(T := (jit s b T)(U := Some cb))), allocs := allocs s + 1\<rparr>)"
    "current env T U b (mem (blk (pmem s) b)) cb"
proof -
  obtain code remap where c: "compile_cb env T U (allocs s) (mem (blk (pmem s) b)) = Inr (code, remap)"
    using compile_page_code [of "e_fns env T" "INSTRUCTION_SIZE_LG2 U" "e_alloc env (allocs s)"
        "page_insts U (mem (blk (pmem s) b)) (e_ctx env (allocs s))"]
    unfolding compile_cb_def by blast
  show ?thesis
    by (rule that [of "\<lparr>cb_code = e_patch env T U b code, cb_remap = remap\<rparr>"])
      (use c in \<open>auto simp: recompile_def Let_def current_def\<close>)
qed

lemma jit_upd: "((jit s)(b := (jit s b)(T := (jit s b T)(U := v)))) c V W = (if c = b \<and> V = T \<and> W = U then v else jit s c V W)"
  by simp

text \<open>The code of one block for one processor may be stale, but not in the set \<open>Us\<close>.\<close>

definition coherent_but :: "nat set \<Rightarrow> jit_env \<Rightarrow> nat \<Rightarrow> cpu \<Rightarrow> iset set \<Rightarrow> 's pages \<Rightarrow> bool" where
  "coherent_but X env b T Us s = (\<forall>c V U cb. c \<notin> X \<longrightarrow> jit s c V U = Some cb \<longrightarrow> \<not> has_flag (pmem s) c (dirty_flag V) \<longrightarrow>
     (c = b \<and> V = T \<longrightarrow> U \<in> Us) \<longrightarrow> current env V U c (mem (blk (pmem s) c)) cb)"

lemma coherent_but_all: "coherent_but X env b T UNIV s = coherent X env s"
  by (auto simp: coherent_but_def coherent_def)

text \<open>What the compiling operations leave alone.\<close>

definition same_memory :: "'s pages \<Rightarrow> 's pages \<Rightarrow> bool" where
  "same_memory s s' = (pmem s' = pmem s \<and> maps s' = maps s)"

lemma recompile_present_spec:
  assumes "coherent_but X env b T Us s"
  shows "\<exists>s'. recompile_present env T U b s = Inr s' \<and> coherent_but X env b T (insert U Us) s' \<and> same_memory s s' \<and>
    (\<forall>c V W. (jit s' c V W = None) = (jit s c V W = None))"
proof (cases "jit s b T U = None")
  case True
  then have "coherent_but X env b T (insert U Us) s"
    using assms unfolding coherent_but_def by (metis insert_iff option.distinct(1))
  then show ?thesis using True by (auto simp: recompile_present_def same_memory_def)
next
  case False
  obtain cb where r: "recompile env T U b s = Inr (s\<lparr>recompiles := (recompiles s)(b := recompiles s b + 1),
      jit := (jit s)(b := (jit s b)(T := (jit s b T)(U := Some cb))), allocs := allocs s + 1\<rparr>)"
    "current env T U b (mem (blk (pmem s) b)) cb"
    by (rule recompile_spec)
  show ?thesis
    using assms r False unfolding recompile_present_def coherent_but_def same_memory_def by (auto simp: jit_upd)
qed

text \<open>Clearing the dirty flag of one processor.\<close>

lemma clear_flag:
  fixes m :: "'s memory" and b :: nat and T :: cpu
  defines "m' \<equiv> upd_blk b (\<lambda>p. p\<lparr>flags := flags p AND NOT (dirty_flag T)\<rparr>) m"
  shows "has_flag m' c (dirty_flag V) = (has_flag m c (dirty_flag V) \<and> \<not> (c = b \<and> V = T))" "mem (blk m' c) = mem (blk m c)"
  by (auto simp: m'_def has_dirty upd_blk_def bit_simps bit_dirty_flag split: cpu.splits if_splits)

lemma refresh_spec:
  assumes "coherent X env s"
  shows "\<exists>s'. refresh env T b s = Inr s' \<and> coherent X env s' \<and> \<not> has_flag (pmem s') b (dirty_flag T) \<and>
    (\<forall>c. mem (blk (pmem s') c) = mem (blk (pmem s) c)) \<and> maps s' = maps s \<and>
    (\<forall>c V W. (jit s' c V W = None) = (jit s c V W = None))"
proof (cases "has_flag (pmem s) b (dirty_flag T)")
  case True
  let ?s = "s\<lparr>pmem := upd_blk b (\<lambda>p. p\<lparr>flags := flags p AND NOT (dirty_flag T)\<rparr>) (pmem s)\<rparr>"
  have "coherent_but X env b T {} ?s" using assms by (auto simp: coherent_but_def coherent_def clear_flag)
  then obtain s1 where s1: "recompile_present env T IS_ARM b ?s = Inr s1" "coherent_but X env b T {IS_ARM} s1" "same_memory ?s s1"
      "\<forall>c V W. (jit s1 c V W = None) = (jit ?s c V W = None)"
    using recompile_present_spec by blast
  obtain s2 where s2: "recompile_present env T IS_THUMB b s1 = Inr s2" "coherent_but X env b T {IS_THUMB, IS_ARM} s2" "same_memory s1 s2"
      "\<forall>c V W. (jit s2 c V W = None) = (jit s1 c V W = None)"
    using recompile_present_spec [OF s1(2)] by blast
  have "{IS_THUMB, IS_ARM} = UNIV" by (auto intro: iset.exhaust)
  then have "coherent X env s2" using s2(2) coherent_but_all by metis
  then show ?thesis using True s1 s2
    by (intro exI [of _ s2]) (simp add: refresh_def Let_def same_memory_def clear_flag)
next
  case False
  then show ?thesis using assms by (auto simp: refresh_def)
qed

lemma flush_coherent: "coherent X env s \<Longrightarrow> \<exists>s'. flush env b s = Inr s' \<and> coherent X env s'"
  unfolding flush_def using refresh_spec [of X env s ARM7 b] refresh_spec [of X env _ ARM9 b] by (metis rbind_simps(2))

section \<open>Entering a page\<close>

text \<open>Instruction \<open>k\<close> of the page at block \<open>b\<close> has its code at host address \<open>ip\<close>: the
  code of the block is what the compiler makes of the current bytes, before the
  relocation it consists of the pieces \<open>ps\<close> of the instructions, and \<open>ip\<close> is where the
  piece of \<open>k\<close> begins.\<close>

definition code_for :: "jit_env \<Rightarrow> cpu \<Rightarrow> iset \<Rightarrow> nat \<Rightarrow> nat \<Rightarrow> u32 \<Rightarrow> 's pages \<Rightarrow> bool" where
  "code_for env T U b k ip s =
    (\<exists>cb n code remap ps. jit s b T U = Some cb \<and> compile_cb env T U n (mem (blk (pmem s) b)) = Inr (code, remap) \<and>
       cb = \<lparr>cb_code = e_patch env T U b code, cb_remap = remap\<rparr> \<and> ip = e_alloc env n + word_of_nat (starts ps k) \<and>
       starts ps k + length (ps ! k) \<le> length code \<and>
       code_of (e_fns env T) (INSTRUCTION_SIZE_LG2 U) k (page_insts U (mem (blk (pmem s) b)) (e_ctx env n) ! k)
         (next_look (page_insts U (mem (blk (pmem s) b)) (e_ctx env n)) k) (ps ! k))"

lemma length_decode_page [simp]: "length (decode_page dec ws c) = length ws"
  by (induction ws arbitrary: c) (simp_all add: Let_def)

lemma length_page_insts: "length (page_insts U bs c) = (case U of IS_ARM \<Rightarrow> 128 | IS_THUMB \<Rightarrow> 256)"
  by (simp add: page_insts_def split: iset.split)

lemma starts_within: "k < length ps \<Longrightarrow> starts ps k + length (ps ! k) \<le> length (concat ps)"
proof -
  assume k: "k < length ps"
  have "concat ps = concat (take k ps) @ (ps ! k) @ concat (drop (Suc k) ps)"
    using id_take_nth_drop [OF k] by (metis concat.simps(2) concat_append)
  then have "length (concat ps) = length (concat (take k ps)) + (length (ps ! k) + length (concat (drop (Suc k) ps)))"
    by (metis length_append)
  then show ?thesis by (simp add: starts_def)
qed

lemma current_code_for:
  assumes "jit s b T U = Some cb" "current env T U b (mem (blk (pmem s) b)) cb" "k < (case U of IS_ARM \<Rightarrow> 128 | IS_THUMB \<Rightarrow> 256)"
  shows "code_for env T U b k (cb_remap cb ! k) s"
proof -
  let ?bs = "mem (blk (pmem s) b)"
  obtain n code remap where c: "compile_cb env T U n ?bs = Inr (code, remap)" "cb = \<lparr>cb_code = e_patch env T U b code, cb_remap = remap\<rparr>"
    using assms(2) by (auto simp: current_def)
  let ?cs = "page_insts U ?bs (e_ctx env n)"
  obtain ps rs tail where p: "compile_cb env T U n ?bs = Inr (relocate (e_alloc env n) rs (concat ps @ tail),
      map (\<lambda>k. e_alloc env n + word_of_nat (starts ps k)) [0..<length ?cs])"
      "\<exists>rs'. pieces_ok (e_fns env T) (INSTRUCTION_SIZE_LG2 U) 0 ?cs ps rs'"
    using compile_page_code [of "e_fns env T" "INSTRUCTION_SIZE_LG2 U" "e_alloc env n" ?cs] unfolding compile_cb_def by blast
  have k: "k < length ?cs" using assms(3) by (simp add: length_page_insts)
  have ok: "length ps = length ?cs" "code_of (e_fns env T) (INSTRUCTION_SIZE_LG2 U) k (?cs ! k) (next_look ?cs k) (ps ! k)"
    using p(2) k by (auto simp: pieces_ok_def)
  have e: "code = relocate (e_alloc env n) rs (concat ps @ tail)" "remap = map (\<lambda>k. e_alloc env n + word_of_nat (starts ps k)) [0..<length ?cs]"
    using c(1) p(1) by simp_all
  have "starts ps k + length (ps ! k) \<le> length code" using starts_within [of k ps] k ok(1) e(1) by simp
  moreover have "cb_remap cb ! k = e_alloc env n + word_of_nat (starts ps k)" using k e(2) c(2) by simp
  ultimately show ?thesis
    using assms(1) c ok(2) unfolding code_for_def by blast
qed

text \<open>The mode and the number of the instruction a branch goes to.\<close>

definition target_iset :: "u32 \<Rightarrow> iset" where
  "target_iset addr = (if addr AND 1 \<noteq> 0 then IS_THUMB else IS_ARM)"

definition target_inst :: "u32 \<Rightarrow> nat" where
  "target_inst addr = unat (drop_bit (INSTRUCTION_SIZE_LG2 (target_iset addr)) (addr AND ADDRESS_MASK))"

lemma enter_page_target: "enter_page env T addr s =
    (let b = addr2page addr (view T s);
         s = s\<lparr>last_page := (last_page s)(T := b)\<rparr>
     in if has_flag (pmem s) b PAGE_EXECPROT then Inl (Invalid_Branch addr)
        else rbind (refresh env T b s) (\<lambda>s.
         rbind (if jit s b T (target_iset addr) = None then recompile env T (target_iset addr) b s else Inr s) (\<lambda>s.
            Inr (cb_remap (the (jit s b T (target_iset addr))) ! target_inst addr, s))))"
  unfolding enter_page_def target_inst_def target_iset_def Let_def ..

lemma target_inst_less: "target_inst addr < (case target_iset addr of IS_ARM \<Rightarrow> 128 | IS_THUMB \<Rightarrow> 256)"
proof -
  have "unat (addr AND ADDRESS_MASK) < 512" using off8_less [of addr] by (simp add: off8_def)
  then show ?thesis
    by (auto simp: target_inst_def target_iset_def INSTRUCTION_SIZE_LG2_def drop_bit_eq_div unat_div_distrib less_mult_imp_div_less
        split: iset.split)
qed

lemma enter_page_spec:
  assumes "coherent X env s"
  shows "if has_flag (pmem s) (addr2page addr (view T s)) PAGE_EXECPROT then enter_page env T addr s = Inl (Invalid_Branch addr)
    else (\<exists>ip s'. enter_page env T addr s = Inr (ip, s') \<and> coherent X env s' \<and>
      (\<forall>c. mem (blk (pmem s') c) = mem (blk (pmem s) c)) \<and> maps s' = maps s \<and>
      (addr2page addr (view T s) \<notin> X \<longrightarrow> code_for env T (target_iset addr) (addr2page addr (view T s)) (target_inst addr) ip s'))"
proof (cases "has_flag (pmem s) (addr2page addr (view T s)) PAGE_EXECPROT")
  case True
  then show ?thesis by (simp add: enter_page_def Let_def)
next
  case False
  let ?b = "addr2page addr (view T s)" and ?U = "target_iset addr"
  let ?s = "s\<lparr>last_page := (last_page s)(T := ?b)\<rparr>"
  have "coherent X env ?s" using assms by (simp add: coherent_def)
  then obtain s1 where s1: "refresh env T ?b ?s = Inr s1" "coherent X env s1" "\<not> has_flag (pmem s1) ?b (dirty_flag T)"
      "\<forall>c. mem (blk (pmem s1) c) = mem (blk (pmem s) c)" "maps s1 = maps s"
    using refresh_spec [of X env ?s T ?b] by auto
  obtain s2 where s2: "(if jit s1 ?b T ?U = None then recompile env T ?U ?b s1 else Inr s1) = Inr s2" "coherent X env s2"
      "pmem s2 = pmem s1" "maps s2 = maps s1" "jit s2 ?b T ?U \<noteq> None"
  proof (cases "jit s1 ?b T ?U = None")
    case True
    obtain cb where r: "recompile env T ?U ?b s1 = Inr (s1\<lparr>recompiles := (recompiles s1)(?b := recompiles s1 ?b + 1),
        jit := (jit s1)(?b := (jit s1 ?b)(T := (jit s1 ?b T)(?U := Some cb))), allocs := allocs s1 + 1\<rparr>)"
      "current env T ?U ?b (mem (blk (pmem s1) ?b)) cb"
      by (rule recompile_spec)
    let ?s2 = "s1\<lparr>recompiles := (recompiles s1)(?b := recompiles s1 ?b + 1),
        jit := (jit s1)(?b := (jit s1 ?b)(T := (jit s1 ?b T)(?U := Some cb))), allocs := allocs s1 + 1\<rparr>"
    have "coherent X env ?s2" using s1(2) r(2) unfolding coherent_def by (auto simp: jit_upd)
    then show ?thesis using True r(1) by (intro that [of ?s2]) simp_all
  qed (use s1(2) that in auto)
  obtain cb where cb: "jit s2 ?b T ?U = Some cb" using s2(5) by blast
  then have cur: "current env T ?U ?b (mem (blk (pmem s2) ?b)) cb" if "?b \<notin> X"
    using s2(2,3) s1(3) that by (auto simp: coherent_def)
  have "code_for env T ?U ?b (target_inst addr) (cb_remap cb ! target_inst addr) s2" if "?b \<notin> X"
    by (rule current_code_for [OF cb cur [OF that] target_inst_less])
  moreover have "enter_page env T addr s = Inr (cb_remap cb ! target_inst addr, s2)"
    using False s1(1) s2(1) cb by (simp add: enter_page_target Let_def)
  ultimately show ?thesis using False s1(4,5) s2(2-4) by auto
qed

section \<open>Every step of the machine\<close>

text \<open>What the emulated programs and the emulator do to memory and code: accesses of
  either processor, flushes and branches. A transfer of several words may stop half way,
  with the words before stored.\<close>

inductive cache_step :: "jit_env \<Rightarrow> 's handlers \<Rightarrow> 's pages \<Rightarrow> 's pages \<Rightarrow> bool" for env hs where
  s_load32: "load32 hs a (view T s) = Inr (v, m) \<Longrightarrow> cache_step env hs s (put_view m s)"
| s_load16u: "load16u hs a (view T s) = Inr (v, m) \<Longrightarrow> cache_step env hs s (put_view m s)"
| s_load16s: "load16s hs a (view T s) = Inr (v, m) \<Longrightarrow> cache_step env hs s (put_view m s)"
| s_load8u: "load8u hs a (view T s) = Inr (v, m) \<Longrightarrow> cache_step env hs s (put_view m s)"
| s_load_array: "load32_array hs a n (view T s) = Inr (ws, m) \<Longrightarrow> cache_step env hs s (put_view m s)"
| s_store32: "store32 hs a v (view T s) = Inr m \<Longrightarrow> cache_step env hs s (put_view m s)"
| s_store16: "store16 hs a v (view T s) = Inr m \<Longrightarrow> cache_step env hs s (put_view m s)"
| s_store8: "store8 hs a v (view T s) = Inr m \<Longrightarrow> cache_step env hs s (put_view m s)"
| s_store_array: "store32_array hs a ws (view T s) = (t, m) \<Longrightarrow> cache_step env hs s (put_view m s)"
| s_flush: "flush env b s = Inr s' \<Longrightarrow> cache_step env hs s s'"
| s_enter: "enter_page env T a s = Inr (ip, s') \<Longrightarrow> cache_step env hs s s'"

text \<open>The code cache is empty at the start.\<close>

definition no_code :: "'s pages \<Rightarrow> bool" where
  "no_code s = (\<forall>b T U. jit s b T U = None)"

lemma view_fields [simp]: "blk (view T s) = blk (pmem s)"
  by (simp add: view_def)

lemma marks_view [simp]: "marks X (view T s) m = marks X (pmem s) m"
  by (simp add: marks_def has_flag_def)

lemma step_coherent:
  assumes "cache_step env hs s s'" "handlers_mark X hs" "coherent X env s"
  shows "coherent X env s'"
  using assms(1)
proof cases
  case (s_store_array a ws T t m)
  then show ?thesis using marks_store_array [OF assms(2), of "view T s" a ws] assms(3) by (simp add: coherent_marks)
next
  case (s_load_array a n T ws m)
  then show ?thesis using marks_load_array [OF assms(2) s_load_array(2)] assms(3) by (simp add: coherent_marks)
next
  case (s_flush b)
  then show ?thesis using flush_coherent [OF assms(3), of b] by auto
next
  case (s_enter T a ip)
  then show ?thesis using enter_page_spec [OF assms(3), of a T] by (auto split: if_splits)
next
  case (s_load32 a T v m)
  then show ?thesis using marks_loads(1) [OF assms(2) s_load32(2)] assms(3) by (simp add: coherent_marks)
next
  case (s_load16u a T v m)
  then show ?thesis using marks_loads(2) [OF assms(2) s_load16u(2)] assms(3) by (simp add: coherent_marks)
next
  case (s_load16s a T v m)
  then show ?thesis using marks_loads(3) [OF assms(2) s_load16s(2)] assms(3) by (simp add: coherent_marks)
next
  case (s_load8u a T v m)
  then show ?thesis using marks_loads(4) [OF assms(2) s_load8u(2)] assms(3) by (simp add: coherent_marks)
next
  case (s_store32 a v T m)
  then show ?thesis using marks_stores(1) [OF assms(2) s_store32(2)] assms(3) by (simp add: coherent_marks)
next
  case (s_store16 a v T m)
  then show ?thesis using marks_stores(2) [OF assms(2) s_store16(2)] assms(3) by (simp add: coherent_marks)
next
  case (s_store8 a v T m)
  then show ?thesis using marks_stores(3) [OF assms(2) s_store8(2)] assms(3) by (simp add: coherent_marks)
qed

lemma steps_coherent: "(cache_step env hs)\<^sup>*\<^sup>* s s' \<Longrightarrow> handlers_mark X hs \<Longrightarrow> coherent X env s \<Longrightarrow> coherent X env s'"
  by (induction rule: rtranclp_induct) (auto intro: step_coherent)

section \<open>The properties of the cache\<close>

text \<open>
  C30: from the start, with no code compiled, whatever the two processors load, store,
  compile, flush and branch to, a page that is not marked dirty for a processor has, in
  either instruction set, no code at all or the code of its current bytes.
\<close>

theorem cache_coherent:
  assumes "(cache_step env hs)\<^sup>*\<^sup>* s s'" "no_code s" "handlers_mark X hs"
  shows "coherent X env s'"
  using assms(2,3) by (intro steps_coherent [OF assms(1,3)]) (auto simp: coherent_def no_code_def)


section \<open>A sample cache\<close>

definition sample_env :: jit_env where
  "sample_env = \<lparr>e_fns = (\<lambda>_. sample_fns), e_alloc = (\<lambda>n. 0x400000 + 0x8000 * word_of_nat n), e_ctx = (\<lambda>_. sample_dctx),
     e_patch = (\<lambda>_ _ _ code. code)\<rparr>"

definition pages0 :: "unit pages" where
  "pages0 = \<lparr>pmem = mem0, maps = (\<lambda>_ p. unat p), jit = (\<lambda>_ _ _. None), recompiles = (\<lambda>_. 0), allocs = 0, last_page = (\<lambda>_. 0)\<rparr>"

lemma no_handlers_mark: "handlers_mark X no_handlers"
  by (simp add: handlers_mark_def no_handlers_def)

lemma no_code0: "no_code pages0"
  by (simp add: no_code_def pages0_def)

lemma sample_coherent: "coherent X sample_env pages0"
  by (simp add: coherent_def pages0_def)

theorem cache_coherent_witness:
  "\<exists>m ip s'. store32 no_handlers 0x404 7 (view ARM9 pages0) = Inr m \<and>
    enter_page sample_env ARM9 0x404 (put_view m pages0) = Inr (ip, s') \<and> coherent {} sample_env s'"
proof -
  let ?m = "dirty 2 (poke 2 (wr32 4 7) (view ARM9 pages0))"
  have a: "addr2page 0x404 (view ARM9 s) = 2" if "maps s = maps pages0" for s :: "unit pages"
    using that by (simp add: addr2page_def view_def pages0_def)
  have m: "store32 no_handlers 0x404 7 (view ARM9 pages0) = Inr ?m"
    using a [of pages0] by (simp add: store32_def Let_def has_flag_def pages0_def mem0_def view_def)
  have st: "cache_step sample_env no_handlers pages0 (put_view ?m pages0)" by (rule s_store32 [OF m])
  have c: "coherent {} sample_env (put_view ?m pages0)" by (rule step_coherent [OF st no_handlers_mark sample_coherent])
  have "maps (put_view ?m pages0) = maps pages0" by (simp add: put_view_def)
  moreover have "\<not> has_flag (pmem (put_view ?m pages0)) 2 PAGE_EXECPROT"
    by (simp add: put_view_def has_flag_def dirty_def poke_def upd_blk_def mem0_def view_def pages0_def)
  ultimately obtain ip s' where e: "enter_page sample_env ARM9 0x404 (put_view ?m pages0) = Inr (ip, s')"
    using enter_page_spec [OF c, of "0x404" ARM9] a by auto
  have "(cache_step sample_env no_handlers)\<^sup>*\<^sup>* pages0 s'"
    using st s_enter [OF e] by (meson rtranclp.rtrancl_into_rtrancl r_into_rtranclp)
  then have "coherent {} sample_env s'" by (rule cache_coherent [OF _ no_code0 no_handlers_mark])
  then show ?thesis using m e by blast
qed


end
