(* ===== verification/Debug_Magic.thy ===== *)
theory Debug_Magic
  imports Decomp
begin

text \<open>
  The debugging instruction of an emulated program: \<^verbatim>\<open>HLE<T>::debug_magic\<close> and
  \<^verbatim>\<open>stream_debugstring\<close> of \<^verbatim>\<open>Core/HLE.h\<close>. The code behind \<^verbatim>\<open>mov r12, r12\<close> is a
  branch over a magic number, flags, and for a message its text. The theorem about the
  messages says which texts the fixed buffer of 4096 characters is right for, and what
  happens otherwise.
\<close>

section \<open>Pulling a string\<close>

abbreviation MAX_LEN :: nat where "MAX_LEN \<equiv> 4096"

text \<open>What C++ does not define: a write behind the buffer, and printing a buffer without
  a terminating zero.\<close>

datatype string_error = Write_Outside nat | Not_Terminated

record string_ctx =
  chars :: "u8 list"
  running :: bool
  pos :: nat

definition put_char :: "u8 \<Rightarrow> string_ctx \<Rightarrow> string_error + string_ctx" where
  "put_char ch c =
    (if pos c < MAX_LEN then Inr (c\<lparr>chars := (chars c)[pos c := ch], pos := pos c + 1\<rparr>)
     else Inl (Write_Outside (pos c)))"

text \<open>The label \<^verbatim>\<open>end\<close>.\<close>

definition end_string :: "string_ctx \<Rightarrow> string_error + string_ctx" where
  "end_string c = rbind (put_char 0 c) (\<lambda>c. Inr (c\<lparr>running := False\<rparr>))"

fun copy_chars :: "u8 list \<Rightarrow> string_ctx \<Rightarrow> string_error + string_ctx" where
  "copy_chars [] c = Inr c"
| "copy_chars (b # bs) c = rbind (put_char b c) (\<lambda>c. if b = 0 then end_string c else copy_chars bs c)"

definition stream_debugstring :: "memory_block \<Rightarrow> u8 list \<Rightarrow> string_error + string_ctx \<Rightarrow> string_error + string_ctx" where
  "stream_debugstring b bs r = rbind r (\<lambda>c.
     if \<not> running c then Inr c
     else if flags b AND (PAGE_INVALID OR PAGE_READPROT) \<noteq> 0 then end_string c
     else copy_chars bs c)"

text \<open>\<^verbatim>\<open>ctx.pos = 0; ctx.running = true; process_memory(...)\<close>; the buffer holds \<open>junk\<close>.\<close>

definition pull_string :: "u8 list \<Rightarrow> u32 \<Rightarrow> 's memory \<Rightarrow> string_error + string_ctx" where
  "pull_string junk addr m =
    process_memory stream_debugstring addr MAX_LEN m (Inr \<lparr>chars = junk, running = True, pos = 0\<rparr>)"

text \<open>Printing the buffer up to its first zero.\<close>

definition c_string :: "string_ctx \<Rightarrow> string_error + u8 list" where
  "c_string c = (if 0 \<in> set (chars c) then Inr (takeWhile (\<lambda>b. b \<noteq> 0) (chars c)) else Inl Not_Terminated)"

section \<open>The instruction\<close>

datatype log_entry =
    Log_String "u8 list" | Log_Breakpoint u32 | Log_Hostcall | Log_Unknown u32 u32 u32

text \<open>The state it can change: the processor, the log, and the two counters of the
  debugger.\<close>

record debug_state =
  d_proc :: processor
  d_log :: "log_entry list"
  last_halt :: u32
  skip_instructions :: u32

definition put_log :: "log_entry \<Rightarrow> debug_state \<Rightarrow> debug_state" where
  "put_log l s = s\<lparr>d_log := d_log s @ [l]\<rparr>"

definition set_r0 :: "u32 \<Rightarrow> debug_state \<Rightarrow> debug_state" where
  "set_r0 v s = s\<lparr>d_proc := set_reg 0 v (d_proc s)\<rparr>"

definition unreadable :: "'s memory \<Rightarrow> u32 \<Rightarrow> bool" where
  "unreadable m addr = has_flag m (addr2page addr m) (PAGE_INVALID OR PAGE_READPROT)"

definition half_at :: "'s memory \<Rightarrow> u32 \<Rightarrow> u32" where
  "half_at m addr = rd16 (mem (blk m (addr2page addr m))) (unat (addr AND (ADDRESS_MASK AND NOT 1)))"

text \<open>The magic number, the flags and the address behind them; \<open>None\<close> where the code
  returns early. In ARM mode both are read from the page of the first.\<close>

definition debug_header :: "u32 \<Rightarrow> 's memory \<Rightarrow> (u32 \<times> u32 \<times> u32) option" where
  "debug_header addr m =
    (if addr AND 1 \<noteq> 0
     then let addr = addr + 1
          in if unreadable m addr then None
             else let magic = half_at m addr;
                      addr = addr + 2
                  in if unreadable m addr then None
                     else let fl = half_at m addr in Some (magic, fl, addr + 2)
     else let addr = addr + 4
          in if unreadable m addr then None
             else let b = addr2page addr m;
                      magic = rd16 (mem (blk m b)) (unat (addr AND (ADDRESS_MASK AND NOT 1)));
                      addr = addr + 2;
                      fl = rd16 (mem (blk m b)) (unat (addr AND (ADDRESS_MASK AND NOT 1)))
                  in Some (magic, fl, addr + 2))"

definition NOCASH_DEBUGOUT :: u32 where "NOCASH_DEBUGOUT = 0x6464"
definition NOCASH_EXT_HALT :: u32 where "NOCASH_EXT_HALT = 0x9090"
definition NOCASH_EXT_VERS :: u32 where "NOCASH_EXT_VERS = 0x5344"
definition NOCASH_EXT_SCRI :: u32 where "NOCASH_EXT_SCRI = 0x3841"
definition NOCASH_EXT_RTSC :: u32 where "NOCASH_EXT_RTSC = 0x8312"
definition NDSE_VERSION :: u32 where "NDSE_VERSION = 1"

text \<open>\<open>tsc\<close> is the cycle counter, \<open>junk\<close> what the uninitialised buffer holds. The first
  component of the result is the stop in the debugger.\<close>

definition debug_magic :: "u32 \<Rightarrow> u8 list \<Rightarrow> 's memory \<Rightarrow> u32 \<Rightarrow> debug_state \<Rightarrow> string_error + (trap option \<times> debug_state)" where
  "debug_magic tsc junk m addr s =
    (case debug_header addr m of
       None \<Rightarrow> Inr (None, s)
     | Some (magic, fl, addr) \<Rightarrow>
         switch magic
          [(NOCASH_DEBUGOUT, rbind (pull_string junk addr m) (\<lambda>c. rbind (c_string c) (\<lambda>str.
              Inr (None, put_log (Log_String str) s)))),
           (NOCASH_EXT_HALT,
              if last_halt s \<noteq> addr
              then let s = s\<lparr>last_halt := addr\<rparr>;
                       s = put_log (Log_Breakpoint addr) s;
                       s = s\<lparr>skip_instructions := 1\<rparr>
                   in Inr (Some (Debug_Break ''software breakpoint''), s)
              else Inr (None, s)),
           (NOCASH_EXT_VERS, Inr (None, set_r0 NDSE_VERSION s)),
           (NOCASH_EXT_SCRI,
              let script = get_reg 2 (d_proc s)
              in rbind (pull_string junk script m) (\<lambda>_. Inr (None, set_r0 0 (put_log Log_Hostcall s)))),
           (NOCASH_EXT_RTSC, Inr (None, set_r0 tsc s))]
          (Inr (None, put_log (Log_Unknown addr magic fl) s)))"

section \<open>Strings of readable memory\<close>

text \<open>One character at a time.\<close>

definition string_step :: "u8 \<Rightarrow> string_error + string_ctx \<Rightarrow> string_error + string_ctx" where
  "string_step b r = rbind r (\<lambda>c. if running c then rbind (put_char b c) (\<lambda>c. if b = 0 then end_string c else Inr c) else Inr c)"

lemma string_step_Inl [simp]: "fold string_step bs (Inl e) = Inl e"
  by (induction bs) (simp_all add: string_step_def)

lemma string_step_Inr: "string_step b (Inr c) =
    (if running c then rbind (put_char b c) (\<lambda>c. if b = 0 then end_string c else Inr c) else Inr c)"
  by (simp add: string_step_def)

lemma string_step_stopped: "\<not> running c \<Longrightarrow> fold string_step bs (Inr c) = Inr c"
  by (induction bs) (simp_all add: string_step_def)

lemma copy_chars_fold: "running c \<Longrightarrow> copy_chars bs c = fold string_step bs (Inr c)"
proof (induction bs arbitrary: c)
  case (Cons b bs)
  show ?case
  proof (cases "put_char b c")
    case (Inl e)
    then show ?thesis using Cons.prems by (simp add: string_step_Inr)
  next
    case (Inr c')
    then have r: "running c'" using Cons.prems by (auto simp: put_char_def split: if_splits)
    show ?thesis
    proof (cases "b = 0")
      case True
      show ?thesis
      proof (cases "end_string c'")
        case (Inl e)
        then show ?thesis using True Inr Cons.prems \<open>put_char b c = Inr c'\<close> by (simp add: string_step_Inr)
      next
        case stop: (Inr c'')
        then have "\<not> running c''" by (auto simp: end_string_def rbind_Inr_iff)
        then show ?thesis using True stop Cons.prems \<open>put_char b c = Inr c'\<close> by (simp add: string_step_Inr string_step_stopped)
      qed
    next
      case False
      then show ?thesis using Cons.IH [OF r] Cons.prems \<open>put_char b c = Inr c'\<close> by (simp add: string_step_Inr)
    qed
  qed
qed simp

definition readable_page :: "memory_block \<Rightarrow> bool" where
  "readable_page b = (flags b AND (PAGE_INVALID OR PAGE_READPROT) = 0)"

lemma stream_fold:
  assumes "readable_page b"
  shows "stream_debugstring b bs r = fold string_step bs r"
proof (cases r)
  case (Inr c)
  then show ?thesis
    using assms by (cases "running c") (simp_all add: stream_debugstring_def readable_page_def copy_chars_fold string_step_stopped)
qed (simp add: stream_debugstring_def)

lemma pull_string_fold:
  assumes "\<And>b. length (mem (blk m b)) = PAGE_SIZE" "\<And>i. i < MAX_LEN \<Longrightarrow> readable_page (blk m (addr2page (addr + word_of_nat i) m))"
  shows "pull_string junk addr m = fold string_step (bytes_at m addr MAX_LEN) (Inr \<lparr>chars = junk, running = True, pos = 0\<rparr>)"
  unfolding pull_string_def
  by (rule process_memory_fold [where P = readable_page and h = "\<lambda>c. c"]) (use assms assms(2) [of 0] in \<open>auto simp: stream_fold\<close>)

text \<open>Characters before the first zero.\<close>

lemma fold_string_step:
  "0 \<notin> set bs \<Longrightarrow> running c \<Longrightarrow> pos c + length bs \<le> MAX_LEN \<Longrightarrow> length (chars c) = MAX_LEN \<Longrightarrow>
    fold string_step bs (Inr c) = Inr (c\<lparr>chars := take (pos c) (chars c) @ bs @ drop (pos c + length bs) (chars c), pos := pos c + length bs\<rparr>)"
proof (induction bs arbitrary: c)
  case (Cons b bs)
  let ?c = "c\<lparr>chars := (chars c)[pos c := b], pos := pos c + 1\<rparr>"
  have "string_step b (Inr c) = Inr ?c" using Cons.prems by (auto simp: string_step_Inr put_char_def)
  moreover have "fold string_step bs (Inr ?c) =
      Inr (?c\<lparr>chars := take (pos ?c) (chars ?c) @ bs @ drop (pos ?c + length bs) (chars ?c), pos := pos ?c + length bs\<rparr>)"
    by (rule Cons.IH) (use Cons.prems in simp_all)
  moreover have "take (pos c + 1) ((chars c)[pos c := b]) = take (pos c) (chars c) @ [b]"
    using Cons.prems by (simp add: take_Suc_conv_app_nth)
  ultimately show ?case using Cons.prems by simp
qed simp

lemma fold_step_append: "fold string_step (as @ bs) r = fold string_step bs (fold string_step as r)"
  by simp

lemma fold_string_result:
  assumes "length bs = MAX_LEN" "length junk = MAX_LEN"
  shows "rbind (fold string_step bs (Inr \<lparr>chars = junk, running = True, pos = 0\<rparr>)) c_string =
    (if 0 \<in> set (take 4095 bs) then Inr (takeWhile (\<lambda>b. b \<noteq> 0) bs)
     else if 0 \<in> set bs then Inl (Write_Outside MAX_LEN) else Inl Not_Terminated)"
proof -
  define as where "as = takeWhile (\<lambda>b. b \<noteq> 0) bs"
  let ?c = "\<lparr>chars = junk, running = True, pos = 0\<rparr>"
  let ?k = "length as"
  have as: "0 \<notin> set as" "?k \<le> MAX_LEN"
    using assms(1) length_takeWhile_le [of "\<lambda>b. b \<noteq> 0" bs] by (auto simp: as_def dest: set_takeWhileD)
  have pre: "fold string_step as (Inr ?c) = Inr \<lparr>chars = as @ drop ?k junk, running = True, pos = ?k\<rparr>"
    using fold_string_step [of as ?c] as assms(2) by simp
  show ?thesis
  proof (cases "0 \<in> set bs")
    case False
    then have "as = bs" unfolding as_def by simp metis
    then show ?thesis using pre assms False in_set_takeD [of 0 4095 bs] by (auto simp: c_string_def)
  next
    case True
    then obtain rest where bs: "bs = as @ 0 # rest"
      unfolding as_def by (metis (mono_tags, lifting) dropWhile_eq_Cons_conv dropWhile_eq_Nil_conv list.exhaust)
    then have k: "?k < MAX_LEN" using assms(1) by simp
    have first: "0 \<in> set (take 4095 bs) \<longleftrightarrow> ?k < 4095" using as(1) bs by (auto simp: take_Cons' dest: in_set_takeD)
    let ?c1 = "\<lparr>chars = (as @ drop ?k junk)[?k := 0], running = True, pos = ?k + 1\<rparr>"
    have c1: "fold string_step bs (Inr ?c) = fold string_step rest (end_string ?c1)"
      using pre bs k by (simp add: string_step_Inr put_char_def)
    show ?thesis
    proof (cases "?k < 4095")
      case less: True
      let ?c2 = "\<lparr>chars = ((as @ drop ?k junk)[?k := 0])[?k + 1 := 0], running = False, pos = ?k + 2\<rparr>"
      have "end_string ?c1 = Inr ?c2" using less by (simp add: end_string_def put_char_def)
      then have "fold string_step bs (Inr ?c) = Inr ?c2" using c1 by (simp add: string_step_stopped)
      moreover have "c_string ?c2 = Inr as"
      proof -
        have "drop ?k junk \<noteq> []" using k assms(2) by simp
        then obtain j js where "drop ?k junk = j # js" by (cases "drop ?k junk") auto
        then have "chars ?c2 = as @ 0 # js[0 := 0]" by (simp add: list_update_append)
        then show ?thesis using as(1) by (simp add: c_string_def takeWhile_append)
      qed
      ultimately show ?thesis using less first True by (simp add: as_def)
    next
      case False
      then have "?k = 4095" using k by simp
      then have "end_string ?c1 = Inl (Write_Outside MAX_LEN)" by (simp add: end_string_def put_char_def)
      then show ?thesis using c1 False first True by simp
    qed
  qed
qed

section \<open>The properties\<close>

text \<open>
  C32: the message of a program, in readable memory, is logged exactly when its
  terminating zero is among the first 4095 characters: then the characters before it are
  logged. If the zero is character 4096 the second terminating zero is written behind the
  buffer; without a zero in 4096 characters the printed buffer has none.
\<close>

theorem debug_message:
  assumes "\<And>b. length (mem (blk m b)) = PAGE_SIZE" "\<And>i. i < MAX_LEN \<Longrightarrow> \<not> unreadable m (addr + word_of_nat i)"
    "length junk = MAX_LEN"
  shows "rbind (pull_string junk addr m) c_string =
    (let bs = bytes_at m addr MAX_LEN
     in if 0 \<in> set (take 4095 bs) then Inr (takeWhile (\<lambda>b. b \<noteq> 0) bs)
        else if 0 \<in> set bs then Inl (Write_Outside MAX_LEN) else Inl Not_Terminated)"
proof -
  have r: "readable_page (blk m (addr2page (addr + word_of_nat i) m))" if "i < MAX_LEN" for i
    using assms(2) [OF that] by (simp add: readable_page_def unreadable_def has_flag_def)
  have "length (bytes_at m addr MAX_LEN) = MAX_LEN" by (simp add: bytes_at_def)
  from fold_string_result [OF this assms(3)] show ?thesis
    by (simp only: pull_string_fold [of m addr junk, OF assms(1) r] Let_def)
qed

theorem debug_message_witness:
  "rbind (pull_string (replicate 4096 1) 0x200 mem0) c_string = Inr []"
proof -
  have b: "bytes_at mem0 0x200 MAX_LEN = replicate 4096 0"
    by (rule nth_equalityI) (simp_all add: bytes_at_def byte_at_def mem0_def off8_less)
  have "\<And>b. length (mem (blk mem0 b)) = PAGE_SIZE" "\<And>i. \<not> unreadable mem0 (0x200 + word_of_nat i)"
    by (simp_all add: unreadable_def has_flag_def mem0_def)
  then show ?thesis
    using debug_message [of mem0 "0x200" "replicate 4096 1"] by (simp add: b Let_def)
qed


text \<open>A request of the version at address 0x400 in ARM mode: the header is the word at 0x404.\<close>

definition mem_version :: "unit memory" where
  "mem_version = mem0\<lparr>blk := (\<lambda>_. \<lparr>flags = 0, mem = (replicate 512 0)[4 := 0x44, 5 := 0x53]\<rparr>)\<rparr>"

lemma debug_header_version: "debug_header 0x400 mem_version = Some (NOCASH_EXT_VERS, 0, 0x408)"
  by (simp add: debug_header_def mem_version_def unreadable_def has_flag_def
      half_at_def Let_def NOCASH_EXT_VERS_def rd16_def)


end
