(* ===== verification/Stubs.thy ===== *)
theory Stubs
  imports Jit_Exec
begin

text \<open>
  The three pieces of host code \<^verbatim>\<open>HLE<T>::init\<close> writes by hand: the link from the
  generated code to \<^verbatim>\<open>compile_and_link_branch_a_real\<close>, the entry from the emulator
  into generated code, and the read of the cycle counter. The theorem: both calls reach
  the routine from wherever the buffers are, and the entry sets up the context and the
  return address first.
\<close>

abbreviation SECURITY_PADDING :: nat where "SECURITY_PADDING \<equiv> 64"

text \<open>The buffer: the code over \<^verbatim>\<open>nop\<close>s.\<close>

definition stub :: "u8 list \<Rightarrow> u8 list" where
  "stub str = str @ replicate SECURITY_PADDING 0x90"

text \<open>\<open>data\<close> is the buffer's address, \<open>func\<close> the routine's.\<close>

definition link_stub :: "u32 \<Rightarrow> u32 \<Rightarrow> u8 list" where
  "link_stub data func = stub ([0xE8] @ bytes32 (func - data - 5) @ [0xFF, 0xE0])"

definition invoke_stub :: "u32 \<Rightarrow> u32 \<Rightarrow> u8 list" where
  "invoke_stub data func =
    stub ([0x60, 0x8B, 0xEA, 0xC7, 0x45, REG 14] @ bytes32 0xEFEF0000 @ [0xE8] @ bytes32 (func - data - 5 - 10) @
      [0xFF, 0xD0, 0x61, 0xC3])"

definition tsc_stub :: "u8 list" where
  "tsc_stub = stub [0x8B, 0xC3, 0xC3]"

text \<open>The declared sizes of the buffers.\<close>

lemma stub_sizes:
  "length (link_stub data func) = 7 + SECURITY_PADDING" "length (invoke_stub data func) = 19 + SECURITY_PADDING"
  "length tsc_stub = 3 + SECURITY_PADDING"
  by (simp_all add: stub_def link_stub_def invoke_stub_def tsc_stub_def bytes32_def)

text \<open>Where the call at offset \<open>o'\<close> of code at \<open>data\<close> goes.\<close>

definition call_target :: "u32 \<Rightarrow> u8 list \<Rightarrow> nat \<Rightarrow> u32 option" where
  "call_target data code o' =
    (case x86_decode (drop o' code) of
       Some (Call w, rest) \<Rightarrow> Some (data + word_of_nat (length code - length rest) + w)
     | _ \<Rightarrow> None)"

lemma decode_call: "x86_decode (0xE8 # bytes32 w @ bs) = Some (Call w, bs)"
  by (simp add: x86_decode_def x86_opcode_def with_imm32_def next32_bytes32)

text \<open>
  The stubs. Each call in them reaches \<^verbatim>\<open>compile_and_link_branch_a_real\<close>,
  wherever the buffer is; the entry runs, after saving the host's registers, with the
  context in \<^verbatim>\<open>ebp\<close> taken from \<^verbatim>\<open>edx\<close> and the address of the emulated \<^verbatim>\<open>BIOS\<close>
  in the link register, and changes no other register, slot or flag; the counter's stub
  returns \<^verbatim>\<open>ebx\<close>; each stub fits its buffer.
\<close>

theorem stub_calls:
  assumes "gpr s EDX AND 3 = 0"
  shows "call_target data (link_stub data func) 0 = Some func \<and> call_target data (invoke_stub data func) 10 = Some func \<and>
   length (link_stub data func) = 7 + SECURITY_PADDING \<and> length (invoke_stub data func) = 19 + SECURITY_PADDING \<and>
   xrun u host (take 2 tsc_stub) s = Some (Fall (set_gpr EAX (gpr s EBX) s)) \<and>
   xrun u host (take 9 (drop 1 (invoke_stub data func))) s =
     Some (Fall (set_slot 14 0xEFEF0000 (set_gpr EBP (gpr s EDX) s)))"
proof -
  have l: "call_target data (link_stub data func) 0 = Some func"
    using decode_call [of "func - data - 5"] by (simp add: call_target_def link_stub_def stub_def)
  have b: "bytes32 0xEFEF0000 = [0, 0, 0xEF, 0xEF]" by (simp add: bytes32_def byte_of_def)
  have i: "invoke_stub data func = [0x60, 0x8B, 0xEA, 0xC7, 0x45, REG 14, 0, 0, 0xEF, 0xEF] @
      (0xE8 # bytes32 (func - data - 15) @ [0xFF, 0xD0, 0x61, 0xC3] @ replicate SECURITY_PADDING 0x90)"
    by (simp add: invoke_stub_def stub_def b algebra_simps)
  have "drop 10 (invoke_stub data func) = 0xE8 # bytes32 (func - data - 15) @ [0xFF, 0xD0, 0x61, 0xC3] @ replicate SECURITY_PADDING 0x90"
    by (simp add: i)
  then have c: "call_target data (invoke_stub data func) 10 = Some func"
    using decode_call [of "func - data - 15"] by (simp add: call_target_def i)
  have t: "xrun u host (take 2 tsc_stub) s = Some (Fall (set_gpr EAX (gpr s EBX) s))"
    by (simp add: tsc_stub_def stub_def xrun xstate with_reg_def modrm_def reg_of_def)
  have "take 9 (drop 1 (invoke_stub data func)) = [0x8B, 0xEA, 0xC7, 0x45, REG 14, 0, 0, 0xEF, 0xEF]"
    by (simp add: i)
  moreover have "xrun u host [0x8B, 0xEA, 0xC7, 0x45, REG 14, 0, 0, 0xEF, 0xEF] s =
     Some (Fall (set_slot 14 0xEFEF0000 (set_gpr EBP (gpr s EDX) s)))"
    using assms by (simp add: xrun xstate ctx_ok_def rd32_def with_reg_def modrm_def reg_of_def with_imm32_def)
  ultimately show ?thesis using l c t by (simp add: stub_sizes)
qed

theorem stub_calls_witness:
  "call_target 0x400000 (invoke_stub 0x400000 0x401000) 10 = Some 0x401000 \<and>
   xrun (\<lambda>_ _. False) (\<lambda>_ _. None) (take 9 (drop 1 (invoke_stub 0x400000 0x401000)))
     \<lparr>gpr = (\<lambda>_. 0x2000), memw = (\<lambda>_. 0), cf = False, zf = False, sf = False, ovf = False\<rparr> =
   Some (Fall (set_slot 14 0xEFEF0000 \<lparr>gpr = (\<lambda>_. 0x2000), memw = (\<lambda>_. 0), cf = False, zf = False, sf = False, ovf = False\<rparr>))"
proof -
  let ?s = "\<lparr>gpr = (\<lambda>_. 0x2000), memw = (\<lambda>_. 0), cf = False, zf = False, sf = False, ovf = False\<rparr>"
  have "set_gpr EBP (gpr ?s EDX) ?s = ?s" by (simp add: set_gpr_def fun_eq_iff)
  then show ?thesis
    using stub_calls [of ?s "0x400000" "0x401000" "\<lambda>_ _. False" "\<lambda>_ _. None"] by simp
qed

end
