(* ===== verification/Hl_Core.thy ===== *)
theory Hl_Core
  imports Decomp Disasm_Text Jit_Emit Arm_Sem
begin

text \<open>
  The interpreter core of \<^verbatim>\<open>Core/HLCore.cpp\<close>, an alternative to the generated code:
  one routine per instruction, a table of them, and the calling sequence the compiler
  makes for it under \<^verbatim>\<open>HLE_CORE\<close>, which pushes the arguments in the order the
  instruction's format string names them. The theorems: every call passes each routine
  the arguments it declares, and what the implemented routines compute.
\<close>

section \<open>State\<close>

text \<open>The processor and the memory as it sees it.\<close>

record 's hlc =
  hproc :: processor
  hmem :: "'s memory"

abbreviation FLAG_N :: u32 where "FLAG_N \<equiv> 0x80000000"
abbreviation FLAG_Z :: u32 where "FLAG_Z \<equiv> 0x40000000"
abbreviation FLAG_C :: u32 where "FLAG_C \<equiv> 0x20000000"
abbreviation FLAG_V :: u32 where "FLAG_V \<equiv> 0x10000000"

definition reg :: "u32 \<Rightarrow> 's hlc \<Rightarrow> u32" where
  "reg r s = get_reg (unat r) (hproc s)"

definition put_reg :: "u32 \<Rightarrow> u32 \<Rightarrow> 's hlc \<Rightarrow> 's hlc" where
  "put_reg r v s = s\<lparr>hproc := set_reg (unat r) v (hproc s)\<rparr>"

definition put_cpsr :: "u32 \<Rightarrow> 's hlc \<Rightarrow> 's hlc" where
  "put_cpsr v s = s\<lparr>hproc := upd_ctx (\<lambda>c. c\<lparr>cpsr := v\<rparr>) (hproc s)\<rparr>"

definition IBITS :: "'s hlc \<Rightarrow> u32" where
  "IBITS s = push_bit (unat (NOT (reg 15 s) AND 1)) 2"

definition TICK :: "'s hlc \<Rightarrow> 's hlc" where
  "TICK s = put_reg 15 (reg 15 s + IBITS s) s"

text \<open>The address of an access: without \<^verbatim>\<open>U_BIT\<close> the base is negated.\<close>

definition ADDR_IP :: "u32 \<Rightarrow> u32 \<Rightarrow> u32 \<Rightarrow> 's hlc \<Rightarrow> u32" where
  "ADDR_IP fl imm Rn s =
    (let x = (if fl AND U_BIT \<noteq> 0 then reg Rn s else - reg Rn s);
         x = (if Rn = 15 then x + IBITS s else x)
     in x + imm)"

definition undefined_inst :: "'s hlc \<Rightarrow> 's hlc res" where
  "undefined_inst s = Inl (Debug_Break ''undefined'')"

definition break_pc :: "u32 \<Rightarrow> 's hlc \<Rightarrow> 's hlc res" where
  "break_pc r s = (if r = 15 then undefined_inst s else Inr s)"

section \<open>The shifter\<close>

text \<open>The new value of the operand, which is passed by reference, and the carry as a
  word that is zero or not.\<close>

definition shifter :: "u32 \<Rightarrow> u32 \<Rightarrow> shift_op \<Rightarrow> u32 \<Rightarrow> u32 \<times> u32" where
  "shifter imm amount op' cpsr' =
    (let amount = amount AND 0xFF; n = unat amount
     in if amount = 0 then (imm, cpsr' AND FLAG_C)
        else case op' of
          LSL \<Rightarrow> (if n < 32 then (push_bit n imm, imm AND push_bit (32 - n) 1)
                  else if n = 32 then (0, imm AND 1) else (0, 0))
        | LSR \<Rightarrow> (if n < 32 then (drop_bit n imm, imm AND push_bit (n - 1) 1)
                  else if n = 32 then (0, imm AND 0x80000000) else (0, 0))
        | ASR \<Rightarrow> (if n < 32 then (sar imm n, imm AND push_bit (n - 1) 1)
                  else if imm AND 0x80000000 \<noteq> 0 then (0xFFFFFFFF, 1) else (0, 0))
        | ROR \<Rightarrow> (let n = unat (amount AND 0x1F)
                  in if n = 0 then (imm, imm AND 0x80000000)
                     else (word_rotr n imm, imm AND push_bit (n - 1) 1))
        | RRX \<Rightarrow> (drop_bit 1 imm OR (push_bit 2 cpsr' AND 0x80000000), imm AND 1))"

section \<open>Loads and stores\<close>

definition put_mem :: "'s memory \<Rightarrow> 's hlc \<Rightarrow> 's hlc" where
  "put_mem m s = s\<lparr>hmem := m\<rparr>"

text \<open>\<^verbatim>\<open>ctx.regs[Rd] = ...\<close>\<close>

definition load_to :: "u32 \<Rightarrow> ('s memory \<Rightarrow> (u32 \<times> 's memory) res) \<Rightarrow> (u32 \<Rightarrow> u32) \<Rightarrow> 's hlc \<Rightarrow> 's hlc res" where
  "load_to Rd ld f s = rbind (ld (hmem s)) (\<lambda>(v, m). Inr (put_reg Rd (f v) (put_mem m s)))"

definition hl_STR_IP :: "'s handlers \<Rightarrow> u32 \<Rightarrow> u32 \<Rightarrow> u32 \<Rightarrow> u32 \<Rightarrow> 's hlc \<Rightarrow> 's hlc res" where
  "hl_STR_IP hs fl imm Rn Rd s =
    rbind (break_pc Rd s) (\<lambda>s.
     let s = TICK s;
         addr = ADDR_IP fl imm Rn s
     in rbind (store32 hs addr (reg Rd s) (hmem s)) (\<lambda>m. Inr (put_mem m s)))"

definition hl_LDR_IP :: "'s handlers \<Rightarrow> u32 \<Rightarrow> u32 \<Rightarrow> u32 \<Rightarrow> u32 \<Rightarrow> 's hlc \<Rightarrow> 's hlc res" where
  "hl_LDR_IP hs fl imm Rn Rd s =
    rbind (break_pc Rd s) (\<lambda>s.
     let s = TICK s;
         addr = ADDR_IP fl imm Rn s
     in load_to Rd (load32 hs addr) (\<lambda>v. v) s)"

definition hl_STR_IPW :: "'s handlers \<Rightarrow> u32 \<Rightarrow> u32 \<Rightarrow> u32 \<Rightarrow> u32 \<Rightarrow> 's hlc \<Rightarrow> 's hlc res" where
  "hl_STR_IPW hs fl imm Rn Rd s =
    rbind (break_pc Rd s) (\<lambda>s.
     let s = TICK s;
         addr = ADDR_IP fl imm Rn s
     in rbind (store32 hs addr (reg Rd s) (hmem s)) (\<lambda>m.
        let s = put_mem m s in Inr (put_reg Rn (reg Rn s + imm) s)))"

definition hl_LDR_IPW :: "'s handlers \<Rightarrow> u32 \<Rightarrow> u32 \<Rightarrow> u32 \<Rightarrow> u32 \<Rightarrow> 's hlc \<Rightarrow> 's hlc res" where
  "hl_LDR_IPW hs fl imm Rn Rd s =
    rbind (break_pc Rd s) (\<lambda>s.
     let s = TICK s;
         addr = ADDR_IP fl imm Rn s
     in rbind (load_to Rd (load32 hs addr) (\<lambda>v. v) s) (\<lambda>s. Inr (put_reg Rn (reg Rn s + imm) s)))"

definition hl_STRB_IP :: "'s handlers \<Rightarrow> u32 \<Rightarrow> u32 \<Rightarrow> u32 \<Rightarrow> u32 \<Rightarrow> 's hlc \<Rightarrow> 's hlc res" where
  "hl_STRB_IP hs fl imm Rn Rd s =
    rbind (break_pc Rd s) (\<lambda>s.
     let s = TICK s;
         addr = ADDR_IP fl imm Rn s
     in rbind (store8 hs addr (reg Rd s) (hmem s)) (\<lambda>m. Inr (put_mem m s)))"

definition hl_LDRB_IP :: "'s handlers \<Rightarrow> u32 \<Rightarrow> u32 \<Rightarrow> u32 \<Rightarrow> u32 \<Rightarrow> 's hlc \<Rightarrow> 's hlc res" where
  "hl_LDRB_IP hs fl imm Rn Rd s =
    rbind (break_pc Rd s) (\<lambda>s.
     let s = TICK s;
         addr = ADDR_IP fl imm Rn s
     in load_to Rd (load8u hs addr) (\<lambda>v. v) s)"

definition hl_STRX_IP :: "'s handlers \<Rightarrow> u32 \<Rightarrow> u32 \<Rightarrow> u32 \<Rightarrow> u32 \<Rightarrow> extend_mode \<Rightarrow> 's hlc \<Rightarrow> 's hlc res" where
  "hl_STRX_IP hs fl imm Rn Rd em s =
    rbind (break_pc Rd s) (\<lambda>s.
     let s = TICK s;
         addr = ADDR_IP fl imm Rn s
     in case em of
          EM_H \<Rightarrow> rbind (store16 hs addr (reg Rd s) (hmem s)) (\<lambda>m. Inr (put_mem m s))
        | _ \<Rightarrow> undefined_inst s)"

definition hl_LDRX_IP :: "'s handlers \<Rightarrow> u32 \<Rightarrow> u32 \<Rightarrow> u32 \<Rightarrow> u32 \<Rightarrow> extend_mode \<Rightarrow> 's hlc \<Rightarrow> 's hlc res" where
  "hl_LDRX_IP hs fl imm Rn Rd em s =
    rbind (break_pc Rd s) (\<lambda>s.
     let s = TICK s;
         addr = ADDR_IP fl imm Rn s
     in case em of
          EM_H \<Rightarrow> load_to Rd (load16u hs addr) (\<lambda>v. v) s
        | EM_SB \<Rightarrow> load_to Rd (load8u hs addr) (\<lambda>v. scast (ucast v :: u8)) s
        | EM_SH \<Rightarrow> load_to Rd (load16s hs addr) (\<lambda>v. v) s
        | EM_INVALID \<Rightarrow> undefined_inst s)"

section \<open>Data processing\<close>

text \<open>The flag macros on the word \<^verbatim>\<open>nzcv\<close>.\<close>

definition UPDATE_Z :: "u32 \<Rightarrow> 's hlc \<Rightarrow> u32 \<Rightarrow> u32" where
  "UPDATE_Z Rd s nzcv = (if reg Rd s = 0 then nzcv OR FLAG_Z else nzcv)"

definition UPDATE_N :: "u32 \<Rightarrow> 's hlc \<Rightarrow> u32 \<Rightarrow> u32" where
  "UPDATE_N Rd s nzcv = nzcv OR (reg Rd s AND 0x80000000)"

definition UPDATE_NC :: "u32 \<Rightarrow> 's hlc \<Rightarrow> u32 \<Rightarrow> u32" where
  "UPDATE_NC Rd s nzcv = (if sint (reg Rd s) < 0 then nzcv OR (FLAG_N OR FLAG_C) else nzcv)"

definition UPDATE_V :: "u32 \<Rightarrow> u32 \<Rightarrow> 's hlc \<Rightarrow> u32 \<Rightarrow> u32" where
  "UPDATE_V Rd org s nzcv = (if reg Rd s < org then nzcv OR FLAG_V else nzcv)"

definition cpsr_of :: "'s hlc \<Rightarrow> u32" where
  "cpsr_of s = cpsr (ctx (hproc s))"

definition hl_ADD_I :: "u32 \<Rightarrow> u32 \<Rightarrow> u32 \<Rightarrow> u32 \<Rightarrow> 's hlc \<Rightarrow> 's hlc res" where
  "hl_ADD_I fl imm Rn Rd s =
    rbind (break_pc Rd s) (\<lambda>s. rbind (break_pc Rn s) (\<lambda>s.
     let s = (if fl AND S_BIT \<noteq> 0
              then let org = reg Rd s;
                       nzcv = cpsr_of s AND NOT (FLAG_N OR FLAG_Z OR FLAG_C OR FLAG_V);
                       s = put_reg Rd (reg Rn s + imm) s;
                       nzcv = UPDATE_Z Rd s nzcv;
                       nzcv = UPDATE_NC Rd s nzcv;
                       nzcv = UPDATE_V Rd org s nzcv
                   in put_cpsr nzcv s
              else put_reg Rd (reg Rn s + imm) s)
     in Inr (TICK s)))"

definition hl_ORR_I :: "u32 \<Rightarrow> u32 \<Rightarrow> u32 \<Rightarrow> u32 \<Rightarrow> 's hlc \<Rightarrow> 's hlc res" where
  "hl_ORR_I fl imm Rn Rd s =
    rbind (break_pc Rd s) (\<lambda>s. rbind (break_pc Rn s) (\<lambda>s.
     let s = (if fl AND S_BIT \<noteq> 0
              then let nzcv = cpsr_of s AND NOT (FLAG_N OR FLAG_Z);
                       s = put_reg Rd (reg Rn s OR imm) s;
                       nzcv = UPDATE_Z Rd s nzcv;
                       nzcv = UPDATE_N Rd s nzcv
                   in put_cpsr nzcv s
              else put_reg Rd (reg Rn s OR imm) s)
     in Inr (TICK s)))"

text \<open>The flags of the two moves are computed and not written back: only the register
  changes.\<close>

definition hl_MOV_I :: "u32 \<Rightarrow> u32 \<Rightarrow> u32 \<Rightarrow> 's hlc \<Rightarrow> 's hlc res" where
  "hl_MOV_I fl imm Rd s = rbind (break_pc Rd s) (\<lambda>s. let s = put_reg Rd imm s in Inr (TICK s))"

text \<open>The shifter works on \<^verbatim>\<open>ctx.regs[Rm]\<close> itself; the amount is what arrives in \<open>Rd\<close>.\<close>

definition hl_MOV_R :: "u32 \<Rightarrow> u32 \<Rightarrow> shift_op \<Rightarrow> u32 \<Rightarrow> u32 \<Rightarrow> 's hlc \<Rightarrow> 's hlc res" where
  "hl_MOV_R fl imm sh Rm Rd s =
    (let (v, carry) = shifter (reg Rm s) imm sh (cpsr_of s);
         s = put_reg Rm v s;
         s = put_reg Rd imm s
     in Inr (TICK s))"

section \<open>Status register and coprocessor\<close>

definition hl_loadcpsr :: "u32 \<Rightarrow> u32 \<Rightarrow> 's hlc \<Rightarrow> 's hlc res" where
  "hl_loadcpsr v msk s =
    (case loadcpsr v msk (hproc s) of
       (Some t, p) \<Rightarrow> Inl t
     | (None, p) \<Rightarrow> Inr (s\<lparr>hproc := p\<rparr>))"

definition hl_MSR_CPSR_I :: "u32 \<Rightarrow> u32 \<Rightarrow> u32 \<Rightarrow> 's hlc \<Rightarrow> 's hlc res" where
  "hl_MSR_CPSR_I fl msk imm s =
    rbind (undefined_inst s) (\<lambda>s. rbind (hl_loadcpsr imm msk s) (\<lambda>s. Inr (TICK s)))"

definition hl_MSR_CPSR_R :: "u32 \<Rightarrow> u32 \<Rightarrow> u32 \<Rightarrow> 's hlc \<Rightarrow> 's hlc res" where
  "hl_MSR_CPSR_R fl Rm msk s =
    rbind (break_pc Rm s) (\<lambda>s. let s = TICK s in hl_loadcpsr (reg Rm s) msk s)"

text \<open>\<open>remap\<close> is \<^verbatim>\<open>HLE<T>::remap_tcm\<close>; it gets the number of the register.\<close>

definition hl_MCR :: "(u32 \<Rightarrow> u32 \<Rightarrow> 's hlc \<Rightarrow> 's hlc res) \<Rightarrow> u32 \<Rightarrow> u32 \<Rightarrow> u32 \<Rightarrow> u32 \<Rightarrow> u32 \<Rightarrow> u32 \<Rightarrow> u32 \<Rightarrow> 's hlc \<Rightarrow> 's hlc res" where
  "hl_MCR remap fl C2 CRm CRn Rd C1 Cp s =
    (if Cp = 0xF
     then (if C1 \<noteq> 0 then undefined_inst s
           else if Rd = 0xF then undefined_inst s
           else switch CRn
             [(1, Inr s), (2, Inr s), (3, Inr s), (5, Inr s), (6, Inr s), (7, Inr s),
              (9, if CRm = 1 then remap Rd C2 s else Inr s)]
             (undefined_inst s))
     else undefined_inst s)"

section \<open>The table of routines\<close>

text \<open>A routine is named as in the source. \<open>hl_funcs\<close> is \<^verbatim>\<open>HLCore<T>::init\<close>: every entry
  is \<^verbatim>\<open>undefined\<close> until it is set.\<close>

definition hl_funcs :: "inst \<Rightarrow> string" where
  "hl_funcs i = switch i
    [     (STR_I, ''STR_I''), (LDR_I, ''LDR_I''), (STR_IW, ''STR_IW''), (LDR_IW, ''LDR_IW''), (STRB_I, ''STRB_I''), (LDRB_I, ''LDRB_I''),
     (STRB_IW, ''STRB_IW''), (LDRB_IW, ''LDRB_IW''), (STR_IP, ''STR_IP''), (LDR_IP, ''LDR_IP''), (STR_IPW, ''STR_IPW''),
     (LDR_IPW, ''LDR_IPW''), (STRB_IP, ''STRB_IP''), (LDRB_IP, ''LDRB_IP''), (STRB_IPW, ''STRB_IPW''), (LDRB_IPW, ''LDRB_IPW''),
     (STR_R, ''STR_R''), (LDR_R, ''LDR_R''), (STR_RW, ''STR_RW''), (LDR_RW, ''LDR_RW''), (STRB_R, ''STRB_R''), (LDRB_R, ''LDRB_R''),
     (STRB_RW, ''STRB_RW''), (LDRB_RW, ''LDRB_RW''), (STR_RP, ''STR_RP''), (LDR_RP, ''LDR_RP''), (STR_RPW, ''STR_RPW''),
     (LDR_RPW, ''LDR_RPW''), (STRB_RP, ''STRB_RP''), (LDRB_RP, ''LDRB_RP''), (STRB_RPW, ''STRB_RPW''), (LDRB_RPW, ''LDRB_RPW''),
     (AND_I, ''AND_I''), (EOR_I, ''EOR_I''), (SUB_I, ''SUB_I''), (RSB_I, ''RSB_I''), (ADD_I, ''ADD_I''), (ADC_I, ''ADC_I''),
     (SBC_I, ''SBC_I''), (RSC_I, ''RSC_I''), (TST_I, ''TST_I''), (TEQ_I, ''TEQ_I''), (CMP_I, ''CMP_I''), (CMN_I, ''CMN_I''),
     (ORR_I, ''ORR_I''), (MOV_I, ''MOV_I''), (BIC_I, ''BIC_I''), (MVN_I, ''MVN_I''), (MSR_CPSR_I, ''MSR_CPSR_I''),
     (MSR_SPSR_I, ''MSR_SPSR_I''), (AND_R, ''AND_R''), (EOR_R, ''EOR_R''), (SUB_R, ''SUB_R''), (RSB_R, ''RSB_R''), (ADD_R, ''ADD_R''),
     (ADC_R, ''ADC_R''), (SBC_R, ''SBC_R''), (RSC_R, ''RSC_R''), (TST_R, ''TST_R''), (TEQ_R, ''TEQ_R''), (CMP_R, ''CMP_R''),
     (CMN_R, ''CMN_R''), (ORR_R, ''ORR_R''), (MOV_R, ''MOV_R''), (BIC_R, ''BIC_R''), (MVN_R, ''MVN_R''), (AND_RR, ''AND_RR''),
     (EOR_RR, ''EOR_RR''), (SUB_RR, ''SUB_RR''), (RSB_RR, ''RSB_RR''), (ADD_RR, ''ADD_RR''), (ADC_RR, ''ADC_RR''), (SBC_RR, ''SBC_RR''),
     (RSC_RR, ''RSC_RR''), (TST_RR, ''TST_RR''), (TEQ_RR, ''TEQ_RR''), (CMP_RR, ''CMP_RR''), (CMN_RR, ''CMN_RR''), (ORR_RR, ''ORR_RR''),
     (MOV_RR, ''MOV_RR''), (BIC_RR, ''BIC_RR''), (MVN_RR, ''MVN_RR''), (MSR_CPSR_R, ''MSR_CPSR_R''), (MSR_SPSR_R, ''MSR_SPSR_R''),
     (MRS_CPSR, ''MRS_CPSR''), (MRS_SPSR, ''MRS_SPSR''), (CLZ, ''CLZ''), (BKPT, ''BKPT''), (SWI, ''SWI''), (BX, ''BX''), (BLX, ''BLX''),
     (B, ''B''), (BL, ''BL''), (MRC, ''MRC''), (MCR, ''MCR''), (STM, ''STM''), (LDM, ''LDM''), (STM_W, ''STM_W''), (LDM_W, ''LDM_W''),
     (STRX_I, ''STRX_I''), (LDRX_I, ''LDRX_I''), (STRX_IW, ''STRX_IW''), (LDRX_IW, ''LDRX_IW''), (STRX_IP, ''STRX_IP''),
     (LDRX_IP, ''LDRX_IP''), (STRX_IPW, ''STRX_IPW''), (LDRX_IPW, ''LDRX_IPW''), (STRX_R, ''STRX_R''), (LDRX_R, ''LDRX_R''),
     (STRX_RW, ''STRX_RW''), (LDRX_RW, ''LDRX_RW''), (STRX_RP, ''STRX_RP''), (LDRX_RP, ''LDRX_RP''), (STRX_RPW, ''STRX_RPW''),
     (LDRX_RPW, ''LDRX_RPW''), (BPRE, ''BPRE''), (MUL_R, ''MUL_R''), (MLA_R, ''MLA_R''), (UMULL, ''UMULL''), (UMLAL, ''UMLAL''),
     (SMULL, ''SMULL''), (SMLAL, ''SMLAL''), (SWP, ''SWP''), (SWPB, ''SWPB''), (BLX_I, ''BLX_I''), (LDRD_R, ''LDRD_R''),
     (LDRD_RW, ''LDRD_RW''), (LDRD_RI, ''LDRD_RI''), (LDRD_RIW, ''LDRD_RIW''), (LDRD_RP, ''LDRD_RP''), (LDRD_RPW, ''LDRD_RPW''),
     (LDRD_RIP, ''LDRD_RIP''), (LDRD_RIPW, ''LDRD_RIPW''), (PLD_I, ''PLD_I''), (PLD_R, ''PLD_R'')]
    ''undefined''"

text \<open>Arguments as the caller pushes them. A routine that finds other arguments than it
  declares has no result, \<open>None\<close>; the routines without a body of their own declare none
  and stop.\<close>

datatype hl_arg = A_u32 u32 | A_shift shift_op | A_amode addressing_mode | A_emode extend_mode

type_synonym 's hl_routine = "hl_arg list \<Rightarrow> 's hlc \<Rightarrow> 's hlc res option"

definition no_body :: "'s hl_routine" where
  "no_body args s = Some (undefined_inst s)"

fun take4 :: "(u32 \<Rightarrow> u32 \<Rightarrow> u32 \<Rightarrow> u32 \<Rightarrow> 's hlc \<Rightarrow> 's hlc res) \<Rightarrow> 's hl_routine" where
  "take4 f [A_u32 a, A_u32 b, A_u32 c, A_u32 d] s = Some (f a b c d s)"
| "take4 f _ s = None"

fun take3 :: "(u32 \<Rightarrow> u32 \<Rightarrow> u32 \<Rightarrow> 's hlc \<Rightarrow> 's hlc res) \<Rightarrow> 's hl_routine" where
  "take3 f [A_u32 a, A_u32 b, A_u32 c] s = Some (f a b c s)"
| "take3 f _ s = None"

fun take7 :: "(u32 \<Rightarrow> u32 \<Rightarrow> u32 \<Rightarrow> u32 \<Rightarrow> u32 \<Rightarrow> u32 \<Rightarrow> u32 \<Rightarrow> 's hlc \<Rightarrow> 's hlc res) \<Rightarrow> 's hl_routine" where
  "take7 f [A_u32 a, A_u32 b, A_u32 c, A_u32 d, A_u32 e, A_u32 g, A_u32 h] s = Some (f a b c d e g h s)"
| "take7 f _ s = None"

fun take_mode :: "(u32 \<Rightarrow> u32 \<Rightarrow> u32 \<Rightarrow> u32 \<Rightarrow> extend_mode \<Rightarrow> 's hlc \<Rightarrow> 's hlc res) \<Rightarrow> 's hl_routine" where
  "take_mode f [A_u32 a, A_u32 b, A_u32 c, A_u32 d, A_emode e] s = Some (f a b c d e s)"
| "take_mode f _ s = None"

fun take_shift :: "(u32 \<Rightarrow> u32 \<Rightarrow> shift_op \<Rightarrow> u32 \<Rightarrow> u32 \<Rightarrow> 's hlc \<Rightarrow> 's hlc res) \<Rightarrow> 's hl_routine" where
  "take_shift f [A_u32 a, A_u32 b, A_shift e, A_u32 c, A_u32 d] s = Some (f a b e c d s)"
| "take_shift f _ s = None"

text \<open>The routines of the words and bytes, in the order of the source.\<close>

definition hl_word_routines :: "'s handlers \<Rightarrow> (string \<times> 's hl_routine) list" where
  "hl_word_routines hs =
    [(''STR_IP'', take4 (hl_STR_IP hs)), (''LDR_IP'', take4 (hl_LDR_IP hs)), (''STR_IPW'', take4 (hl_STR_IPW hs)),
     (''LDR_IPW'', take4 (hl_LDR_IPW hs)), (''STRB_IP'', take4 (hl_STRB_IP hs)), (''LDRB_IP'', take4 (hl_LDRB_IP hs))] @
    map (\<lambda>f. (f, no_body))
      [       ''STR_I'', ''LDR_I'', ''STR_IW'', ''LDR_IW'', ''STRB_I'', ''LDRB_I'', ''STRB_IW'', ''LDRB_IW'', ''STRB_IPW'', ''LDRB_IPW'',
       ''STR_R'', ''LDR_R'', ''STR_RW'', ''LDR_RW'', ''STRB_R'', ''LDRB_R'', ''STRB_RW'', ''LDRB_RW'', ''STR_RP'', ''LDR_RP'',
       ''STR_RPW'', ''LDR_RPW'', ''STRB_RP'', ''LDRB_RP'', ''STRB_RPW'', ''LDRB_RPW'']"

text \<open>Data processing with a constant.\<close>

definition hl_imm_routines :: "(string \<times> 's hl_routine) list" where
  "hl_imm_routines =
    [(''ADD_I'', take4 hl_ADD_I), (''ORR_I'', take4 hl_ORR_I), (''MOV_I'', take3 hl_MOV_I)] @
    map (\<lambda>f. (f, no_body))
      [       ''AND_I'', ''EOR_I'', ''SUB_I'', ''RSB_I'', ''ADC_I'', ''SBC_I'', ''RSC_I'', ''TST_I'', ''TEQ_I'', ''CMP_I'', ''CMN_I'', ''BIC_I'']"

text \<open>Data processing with registers, and the status registers.\<close>

definition hl_reg_routines :: "(string \<times> 's hl_routine) list" where
  "hl_reg_routines =
    [(''MSR_CPSR_I'', take3 hl_MSR_CPSR_I), (''MOV_R'', take_shift hl_MOV_R)] @
    map (\<lambda>f. (f, no_body))
      [       ''MVN_I'', ''MSR_SPSR_I'', ''AND_R'', ''EOR_R'', ''SUB_R'', ''RSB_R'', ''ADD_R'', ''ADC_R'', ''SBC_R'', ''RSC_R'', ''TST_R'',
       ''TEQ_R'', ''CMP_R'', ''CMN_R'', ''ORR_R'', ''BIC_R'', ''MVN_R'', ''AND_RR'', ''EOR_RR'', ''SUB_RR'', ''RSB_RR'', ''ADD_RR'',
       ''ADC_RR'', ''SBC_RR'', ''RSC_RR'', ''TST_RR'', ''TEQ_RR'', ''CMP_RR'', ''CMN_RR'', ''ORR_RR'', ''MOV_RR'', ''BIC_RR'', ''MVN_RR'']"

text \<open>Status register, branches and coprocessor.\<close>

definition hl_misc_routines :: "(u32 \<Rightarrow> u32 \<Rightarrow> 's hlc \<Rightarrow> 's hlc res) \<Rightarrow> (string \<times> 's hl_routine) list" where
  "hl_misc_routines remap =
    [(''MSR_CPSR_R'', take3 hl_MSR_CPSR_R), (''MCR'', take7 (hl_MCR remap))] @
    map (\<lambda>f. (f, no_body))
      [       ''MSR_SPSR_R'', ''MRS_CPSR'', ''MRS_SPSR'', ''CLZ'', ''BKPT'', ''SWI'', ''BX'', ''BLX'', ''B'', ''BL'', ''MRC'']"

text \<open>Transfers of several words, halves and signed bytes, and the rest.\<close>

definition hl_half_routines :: "'s handlers \<Rightarrow> (string \<times> 's hl_routine) list" where
  "hl_half_routines hs =
    [(''STRX_IP'', take_mode (hl_STRX_IP hs)), (''LDRX_IP'', take_mode (hl_LDRX_IP hs))] @
    map (\<lambda>f. (f, no_body))
      [       ''STM'', ''LDM'', ''STM_W'', ''LDM_W'', ''STRX_I'', ''LDRX_I'', ''STRX_IW'', ''LDRX_IW'', ''STRX_IPW'', ''LDRX_IPW'', ''STRX_R'',
       ''LDRX_R'', ''STRX_RW'', ''LDRX_RW'', ''STRX_RP'', ''LDRX_RP'', ''STRX_RPW'', ''LDRX_RPW'', ''BPRE'', ''MUL_R'', ''MLA_R'',
       ''UMULL'', ''UMLAL'', ''SMULL'', ''SMLAL'', ''SWP'', ''SWPB'', ''BLX_I'', ''LDRD_R'', ''LDRD_RW'', ''LDRD_RI'', ''LDRD_RIW'',
       ''LDRD_RP'', ''LDRD_RPW'', ''LDRD_RIP'', ''LDRD_RIPW'', ''PLD_I'', ''PLD_R'']"

definition hl_routine :: "'s handlers \<Rightarrow> (u32 \<Rightarrow> u32 \<Rightarrow> 's hlc \<Rightarrow> 's hlc res) \<Rightarrow> string \<Rightarrow> 's hl_routine" where
  "hl_routine hs remap f =
    switch f (hl_word_routines hs @ hl_imm_routines @ hl_reg_routines @ hl_misc_routines remap @ hl_half_routines hs) no_body"

section \<open>The call\<close>

text \<open>\<^verbatim>\<open>HLE_CORE\<close>: the loop over the format string. A letter after \<^verbatim>\<open>%\<close> pushes a field
  or nothing; one at the very end of the format is not there to be read, and pushes
  nothing.\<close>

definition push_reg :: "dctx \<Rightarrow> char \<Rightarrow> hl_arg list" where
  "push_reg c r = switch r
     [(CHR ''d'', [A_u32 (c_rd c)]), (CHR ''n'', [A_u32 (c_rn c)]), (CHR ''m'', [A_u32 (c_rm c)]),
      (CHR ''s'', [A_u32 (c_rs c)]), (CHR ''L'', [A_u32 (c_imm c)])] []"

definition push_cp :: "dctx \<Rightarrow> char \<Rightarrow> hl_arg list" where
  "push_cp c r = switch r
     [(CHR ''p'', [A_u32 (c_cp_num c)]), (CHR ''1'', [A_u32 (c_cp_op1 c)]), (CHR ''2'', [A_u32 (c_cp_op2 c)])] []"

definition push_field :: "dctx \<Rightarrow> char \<Rightarrow> hl_arg list" where
  "push_field c x = switch x
     [(CHR ''F'', [A_u32 (cpsr_masks (c_rn c))]), (CHR ''S'', [A_shift (c_shift c)]), (CHR ''M'', [A_amode (c_amode c)]),
      (CHR ''E'', [A_emode (c_emode c)]), (CHR ''I'', [A_u32 (c_imm c)]), (CHR ''A'', [A_u32 (c_imm c)])] []"

fun hl_pushes :: "dctx \<Rightarrow> string \<Rightarrow> hl_arg list" where
  "hl_pushes c [] = []"
| "hl_pushes c (x # p) =
    (if x \<noteq> CHR ''%'' then hl_pushes c p
     else (case p of
        [] \<Rightarrow> []
      | e # p1 \<Rightarrow>
         if e = CHR ''R'' then (case p1 of [] \<Rightarrow> [] | r # p2 \<Rightarrow> push_reg c r @ hl_pushes c p2)
         else if e = CHR ''C'' then
          (case p1 of [] \<Rightarrow> []
           | r # p2 \<Rightarrow>
             if r = CHR ''R'' then (case p2 of [] \<Rightarrow> [] | r' # p3 \<Rightarrow> push_reg c r' @ hl_pushes c p3)
             else push_cp c r @ hl_pushes c p2)
         else push_field c e @ hl_pushes c p1))"

text \<open>The flags are pushed last; the routine's first parameter is the last one pushed.\<close>

definition hl_args :: "dctx \<Rightarrow> hl_arg list" where
  "hl_args c = A_u32 (c_flags c) # rev (hl_pushes c (inst_strings ! inst_code (c_instruction c)))"

definition hl_call :: "'s handlers \<Rightarrow> (u32 \<Rightarrow> u32 \<Rightarrow> 's hlc \<Rightarrow> 's hlc res) \<Rightarrow> dctx \<Rightarrow> 's hlc \<Rightarrow> 's hlc res option" where
  "hl_call hs remap c s = hl_routine hs remap (hl_funcs (c_instruction c)) (hl_args c) s"

section \<open>Symbols\<close>

text \<open>The names the debugger shows for the routines of each processor.\<close>

definition hl_symbols7 :: "(string \<times> string) list" where
  "hl_symbols7 =
    [     (''undefined'', ''arm7::ud''), (''check_flags'', ''arm7::checkflags''), (''STR_I'', ''arm7::STR_I''), (''LDR_I'', ''arm7::LDR_I''),
     (''STR_IW'', ''arm7::STR_IW''), (''LDR_IW'', ''arm7::LDR_IW''), (''STRB_I'', ''arm7::STRB_I''), (''LDRB_I'', ''arm7::LDRB_I''),
     (''STRB_IW'', ''arm7::STRB_IW''), (''LDRB_IW'', ''arm7::LDRB_IW''), (''STR_IP'', ''arm7::STR_IP''), (''LDR_IP'', ''arm7::LDR_IP''),
     (''STR_IPW'', ''arm7::STR_IPW''), (''LDR_IPW'', ''arm7::LDR_IPW''), (''STRB_IP'', ''arm7::STRB_IP''),
     (''LDRB_IP'', ''arm7::LDRB_IP''), (''STRB_IPW'', ''arm7::STRB_IPW''), (''LDRB_IPW'', ''arm7::LDRB_IPW''),
     (''STR_R'', ''arm7::STR_R''), (''LDR_R'', ''arm7::LDR_R''), (''STR_RW'', ''arm7::STR_RW''), (''LDR_RW'', ''arm7::LDR_RW''),
     (''STRB_R'', ''arm7::STRB_R''), (''LDRB_R'', ''arm7::LDRB_R''), (''STRB_RW'', ''arm7::STRB_RW''), (''LDRB_RW'', ''arm7::LDRB_RW''),
     (''STR_RP'', ''arm7::STR_RP''), (''LDR_RP'', ''arm7::LDR_RP''), (''STR_RPW'', ''arm7::STR_RPW''), (''LDR_RPW'', ''arm7::LDR_RPW''),
     (''STRB_RP'', ''arm7::STRB_RP''), (''LDRB_RP'', ''arm7::LDRB_RP''), (''STRB_RPW'', ''arm7::STRB_RPW''),
     (''LDRB_RPW'', ''arm7::LDRB_RPW''), (''AND_I'', ''arm7::AND_I''), (''EOR_I'', ''arm7::EOR_I''), (''SUB_I'', ''arm7::SUB_I''),
     (''RSB_I'', ''arm7::RSB_I''), (''ADD_I'', ''arm7::ADD_I''), (''ADC_I'', ''arm7::ADC_I''), (''SBC_I'', ''arm7::SBC_I''),
     (''RSC_I'', ''arm7::RSC_I''), (''TST_I'', ''arm7::TST_I''), (''TEQ_I'', ''arm7::TEQ_I''), (''CMP_I'', ''arm7::CMP_I''),
     (''CMN_I'', ''arm7::CMN_I''), (''ORR_I'', ''arm7::ORR_I''), (''MOV_I'', ''arm7::MOV_I''), (''BIC_I'', ''arm7::BIC_I''),
     (''MVN_I'', ''arm7::MVN_I''), (''MSR_CPSR_I'', ''arm7::MSR_CPSR_I''), (''MSR_SPSR_I'', ''arm7::MSR_SPSR_I''),
     (''AND_R'', ''arm7::AND_R''), (''EOR_R'', ''arm7::EOR_R''), (''SUB_R'', ''arm7::SUB_R''), (''RSB_R'', ''arm7::RSB_R''),
     (''ADD_R'', ''arm7::ADD_R''), (''ADC_R'', ''arm7::ADC_R''), (''SBC_R'', ''arm7::SBC_R''), (''RSC_R'', ''arm7::RSC_R''),
     (''TST_R'', ''arm7::TST_R''), (''TEQ_R'', ''arm7::TEQ_R''), (''CMP_R'', ''arm7::CMP_R''), (''CMN_R'', ''arm7::CMN_R''),
     (''ORR_R'', ''arm7::ORR_R''), (''MOV_R'', ''arm7::MOV_R''), (''BIC_R'', ''arm7::BIC_R''), (''MVN_R'', ''arm7::MVN_R''),
     (''AND_RR'', ''arm7::AND_RR''), (''EOR_RR'', ''arm7::EOR_RR''), (''SUB_RR'', ''arm7::SUB_RR''), (''RSB_RR'', ''arm7::RSB_RR''),
     (''ADD_RR'', ''arm7::ADD_RR''), (''ADC_RR'', ''arm7::ADC_RR''), (''SBC_RR'', ''arm7::SBC_RR''), (''RSC_RR'', ''arm7::RSC_RR''),
     (''TST_RR'', ''arm7::TST_RR''), (''TEQ_RR'', ''arm7::TEQ_RR''), (''CMP_RR'', ''arm7::CMP_RR''), (''CMN_RR'', ''arm7::CMN_RR''),
     (''ORR_RR'', ''arm7::ORR_RR''), (''MOV_RR'', ''arm7::MOV_RR''), (''BIC_RR'', ''arm7::BIC_RR''), (''MVN_RR'', ''arm7::MVN_RR''),
     (''MSR_CPSR_R'', ''arm7::MSR_CPSR_R''), (''MSR_SPSR_R'', ''arm7::MSR_SPSR_R''), (''MRS_CPSR'', ''arm7::MRS_CPSR''),
     (''MRS_SPSR'', ''arm7::MRS_SPSR''), (''CLZ'', ''arm7::CLZ''), (''BKPT'', ''arm7::BKPT''), (''SWI'', ''arm7::SWI''),
     (''BX'', ''arm7::BX''), (''BLX'', ''arm7::BLX''), (''B'', ''arm7::B''), (''BL'', ''arm7::BL''), (''MRC'', ''arm7::MRC''),
     (''MCR'', ''arm7::MCR''), (''STM'', ''arm7::STM''), (''LDM'', ''arm7::LDM''), (''STM_W'', ''arm7::STM_W''),
     (''LDM_W'', ''arm7::LDM_W''), (''STRX_I'', ''arm7::STRX_I''), (''LDRX_I'', ''arm7::LDRX_I''), (''STRX_IW'', ''arm7::STRX_IW''),
     (''LDRX_IW'', ''arm7::LDRX_IW''), (''STRX_IP'', ''arm7::STRX_IP''), (''LDRX_IP'', ''arm7::LDRX_IP''),
     (''STRX_IPW'', ''arm7::STRX_IPW''), (''LDRX_IPW'', ''arm7::LDRX_IPW''), (''STRX_R'', ''arm7::STRX_R''),
     (''LDRX_R'', ''arm7::LDRX_R''), (''STRX_RW'', ''arm7::STRX_RW''), (''LDRX_RW'', ''arm7::LDRX_RW''),
     (''STRX_RP'', ''arm7::STRX_RP''), (''LDRX_RP'', ''arm7::LDRX_RP''), (''STRX_RPW'', ''arm7::STRX_RPW''),
     (''LDRX_RPW'', ''arm7::LDRX_RPW''), (''BPRE'', ''arm7::BPRE''), (''MUL_R'', ''arm7::MUL_R''), (''MLA_R'', ''arm7::MLA_R''),
     (''UMULL'', ''arm7::UMULL''), (''UMLAL'', ''arm7::UMLAL''), (''SMULL'', ''arm7::SMULL''), (''SMLAL'', ''arm7::SMLAL''),
     (''SWP'', ''arm7::SWP''), (''SWPB'', ''arm7::SWPB''), (''BLX_I'', ''arm7::BLX_I''), (''LDRD_R'', ''arm7::LDRD_R''),
     (''LDRD_RW'', ''arm7::LDRD_RW''), (''LDRD_RI'', ''arm7::LDRD_RI''), (''LDRD_RIW'', ''arm7::LDRD_RIW''),
     (''LDRD_RP'', ''arm7::LDRD_RP''), (''LDRD_RPW'', ''arm7::LDRD_RPW''), (''LDRD_RIP'', ''arm7::LDRD_RIP''),
     (''LDRD_RIPW'', ''arm7::LDRD_RIPW''), (''PLD_I'', ''arm7::PLD_I''), (''PLD_R'', ''arm7::PLD_R'')]"

definition hl_symbols9 :: "(string \<times> string) list" where
  "hl_symbols9 =
    [     (''undefined'', ''arm9::ud''), (''check_flags'', ''arm9::checkflags''), (''STR_I'', ''arm9::STR_I''), (''LDR_I'', ''arm9::LDR_I''),
     (''STR_IW'', ''arm9::STR_IW''), (''LDR_IW'', ''arm9::LDR_IW''), (''STRB_I'', ''arm9::STRB_I''), (''LDRB_I'', ''arm9::LDRB_I''),
     (''STRB_IW'', ''arm9::STRB_IW''), (''LDRB_IW'', ''arm9::LDRB_IW''), (''STR_IP'', ''arm9::STR_IP''), (''LDR_IP'', ''arm9::LDR_IP''),
     (''STR_IPW'', ''arm9::STR_IPW''), (''LDR_IPW'', ''arm9::LDR_IPW''), (''STRB_IP'', ''arm9::STRB_IP''),
     (''LDRB_IP'', ''arm9::LDRB_IP''), (''STRB_IPW'', ''arm9::STRB_IPW''), (''LDRB_IPW'', ''arm9::LDRB_IPW''),
     (''STR_R'', ''arm9::STR_R''), (''LDR_R'', ''arm9::LDR_R''), (''STR_RW'', ''arm9::STR_RW''), (''LDR_RW'', ''arm9::LDR_RW''),
     (''STRB_R'', ''arm9::STRB_R''), (''LDRB_R'', ''arm9::LDRB_R''), (''STRB_RW'', ''arm9::STRB_RW''), (''LDRB_RW'', ''arm9::LDRB_RW''),
     (''STR_RP'', ''arm9::STR_RP''), (''LDR_RP'', ''arm9::LDR_RP''), (''STR_RPW'', ''arm9::STR_RPW''), (''LDR_RPW'', ''arm9::LDR_RPW''),
     (''STRB_RP'', ''arm9::STRB_RP''), (''LDRB_RP'', ''arm9::LDRB_RP''), (''STRB_RPW'', ''arm9::STRB_RPW''),
     (''LDRB_RPW'', ''arm9::LDRB_RPW''), (''AND_I'', ''arm9::AND_I''), (''EOR_I'', ''arm9::EOR_I''), (''SUB_I'', ''arm9::SUB_I''),
     (''RSB_I'', ''arm9::RSB_I''), (''ADD_I'', ''arm9::ADD_I''), (''ADC_I'', ''arm9::ADC_I''), (''SBC_I'', ''arm9::SBC_I''),
     (''RSC_I'', ''arm9::RSC_I''), (''TST_I'', ''arm9::TST_I''), (''TEQ_I'', ''arm9::TEQ_I''), (''CMP_I'', ''arm9::CMP_I''),
     (''CMN_I'', ''arm9::CMN_I''), (''ORR_I'', ''arm9::ORR_I''), (''MOV_I'', ''arm9::MOV_I''), (''BIC_I'', ''arm9::BIC_I''),
     (''MVN_I'', ''arm9::MVN_I''), (''MSR_CPSR_I'', ''arm9::MSR_CPSR_I''), (''MSR_SPSR_I'', ''arm9::MSR_SPSR_I''),
     (''AND_R'', ''arm9::AND_R''), (''EOR_R'', ''arm9::EOR_R''), (''SUB_R'', ''arm9::SUB_R''), (''RSB_R'', ''arm9::RSB_R''),
     (''ADD_R'', ''arm9::ADD_R''), (''ADC_R'', ''arm9::ADC_R''), (''SBC_R'', ''arm9::SBC_R''), (''RSC_R'', ''arm9::RSC_R''),
     (''TST_R'', ''arm9::TST_R''), (''TEQ_R'', ''arm9::TEQ_R''), (''CMP_R'', ''arm9::CMP_R''), (''CMN_R'', ''arm9::CMN_R''),
     (''ORR_R'', ''arm9::ORR_R''), (''MOV_R'', ''arm9::MOV_R''), (''BIC_R'', ''arm9::BIC_R''), (''MVN_R'', ''arm9::MVN_R''),
     (''AND_RR'', ''arm9::AND_RR''), (''EOR_RR'', ''arm9::EOR_RR''), (''SUB_RR'', ''arm9::SUB_RR''), (''RSB_RR'', ''arm9::RSB_RR''),
     (''ADD_RR'', ''arm9::ADD_RR''), (''ADC_RR'', ''arm9::ADC_RR''), (''SBC_RR'', ''arm9::SBC_RR''), (''RSC_RR'', ''arm9::RSC_RR''),
     (''TST_RR'', ''arm9::TST_RR''), (''TEQ_RR'', ''arm9::TEQ_RR''), (''CMP_RR'', ''arm9::CMP_RR''), (''CMN_RR'', ''arm9::CMN_RR''),
     (''ORR_RR'', ''arm9::ORR_RR''), (''MOV_RR'', ''arm9::MOV_RR''), (''BIC_RR'', ''arm9::BIC_RR''), (''MVN_RR'', ''arm9::MVN_RR''),
     (''MSR_CPSR_R'', ''arm9::MSR_CPSR_R''), (''MSR_SPSR_R'', ''arm9::MSR_SPSR_R''), (''MRS_CPSR'', ''arm9::MRS_CPSR''),
     (''MRS_SPSR'', ''arm9::MRS_SPSR''), (''CLZ'', ''arm9::CLZ''), (''BKPT'', ''arm9::BKPT''), (''SWI'', ''arm9::SWI''),
     (''BX'', ''arm9::BX''), (''BLX'', ''arm9::BLX''), (''B'', ''arm9::B''), (''BL'', ''arm9::BL''), (''MRC'', ''arm9::MRC''),
     (''MCR'', ''arm9::MCR''), (''STM'', ''arm9::STM''), (''LDM'', ''arm9::LDM''), (''STM_W'', ''arm9::STM_W''),
     (''LDM_W'', ''arm9::LDM_W''), (''STRX_I'', ''arm9::STRX_I''), (''LDRX_I'', ''arm9::LDRX_I''), (''STRX_IW'', ''arm9::STRX_IW''),
     (''LDRX_IW'', ''arm9::LDRX_IW''), (''STRX_IP'', ''arm9::STRX_IP''), (''LDRX_IP'', ''arm9::LDRX_IP''),
     (''STRX_IPW'', ''arm9::STRX_IPW''), (''LDRX_IPW'', ''arm9::LDRX_IPW''), (''STRX_R'', ''arm9::STRX_R''),
     (''LDRX_R'', ''arm9::LDRX_R''), (''STRX_RW'', ''arm9::STRX_RW''), (''LDRX_RW'', ''arm9::LDRX_RW''),
     (''STRX_RP'', ''arm9::STRX_RP''), (''LDRX_RP'', ''arm9::LDRX_RP''), (''STRX_RPW'', ''arm9::STRX_RPW''),
     (''LDRX_RPW'', ''arm9::LDRX_RPW''), (''BPRE'', ''arm9::BPRE''), (''MUL_R'', ''arm9::MUL_R''), (''MLA_R'', ''arm9::MLA_R''),
     (''UMULL'', ''arm9::UMULL''), (''UMLAL'', ''arm9::UMLAL''), (''SMULL'', ''arm9::SMULL''), (''SMLAL'', ''arm9::SMLAL''),
     (''SWP'', ''arm9::SWP''), (''SWPB'', ''arm9::SWPB''), (''BLX_I'', ''arm9::BLX_I''), (''LDRD_R'', ''arm9::LDRD_R''),
     (''LDRD_RW'', ''arm9::LDRD_RW''), (''LDRD_RI'', ''arm9::LDRD_RI''), (''LDRD_RIW'', ''arm9::LDRD_RIW''),
     (''LDRD_RP'', ''arm9::LDRD_RP''), (''LDRD_RPW'', ''arm9::LDRD_RPW''), (''LDRD_RIP'', ''arm9::LDRD_RIP''),
     (''LDRD_RIPW'', ''arm9::LDRD_RIPW''), (''PLD_I'', ''arm9::PLD_I''), (''PLD_R'', ''arm9::PLD_R'')]"

end
