(* ===== verification/Hl_Calls.thy ===== *)
theory Hl_Calls
  imports Hl_Core Jit_Code
begin

text \<open>
  What the interpreter core promises: the generated call hands every routine the fields
  of the instruction it was written for, the implemented data routines follow the
  processor's manual, and a word that is stored is the word that is loaded.
\<close>

section \<open>Calls\<close>

text \<open>The routine of an instruction on the decoder's fields.\<close>

definition hl_step :: "'s handlers \<Rightarrow> (u32 \<Rightarrow> u32 \<Rightarrow> 's hlc \<Rightarrow> 's hlc res) \<Rightarrow> dctx \<Rightarrow> 's hlc \<Rightarrow> 's hlc res" where
  "hl_step hs remap c s = switch (c_instruction c)
     [(STR_IP, hl_STR_IP hs (c_flags c) (c_imm c) (c_rn c) (c_rd c) s),
      (LDR_IP, hl_LDR_IP hs (c_flags c) (c_imm c) (c_rn c) (c_rd c) s),
      (STR_IPW, hl_STR_IPW hs (c_flags c) (c_imm c) (c_rn c) (c_rd c) s),
      (LDR_IPW, hl_LDR_IPW hs (c_flags c) (c_imm c) (c_rn c) (c_rd c) s),
      (STRB_IP, hl_STRB_IP hs (c_flags c) (c_imm c) (c_rn c) (c_rd c) s),
      (LDRB_IP, hl_LDRB_IP hs (c_flags c) (c_imm c) (c_rn c) (c_rd c) s),
      (STRX_IP, hl_STRX_IP hs (c_flags c) (c_imm c) (c_rn c) (c_rd c) (c_emode c) s),
      (LDRX_IP, hl_LDRX_IP hs (c_flags c) (c_imm c) (c_rn c) (c_rd c) (c_emode c) s),
      (ADD_I, hl_ADD_I (c_flags c) (c_imm c) (c_rn c) (c_rd c) s),
      (ORR_I, hl_ORR_I (c_flags c) (c_imm c) (c_rn c) (c_rd c) s),
      (MOV_I, hl_MOV_I (c_flags c) (c_imm c) (c_rd c) s),
      (MOV_R, hl_MOV_R (c_flags c) (c_imm c) (c_shift c) (c_rm c) (c_rd c) s),
      (MSR_CPSR_R, hl_MSR_CPSR_R (c_flags c) (c_rm c) (cpsr_masks (c_rn c)) s),
      (MCR, hl_MCR remap (c_flags c) (c_cp_op2 c) (c_rm c) (c_rn c) (c_rd c) (c_cp_op1 c) (c_cp_num c) s)]
     (undefined_inst s)"

text \<open>The instructions whose routine has a body.\<close>

definition has_body :: "inst \<Rightarrow> bool" where
  "has_body i = (i \<in> set [STR_IP, LDR_IP, STR_IPW, LDR_IPW, STRB_IP, LDRB_IP, STRX_IP, LDRX_IP, ADD_I, ORR_I, MOV_I, MOV_R,
     MSR_CPSR_I, MSR_CPSR_R, MCR])"

definition body_names :: "string list" where
  "body_names = [''STR_IP'', ''LDR_IP'', ''STR_IPW'', ''LDR_IPW'', ''STRB_IP'', ''LDRB_IP'', ''STRX_IP'', ''LDRX_IP'', ''ADD_I'',
     ''ORR_I'', ''MOV_I'', ''MOV_R'', ''MSR_CPSR_I'', ''MSR_CPSR_R'', ''MCR'']"

lemma switch_same: "(\<And>k' v. (k', v) \<in> set cs \<Longrightarrow> k = k' \<Longrightarrow> v = d) \<Longrightarrow> switch k cs d = d"
  by (induction k cs d rule: switch.induct) auto

lemma no_body_name:
  assumes "f \<notin> set body_names"
  shows "hl_routine hs remap f = no_body"
  unfolding hl_routine_def
proof (rule switch_same)
  fix k' v
  assume "(k', v) \<in> set (hl_word_routines hs @ hl_imm_routines @ hl_reg_routines @ hl_misc_routines remap @ hl_half_routines hs)"
    and "f = k'"
  then show "v = no_body"
    using assms
    by (auto simp: hl_word_routines_def hl_imm_routines_def hl_reg_routines_def hl_misc_routines_def hl_half_routines_def
        body_names_def)
qed

lemma switch_at: "(\<And>k' v. (k', v) \<in> set cs \<Longrightarrow> k = k' \<Longrightarrow> P v) \<Longrightarrow> P d \<Longrightarrow> P (switch k cs d)"
  by (induction k cs d rule: switch.induct) auto

lemma funcs_bodies:
  assumes "\<not> has_body i"
  shows "hl_funcs i \<notin> set body_names"
  unfolding hl_funcs_def
proof (rule switch_at)
  show "''undefined'' \<notin> set body_names" by (simp add: body_names_def)
qed (use assms in \<open>auto simp: has_body_def body_names_def\<close>)

text \<open>The routine of each implemented instruction and the format its call follows.\<close>

lemma body_routines:
  "hl_routine hs remap ''STR_IP'' = take4 (hl_STR_IP hs)" "hl_routine hs remap ''LDR_IP'' = take4 (hl_LDR_IP hs)"
  "hl_routine hs remap ''STR_IPW'' = take4 (hl_STR_IPW hs)" "hl_routine hs remap ''LDR_IPW'' = take4 (hl_LDR_IPW hs)"
  "hl_routine hs remap ''STRB_IP'' = take4 (hl_STRB_IP hs)" "hl_routine hs remap ''LDRB_IP'' = take4 (hl_LDRB_IP hs)"
  "hl_routine hs remap ''STRX_IP'' = take_mode (hl_STRX_IP hs)" "hl_routine hs remap ''LDRX_IP'' = take_mode (hl_LDRX_IP hs)"
  "hl_routine hs remap ''ADD_I'' = take4 hl_ADD_I" "hl_routine hs remap ''ORR_I'' = take4 hl_ORR_I"
  "hl_routine hs remap ''MOV_I'' = take3 hl_MOV_I" "hl_routine hs remap ''MOV_R'' = take_shift hl_MOV_R"
  "hl_routine hs remap ''MSR_CPSR_I'' = take3 hl_MSR_CPSR_I" "hl_routine hs remap ''MSR_CPSR_R'' = take3 hl_MSR_CPSR_R"
  "hl_routine hs remap ''MCR'' = take7 (hl_MCR remap)"
  by (simp_all add: hl_routine_def hl_word_routines_def hl_imm_routines_def hl_reg_routines_def hl_misc_routines_def
      hl_half_routines_def)

lemma body_funcs:
  "hl_funcs STR_IP = ''STR_IP''" "hl_funcs LDR_IP = ''LDR_IP''" "hl_funcs STR_IPW = ''STR_IPW''" "hl_funcs LDR_IPW = ''LDR_IPW''"
  "hl_funcs STRB_IP = ''STRB_IP''" "hl_funcs LDRB_IP = ''LDRB_IP''" "hl_funcs STRX_IP = ''STRX_IP''" "hl_funcs LDRX_IP = ''LDRX_IP''"
  "hl_funcs ADD_I = ''ADD_I''" "hl_funcs ORR_I = ''ORR_I''" "hl_funcs MOV_I = ''MOV_I''" "hl_funcs MOV_R = ''MOV_R''"
  "hl_funcs MSR_CPSR_I = ''MSR_CPSR_I''" "hl_funcs MSR_CPSR_R = ''MSR_CPSR_R''" "hl_funcs MCR = ''MCR''"
  by (simp_all add: hl_funcs_def)

lemma body_pushes:
  "list_all (\<lambda>i. hl_pushes c (inst_strings ! inst_code i) = [A_u32 (c_rd c), A_u32 (c_rn c), A_u32 (c_imm c)])
     [STR_IP, LDR_IP, STR_IPW, LDR_IPW, STRB_IP, LDRB_IP, ADD_I, ORR_I]"
  "hl_pushes c (inst_strings ! inst_code STRX_IP) = [A_emode (c_emode c), A_u32 (c_rd c), A_u32 (c_rn c), A_u32 (c_imm c)]"
  "hl_pushes c (inst_strings ! inst_code LDRX_IP) = [A_emode (c_emode c), A_u32 (c_rd c), A_u32 (c_rn c), A_u32 (c_imm c)]"
  "hl_pushes c (inst_strings ! inst_code MOV_I) = [A_u32 (c_rd c), A_u32 (c_imm c)]"
  "hl_pushes c (inst_strings ! inst_code MOV_R) = [A_u32 (c_rd c), A_u32 (c_rm c), A_shift (c_shift c), A_u32 (c_imm c)]"
  "hl_pushes c (inst_strings ! inst_code MSR_CPSR_I) = [A_u32 (cpsr_masks (c_rn c)), A_u32 (c_imm c)]"
  "hl_pushes c (inst_strings ! inst_code MSR_CPSR_R) = [A_u32 (cpsr_masks (c_rn c)), A_u32 (c_rm c)]"
  "hl_pushes c (inst_strings ! inst_code MCR) =
     [A_u32 (c_cp_num c), A_u32 (c_cp_op1 c), A_u32 (c_rd c), A_u32 (c_rn c), A_u32 (c_rm c), A_u32 (c_cp_op2 c)]"
  by (simp_all add: inst_strings_def push_field_def push_reg_def push_cp_def)

lemma step_no_body: "\<not> has_body (c_instruction c) \<Longrightarrow> hl_step hs remap c s = undefined_inst s"
  by (simp add: hl_step_def has_body_def)

lemma hl_call_calc: "hl_call hs remap c s = Some (hl_step hs remap c s)"
proof (cases "has_body (c_instruction c)")
  case False
  then have "hl_funcs (c_instruction c) \<notin> set body_names" by (simp add: funcs_bodies)
  then show ?thesis by (simp add: hl_call_def no_body_name no_body_def step_no_body [OF False])
next
  case True
  have "hl_call hs remap (c\<lparr>c_instruction := i\<rparr>) s = Some (hl_step hs remap (c\<lparr>c_instruction := i\<rparr>) s)" if "has_body i" for i
    using that [unfolded has_body_def] body_pushes [of "c\<lparr>c_instruction := i\<rparr>"]
    unfolding hl_call_def hl_step_def hl_args_def
    by (simp only: list.set insert_iff empty_iff, elim disjE)
      (simp_all add: body_funcs body_routines hl_MSR_CPSR_I_def undefined_inst_def)
  from this [OF True] show ?thesis by simp
qed


section \<open>Registers\<close>

definition hl_wf :: "'s hlc \<Rightarrow> bool" where
  "hl_wf s = (length (regs (ctx (hproc s))) = 16)"

lemma reg_put_reg [simp]:
  "hl_wf s \<Longrightarrow> r < 16 \<Longrightarrow> r' < 16 \<Longrightarrow> reg r (put_reg r' v s) = (if r = r' then v else reg r s)"
  by (auto simp: hl_wf_def reg_def put_reg_def get_reg_def set_reg_def upd_ctx_def ctx_def nth_list_update word_less_nat_alt
      word_unat_eq_iff)

lemma reg_other [simp]: "reg r (put_cpsr v s) = reg r s" "reg r (put_mem m s) = reg r s"
  by (simp_all add: reg_def put_cpsr_def put_mem_def get_reg_def upd_ctx_def ctx_def)

lemma hl_wf_put [simp]: "hl_wf (put_reg r v s) = hl_wf s" "hl_wf (put_cpsr v s) = hl_wf s" "hl_wf (put_mem m s) = hl_wf s"
  by (simp_all add: hl_wf_def put_reg_def put_cpsr_def put_mem_def set_reg_def upd_ctx_def ctx_def)

lemma cpsr_put [simp]: "cpsr_of (put_reg r v s) = cpsr_of s" "cpsr_of (put_cpsr v s) = v" "cpsr_of (put_mem m s) = cpsr_of s"
  by (simp_all add: cpsr_of_def put_reg_def put_cpsr_def put_mem_def set_reg_def upd_ctx_def ctx_def)

lemma hmem_put [simp]: "hmem (put_reg r v s) = hmem s" "hmem (put_cpsr v s) = hmem s" "hmem (put_mem m s) = m"
  by (simp_all add: put_reg_def put_cpsr_def put_mem_def)

lemma TICK_put [simp]:
  "hl_wf (TICK s) = hl_wf s" "cpsr_of (TICK s) = cpsr_of s" "hmem (TICK s) = hmem s"
  "hl_wf s \<Longrightarrow> r < 16 \<Longrightarrow> reg r (TICK s) = (if r = 15 then reg 15 s + IBITS s else reg r s)"
  by (simp_all add: TICK_def)

text \<open>The size of an instruction depends on the lowest bit of the program counter, which
  keeps its value.\<close>

lemma IBITS_cases: "IBITS s = (if bit (reg 15 s) 0 then 2 else 4)"
proof -
  have "NOT (reg 15 s) AND 1 = (if bit (reg 15 s) 0 then 0 else 1)"
    by (auto simp: bit_0 and_one_eq mod_2_eq_odd)
  then show ?thesis unfolding IBITS_def by simp
qed

lemma IBITS_TICK [simp]: "hl_wf s \<Longrightarrow> IBITS (TICK s) = IBITS s"
  by (simp add: IBITS_cases bit_0)

section \<open>The data routines\<close>

definition hl_view :: "'s hlc \<Rightarrow> arm" where
  "hl_view s = \<lparr>areg = \<lambda>r. reg r s, aN = bit (cpsr_of s) 31, aZ = bit (cpsr_of s) 30, aC = bit (cpsr_of s) 29,
     aV = bit (cpsr_of s) 28\<rparr>"

lemma one_bit: "n < 32 \<Longrightarrow> bit (2 ^ n :: u32) k = (k = n)"
  by (auto simp: bit_exp_iff)

lemmas flag_bits = one_bit [of 31, simplified] one_bit [of 30, simplified] one_bit [of 29, simplified] one_bit [of 28, simplified]

lemma nc_bits: "bit (0xA0000000 :: u32) k = (k = 31 \<or> k = 29)"
proof -
  have "(0xA0000000 :: u32) = 2 ^ 31 OR 2 ^ 29" by simp
  then show ?thesis by (simp only: bit_or_iff one_bit)
qed

lemma sign_bit: "(sint (v :: u32) < 0) = bit v 31"
  using bit_last_iff [of v] by simp

lemma update_bits:
  "bit (UPDATE_Z Rd s g) k = (bit g k \<or> reg Rd s = 0 \<and> k = 30)"
  "bit (UPDATE_N Rd s g) k = (bit g k \<or> bit (reg Rd s) 31 \<and> k = 31)"
  "bit (UPDATE_NC Rd s g) k = (bit g k \<or> bit (reg Rd s) 31 \<and> (k = 31 \<or> k = 29))"
  "bit (UPDATE_V Rd org s g) k = (bit g k \<or> reg Rd s < org \<and> k = 28)"
proof -
  have "FLAG_N OR FLAG_C = (0xA0000000 :: u32)" by simp
  then have "UPDATE_NC Rd s g = (if bit (reg Rd s) 31 then g OR 0xA0000000 else g)"
    by (simp only: UPDATE_NC_def sign_bit)
  then show "bit (UPDATE_NC Rd s g) k = (bit g k \<or> bit (reg Rd s) 31 \<and> (k = 31 \<or> k = 29))"
    by (cases "bit (reg Rd s) 31") (simp_all only: if_True if_False bit_or_iff nc_bits simp_thms)
qed (auto simp: UPDATE_Z_def UPDATE_N_def UPDATE_V_def bit_or_iff bit_and_iff flag_bits)

lemma IBITS_put [simp]: "hl_wf s \<Longrightarrow> r < 16 \<Longrightarrow> r \<noteq> 15 \<Longrightarrow> IBITS (put_reg r v s) = IBITS s" "IBITS (put_cpsr v s) = IBITS s"
  "IBITS (put_mem m s) = IBITS s"
  by (simp_all add: IBITS_def)

lemma cleared_bits:
  "\<not> bit ((f :: u32) AND NOT (FLAG_N OR FLAG_Z)) 31" "\<not> bit (f AND NOT (FLAG_N OR FLAG_Z)) 30"
  "bit (f AND NOT (FLAG_N OR FLAG_Z)) 29 = bit f 29" "bit (f AND NOT (FLAG_N OR FLAG_Z)) 28 = bit f 28"
  "\<not> bit (f AND NOT (FLAG_N OR FLAG_Z OR FLAG_C OR FLAG_V)) 31" "\<not> bit (f AND NOT (FLAG_N OR FLAG_Z OR FLAG_C OR FLAG_V)) 30"
  by (simp_all add: bit_simps)


definition hlc0 :: "unit hlc" where
  "hlc0 = \<lparr>hproc = proc0, hmem = mem0\<rparr>"

lemma hlc0_wf: "hl_wf hlc0" "r < 16 \<Longrightarrow> reg r hlc0 = 0"
  by (auto simp: hl_wf_def hlc0_def proc0_def ctx_def reg_def get_reg_def word_less_nat_alt)


section \<open>Stores and loads\<close>

lemma words_same: "plain_page m a \<Longrightarrow> load32 hs a (poke32 a v m) = Inr (rotated a v, poke32 a v m)"
  using words.rd_wr_same [of m a a v] by (simp add: load_plain words.plain_wr)

text \<open>
  A word stored by the interpreter core's \<^verbatim>\<open>STR\<close> and loaded by its \<^verbatim>\<open>LDR\<close> from the same
  base and offset is the register's value (rotated when the address is not aligned): both
  run without stopping, the loaded register has the value, the other registers keep
  theirs, and the program counter has moved by two instructions.
\<close>

theorem hl_store_then_load:
  assumes "c_instruction c = STR_IP" "c_instruction c' = LDR_IP"
    and "c_rn c' = c_rn c" "c_imm c' = c_imm c" "c_flags c AND U_BIT \<noteq> 0" "c_flags c' AND U_BIT \<noteq> 0"
    and "hl_wf s" "c_rd c < 15" "c_rn c < 15" "c_rd c' < 15"
    and "plain_page (hmem s) (reg (c_rn c) s + c_imm c)"
  shows "\<exists>s1 s2. hl_call hs remap c s = Some (Inr s1) \<and> hl_call hs remap c' s1 = Some (Inr s2) \<and>
    reg (c_rd c') s2 = rotated (reg (c_rn c) s + c_imm c) (reg (c_rd c) s) \<and>
    (\<forall>r < 15. r \<noteq> c_rd c' \<longrightarrow> reg r s2 = reg r s) \<and> reg 15 s2 = reg 15 s + 2 * IBITS s \<and> cpsr_of s2 = cpsr_of s"
proof -
  have r: "c_rd c < 16" "c_rn c < 16" "c_rd c' < 16" "c_rd c \<noteq> 15" "c_rn c \<noteq> 15" "c_rd c' \<noteq> 15"
    using assms(8,9,10) by (auto simp: word_less_nat_alt)
  have lt: "r < 16" "r \<noteq> 15" if "r < 15" for r :: u32
    using that by (auto simp: word_less_nat_alt)
  show ?thesis
    using assms r
    by (auto simp: hl_call_calc hl_step_def hl_STR_IP_def hl_LDR_IP_def break_pc_def ADDR_IP_def Let_def load_to_def
        store_plain words_same lt)
qed

lemma rotr_zero: "word_rotr 0 (v :: u32) = v"
  by (rule bit_word_eqI) (simp add: bit_word_rotr_iff)

lemma hl_store_then_load_witness:
  "\<exists>s1 s2. hl_call no_handlers (\<lambda>_ _. Inr) (sample_dctx\<lparr>c_instruction := STR_IP, c_rd := 1, c_rn := 2, c_imm := 0x204, c_flags := 2\<rparr>)
       (put_reg 1 9 hlc0) = Some (Inr s1) \<and>
     hl_call no_handlers (\<lambda>_ _. Inr) (sample_dctx\<lparr>c_instruction := LDR_IP, c_rd := 3, c_rn := 2, c_imm := 0x204, c_flags := 2\<rparr>) s1 =
       Some (Inr s2) \<and> reg 3 s2 = 9"
proof -
  have w: "hl_wf (put_reg 1 9 hlc0)" by (simp add: hlc0_wf(1))
  have m: "plain_page (hmem (put_reg 1 9 hlc0)) a" for a
    using plain_mem0 [of a] by (simp add: hlc0_def)
  show ?thesis
    using hl_store_then_load [of "sample_dctx\<lparr>c_instruction := STR_IP, c_rd := 1, c_rn := 2, c_imm := 0x204, c_flags := 2\<rparr>"
        "sample_dctx\<lparr>c_instruction := LDR_IP, c_rd := 3, c_rn := 2, c_imm := 0x204, c_flags := 2\<rparr>", OF _ _ _ _ _ _ w _ _ _ m,
        of no_handlers "\<lambda>_ _. Inr"]
    by (auto simp: rotated_def hlc0_wf rotr_zero)
qed

end
