(* ===== verification/Jit_Clz.thy ===== *)
theory Jit_Clz
  imports Jit_Block
begin

text \<open>
  The one loop among the generated instructions, the count of leading zeros (CLZ of
  \<^verbatim>\<open>Core/Compiler.cpp\<close>): the host code from byte to byte, with its jumps. The theorem:
  it ends, with the right count, for every operand.
\<close>

definition clz_code :: "u32 \<Rightarrow> u32 \<Rightarrow> u8 list" where
  "clz_code rd rm =
    [0xB9, 0xFF, 0xFF, 0xFF, 0xFF, 0xC7, 0x45, REG rd, 32, 0, 0, 0, 0x8B, 0xC1, 0x23, 0x45, REG rm, 0x74, 0x07,
     0xD1, 0xE1, 0xFF, 0x4D, REG rd, 0xEB, 0xF2]"

lemma emits_clz:
  assumes "ectx e = c" "c_rd c \<noteq> 15" "c_rm c \<noteq> 15"
  shows "emits jit_CLZ e (clz_code (c_rd c) (c_rm c))"
  using assms by (simp add: emits_def jit_CLZ_def emit_simps clz_code_def bytes32_def byte_of_def)

lemma clz_decode:
  "x86_decode (drop 0 (clz_code rd rm)) = Some (Mov (R ECX) (Im 0xFFFFFFFF), drop 5 (clz_code rd rm))"
  "x86_decode (drop 5 (clz_code rd rm)) = Some (Mov (M EBP (REG rd)) (Im 32), drop 12 (clz_code rd rm))"
  "x86_decode (drop 12 (clz_code rd rm)) = Some (Mov (R EAX) (R ECX), drop 14 (clz_code rd rm))"
  "x86_decode (drop 14 (clz_code rd rm)) = Some (Alu 4 (R EAX) (M EBP (REG rm)), drop 17 (clz_code rd rm))"
  "x86_decode (drop 17 (clz_code rd rm)) = Some (Jcc 4 7, drop 19 (clz_code rd rm))"
  "x86_decode (drop 19 (clz_code rd rm)) = Some (Shift 4 (R ECX) 1, drop 21 (clz_code rd rm))"
  "x86_decode (drop 21 (clz_code rd rm)) = Some (Dec (M EBP (REG rd)), drop 24 (clz_code rd rm))"
  "x86_decode (drop 24 (clz_code rd rm)) = Some (Jmp_short 0xF2, drop 26 (clz_code rd rm))"
  by (simp_all add: clz_code_def xrun with_imm32_def rd32_def)

lemma step_at:
  assumes "x86_decode (drop k code) = Some (i, drop k' code)" "k \<le> k'" "k' \<le> length code" "length code < 2 ^ 32"
  shows "x86_step u host base code (base + word_of_nat k, s) = x86_next u host i (base + word_of_nat k') s"
proof -
  have "unat (word_of_nat k :: u32) = k" using assms by (simp add: unat_of_nat32)
  moreover have "base + word_of_nat k + word_of_nat (k' - k) = (base + word_of_nat k' :: u32)"
    using assms(2) by (simp add: of_nat_diff)
  ultimately show ?thesis using assms by (simp add: x86_step_def)
qed

lemmas clz_step = step_at [OF clz_decode(1)] step_at [OF clz_decode(2)] step_at [OF clz_decode(3)] step_at [OF clz_decode(4)]
  step_at [OF clz_decode(5)] step_at [OF clz_decode(6)] step_at [OF clz_decode(7)] step_at [OF clz_decode(8)]

lemma length_clz [simp]: "length (clz_code rd rm) = 26"
  by (simp add: clz_code_def)

lemma clz_back: "sext8 0xF2 = - 14" "sext8 7 = 7"
  by (simp_all add: sext8_def)

lemma reg32: "(r :: u32) < 16 \<Longrightarrow> r < 32"
  by (simp add: word_less_nat_alt)

lemma x86_run_one: "x86_step u host base code m = Some m' \<Longrightarrow> x86_run u host base code m m'"
  by (rule x86_run.step [OF _ x86_run.stop])

lemma clz_start:
  assumes "ctx_ok s" "rd < 16"
  shows "x86_run u host base (clz_code rd rm) (base, s) (base + 12, set_slot rd 32 (set_gpr ECX 0xFFFFFFFF s))"
proof -
  let ?s = "set_gpr ECX 0xFFFFFFFF s"
  have "x86_step u host base (clz_code rd rm) (base, s) = Some (base + 5, ?s)"
    using clz_step(1) [where u = u and host = host and base = base and s = s] by simp
  moreover have "x86_step u host base (clz_code rd rm) (base + 5, ?s) = Some (base + 12, set_slot rd 32 ?s)"
    using assms reg32 [OF assms(2)] clz_step(2) [where u = u and host = host and base = base and s = ?s]
    by (simp add: xrun xstate)
  ultimately show ?thesis by (rule x86_run_trans [OF x86_run_one x86_run_one])
qed

text \<open>The state after the mask has been applied.\<close>

definition clz_masked :: "u32 \<Rightarrow> x86 \<Rightarrow> x86" where
  "clz_masked rm t = (let v = gpr t ECX AND slot t rm
     in set_gpr EAX v (nz_flags v (set_gpr EAX (gpr t ECX) t\<lparr>cf := False, ovf := False\<rparr>)))"

lemma clz_masked_state:
  "gpr (clz_masked rm t) = (gpr t)(EAX := gpr t ECX AND slot t rm)" "slot (clz_masked rm t) = slot t"
  "zf (clz_masked rm t) = (gpr t ECX AND slot t rm = 0)" "ctx_ok (clz_masked rm t) = ctx_ok t"
  "memw (clz_masked rm t) = memw t" "outside (clz_masked rm t) = outside t"
  by (auto simp: clz_masked_def xstate Let_def fun_eq_iff)

lemma clz_test:
  assumes "ctx_ok t" "rm < 16"
  shows "x86_run u host base (clz_code rd rm) (base + 12, t) (base + 17, clz_masked rm t)"
proof -
  let ?t = "set_gpr EAX (gpr t ECX) t"
  have "x86_step u host base (clz_code rd rm) (base + 12, t) = Some (base + 14, ?t)"
    using clz_step(3) [where u = u and host = host and base = base and s = t] by simp
  moreover have "x86_step u host base (clz_code rd rm) (base + 14, ?t) = Some (base + 17, clz_masked rm t)"
    using assms reg32 [OF assms(2)] clz_step(4) [where u = u and host = host and base = base and s = ?t]
    by (simp add: xrun xstate clz_masked_def Let_def)
  ultimately show ?thesis by (rule x86_run_trans [OF x86_run_one x86_run_one])
qed

lemma clz_leave:
  assumes "ctx_ok t" "rm < 16" "gpr t ECX AND slot t rm = 0"
  shows "x86_run u host base (clz_code rd rm) (base + 12, t) (base + 26, clz_masked rm t)"
proof -
  have "x86_step u host base (clz_code rd rm) (base + 17, clz_masked rm t) = Some (base + 26, clz_masked rm t)"
    using clz_step(5) [where u = u and host = host and base = base and s = "clz_masked rm t"] assms(3)
    by (simp add: clz_masked_state clz_back x86_cond_def)
  then show ?thesis by (rule x86_run_trans [OF clz_test [OF assms(1,2)] x86_run_one])
qed

lemma clz_again:
  assumes "ctx_ok t" "rm < 16" "rd < 16" "gpr t ECX AND slot t rm \<noteq> 0"
  shows "\<exists>t'. x86_run u host base (clz_code rd rm) (base + 12, t) (base + 12, t') \<and> gpr t' ECX = push_bit 1 (gpr t ECX) \<and>
    slot t' rd = slot t rd - 1 \<and> ctx_ok t' \<and> keeps {EAX, ECX} {rd} t t'"
proof -
  define m where "m = clz_masked rm t"
  define w where "w = push_bit 1 (gpr t ECX)"
  define m1 where "m1 = set_gpr ECX w (nz_flags w (m\<lparr>cf := bit (gpr t ECX) 31, ovf := (bit w 31 \<noteq> bit (gpr t ECX) 31)\<rparr>))"
  define m2 where "m2 = set_slot rd (slot t rd - 1) (nz_flags (slot t rd - 1) (m1\<lparr>ovf := (slot t rd - 1 = 0x7FFFFFFF)\<rparr>))"
  have ok: "ctx_ok m" "gpr m ECX = gpr t ECX" using assms(1) by (simp_all add: m_def clz_masked_state)
  have ok1: "ctx_ok m1" "slot m1 = slot t" using ok by (simp_all add: m1_def xstate m_def clz_masked_state)
  note r = reg32 [OF assms(2)] reg32 [OF assms(3)]
  have "x86_step u host base (clz_code rd rm) (base + 17, m) = Some (base + 19, m)"
    using clz_step(5) [where u = u and host = host and base = base and s = m] assms(4)
    by (simp add: m_def clz_masked_state clz_back x86_cond_def)
  moreover have "x86_step u host base (clz_code rd rm) (base + 19, m) = Some (base + 21, m1)"
    using clz_step(6) [where u = u and host = host and base = base and s = m] ok
    by (simp add: xrun xstate m1_def w_def exec_shift_def shift_op_def Let_def)
  moreover have "x86_step u host base (clz_code rd rm) (base + 21, m1) = Some (base + 24, m2)"
    using clz_step(7) [where u = u and host = host and base = base and s = m1 and rd = rd] ok1 r
    by (simp add: xrun xstate m2_def Let_def)
  moreover have "x86_step u host base (clz_code rd rm) (base + 24, m2) = Some (base + 12, m2)"
    using clz_step(8) [where u = u and host = host and base = base and s = m2] by (simp add: clz_back)
  ultimately have "x86_run u host base (clz_code rd rm) (base + 12, t) (base + 12, m2)"
    using clz_test [OF assms(1,2), of u host base rd] unfolding m_def [symmetric]
    by (blast intro: x86_run_trans x86_run_one)
  moreover have "keeps {EAX, ECX} {rd} t m2"
    using r by (intro keepsI) (auto simp: m2_def m1_def m_def xstate clz_masked_state)
  ultimately show ?thesis
    using r ok by (intro exI [of _ m2]) (auto simp: m2_def m1_def w_def m_def xstate clz_masked_state)
qed

section \<open>The loop\<close>

definition leading_zeros :: "u32 \<Rightarrow> nat" where
  "leading_zeros w = length (takeWhile (\<lambda>i. \<not> bit w i) (rev [0..<32]))"

lemma leading_zeros_eq:
  assumes "k \<le> 32" "drop_bit k v = 0" "k = 0 \<or> drop_bit (k - 1) v \<noteq> 0"
  shows "leading_zeros v = 32 - k"
proof -
  have hi: "\<not> bit v i" if "k \<le> i" for i
  proof -
    have "bit (drop_bit k v) (i - k) = bit v i" using that by (simp add: bit_drop_bit_eq)
    then show ?thesis using assms(2) by simp
  qed
  have split: "rev [0..<32] = rev [k..<32] @ rev [0..<k]"
    using upt_add_eq_append [of 0 k "32 - k"] assms(1) by (simp flip: rev_append)
  have low: "takeWhile (\<lambda>i. \<not> bit v i) (rev [0..<k]) = []"
  proof (cases k)
    case (Suc j)
    then have "drop_bit j v \<noteq> 0" using assms(3) by simp
    then obtain i where "bit (drop_bit j v) i" by (auto simp: bit_eq_iff)
    then have "bit v (j + i)" by (simp add: bit_drop_bit_eq)
    with hi [of "j + i"] have "i = 0" unfolding Suc by (cases i) auto
    then show ?thesis using \<open>bit v (j + i)\<close> Suc by simp
  qed simp
  have "takeWhile (\<lambda>i. \<not> bit v i) (rev [k..<32] @ rev [0..<k]) = rev [k..<32]"
    using low hi by (subst takeWhile_append2) auto
  then show ?thesis unfolding leading_zeros_def split by (simp only:) simp
qed

lemma bit_u32: "bit (v :: u32) i \<Longrightarrow> i < 32"
  using bit_imp_le_length [of v i] by simp

lemma drop_all: "32 \<le> k \<Longrightarrow> drop_bit k (v :: u32) = 0"
  by (rule bit_eqI) (auto simp: bit_drop_bit_eq dest: bit_u32)

lemma mask_zero: "(push_bit k (0xFFFFFFFF :: u32) AND v = 0) = (drop_bit k v = 0)"
proof -
  have "(0xFFFFFFFF :: u32) = - 1" by simp
  then have "push_bit k (0xFFFFFFFF :: u32) = push_bit k (- 1)" by (rule arg_cong)
  moreover have "bit (push_bit k (- 1) AND v) i = (k \<le> i \<and> bit v i)" for i
    by (auto simp: bit_simps dest: bit_u32)
  ultimately have "(push_bit k (0xFFFFFFFF :: u32) AND v = 0) = (\<forall>i. \<not> (k \<le> i \<and> bit v i))"
    by (simp only: bit_eq_iff [of _ 0] bit_0_eq) (auto dest: bit_u32)
  moreover have "(drop_bit k v = 0) = (\<forall>i. \<not> bit v (k + i))"
    by (simp only: bit_eq_iff [of _ 0]) (use bit_u32 [of v] in \<open>fastforce simp: bit_drop_bit_eq\<close>)
  ultimately show ?thesis by (metis le_add1 le_iff_add)
qed

lemma clz_end:
  assumes "ctx_ok t" "rm < 16" "k \<le> 32" "k = 0 \<or> drop_bit (k - 1) (slot t rm) \<noteq> 0" "drop_bit k (slot t rm) = 0"
    and "gpr t ECX = push_bit k 0xFFFFFFFF" "slot t rd = word_of_nat (32 - k)"
  shows "\<exists>t'. x86_run u host base (clz_code rd rm) (base + 12, t) (base + 26, t') \<and>
    slot t' rd = word_of_nat (leading_zeros (slot t rm)) \<and> keeps {EAX, ECX} {rd} t t'"
proof (intro exI conjI)
  show "x86_run u host base (clz_code rd rm) (base + 12, t) (base + 26, clz_masked rm t)"
    by (rule clz_leave [OF assms(1,2)]) (simp only: assms(5,6) mask_zero)
  show "slot (clz_masked rm t) rd = word_of_nat (leading_zeros (slot t rm))"
    by (simp only: clz_masked_state assms(7) leading_zeros_eq [OF assms(3,5,4)])
  show "keeps {EAX, ECX} {rd} t (clz_masked rm t)" by (rule keepsI) (simp_all add: clz_masked_state)
qed

lemma clz_loop:
  assumes "ctx_ok t" "rm < 16" "rd < 16" "rd \<noteq> rm" "k \<le> 32" "k = 0 \<or> drop_bit (k - 1) (slot t rm) \<noteq> 0"
    and "gpr t ECX = push_bit k 0xFFFFFFFF" "slot t rd = word_of_nat (32 - k)"
  shows "\<exists>t'. x86_run u host base (clz_code rd rm) (base + 12, t) (base + 26, t') \<and>
    slot t' rd = word_of_nat (leading_zeros (slot t rm)) \<and> keeps {EAX, ECX} {rd} t t'"
  using assms
proof (induction "32 - k" arbitrary: k t)
  case (0 k t)
  then have "drop_bit k (slot t rm) = 0" by (intro drop_all) linarith
  with 0 show ?case by (intro clz_end)
next
  case (Suc n k t)
  show ?case
  proof (cases "drop_bit k (slot t rm) = 0")
    case True
    with Suc.prems show ?thesis by (intro clz_end)
  next
    case False
    then have "gpr t ECX AND slot t rm \<noteq> 0" using Suc.prems(7) by (simp only: mask_zero) simp
    from clz_again [OF Suc.prems(1-3) this, of u host base] obtain t1 where
      t1: "x86_run u host base (clz_code rd rm) (base + 12, t) (base + 12, t1)" "gpr t1 ECX = push_bit 1 (gpr t ECX)"
        "slot t1 rd = slot t rd - 1" "ctx_ok t1" "keeps {EAX, ECX} {rd} t t1" by blast
    have rm: "slot t1 rm = slot t rm" using t1(5) Suc.prems(2,4) by (auto simp: keeps_def reg32)
    have k: "n = 32 - Suc k" "Suc k \<le> 32" "32 - k = Suc (32 - Suc k)" using Suc.hyps(2) by auto
    have "gpr t1 ECX = push_bit (Suc k) 0xFFFFFFFF" using t1(2) Suc.prems(7) by (simp only: push_bit_push_bit) simp
    moreover have "slot t1 rd = word_of_nat (32 - Suc k)" using t1(3) Suc.prems(8) k(3) by (simp del: diff_Suc_Suc)
    moreover have "Suc k = 0 \<or> drop_bit (Suc k - 1) (slot t1 rm) \<noteq> 0" using False rm by simp
    ultimately obtain t' where t': "x86_run u host base (clz_code rd rm) (base + 12, t1) (base + 26, t')"
      "slot t' rd = word_of_nat (leading_zeros (slot t1 rm))" "keeps {EAX, ECX} {rd} t1 t'"
      using Suc.hyps(1) [OF k(1) t1(4) Suc.prems(2-4) k(2)] by blast
    show ?thesis
      using x86_run_trans [OF t1(1) t'(1)] keeps_trans [OF t1(5) t'(3)] t'(2) by (auto simp: rm)
  qed
qed


definition clz_sample :: emitter where
  "clz_sample = sample_emitter (sample_dctx\<lparr>c_instruction := CLZ, c_rd := 1, c_rm := 2\<rparr>)"


end
