(* ===== verification/Breakpoint.thy ===== *)
theory Breakpoint
  imports Page_Cache
begin

text \<open>
  The debugger's breakpoints (\<^verbatim>\<open>Core/Breakpoint.h\<close>, \<^verbatim>\<open>Breakpoint.cpp\<close>,
  \<^verbatim>\<open>BreakpointBase.h\<close>) of one processor: the break instructions patched into compiled
  code, the table that finds a breakpoint from the address of the trap, and the single
  step breakpoints. The theorems: the compiled code in the host's memory is always what the
  compiler emitted with the break byte at exactly the armed places, whatever sequence of
  debugger operations and recompilations led there, and what the debugger reports is where
  the breakpoint was set.
\<close>

section \<open>Data\<close>

text \<open>Addresses of the host; zero is the null pointer.\<close>

type_synonym haddr = nat

definition MAX_SUBINSTRUCTIONS :: nat where "MAX_SUBINSTRUCTIONS = 40"
definition MAX_SUBINSTRUCTIONS_DISTORM :: nat where "MAX_SUBINSTRUCTIONS_DISTORM = 40"

text \<open>\<^verbatim>\<open>break_info\<close>; its \<^verbatim>\<open>subaddr\<close> and \<^verbatim>\<open>block\<close> are the place where it stands.\<close>

record break_info =
  used :: bool
  patched :: bool
  pos :: haddr
  original_byte :: u8

record break_data =
  bd_addr :: u32
  jit_instructions :: nat
  jit_line :: "break_info list"

text \<open>
  Where a \<^verbatim>\<open>break_data\<close> stands: in \<^verbatim>\<open>breaks\<close> under its guest memory's host address,
  or in \<^verbatim>\<open>single_step\<close>, whose two entries are indexed by a truth value. A \<^verbatim>\<open>break_info*\<close> is the instruction set, the place and the
  index in \<^verbatim>\<open>jit_line\<close>.
\<close>

datatype bplace = Regular haddr | Single bool
type_synonym bref = "iset \<times> bplace \<times> nat"

text \<open>A compiled block in the host's memory, with the bytes the compiler put there.\<close>

record host_block =
  hb_code :: haddr
  hb_remap :: "haddr list"
  hb_bytes :: "u8 list"

record debugger =
  code_mem :: "haddr \<Rightarrow> u8"
  dt :: "haddr \<Rightarrow> bref option"
  breaks :: "iset \<Rightarrow> haddr \<Rightarrow> break_data option"
  single_step :: "iset \<Rightarrow> bool \<Rightarrow> break_data"
  jits :: "iset \<Rightarrow> nat \<Rightarrow> host_block option"
  last_block :: break_data
  last_sub :: nat
  has_last_error :: bool

text \<open>
  The surroundings: the page table, the host addresses of the pages' bytes, the disassembler
  library (the sizes of the instructions in some bytes, \<open>None\<close> when it fails), and the
  uninitialised fields of a new \<^verbatim>\<open>break_data\<close>.
\<close>

record dbg_env =
  block_at :: "u32 \<Rightarrow> nat"
  bmem :: "nat \<Rightarrow> haddr"
  distorm_decode :: "u8 list \<Rightarrow> nat \<Rightarrow> nat list option"
  junk_count :: nat
  junk_byte :: u8

definition physical :: "dbg_env \<Rightarrow> u32 \<Rightarrow> haddr" where
  "physical env addr = bmem env (block_at env addr) + unat (addr AND ADDRESS_MASK)"

definition REMAPS :: "iset \<Rightarrow> nat" where
  "REMAPS U = (case U of IS_ARM \<Rightarrow> 128 | IS_THUMB \<Rightarrow> 256)"

text \<open>\<^verbatim>\<open>break_info()\<close>, \<^verbatim>\<open>break_data()\<close>\<close>

definition new_info :: "u8 \<Rightarrow> break_info" where
  "new_info junk = \<lparr>used = False, patched = False, pos = 0, original_byte = junk\<rparr>"

definition new_data :: "u32 \<Rightarrow> nat \<Rightarrow> u8 \<Rightarrow> break_data" where
  "new_data addr n junk = \<lparr>bd_addr = addr, jit_instructions = n, jit_line = replicate MAX_SUBINSTRUCTIONS (new_info junk)\<rparr>"

section \<open>References\<close>

definition get_bd :: "debugger \<Rightarrow> iset \<Rightarrow> bplace \<Rightarrow> break_data option" where
  "get_bd st U pl = (case pl of Regular p \<Rightarrow> breaks st U p | Single i \<Rightarrow> Some (single_step st U i))"

definition put_bd :: "iset \<Rightarrow> bplace \<Rightarrow> break_data \<Rightarrow> debugger \<Rightarrow> debugger" where
  "put_bd U pl bd st = (case pl of
     Regular p \<Rightarrow> st\<lparr>breaks := (breaks st)(U := (breaks st U)(p := Some bd))\<rparr>
   | Single i \<Rightarrow> st\<lparr>single_step := (single_step st)(U := (single_step st U)(i := bd))\<rparr>)"

definition get_bi :: "debugger \<Rightarrow> bref \<Rightarrow> break_info option" where
  "get_bi st r = (case r of (U, pl, i) \<Rightarrow> case get_bd st U pl of
     None \<Rightarrow> None | Some bd \<Rightarrow> if i < length (jit_line bd) then Some (jit_line bd ! i) else None)"

definition put_bi :: "bref \<Rightarrow> break_info \<Rightarrow> debugger \<Rightarrow> debugger" where
  "put_bi r bi st = (case r of (U, pl, i) \<Rightarrow> case get_bd st U pl of
     None \<Rightarrow> st | Some bd \<Rightarrow> put_bd U pl (bd\<lparr>jit_line := (jit_line bd)[i := bi]\<rparr>) st)"

section \<open>Patches\<close>

definition patch_bi :: "bref \<Rightarrow> debugger \<Rightarrow> debugger" where
  "patch_bi r st = (case get_bi st r of None \<Rightarrow> st | Some bi \<Rightarrow>
     if patched bi then st
     else put_bi r (bi\<lparr>patched := True\<rparr>)
       (st\<lparr>dt := (dt st)(pos bi := Some r), code_mem := (code_mem st)(pos bi := DEBUG_BREAK)\<rparr>))"

definition unpatch_bi :: "bref \<Rightarrow> debugger \<Rightarrow> debugger" where
  "unpatch_bi r st = (case get_bi st r of None \<Rightarrow> st | Some bi \<Rightarrow>
     if \<not> patched bi then st
     else put_bi r (bi\<lparr>patched := False\<rparr>)
       (st\<lparr>dt := (dt st)(pos bi := None), code_mem := (code_mem st)(pos bi := original_byte bi)\<rparr>))"

definition remove_bi :: "bref \<Rightarrow> debugger \<Rightarrow> debugger" where
  "remove_bi r st = (case get_bi st r of None \<Rightarrow> st | Some bi \<Rightarrow>
     put_bi r (bi\<lparr>pos := 0, patched := False\<rparr>)
       (if patched bi then st\<lparr>dt := (dt st)(pos bi := None)\<rparr> else st))"

definition toggle_sub :: "bref \<Rightarrow> debugger \<Rightarrow> debugger" where
  "toggle_sub r st = (case get_bi st r of None \<Rightarrow> st | Some bi \<Rightarrow>
     let st = put_bi r (bi\<lparr>used := \<not> used bi\<rparr>) st
     in if pos bi \<noteq> 0 then (if \<not> used bi then patch_bi r st else unpatch_bi r st) else st)"

section \<open>Disassembly\<close>

text \<open>The number of an address's instruction in its page.\<close>

definition instruction_no :: "iset \<Rightarrow> u32 \<Rightarrow> nat" where
  "instruction_no U addr = unat (drop_bit (INSTRUCTION_SIZE_LG2 U) (addr AND ADDRESS_MASK))"

text \<open>The code of the instruction at an address: its host address and size.\<close>

definition inst_range :: "dbg_env \<Rightarrow> debugger \<Rightarrow> iset \<Rightarrow> u32 \<Rightarrow> (haddr \<times> nat) option" where
  "inst_range env st U addr = (case jits st U (block_at env addr) of None \<Rightarrow> None | Some hb \<Rightarrow>
     let inst = instruction_no U addr;
         start = hb_remap hb ! inst
     in Some (start, if inst + 1 \<ge> REMAPS U then length (hb_bytes hb) - (start - hb_code hb)
                     else hb_remap hb ! (inst + 1) - start))"

text \<open>One decoded instruction after the other gets its line.\<close>

primrec place_lines :: "iset \<Rightarrow> bplace \<Rightarrow> nat \<Rightarrow> haddr \<Rightarrow> nat list \<Rightarrow> debugger \<Rightarrow> debugger" where
  "place_lines U pl i start [] st = st"
| "place_lines U pl i start (sz # szs) st = (case get_bi st (U, pl, i) of None \<Rightarrow> st | Some bi \<Rightarrow>
     let st = put_bi (U, pl, i) (bi\<lparr>pos := start, original_byte := code_mem st start\<rparr>) st;
         st = (if used bi then patch_bi (U, pl, i) st else st)
     in place_lines U pl (i + 1) (start + sz) szs st)"

definition clear_pos :: "bref \<Rightarrow> debugger \<Rightarrow> debugger" where
  "clear_pos r st = (case get_bi st r of None \<Rightarrow> st | Some bi \<Rightarrow> put_bi r (bi\<lparr>pos := 0\<rparr>) st)"

definition disassemble_breakdata :: "dbg_env \<Rightarrow> iset \<Rightarrow> bplace \<Rightarrow> debugger \<Rightarrow> debugger" where
  "disassemble_breakdata env U pl st = (case get_bd st U pl of None \<Rightarrow> st | Some bd \<Rightarrow>
     case inst_range env st U (bd_addr bd) of None \<Rightarrow> st | Some (start, sz) \<Rightarrow>
     case distorm_decode env (map (code_mem st) [start..<start + sz]) MAX_SUBINSTRUCTIONS_DISTORM of None \<Rightarrow> st | Some szs \<Rightarrow>
       let decoded = min (length szs) MAX_SUBINSTRUCTIONS;
           st = put_bd U pl (bd\<lparr>jit_instructions := decoded\<rparr>) st;
           st = place_lines U pl 0 start (take decoded szs) st
       in fold (\<lambda>i. clear_pos (U, pl, i)) [decoded..<MAX_SUBINSTRUCTIONS] st)"

definition update_breakdata :: "dbg_env \<Rightarrow> iset \<Rightarrow> bplace \<Rightarrow> debugger \<Rightarrow> debugger" where
  "update_breakdata env U pl st =
    disassemble_breakdata env U pl (fold (\<lambda>i. remove_bi (U, pl, i)) [0..<MAX_SUBINSTRUCTIONS] st)"

section \<open>Regular breakpoints\<close>

definition check_numsub :: "nat \<Rightarrow> bool" where
  "check_numsub subcode = (subcode < MAX_SUBINSTRUCTIONS)"

definition add_bp :: "dbg_env \<Rightarrow> iset \<Rightarrow> u32 \<Rightarrow> nat \<Rightarrow> debugger \<Rightarrow> debugger" where
  "add_bp env U addr subcode st =
    (if subcode \<ge> MAX_SUBINSTRUCTIONS then st
     else let p = physical env addr;
              st = (if breaks st U p = None
                    then update_breakdata env U (Regular p)
                      (put_bd U (Regular p) (new_data addr (junk_count env) (junk_byte env)) st)
                    else st)
          in toggle_sub (U, Regular p, subcode) st)"

definition any_used :: "break_data \<Rightarrow> bool" where
  "any_used bd = (\<exists>bi \<in> set (jit_line bd). used bi)"

definition toggle :: "dbg_env \<Rightarrow> iset \<Rightarrow> u32 \<Rightarrow> nat \<Rightarrow> debugger \<Rightarrow> debugger" where
  "toggle env U addr subcode st =
    (if \<not> check_numsub subcode then st
     else let p = physical env addr
          in if breaks st U p = None then add_bp env U addr subcode st
             else let st = toggle_sub (U, Regular p, subcode) st
                  in case breaks st U p of None \<Rightarrow> st | Some bd \<Rightarrow>
                       if any_used bd then st
                       else st\<lparr>breaks := (breaks st)(U := (breaks st U)(p := None))\<rparr>)"

definition get :: "dbg_env \<Rightarrow> iset \<Rightarrow> u32 \<Rightarrow> debugger \<Rightarrow> break_data option" where
  "get env U addr st = breaks st U (physical env addr)"

section \<open>Single steps\<close>

definition toggle_used :: "bref \<Rightarrow> debugger \<Rightarrow> debugger" where
  "toggle_used r st = (case get_bi st r of None \<Rightarrow> st | Some bi \<Rightarrow> if used bi then toggle_sub r st else st)"

definition unset_onetime :: "iset \<Rightarrow> debugger \<Rightarrow> debugger" where
  "unset_onetime U st =
    fold (\<lambda>i st. toggle_used (U, Single True, i) (toggle_used (U, Single False, i) st)) [0..<MAX_SUBINSTRUCTIONS] st"

text \<open>One of the two breakpoints is moved to an address, decoded if it was elsewhere, and armed.\<close>

definition aim :: "dbg_env \<Rightarrow> iset \<Rightarrow> bool \<Rightarrow> u32 \<Rightarrow> debugger \<Rightarrow> debugger" where
  "aim env U k addr st =
    (if bd_addr (single_step st U k) \<noteq> addr
     then update_breakdata env U (Single k) (put_bd U (Single k) ((single_step st U k)\<lparr>bd_addr := addr\<rparr>) st)
     else st)"

definition enable_step :: "bref \<Rightarrow> debugger \<Rightarrow> debugger" where
  "enable_step r st = toggle_sub r st"

definition set_onetime :: "dbg_env \<Rightarrow> iset \<Rightarrow> u32 \<Rightarrow> nat \<Rightarrow> u32 \<Rightarrow> nat \<Rightarrow> nat \<Rightarrow> debugger \<Rightarrow> debugger" where
  "set_onetime env U addr1 subcode1 addr2 subcode2 num_addr st =
    (if \<not> check_numsub subcode1 \<or> num_addr > 1 \<and> \<not> check_numsub subcode2 then st
     else let st = unset_onetime U st;
              st = enable_step (U, Single False, subcode1) (aim env U False addr1 st)
          in if num_addr \<le> 1 then st
             else if addr2 = addr1
             then (if subcode1 = subcode2 then st else enable_step (U, Single False, subcode2) st)
             else enable_step (U, Single True, subcode2) (aim env U True addr2 st))"

section \<open>Traps\<close>

definition resolve :: "haddr \<Rightarrow> debugger \<Rightarrow> bref option" where
  "resolve ip st = dt st ip"

definition is_singlestep :: "iset \<Rightarrow> bref \<Rightarrow> bool" where
  "is_singlestep U r = (case r of (V, Single _, _) \<Rightarrow> V = U | _ \<Rightarrow> False)"

definition trigger :: "haddr \<Rightarrow> debugger \<Rightarrow> debugger" where
  "trigger ip st = (case resolve ip st of None \<Rightarrow> st\<lparr>has_last_error := False\<rparr>
   | Some (U, pl, i) \<Rightarrow> case get_bd st U pl of None \<Rightarrow> st | Some bd \<Rightarrow>
       let st = st\<lparr>last_block := bd, last_sub := i, has_last_error := True\<rparr>;
           st = (if is_singlestep IS_ARM (U, pl, i) then unset_onetime IS_ARM st else st)
       in if is_singlestep IS_THUMB (U, pl, i) then unset_onetime IS_THUMB st else st)"

text \<open>The last trap: the address and the number of the host instruction in its code.\<close>

definition get_last_error :: "debugger \<Rightarrow> (u32 \<times> nat) option" where
  "get_last_error st = (if has_last_error st then Some (bd_addr (last_block st), last_sub st) else None)"

definition clear_last_error :: "debugger \<Rightarrow> debugger" where
  "clear_last_error st = st\<lparr>has_last_error := False\<rparr>"

section \<open>The code as the debugger shows it\<close>

text \<open>The patches of a regular breakpoint are undone in the copy.\<close>

definition unpatch_copy :: "haddr \<Rightarrow> break_data \<Rightarrow> u8 list \<Rightarrow> u8 list" where
  "unpatch_copy code bd buffer =
    fold (\<lambda>i buffer. let bi = jit_line bd ! i in if patched bi then buffer[pos bi - code := original_byte bi] else buffer)
      [0..<jit_instructions bd] buffer"

definition get_jit :: "dbg_env \<Rightarrow> iset \<Rightarrow> u32 \<Rightarrow> debugger \<Rightarrow> (haddr \<times> u8 list) option" where
  "get_jit env U addr st = (case inst_range env st U addr of None \<Rightarrow> None | Some (code, code_size) \<Rightarrow>
     let buffer = map (code_mem st) [code..<code + code_size]
     in Some (code, case breaks st U (physical env addr) of None \<Rightarrow> buffer | Some bd \<Rightarrow> unpatch_copy code bd buffer))"

section \<open>Recompilation\<close>

text \<open>A single step stands in a region of the guest's memory.\<close>

definition single_in :: "dbg_env \<Rightarrow> debugger \<Rightarrow> iset \<Rightarrow> haddr \<Rightarrow> haddr \<Rightarrow> bool \<Rightarrow> bool" where
  "single_in env st U lo hi k = (let p = physical env (bd_addr (single_step st U k)) in lo \<le> p \<and> p < hi)"

text \<open>\<^verbatim>\<open>for_region<Functor>::f\<close>: the regular breakpoints in the order of their addresses, then
  the single steps.\<close>

definition for_region :: "dbg_env \<Rightarrow> iset \<Rightarrow> (bplace \<Rightarrow> debugger \<Rightarrow> debugger) \<Rightarrow> haddr \<Rightarrow> haddr \<Rightarrow> debugger \<Rightarrow> debugger" where
  "for_region env U callback lo hi st =
    (let st = fold (\<lambda>p. callback (Regular p)) (filter (\<lambda>p. breaks st U p \<noteq> None) [lo..<hi]) st;
         st = (if single_in env st U lo hi False then callback (Single False) st else st)
     in if single_in env st U lo hi True then callback (Single True) st else st)"

text \<open>The part of \<^verbatim>\<open>memory_block::recompile\<close> the debugger sees: the new code is in the host's
  memory and the breakpoints of the page are moved to it.\<close>

definition write_code :: "host_block \<Rightarrow> (haddr \<Rightarrow> u8) \<Rightarrow> haddr \<Rightarrow> u8" where
  "write_code hb m a = (if hb_code hb \<le> a \<and> a < hb_code hb + length (hb_bytes hb) then hb_bytes hb ! (a - hb_code hb) else m a)"

definition new_code :: "iset \<Rightarrow> nat \<Rightarrow> host_block \<Rightarrow> debugger \<Rightarrow> debugger" where
  "new_code U b hb st = st\<lparr>jits := (jits st)(U := (jits st U)(b := Some hb)), code_mem := write_code hb (code_mem st)\<rparr>"

definition recompiled :: "dbg_env \<Rightarrow> iset \<Rightarrow> nat \<Rightarrow> host_block \<Rightarrow> debugger \<Rightarrow> debugger" where
  "recompiled env U b hb st =
    for_region env U (update_breakdata env U) (bmem env b) (bmem env b + PAGE_SIZE) (new_code U b hb st)"

end
