(* ===== verification/Break_Inv.thy ===== *)
theory Break_Inv
  imports Breakpoint
begin

text \<open>
  What the debugger keeps true of its table, of the patched code and of the breakpoints,
  and that the operations of \<^verbatim>\<open>Breakpoint\<close> keep it.
\<close>

named_theorems dbg \<open>the parts of the debugger's state after an update\<close>

section \<open>Updates of one breakpoint\<close>

lemma get_put_bd [dbg]: "get_bd (put_bd U pl bd st) V ql = (if V = U \<and> ql = pl then Some bd else get_bd st V ql)"
  by (auto simp: get_bd_def put_bd_def split: bplace.split)

lemma get_put_bi [dbg]: "get_bi (put_bi r bi st) q = (if q = r \<and> get_bi st r \<noteq> None then Some bi else get_bi st q)"
  by (cases r; cases q) (auto simp: get_bi_def put_bi_def get_put_bd split: option.split if_splits)

lemma put_bd_fields [dbg]:
  "dt (put_bd U pl bd st) = dt st" "code_mem (put_bd U pl bd st) = code_mem st" "jits (put_bd U pl bd st) = jits st"
  by (auto simp: put_bd_def split: bplace.split)

lemma put_bi_fields [dbg]:
  "dt (put_bi r bi st) = dt st" "code_mem (put_bi r bi st) = code_mem st" "jits (put_bi r bi st) = jits st"
  by (auto simp: put_bi_def put_bd_def split: prod.split option.split bplace.split)

lemma get_bi_frame [dbg]:
  "get_bi (st\<lparr>dt := d\<rparr>) r = get_bi st r" "get_bi (st\<lparr>code_mem := c\<rparr>) r = get_bi st r" "get_bi (st\<lparr>jits := j\<rparr>) r = get_bi st r"
  "get_bi (st\<lparr>last_block := lb\<rparr>) r = get_bi st r" "get_bi (st\<lparr>last_sub := n\<rparr>) r = get_bi st r" "get_bi (st\<lparr>has_last_error := e\<rparr>) r = get_bi st r"
  by (auto simp: get_bi_def get_bd_def split: prod.split bplace.split)

lemma get_bd_frame [dbg]:
  "get_bd (st\<lparr>dt := d\<rparr>) U pl = get_bd st U pl" "get_bd (st\<lparr>code_mem := c\<rparr>) U pl = get_bd st U pl"
  "get_bd (st\<lparr>jits := j\<rparr>) U pl = get_bd st U pl"
  "get_bd (st\<lparr>last_block := lb\<rparr>) U pl = get_bd st U pl" "get_bd (st\<lparr>last_sub := n\<rparr>) U pl = get_bd st U pl"
  "get_bd (st\<lparr>has_last_error := e\<rparr>) U pl = get_bd st U pl"
  by (auto simp: get_bd_def split: bplace.split)

text \<open>What the updates of single breakpoints leave alone: addresses, counts, lengths.\<close>

definition shape :: "break_data \<Rightarrow> u32 \<times> nat \<times> nat" where
  "shape bd = (bd_addr bd, jit_instructions bd, length (jit_line bd))"

definition same_shape :: "debugger \<Rightarrow> debugger \<Rightarrow> bool" where
  "same_shape st st' = (jits st' = jits st \<and> (\<forall>U pl. map_option shape (get_bd st' U pl) = map_option shape (get_bd st U pl)))"

lemma same_shape_refl [simp]: "same_shape st st"
  by (simp add: same_shape_def)

lemma same_shape_trans: "same_shape st st' \<Longrightarrow> same_shape st' st'' \<Longrightarrow> same_shape st st''"
  by (simp add: same_shape_def)

lemma same_shape_put: "same_shape st (put_bi r bi (st\<lparr>dt := d, code_mem := c\<rparr>))"
  by (cases r) (auto simp: same_shape_def put_bi_def dbg shape_def split: option.split)

lemma same_shape_puts [simp]:
  "same_shape st (put_bi r bi st)" "same_shape st (put_bi r bi (st\<lparr>dt := d\<rparr>))" "same_shape st (put_bi r bi (st\<lparr>code_mem := c\<rparr>))"
  using same_shape_put [where st = st and d = "dt st" and c = "code_mem st"] same_shape_put [where st = st and d = d and c = "code_mem st"]
    same_shape_put [where st = st and d = "dt st" and c = c] by simp_all

section \<open>The invariant\<close>

text \<open>The compiler put the byte \<open>v\<close> at \<open>a\<close>, in the code of page \<open>b\<close>.\<close>

definition emitted_at :: "debugger \<Rightarrow> iset \<Rightarrow> nat \<Rightarrow> haddr \<Rightarrow> u8 \<Rightarrow> bool" where
  "emitted_at st U b a v = (\<exists>hb k. jits st U b = Some hb \<and> k < length (hb_bytes hb) \<and> a = hb_code hb + k \<and> v = hb_bytes hb ! k)"

definition wf_block :: "iset \<Rightarrow> host_block \<Rightarrow> bool" where
  "wf_block U hb = (0 < hb_code hb \<and> length (hb_remap hb) = REMAPS U \<and> sorted (hb_remap hb) \<and>
     (\<forall>a \<in> set (hb_remap hb). hb_code hb \<le> a \<and> a \<le> hb_code hb + length (hb_bytes hb)))"

definition blocks_ok :: "debugger \<Rightarrow> bool" where
  "blocks_ok st = ((\<forall>U b hb. jits st U b = Some hb \<longrightarrow> wf_block U hb) \<and>
     (\<forall>U b V c a v w. emitted_at st U b a v \<longrightarrow> emitted_at st V c a w \<longrightarrow> V = U \<and> c = b))"

definition table_ok :: "debugger \<Rightarrow> bool" where
  "table_ok st = (\<forall>a r. dt st a = Some r \<longleftrightarrow> (\<exists>bi. get_bi st r = Some bi \<and> patched bi \<and> pos bi = a))"

definition code_ok :: "debugger \<Rightarrow> bool" where
  "code_ok st = (\<forall>U b a v. emitted_at st U b a v \<longrightarrow> code_mem st a = (if dt st a = None then v else DEBUG_BREAK))"

text \<open>The address is in the code of the breakpoint's instruction, and the compiler put \<open>v\<close> there.\<close>

definition stands :: "dbg_env \<Rightarrow> debugger \<Rightarrow> bref \<Rightarrow> haddr \<Rightarrow> u8 \<Rightarrow> bool" where
  "stands env st r a v = (case r of (U, pl, i) \<Rightarrow> \<exists>bd start sz. get_bd st U pl = Some bd \<and> i < jit_instructions bd \<and>
     inst_range env st U (bd_addr bd) = Some (start, sz) \<and> start \<le> a \<and> a < start + sz \<and>
     emitted_at st U (block_at env (bd_addr bd)) a v)"

text \<open>
  A breakpoint is armed in the code when it is set and its code exists, and then it remembers
  the byte the compiler put there. The breakpoints \<open>X\<close> are still those of deleted code.
\<close>

definition info_ok :: "dbg_env \<Rightarrow> bref set \<Rightarrow> debugger \<Rightarrow> bref \<Rightarrow> break_info \<Rightarrow> bool" where
  "info_ok env X st r bi =
    (if r \<in> X then patched bi \<longrightarrow> (\<forall>U b v. \<not> emitted_at st U b (pos bi) v)
     else (patched bi \<longleftrightarrow> used bi \<and> pos bi \<noteq> 0) \<and>
       (pos bi \<noteq> 0 \<longrightarrow> stands env st r (pos bi) (original_byte bi)))"

definition shapes_ok :: "dbg_env \<Rightarrow> debugger \<Rightarrow> bool" where
  "shapes_ok env st = ((\<forall>U pl bd. get_bd st U pl = Some bd \<longrightarrow> length (jit_line bd) = MAX_SUBINSTRUCTIONS) \<and>
     (\<forall>U p bd. get_bd st U (Regular p) = Some bd \<longrightarrow> physical env (bd_addr bd) = p))"

definition bp_inv :: "dbg_env \<Rightarrow> bref set \<Rightarrow> debugger \<Rightarrow> bool" where
  "bp_inv env X st = (blocks_ok st \<and> table_ok st \<and> code_ok st \<and> shapes_ok env st \<and>
     (\<forall>r bi. get_bi st r = Some bi \<longrightarrow> info_ok env X st r bi))"

lemma emitted_same: "same_shape st st' \<Longrightarrow> emitted_at st' = emitted_at st"
  by (simp add: same_shape_def emitted_at_def fun_eq_iff)

lemma inst_range_same: "same_shape st st' \<Longrightarrow> inst_range env st' = inst_range env st"
  by (simp add: same_shape_def inst_range_def fun_eq_iff)

lemma same_bd:
  assumes "same_shape st st'" "get_bd st U pl = Some bd"
  obtains bd' where "get_bd st' U pl = Some bd'" "bd_addr bd' = bd_addr bd" "jit_instructions bd' = jit_instructions bd"
    "length (jit_line bd') = length (jit_line bd)"
proof -
  have "map_option shape (get_bd st' U pl) = map_option shape (get_bd st U pl)" using assms(1) by (simp add: same_shape_def)
  then show ?thesis using that assms(2) by (auto simp: shape_def)
qed

lemma same_shape_sym: "same_shape st st' \<Longrightarrow> same_shape st' st"
  by (simp add: same_shape_def)

lemma stands_mono:
  assumes "same_shape st st'" "stands env st r a v"
  shows "stands env st' r a v"
proof -
  obtain U pl i where r: "r = (U, pl, i)" by (cases r)
  obtain bd start sz where bd: "get_bd st U pl = Some bd" "i < jit_instructions bd" "inst_range env st U (bd_addr bd) = Some (start, sz)"
    "start \<le> a" "a < start + sz" "emitted_at st U (block_at env (bd_addr bd)) a v"
    using assms(2) by (auto simp: stands_def r)
  obtain bd' where "get_bd st' U pl = Some bd'" "bd_addr bd' = bd_addr bd" "jit_instructions bd' = jit_instructions bd"
    using same_bd [OF assms(1) bd(1)] by metis
  then show ?thesis
    using bd by (simp add: stands_def r emitted_same [OF assms(1)] inst_range_same [OF assms(1)])
qed

lemma stands_same: "same_shape st st' \<Longrightarrow> stands env st' r a v = stands env st r a v"
  using stands_mono same_shape_sym by blast

lemma blocks_same: "same_shape st st' \<Longrightarrow> blocks_ok st' = blocks_ok st"
  by (simp add: blocks_ok_def emitted_same) (simp add: same_shape_def)

lemma shapes_same:
  assumes "same_shape st st'" "shapes_ok env st"
  shows "shapes_ok env st'"
proof -
  have "\<exists>bd0. get_bd st U pl = Some bd0 \<and> shape bd0 = shape bd" if "get_bd st' U pl = Some bd" for U pl bd
  proof -
    have "map_option shape (get_bd st' U pl) = map_option shape (get_bd st U pl)" using assms(1) by (simp add: same_shape_def)
    then show ?thesis using that by (cases "get_bd st U pl") auto
  qed
  then show ?thesis using assms(2) unfolding shapes_ok_def shape_def by fastforce
qed

lemma info_same: "same_shape st st' \<Longrightarrow> info_ok env X st' r bi = info_ok env X st r bi"
  by (simp only: info_ok_def emitted_same stands_same)

text \<open>One breakpoint changes, with the table and the code.\<close>

lemma inv_put:
  assumes "bp_inv env X st" "get_bi st r = Some bi"
    and "\<And>a q. d a = Some q \<longleftrightarrow> (if q = r then patched bi' \<and> pos bi' = a else dt st a = Some q)"
    and "\<And>U b a v. emitted_at st U b a v \<Longrightarrow> c a = (if d a = None then v else DEBUG_BREAK)"
    and "info_ok env X' st r bi'" "\<And>q. q \<noteq> r \<Longrightarrow> q \<in> X' \<longleftrightarrow> q \<in> X"
  shows "bp_inv env X' (put_bi r bi' (st\<lparr>dt := d, code_mem := c\<rparr>))" (is "bp_inv env X' ?st")
proof -
  note i = assms(1) [unfolded bp_inv_def]
  have s: "same_shape st ?st" by (rule same_shape_put)
  have g: "get_bi ?st q = (if q = r then Some bi' else get_bi st q)" for q using assms(2) by (simp add: dbg)
  have "table_ok ?st" unfolding table_ok_def g
    using i assms(3) by (auto simp: dbg table_ok_def)
  moreover have "code_ok ?st" using assms(4) by (simp add: code_ok_def emitted_same [OF s] dbg)
  moreover have "info_ok env X' ?st q qi" if "get_bi ?st q = Some qi" for q qi
  proof (cases "q = r")
    case False
    then have "info_ok env X st q qi" using that i unfolding g by (metis (full_types))
    then show ?thesis using assms(6) [OF False] unfolding info_same [OF s] by (simp add: info_ok_def)
  next
    case True
    have "info_ok env X' ?st r bi'" using assms(5) by (simp only: info_same [OF s])
    then show ?thesis using True that unfolding g by simp
  qed
  ultimately show ?thesis using i by (auto simp: bp_inv_def blocks_same [OF s] shapes_same [OF s])
qed

lemma inv_info: "bp_inv env X st \<Longrightarrow> get_bi st r = Some bi \<Longrightarrow> info_ok env X st r bi"
  and inv_table: "bp_inv env X st \<Longrightarrow> (dt st a = Some r) = (\<exists>bi. get_bi st r = Some bi \<and> patched bi \<and> pos bi = a)"
  and inv_code: "bp_inv env X st \<Longrightarrow> emitted_at st U b a v \<Longrightarrow> code_mem st a = (if dt st a = None then v else DEBUG_BREAK)"
  unfolding bp_inv_def table_ok_def code_ok_def by blast+

lemma emitted_fun: "emitted_at st U b a v \<Longrightarrow> emitted_at st U b a w \<Longrightarrow> w = v"
  by (auto simp: emitted_at_def)

lemma inv_emitted:
  assumes "bp_inv env X st" "emitted_at st U b a v" "emitted_at st V c a w"
  shows "w = v"
proof -
  have "V = U" "c = b" using assms unfolding bp_inv_def blocks_ok_def by blast+
  then show ?thesis using emitted_fun assms(2,3) by blast
qed

section \<open>Patching\<close>

lemma put_bi_frame:
  "(put_bi r bi st)\<lparr>dt := d, code_mem := c\<rparr> = put_bi r bi (st\<lparr>dt := d, code_mem := c\<rparr>)"
  by (auto simp: put_bi_def put_bd_def get_bd_def split: prod.split option.split bplace.split)

lemma put_put_bi: "put_bi r bi' (put_bi r bi st) = put_bi r bi' st"
  by (cases r) (auto simp: put_bi_def put_bd_def get_bd_def split: option.split bplace.split)

lemma toggle_sub_eq:
  assumes "get_bi st r = Some bi" "pos bi \<noteq> 0 \<longrightarrow> patched bi = used bi"
  shows "toggle_sub r st = (if pos bi = 0 then put_bi r (bi\<lparr>used := \<not> used bi\<rparr>) (st\<lparr>dt := dt st, code_mem := code_mem st\<rparr>)
    else if used bi then put_bi r (bi\<lparr>used := False, patched := False\<rparr>)
      (st\<lparr>dt := (dt st)(pos bi := None), code_mem := (code_mem st)(pos bi := original_byte bi)\<rparr>)
    else put_bi r (bi\<lparr>used := True, patched := True\<rparr>)
      (st\<lparr>dt := (dt st)(pos bi := Some r), code_mem := (code_mem st)(pos bi := DEBUG_BREAK)\<rparr>))"
  using assms
  by (auto simp: toggle_sub_def patch_bi_def unpatch_bi_def Let_def dbg put_bi_frame put_put_bi [of r _ _ "_\<lparr>dt := _, code_mem := _\<rparr>"])

text \<open>Arming or disarming a breakpoint of existing code, at a place no other one holds.\<close>

lemma inv_toggle_sub:
  assumes "bp_inv env {} st" "\<And>bi. get_bi st r = Some bi \<Longrightarrow> used bi \<or> dt st (pos bi) = None"
  shows "bp_inv env {} (toggle_sub r st) \<and> same_shape st (toggle_sub r st)"
proof (cases "get_bi st r")
  case (Some bi)
  note i = inv_info [OF assms(1) Some]
  have p: "pos bi \<noteq> 0 \<longrightarrow> patched bi = used bi" using i by (simp add: info_ok_def)
  note t = toggle_sub_eq [OF Some p] and tab = inv_table [OF assms(1)] and code = inv_code [OF assms(1)]
  have nr: "dt st a \<noteq> Some r" if "\<not> patched bi \<or> a \<noteq> pos bi" for a using that Some by (auto simp: tab)
  have v: "v = original_byte bi" if "pos bi \<noteq> 0" "emitted_at st V c (pos bi) v" for V c v
  proof -
    from i that(1) have "stands env st r (pos bi) (original_byte bi)" by (simp add: info_ok_def)
    then obtain U b where "emitted_at st U b (pos bi) (original_byte bi)" by (auto simp: stands_def)
    from inv_emitted [OF assms(1) this that(2)] show ?thesis .
  qed
  consider "pos bi = 0" | "pos bi \<noteq> 0" "used bi" | "pos bi \<noteq> 0" "\<not> used bi" by blast
  then have "bp_inv env {} (toggle_sub r st)"
  proof cases
    case 1
    have "bp_inv env {} (put_bi r (bi\<lparr>used := \<not> used bi\<rparr>) (st\<lparr>dt := dt st, code_mem := code_mem st\<rparr>))"
      using 1 i by (intro inv_put [OF assms(1) Some]) (auto simp: tab code Some info_ok_def)
    then show ?thesis using t 1 by simp
  next
    case 2
    have "dt st (pos bi) = Some r" using tab Some p 2 by blast
    then have "bp_inv env {} (put_bi r (bi\<lparr>used := False, patched := False\<rparr>)
        (st\<lparr>dt := (dt st)(pos bi := None), code_mem := (code_mem st)(pos bi := original_byte bi)\<rparr>))"
      using 2 i p nr v by (intro inv_put [OF assms(1) Some]) (auto simp: code info_ok_def)
    then show ?thesis using t 2 by simp
  next
    case 3
    have "dt st (pos bi) = None" using assms(2) Some 3 by blast
    then have "bp_inv env {} (put_bi r (bi\<lparr>used := True, patched := True\<rparr>)
        (st\<lparr>dt := (dt st)(pos bi := Some r), code_mem := (code_mem st)(pos bi := DEBUG_BREAK)\<rparr>))"
      using 3 i p nr by (intro inv_put [OF assms(1) Some]) (auto simp: code info_ok_def)
    then show ?thesis using t 3 by simp
  qed
  moreover have "same_shape st (toggle_sub r st)" unfolding t by (simp only: same_shape_put if_cancel split: if_split) simp
  ultimately show ?thesis ..
qed (simp add: toggle_sub_def assms(1))


section \<open>Moving breakpoints to new code\<close>

lemma remove_bi_eq:
  assumes "get_bi st r = Some bi"
  shows "remove_bi r st = put_bi r (bi\<lparr>pos := 0, patched := False\<rparr>)
    (st\<lparr>dt := (if patched bi then (dt st)(pos bi := None) else dt st), code_mem := code_mem st\<rparr>)"
  by (simp add: remove_bi_def assms)

lemma inv_remove:
  assumes "bp_inv env X st" "\<And>bi. get_bi st r = Some bi \<Longrightarrow> r \<in> X \<or> \<not> patched bi"
  shows "bp_inv env (X - {r}) (remove_bi r st) \<and> same_shape st (remove_bi r st) \<and>
    (\<forall>a. dt st a = None \<longrightarrow> dt (remove_bi r st) a = None) \<and>
    (\<forall>q. get_bi (remove_bi r st) q = (if q = r then map_option (\<lambda>bi. bi\<lparr>pos := 0, patched := False\<rparr>) (get_bi st r) else get_bi st q))"
proof (cases "get_bi st r")
  case None
  then have "remove_bi r st = st" by (simp add: remove_bi_def)
  moreover have "bp_inv env (X - {r}) st"
    using assms(1) None unfolding bp_inv_def by (metis (full_types) Diff_iff info_ok_def insertE option.discI singletonD)
  ultimately show ?thesis using None by auto
next
  case (Some bi)
  note tab = inv_table [OF assms(1)] and code = inv_code [OF assms(1)] and i = inv_info [OF assms(1) Some]
  have nr: "dt st a \<noteq> Some r" if "\<not> patched bi \<or> a \<noteq> pos bi" for a using that Some by (auto simp: tab)
  have yr: "dt st (pos bi) = Some r" if "patched bi" using that Some by (auto simp: tab)
  have "bp_inv env (X - {r}) (remove_bi r st)" unfolding remove_bi_eq [OF Some]
  proof (rule inv_put [OF assms(1) Some])
    show "info_ok env (X - {r}) st r (bi\<lparr>pos := 0, patched := False\<rparr>)" by (simp add: info_ok_def)
    fix U b a v assume "emitted_at st U b a v"
    moreover from this have "\<not> (patched bi \<and> a = pos bi)" using assms(2) [OF Some] i by (auto simp: info_ok_def)
    ultimately show "code_mem st a = (if (if patched bi then (dt st)(pos bi := None) else dt st) a = None then v else DEBUG_BREAK)"
      using code by auto
  qed (use nr yr in auto)
  then show ?thesis using Some by (auto simp: remove_bi_eq [OF Some] same_shape_put dbg)
qed

lemma inv_remove_all:
  assumes "bp_inv env X st" "\<And>i bi. i < n \<Longrightarrow> get_bi st (U, pl, i) = Some bi \<Longrightarrow> (U, pl, i) \<in> X \<or> \<not> patched bi"
  shows "bp_inv env (X - {(U, pl, i) | i. i < n}) (fold (\<lambda>i. remove_bi (U, pl, i)) [0..<n] st) \<and>
    same_shape st (fold (\<lambda>i. remove_bi (U, pl, i)) [0..<n] st) \<and>
    (\<forall>a. dt st a = None \<longrightarrow> dt (fold (\<lambda>i. remove_bi (U, pl, i)) [0..<n] st) a = None) \<and>
    (\<forall>q. get_bi (fold (\<lambda>i. remove_bi (U, pl, i)) [0..<n] st) q = (if q \<in> {(U, pl, i) | i. i < n}
       then map_option (\<lambda>bi. bi\<lparr>pos := 0, patched := False\<rparr>) (get_bi st q) else get_bi st q))"
  using assms(2)
proof (induction n)
  case (Suc n)
  let ?s = "fold (\<lambda>i. remove_bi (U, pl, i)) [0..<n] st"
  note ih = Suc.IH [OF Suc.prems, simplified]
  have "bp_inv env (X - {(U, pl, i) | i. i < n}) ?s" using ih by blast
  moreover have "(U, pl, n) \<in> X - {(U, pl, i) | i. i < n} \<or> \<not> patched bi" if "get_bi ?s (U, pl, n) = Some bi" for bi
    using that ih Suc.prems [of n bi] by auto
  ultimately have "bp_inv env (X - {(U, pl, i) | i. i < n} - {(U, pl, n)}) (remove_bi (U, pl, n) ?s) \<and>
    same_shape ?s (remove_bi (U, pl, n) ?s) \<and> (\<forall>a. dt ?s a = None \<longrightarrow> dt (remove_bi (U, pl, n) ?s) a = None) \<and>
    (\<forall>q. get_bi (remove_bi (U, pl, n) ?s) q =
      (if q = (U, pl, n) then map_option (\<lambda>bi. bi\<lparr>pos := 0, patched := False\<rparr>) (get_bi ?s (U, pl, n)) else get_bi ?s q))"
    by (rule inv_remove)
  moreover have "X - {(U, pl, i) | i. i < n} - {(U, pl, n)} = X - {(U, pl, i) | i. i < Suc n}" by (auto simp: less_Suc_eq)
  ultimately show ?case using ih same_shape_trans by (auto simp: less_Suc_eq)
qed (simp add: assms(1))


text \<open>The line of one decoded instruction.\<close>

definition set_line :: "bref \<Rightarrow> haddr \<Rightarrow> break_info \<Rightarrow> debugger \<Rightarrow> debugger" where
  "set_line r start bi st = put_bi r (bi\<lparr>pos := start, original_byte := code_mem st start, patched := used bi\<rparr>)
     (st\<lparr>dt := (if used bi then (dt st)(start := Some r) else dt st),
         code_mem := (if used bi then (code_mem st)(start := DEBUG_BREAK) else code_mem st)\<rparr>)"

lemma unpatched_update: "\<not> patched bi \<Longrightarrow> bi\<lparr>patched := False\<rparr> = bi"
  by (cases bi) simp

lemma place_lines_Cons:
  assumes "get_bi st (U, pl, i) = Some bi" "\<not> patched bi"
  shows "place_lines U pl i start (sz # szs) st = place_lines U pl (i + 1) (start + sz) szs (set_line (U, pl, i) start bi st)"
  using assms by (simp add: patch_bi_def set_line_def Let_def dbg put_bi_frame put_put_bi unpatched_update)

lemma inv_set_line:
  assumes "bp_inv env X st" "get_bi st r = Some bi" "\<not> patched bi" "r \<notin> X" "dt st start = None" "start \<noteq> 0"
    "stands env st r start (code_mem st start)"
  shows "bp_inv env X (set_line r start bi st)"
proof -
  note tab = inv_table [OF assms(1)] and code = inv_code [OF assms(1)]
  have nr: "dt st a \<noteq> Some r" for a using assms(2,3) by (auto simp: tab)
  show ?thesis unfolding set_line_def
    using assms(3-7) nr by (intro inv_put [OF assms(1,2)]) (auto simp: code info_ok_def)
qed

lemma inv_place_lines:
  assumes "bp_inv env X st" "\<And>j. (U, pl, j) \<notin> X" "get_bd st U pl = Some bd" "inst_range env st U (bd_addr bd) = Some (s0, sz0)"
    "\<And>a. start \<le> a \<Longrightarrow> a < start + sum_list szs \<Longrightarrow> dt st a = None \<and> (\<exists>v. emitted_at st U (block_at env (bd_addr bd)) a v)"
    "0 < s0" "s0 \<le> start" "start + sum_list szs \<le> s0 + sz0" "0 \<notin> set szs" "i + length szs \<le> jit_instructions bd"
    "i + length szs \<le> length (jit_line bd)"
    "\<And>j bi. i \<le> j \<Longrightarrow> get_bi st (U, pl, j) = Some bi \<Longrightarrow> \<not> patched bi"
  shows "bp_inv env X (place_lines U pl i start szs st) \<and> same_shape st (place_lines U pl i start szs st) \<and>
    (\<forall>q. q \<notin> {(U, pl, j) | j. i \<le> j \<and> j < i + length szs} \<longrightarrow> get_bi (place_lines U pl i start szs st) q = get_bi st q) \<and>
    (\<forall>q. map_option used (get_bi (place_lines U pl i start szs st) q) = map_option used (get_bi st q)) \<and>
    (\<forall>j bi. j < length szs \<longrightarrow> get_bi (place_lines U pl i start szs st) (U, pl, i + j) = Some bi \<longrightarrow>
       pos bi = start + sum_list (take j szs))"
  using assms
proof (induction szs arbitrary: i start st bd)
  case (Cons sz szs)
  note inv = Cons.prems(1) and bd = Cons.prems(3) and ic = Cons.prems(4)
  let ?r = "(U, pl, i)"
  have sz: "0 < sz" using Cons.prems(9) by (cases sz) auto
  obtain bi where bi: "get_bi st ?r = Some bi" "\<not> patched bi"
    using Cons.prems(3,11) Cons.prems(12) [of i] by (auto simp: get_bi_def)
  let ?st = "set_line ?r start bi st"
  obtain v where v: "emitted_at st U (block_at env (bd_addr bd)) start v" "dt st start = None" using Cons.prems(5) [of start] sz by auto
  have "code_mem st start = v" using inv_code [OF inv v(1)] v(2) by simp
  then have "stands env st ?r start (code_mem st start)"
    using v bd ic sz Cons.prems(7,8,10) by (auto simp: stands_def)
  then have inv': "bp_inv env X ?st" using v Cons.prems(2,6,7) by (intro inv_set_line [OF inv bi]) auto
  have s: "same_shape st ?st" by (simp add: set_line_def same_shape_put)
  obtain bd' where bd': "get_bd ?st U pl = Some bd'" "bd_addr bd' = bd_addr bd" "jit_instructions bd' = jit_instructions bd"
    "length (jit_line bd') = length (jit_line bd)" by (rule same_bd [OF s bd])
  have g: "get_bi ?st q = (if q = ?r then Some (bi\<lparr>pos := start, original_byte := code_mem st start, patched := used bi\<rparr>) else get_bi st q)" for q
    using bi by (simp add: set_line_def dbg)
  have d: "dt ?st a = dt st a" if "a \<noteq> start" for a using that by (simp add: set_line_def dbg)
  have np: "\<not> patched b" if "i + 1 \<le> j" "get_bi ?st (U, pl, j) = Some b" for j b
    using that Cons.prems(12) [of j b] g by auto
  let ?p = "place_lines U pl (i + 1) (start + sz) szs ?st"
  have ih: "bp_inv env X ?p \<and> same_shape ?st ?p \<and>
    (\<forall>q. q \<notin> {(U, pl, j) | j. i + 1 \<le> j \<and> j < i + 1 + length szs} \<longrightarrow> get_bi ?p q = get_bi ?st q) \<and>
    (\<forall>q. map_option used (get_bi ?p q) = map_option used (get_bi ?st q)) \<and>
    (\<forall>j bi. j < length szs \<longrightarrow> get_bi ?p (U, pl, i + 1 + j) = Some bi \<longrightarrow> pos bi = start + sz + sum_list (take j szs))"
    using sz Cons.prems(5-11) ic bd'(2-4)
    by (intro Cons.IH [OF inv' Cons.prems(2) bd'(1) _ _ _ _ _ _ _ _ np])
      (auto simp: inst_range_same [OF s] emitted_same [OF s] d)
  have "pos b = start + sum_list (take j (sz # szs))" if "j < length (sz # szs)" "get_bi ?p (U, pl, i + j) = Some b" for j b
  proof (cases j)
    case 0
    then show ?thesis using that ih g by auto
  next
    case (Suc k)
    then show ?thesis using that ih by auto
  qed
  moreover have "get_bi ?p q = get_bi st q" if "q \<notin> {(U, pl, j) | j. i \<le> j \<and> j < i + length (sz # szs)}" for q
  proof -
    have "q \<notin> {(U, pl, j) | j. i + 1 \<le> j \<and> j < i + 1 + length szs}" "q \<noteq> ?r" using that by auto
    then have "get_bi ?p q = get_bi ?st q" using ih by blast
    then show ?thesis using g \<open>q \<noteq> ?r\<close> by simp
  qed
  moreover have "map_option used (get_bi ?p q) = map_option used (get_bi st q)" for q
  proof -
    have "map_option used (get_bi ?st q) = map_option used (get_bi st q)" using bi by (simp add: g)
    moreover have "map_option used (get_bi ?p q) = map_option used (get_bi ?st q)" using ih by blast
    ultimately show ?thesis by simp
  qed
  moreover have "bp_inv env X ?p" "same_shape st ?p" using ih same_shape_trans [OF s] by blast+
  ultimately show ?case unfolding place_lines_Cons [OF bi] by (intro conjI allI impI) simp_all
qed simp


section \<open>Decoding\<close>

text \<open>What the disassembler library promises: instructions that fit in the bytes and the room.\<close>

definition good_distorm :: "dbg_env \<Rightarrow> bool" where
  "good_distorm env = (\<forall>bs n szs. distorm_decode env bs n = Some szs \<longrightarrow>
     length szs \<le> n \<and> sum_list szs \<le> length bs \<and> 0 \<notin> set szs)"

lemma instruction_no_less: "instruction_no U addr < REMAPS U"
proof -
  have "unat (addr AND ADDRESS_MASK) < 512" using off8_less [of addr] by (simp add: off8_def)
  then show ?thesis unfolding instruction_no_def unat_drop_bit_eq
    by (cases U) (auto simp: INSTRUCTION_SIZE_LG2_def REMAPS_def drop_bit_eq_div)
qed

text \<open>The code of an instruction is inside the block.\<close>

lemma inst_range_inside:
  assumes "blocks_ok st" "inst_range env st U addr = Some (start, sz)"
  obtains hb where "jits st U (block_at env addr) = Some hb" "hb_code hb \<le> start" "start + sz \<le> hb_code hb + length (hb_bytes hb)"
    "0 < start" "\<And>a. start \<le> a \<Longrightarrow> a < start + sz \<Longrightarrow> emitted_at st U (block_at env addr) a (hb_bytes hb ! (a - hb_code hb))"
proof -
  obtain hb where hb: "jits st U (block_at env addr) = Some hb" using assms(2) by (auto simp: inst_range_def split: option.splits)
  then have wf: "wf_block U hb" using assms(1) by (simp add: blocks_ok_def)
  let ?i = "instruction_no U addr"
  have i: "?i < length (hb_remap hb)" using wf instruction_no_less by (simp add: wf_block_def)
  have r: "hb_code hb \<le> hb_remap hb ! k \<and> hb_remap hb ! k \<le> hb_code hb + length (hb_bytes hb)" if "k < length (hb_remap hb)" for k
    using wf nth_mem [OF that] by (simp add: wf_block_def)
  have "hb_remap hb ! ?i \<le> hb_remap hb ! (?i + 1)" if "?i + 1 < REMAPS U"
    using wf that by (auto simp: wf_block_def intro: sorted_nth_mono)
  then have b: "hb_code hb \<le> start \<and> start + sz \<le> hb_code hb + length (hb_bytes hb)"
    using assms(2) hb r [OF i] r [of "?i + 1"] wf
    by (auto simp: inst_range_def Let_def wf_block_def split: if_splits)
  moreover have "emitted_at st U (block_at env addr) a (hb_bytes hb ! (a - hb_code hb))" if "start \<le> a" "a < start + sz" for a
    unfolding emitted_at_def using hb b that by (intro exI [of _ hb] exI [of _ "a - hb_code hb"]) auto
  moreover have "0 < start" using b wf by (simp add: wf_block_def)
  ultimately show ?thesis using that hb by blast
qed


lemma inv_clear_all:
  assumes "\<And>i bi. i \<in> set is \<Longrightarrow> get_bi st (U, pl, i) = Some bi \<Longrightarrow> pos bi = 0"
  shows "fold (\<lambda>i. clear_pos (U, pl, i)) is st = st"
  using assms
proof (induction "is")
  case (Cons i "is")
  have "clear_pos (U, pl, i) st = st"
  proof (cases "get_bi st (U, pl, i)")
    case (Some bi)
    then have "bi\<lparr>pos := 0\<rparr> = bi" using Cons.prems [of i bi] by (cases bi) simp
    then show ?thesis using Some
      by (auto simp: clear_pos_def put_bi_def put_bd_def get_bi_def get_bd_def fun_upd_idem split: option.splits bplace.splits if_splits)
  qed (simp add: clear_pos_def)
  moreover have "fold (\<lambda>i. clear_pos (U, pl, i)) is st = st" using Cons.prems by (intro Cons.IH) auto
  ultimately show ?case by simp
qed simp

text \<open>The number of instructions of a breakpoint all whose lines are empty may change.\<close>

lemma inv_put_count:
  assumes "bp_inv env X st" "get_bd st U pl = Some bd" "\<And>i bi. get_bi st (U, pl, i) = Some bi \<Longrightarrow> pos bi = 0"
    "\<And>i. (U, pl, i) \<notin> X"
  shows "bp_inv env X (put_bd U pl (bd\<lparr>jit_instructions := n\<rparr>) st)" (is "bp_inv env X ?st")
proof -
  note i = assms(1) [unfolded bp_inv_def]
  have g: "get_bi ?st q = get_bi st q" for q using assms(2) by (auto simp: get_bi_def dbg split: prod.splits)
  have e: "emitted_at ?st = emitted_at st" by (simp add: emitted_at_def dbg fun_eq_iff)
  have s: "stands env ?st (V, ql, k) a v" if "stands env st (V, ql, k) a v" "V \<noteq> U \<or> ql \<noteq> pl" for V ql k a v
    using that by (auto simp: stands_def e dbg inst_range_def)
  have "info_ok env X ?st q bi" if q: "get_bi st q = Some bi" for q bi
  proof -
    obtain V ql k where qk: "q = (V, ql, k)" by (cases q)
    have o: "info_ok env X st q bi" using i q by blast
    show ?thesis
    proof (cases "V = U \<and> ql = pl")
      case True
      then show ?thesis using o assms(3,4) q by (auto simp: info_ok_def qk)
    next
      case False
      then have "stands env st q a v \<Longrightarrow> stands env ?st q a v" for a v using s qk by blast
      then show ?thesis using o by (auto simp: info_ok_def e split: if_splits)
    qed
  qed
  moreover have "blocks_ok ?st" "table_ok ?st" "code_ok ?st" "shapes_ok env ?st"
    using i assms(2) by (auto simp: blocks_ok_def table_ok_def code_ok_def shapes_ok_def e g dbg split: if_splits)
  ultimately show ?thesis by (simp add: bp_inv_def g)
qed

text \<open>Nothing is armed in the code of the instruction.\<close>

definition unarmed :: "dbg_env \<Rightarrow> debugger \<Rightarrow> iset \<Rightarrow> u32 \<Rightarrow> bool" where
  "unarmed env st U addr = (case inst_range env st U addr of None \<Rightarrow> True | Some (start, sz) \<Rightarrow>
     \<forall>a \<in> {start..<start + sz}. dt st a = None)"

end
