(* ===== verification/Break_Ops.thy ===== *)
theory Break_Ops
  imports Break_Inv
begin

text \<open>
  The parts the operations of the debugger are made of keep the invariant: moving the breakpoints
  of an instruction to its code, and setting and removing single ones.
\<close>

section \<open>Instructions and their code\<close>

definition same_inst :: "dbg_env \<Rightarrow> iset \<Rightarrow> u32 \<Rightarrow> u32 \<Rightarrow> bool" where
  "same_inst env U a b = (block_at env a = block_at env b \<and> instruction_no U a = instruction_no U b)"

text \<open>The codes of different instructions do not overlap.\<close>

lemma ranges_disjoint:
  assumes "blocks_ok st" "inst_range env st U a = Some (s1, n1)" "inst_range env st U b = Some (s2, n2)"
    "block_at env a = block_at env b" "s1 \<le> x" "x < s1 + n1" "s2 \<le> x" "x < s2 + n2"
  shows "same_inst env U a b"
proof -
  obtain hb where hb: "jits st U (block_at env a) = Some hb" using assms(2) by (auto simp: inst_range_def split: option.splits)
  then have wf: "wf_block U hb" using assms(1) by (simp add: blocks_ok_def)
  let ?r = "\<lambda>k. hb_remap hb ! k"
  have before: "t + n \<le> ?r j" if "inst_range env st U c = Some (t, n)" "block_at env c = block_at env a"
      "instruction_no U c < j" "j < REMAPS U" for c t n j
  proof -
    have "?r (instruction_no U c) \<le> ?r (instruction_no U c + 1)" "?r (instruction_no U c + 1) \<le> ?r j"
      using wf that by (auto simp: wf_block_def intro!: sorted_nth_mono)
    then show ?thesis using that hb by (auto simp: inst_range_def Let_def split: if_splits)
  qed
  have s: "s1 = ?r (instruction_no U a)" "s2 = ?r (instruction_no U b)"
    using assms(2-4) hb by (auto simp: inst_range_def Let_def)
  have "\<not> instruction_no U a < instruction_no U b"
    using before [OF assms(2), of "instruction_no U b"] instruction_no_less s assms(5-8) by fastforce
  moreover have "\<not> instruction_no U b < instruction_no U a"
    using before [OF assms(3), of "instruction_no U a"] instruction_no_less s assms(4-8) by fastforce
  ultimately show ?thesis using assms(4) by (simp add: same_inst_def)
qed

text \<open>What is armed in the code of an instruction is a breakpoint of the instruction.\<close>

lemma unarmedI:
  assumes "bp_inv env X st"
    and "\<And>pl i bd bi. get_bd st U pl = Some bd \<Longrightarrow> same_inst env U (bd_addr bd) addr \<Longrightarrow> get_bi st (U, pl, i) = Some bi \<Longrightarrow>
      (U, pl, i) \<notin> X \<Longrightarrow> \<not> patched bi"
  shows "unarmed env st U addr"
proof -
  have "dt st a = None" if r: "inst_range env st U addr = Some (start, sz)" "start \<le> a" "a < start + sz" for start sz a
  proof (rule ccontr)
    assume "dt st a \<noteq> None"
    then obtain q bi where q: "get_bi st q = Some bi" "patched bi" "pos bi = a" using inv_table [OF assms(1)] by blast
    have b: "blocks_ok st" using assms(1) by (simp add: bp_inv_def)
    obtain v where v: "emitted_at st U (block_at env addr) a v" using inst_range_inside [OF b r(1)] r(2,3) by metis
    have i: "info_ok env X st q bi" by (rule inv_info [OF assms(1) q(1)])
    then have "q \<notin> X" using v q by (auto simp: info_ok_def)
    obtain V pl k where qk: "q = (V, pl, k)" by (cases q)
    have "pos bi \<noteq> 0" using i q \<open>q \<notin> X\<close> by (simp add: info_ok_def)
    then have "stands env st (V, pl, k) a (original_byte bi)" using i q \<open>q \<notin> X\<close> by (simp add: info_ok_def qk)
    then obtain bd s n where bd: "get_bd st V pl = Some bd" "inst_range env st V (bd_addr bd) = Some (s, n)" "s \<le> a" "a < s + n"
      "emitted_at st V (block_at env (bd_addr bd)) a (original_byte bi)" by (auto simp: stands_def)
    have "U = V \<and> block_at env addr = block_at env (bd_addr bd)" using b v bd(5) unfolding blocks_ok_def by blast
    then have "U = V" "block_at env (bd_addr bd) = block_at env addr" by auto
    then have "same_inst env U (bd_addr bd) addr" using ranges_disjoint [OF b bd(2) _ _ bd(3,4) r(2,3)] r(1) by blast
    then show False using assms(2) bd(1) q qk \<open>U = V\<close> \<open>q \<notin> X\<close> by blast
  qed
  then show ?thesis by (auto simp: unarmed_def split: option.split)
qed

section \<open>Moving one breakpoint\<close>

text \<open>Only the lines of one place changed, and they are set as before.\<close>

definition moved :: "iset \<Rightarrow> bplace \<Rightarrow> debugger \<Rightarrow> debugger \<Rightarrow> bool" where
  "moved U pl st st' = (jits st' = jits st \<and>
     (\<forall>V ql. map_option bd_addr (get_bd st' V ql) = map_option bd_addr (get_bd st V ql)) \<and>
     (\<forall>q. map_option used (get_bi st' q) = map_option used (get_bi st q)) \<and>
     (\<forall>V ql i. V \<noteq> U \<or> ql \<noteq> pl \<longrightarrow> get_bi st' (V, ql, i) = get_bi st (V, ql, i)))"

lemma moved_refl [simp]: "moved U pl st st"
  by (simp add: moved_def)

lemma moved_trans: "moved U pl st st' \<Longrightarrow> moved U pl st' st'' \<Longrightarrow> moved U pl st st''"
  by (simp add: moved_def)

lemma same_shape_addr:
  assumes "same_shape st st'"
  shows "jits st' = jits st" "map_option bd_addr (get_bd st' V ql) = map_option bd_addr (get_bd st V ql)"
proof -
  have "map_option fst (map_option shape (get_bd st' V ql)) = map_option fst (map_option shape (get_bd st V ql))"
    using assms by (simp add: same_shape_def)
  then show "map_option bd_addr (get_bd st' V ql) = map_option bd_addr (get_bd st V ql)"
    by (simp add: option.map_comp comp_def shape_def)
qed (use assms in \<open>simp add: same_shape_def\<close>)

lemma movedI:
  assumes "same_shape st st'" "\<And>q. map_option used (get_bi st' q) = map_option used (get_bi st q)"
    "\<And>V ql i. V \<noteq> U \<or> ql \<noteq> pl \<Longrightarrow> get_bi st' (V, ql, i) = get_bi st (V, ql, i)"
  shows "moved U pl st st'"
  using assms same_shape_addr [OF assms(1)] by (simp add: moved_def)

lemma moved_put_count:
  assumes "get_bd st U pl = Some bd"
  shows "moved U pl st (put_bd U pl (bd\<lparr>jit_instructions := n\<rparr>) st)"
  using assms by (auto simp: moved_def dbg get_bi_def split: prod.splits)

text \<open>Line \<open>j\<close> stands at the start of the \<open>j\<close>th instruction of the code.\<close>

definition decoded_lines :: "dbg_env \<Rightarrow> debugger \<Rightarrow> iset \<Rightarrow> bplace \<Rightarrow> u32 \<Rightarrow> debugger \<Rightarrow> bool" where
  "decoded_lines env st U pl addr st' = (\<forall>start sz szs j bi. inst_range env st U addr = Some (start, sz) \<longrightarrow>
     distorm_decode env (map (code_mem st) [start..<start + sz]) MAX_SUBINSTRUCTIONS_DISTORM = Some szs \<longrightarrow> j < length szs \<longrightarrow>
     get_bi st' (U, pl, j) = Some bi \<longrightarrow> pos bi = start + sum_list (take j szs))"

text \<open>The lines of the place stand at different addresses.\<close>

definition own_lines :: "iset \<Rightarrow> bplace \<Rightarrow> debugger \<Rightarrow> bool" where
  "own_lines U pl st = (\<forall>i j bi bj. get_bi st (U, pl, i) = Some bi \<longrightarrow> get_bi st (U, pl, j) = Some bj \<longrightarrow>
     pos bi \<noteq> 0 \<longrightarrow> pos bj = pos bi \<longrightarrow> j = i)"

lemma sum_list_take_mono: "j < k \<Longrightarrow> k \<le> length xs \<Longrightarrow> 0 \<notin> set xs \<Longrightarrow> sum_list (take j xs) < sum_list (take k xs :: nat list)"
proof (induction xs arbitrary: j k)
  case (Cons x xs)
  then show ?case by (cases j; cases k) auto
qed simp

lemma own_lines_sum:
  assumes "\<And>j bi. j < length szs \<Longrightarrow> get_bi st (U, pl, j) = Some bi \<Longrightarrow> pos bi = start + sum_list (take j szs)"
    "\<And>j bi. \<not> j < length szs \<Longrightarrow> get_bi st (U, pl, j) = Some bi \<Longrightarrow> pos bi = 0" "0 \<notin> set szs"
  shows "own_lines U pl st"
  unfolding own_lines_def
proof (intro allI impI)
  fix i j bi bj
  assume b: "get_bi st (U, pl, i) = Some bi" "get_bi st (U, pl, j) = Some bj" "pos bi \<noteq> 0" "pos bj = pos bi"
  then have l: "i < length szs" "j < length szs" using assms(2) by (metis, metis)
  then have "sum_list (take i szs) = sum_list (take j szs)" using assms(1) b by fastforce
  then show "j = i" using sum_list_take_mono [of i j szs] sum_list_take_mono [of j i szs] l assms(3) by (cases i j rule: linorder_cases) auto
qed

lemma inv_disassemble:
  assumes "bp_inv env X st" "good_distorm env" "get_bd st U pl = Some bd" "\<And>i. (U, pl, i) \<notin> X"
    "\<And>i bi. get_bi st (U, pl, i) = Some bi \<Longrightarrow> pos bi = 0" "unarmed env st U (bd_addr bd)"
  shows "bp_inv env X (disassemble_breakdata env U pl st) \<and> moved U pl st (disassemble_breakdata env U pl st) \<and>
    own_lines U pl (disassemble_breakdata env U pl st) \<and> decoded_lines env st U pl (bd_addr bd) (disassemble_breakdata env U pl st)"
proof (cases "inst_range env st U (bd_addr bd)")
  case (Some r)
  then obtain start sz where ir: "inst_range env st U (bd_addr bd) = Some (start, sz)" by (cases r) auto
  show ?thesis
  proof (cases "distorm_decode env (map (code_mem st) [start..<start + sz]) MAX_SUBINSTRUCTIONS_DISTORM")
    case (Some szs)
    from assms(2) [unfolded good_distorm_def, rule_format, OF Some]
    have szs: "length szs \<le> MAX_SUBINSTRUCTIONS" "sum_list szs \<le> sz" "0 \<notin> set szs"
      by (auto simp: MAX_SUBINSTRUCTIONS_def MAX_SUBINSTRUCTIONS_DISTORM_def)
    have b: "blocks_ok st" and len: "length (jit_line bd) = MAX_SUBINSTRUCTIONS"
      using assms(1,3) by (simp_all add: bp_inv_def shapes_ok_def)
    define st1 where "st1 = put_bd U pl (bd\<lparr>jit_instructions := length szs\<rparr>) st"
    define st2 where "st2 = place_lines U pl 0 start szs st1"
    have inv1: "bp_inv env X st1" unfolding st1_def by (rule inv_put_count [OF assms(1,3,5,4)])
    have m1: "moved U pl st st1" unfolding st1_def by (rule moved_put_count [OF assms(3)])
    have bd1: "get_bd st1 U pl = Some (bd\<lparr>jit_instructions := length szs\<rparr>)" by (simp add: st1_def dbg)
    have gi: "get_bi st1 (U, pl, j) = get_bi st (U, pl, j)" for j using assms(3) by (simp add: st1_def dbg get_bi_def)
    have e: "emitted_at st1 = emitted_at st" by (simp add: st1_def emitted_at_def dbg fun_eq_iff)
    have np: "\<not> patched bi" if "get_bi st1 (U, pl, j) = Some bi" for j bi
      using inv_info [OF inv1 that] assms(4,5) that gi by (auto simp: info_ok_def)
    have live: "dt st1 a = None \<and> (\<exists>v. emitted_at st1 U (block_at env (bd_addr bd)) a v)"
      if a: "start \<le> a" "a < start + sum_list szs" for a
    proof -
      have a': "a < start + sz" using a szs(2) by simp
      then have "dt st a = None" using assms(6) a(1) ir by (simp add: unarmed_def)
      moreover obtain v where "emitted_at st U (block_at env (bd_addr bd)) a v"
        using inst_range_inside [OF b ir] a(1) a' by metis
      ultimately show ?thesis by (auto simp: st1_def dbg e [unfolded st1_def])
    qed
    have ir1: "inst_range env st1 U (bd_addr (bd\<lparr>jit_instructions := length szs\<rparr>)) = Some (start, sz)"
      using ir by (simp add: inst_range_def st1_def dbg)
    have start: "0 < start" by (rule inst_range_inside [OF b ir])
    have p: "bp_inv env X st2 \<and> same_shape st1 st2 \<and>
      (\<forall>q. q \<notin> {(U, pl, j) | j. 0 \<le> j \<and> j < 0 + length szs} \<longrightarrow> get_bi st2 q = get_bi st1 q) \<and>
      (\<forall>q. map_option used (get_bi st2 q) = map_option used (get_bi st1 q)) \<and>
      (\<forall>j bi. j < length szs \<longrightarrow> get_bi st2 (U, pl, 0 + j) = Some bi \<longrightarrow> pos bi = start + sum_list (take j szs))"
      unfolding st2_def
      using live start szs len np by (intro inv_place_lines [OF inv1 assms(4) bd1 ir1]) (auto simp: e)
    have "fold (\<lambda>i. clear_pos (U, pl, i)) [length szs..<MAX_SUBINSTRUCTIONS] st2 = st2"
    proof (rule inv_clear_all)
      fix i bi assume "i \<in> set [length szs..<MAX_SUBINSTRUCTIONS]" "get_bi st2 (U, pl, i) = Some bi"
      then have "get_bi st (U, pl, i) = Some bi" using p gi by auto
      then show "pos bi = 0" by (rule assms(5))
    qed
    then have d: "disassemble_breakdata env U pl st = st2"
      using szs(1) by (simp add: disassemble_breakdata_def assms(3) ir Some Let_def min_absorb1 flip: st1_def st2_def)
    have "own_lines U pl st2"
    proof (rule own_lines_sum)
      fix j bi assume "get_bi st2 (U, pl, j) = Some bi"
      then show "j < length szs \<Longrightarrow> pos bi = start + sum_list (take j szs)" "\<not> j < length szs \<Longrightarrow> pos bi = 0"
        using p gi assms(5) [of j bi] by auto
    qed (use szs in simp)
    moreover have "decoded_lines env st U pl (bd_addr bd) st2" using p by (auto simp: decoded_lines_def ir Some)
    moreover have "moved U pl st1 st2" using p by (intro movedI) auto
    ultimately show ?thesis using p moved_trans [OF m1] unfolding d by blast
  qed (use assms(5) in \<open>simp add: disassemble_breakdata_def assms(1,3) ir own_lines_def decoded_lines_def\<close>)
qed (use assms(5) in \<open>simp add: disassemble_breakdata_def assms(1,3) own_lines_def decoded_lines_def\<close>)

lemma remove_all_code: "code_mem (fold (\<lambda>i. remove_bi (U, pl, i)) is st) = code_mem st"
  by (induction "is" arbitrary: st) (auto simp: remove_bi_def dbg split: option.split)

lemma inv_update:
  assumes "bp_inv env X st" "good_distorm env" "get_bd st U pl = Some bd" "unarmed env st U (bd_addr bd)"
    "\<And>i bi. get_bi st (U, pl, i) = Some bi \<Longrightarrow> (U, pl, i) \<in> X \<or> \<not> patched bi"
  shows "bp_inv env (X - {(U, pl, i) | i. True}) (update_breakdata env U pl st) \<and> moved U pl st (update_breakdata env U pl st) \<and>
    own_lines U pl (update_breakdata env U pl st) \<and> decoded_lines env st U pl (bd_addr bd) (update_breakdata env U pl st)"
proof -
  define st1 where "st1 = fold (\<lambda>i. remove_bi (U, pl, i)) [0..<MAX_SUBINSTRUCTIONS] st"
  let ?L = "{(U, pl, i) | i. i < MAX_SUBINSTRUCTIONS}"
  have r: "bp_inv env (X - ?L) st1" "same_shape st st1" "\<And>a. dt st a = None \<Longrightarrow> dt st1 a = None"
    "\<And>q. get_bi st1 q = (if q \<in> ?L then map_option (\<lambda>bi. bi\<lparr>pos := 0, patched := False\<rparr>) (get_bi st q) else get_bi st q)"
    using inv_remove_all [OF assms(1) assms(5), of MAX_SUBINSTRUCTIONS] unfolding st1_def by blast+
  have len: "i < MAX_SUBINSTRUCTIONS" if "get_bi st (U, pl, i) = Some bi" for i bi
    using that assms(1,3) by (auto simp: get_bi_def bp_inv_def shapes_ok_def split: if_splits)
  have "bp_inv env (X - {(U, pl, i) | i. True}) st1"
  proof -
    have "get_bi st1 (U, pl, i) = None" if "\<not> i < MAX_SUBINSTRUCTIONS" for i
      using that len r(4) [of "(U, pl, i)"] by (cases "get_bi st (U, pl, i)") auto
    then have "info_ok env (X - {(U, pl, i) | i. True}) st1 q bi" if "get_bi st1 q = Some bi" for q bi
      using that inv_info [OF r(1) that] by (auto simp: info_ok_def split: if_splits)
    then show ?thesis using r(1) by (simp add: bp_inv_def)
  qed
  moreover obtain bd' where bd': "get_bd st1 U pl = Some bd'" "bd_addr bd' = bd_addr bd" by (rule same_bd [OF r(2) assms(3)])
  moreover have "pos bi = 0" if "get_bi st1 (U, pl, i) = Some bi" for i bi
    using that len r(4) [of "(U, pl, i)"] by (cases "get_bi st (U, pl, i)") (auto split: if_splits)
  moreover have "unarmed env st1 U (bd_addr bd')"
    using assms(4) r(3) by (auto simp: unarmed_def bd' inst_range_same [OF r(2)] split: option.splits)
  ultimately have "bp_inv env (X - {(U, pl, i) | i. True}) (disassemble_breakdata env U pl st1) \<and>
    moved U pl st1 (disassemble_breakdata env U pl st1) \<and> own_lines U pl (disassemble_breakdata env U pl st1) \<and>
    decoded_lines env st1 U pl (bd_addr bd') (disassemble_breakdata env U pl st1)" using inv_disassemble [OF _ assms(2) bd'(1)] by blast
  moreover have "moved U pl st st1" using r(2) by (intro movedI) (auto simp: r(4) option.map_comp comp_def)
  moreover have "code_mem st1 = code_mem st" unfolding st1_def by (rule remove_all_code)
  then have "decoded_lines env st1 U pl (bd_addr bd') = decoded_lines env st U pl (bd_addr bd)"
    by (intro ext) (simp add: decoded_lines_def inst_range_same [OF r(2)] bd')
  ultimately show ?thesis using moved_trans unfolding update_breakdata_def st1_def [symmetric] by auto
qed


section \<open>Places of their own\<close>

text \<open>No other breakpoint of the instruction is set.\<close>

definition alone :: "dbg_env \<Rightarrow> debugger \<Rightarrow> iset \<Rightarrow> bplace \<Rightarrow> u32 \<Rightarrow> bool" where
  "alone env st U pl addr = (\<forall>ql bd j bj. ql \<noteq> pl \<longrightarrow> get_bd st U ql = Some bd \<longrightarrow> same_inst env U (bd_addr bd) addr \<longrightarrow>
     get_bi st (U, ql, j) = Some bj \<longrightarrow> \<not> used bj)"

text \<open>The lines of a breakpoint are at different places.\<close>

definition lines_ok :: "debugger \<Rightarrow> bool" where
  "lines_ok st = (\<forall>U pl i j bi bj. get_bi st (U, pl, i) = Some bi \<longrightarrow> get_bi st (U, pl, j) = Some bj \<longrightarrow>
     pos bi \<noteq> 0 \<longrightarrow> pos bj = pos bi \<longrightarrow> j = i)"

lemma alone_moved:
  assumes "moved V pl' st st'"
  shows "alone env st' U pl addr = alone env st U pl addr"
proof -
  have "alone env s' U pl addr" if a: "alone env s U pl addr" and m: "moved V pl' s s'" for s s'
    unfolding alone_def
  proof (intro allI impI notI)
    fix ql bd j bj
    assume q: "ql \<noteq> pl" "get_bd s' U ql = Some bd" "same_inst env U (bd_addr bd) addr" "get_bi s' (U, ql, j) = Some bj" "used bj"
    have "map_option bd_addr (get_bd s' U ql) = map_option bd_addr (get_bd s U ql)"
      "map_option used (get_bi s' (U, ql, j)) = map_option used (get_bi s (U, ql, j))"
      using m unfolding moved_def by blast+
    with q obtain bd0 b0 where "get_bd s U ql = Some bd0" "bd_addr bd0 = bd_addr bd" "get_bi s (U, ql, j) = Some b0" "used b0"
      by (cases "get_bd s U ql"; cases "get_bi s (U, ql, j)") auto
    with a q show False unfolding alone_def by metis
  qed
  moreover have "moved V pl' st' st" using assms by (simp add: moved_def)
  ultimately show ?thesis using assms by blast
qed

lemma inv_used: "bp_inv env X st \<Longrightarrow> get_bi st r = Some bi \<Longrightarrow> r \<notin> X \<Longrightarrow> patched bi \<longleftrightarrow> used bi \<and> pos bi \<noteq> 0"
  using inv_info by (fastforce simp: info_ok_def)

lemma unarmed_alone:
  assumes "bp_inv env X st" "alone env st U pl addr"
    "\<And>i bi. get_bi st (U, pl, i) = Some bi \<Longrightarrow> (U, pl, i) \<in> X \<or> \<not> patched bi"
  shows "unarmed env st U addr"
proof (rule unarmedI [OF assms(1)])
  fix ql i bd bi
  assume q: "get_bd st U ql = Some bd" "same_inst env U (bd_addr bd) addr" "get_bi st (U, ql, i) = Some bi" "(U, ql, i) \<notin> X"
  show "\<not> patched bi"
  proof (cases "ql = pl")
    case True
    then show ?thesis using assms(3) q by blast
  next
    case False
    then have "\<not> used bi" using assms(2) q unfolding alone_def by blast
    then show ?thesis using inv_used [OF assms(1) q(3,4)] by blast
  qed
qed

lemma free_line:
  assumes "bp_inv env {} st" "lines_ok st" "get_bi st (U, pl, i) = Some bi" "\<not> used bi" "get_bd st U pl = Some bd"
    "alone env st U pl (bd_addr bd)"
  shows "dt st (pos bi) = None"
proof (rule ccontr)
  assume "dt st (pos bi) \<noteq> None"
  then obtain q bj where q: "get_bi st q = Some bj" "patched bj" "pos bj = pos bi" using inv_table [OF assms(1)] by blast
  obtain V ql j where qj: "q = (V, ql, j)" by (cases q)
  have b: "blocks_ok st" using assms(1) by (simp add: bp_inv_def)
  have bj: "used bj" "pos bi \<noteq> 0" using inv_used [OF assms(1) q(1)] q by auto
  have "stands env st (V, ql, j) (pos bi) (original_byte bj)" "stands env st (U, pl, i) (pos bi) (original_byte bi)"
    using inv_info [OF assms(1) q(1)] inv_info [OF assms(1,3)] bj q(3) by (auto simp: info_ok_def qj)
  then obtain bd' s n s' n' where s: "get_bd st V ql = Some bd'" "inst_range env st V (bd_addr bd') = Some (s', n')" "s' \<le> pos bi"
    "pos bi < s' + n'" "emitted_at st V (block_at env (bd_addr bd')) (pos bi) (original_byte bj)"
    "inst_range env st U (bd_addr bd) = Some (s, n)" "s \<le> pos bi" "pos bi < s + n"
    "emitted_at st U (block_at env (bd_addr bd)) (pos bi) (original_byte bi)"
    using assms(5) by (auto simp: stands_def)
  have "U = V \<and> block_at env (bd_addr bd) = block_at env (bd_addr bd')" using b s(5,9) unfolding blocks_ok_def by blast
  then have v: "U = V" "block_at env (bd_addr bd') = block_at env (bd_addr bd)" by auto
  then have "same_inst env U (bd_addr bd') (bd_addr bd)" using ranges_disjoint [OF b s(2) _ _ s(3,4,7,8)] s(6) by blast
  then have "ql = pl" using assms(6) s(1) q(1) bj(1) qj v(1) unfolding alone_def by blast
  then have "j = i" using assms(2,3) q(1,3) qj v(1) bj(2) unfolding lines_ok_def by blast
  then show False using q(1) qj v(1) \<open>ql = pl\<close> assms(3,4) bj(1) by simp
qed

lemma lines_pos:
  assumes "lines_ok st" "\<And>q bi. get_bi st' q = Some bi \<Longrightarrow> pos bi \<noteq> 0 \<Longrightarrow> \<exists>b0. get_bi st q = Some b0 \<and> pos b0 = pos bi"
  shows "lines_ok st'"
  unfolding lines_ok_def
proof (intro allI impI)
  fix U pl i j bi bj
  assume "get_bi st' (U, pl, i) = Some bi" "get_bi st' (U, pl, j) = Some bj" "pos bi \<noteq> 0" "pos bj = pos bi"
  then obtain b0 b1 where "get_bi st (U, pl, i) = Some b0" "get_bi st (U, pl, j) = Some b1" "pos b0 = pos bi" "pos b1 = pos bi"
    using assms(2) by metis
  then show "j = i" using assms(1) \<open>pos bi \<noteq> 0\<close> unfolding lines_ok_def by metis
qed


lemma lines_moved:
  assumes "lines_ok st" "moved U pl st st'" "own_lines U pl st'"
  shows "lines_ok st'"
  unfolding lines_ok_def
proof (intro allI impI)
  fix V ql i j bi bj
  assume b: "get_bi st' (V, ql, i) = Some bi" "get_bi st' (V, ql, j) = Some bj" "pos bi \<noteq> 0" "pos bj = pos bi"
  show "j = i"
  proof (cases "V = U \<and> ql = pl")
    case True
    then show ?thesis using b assms(3) unfolding own_lines_def by blast
  next
    case False
    then have "get_bi st (V, ql, i) = Some bi" "get_bi st (V, ql, j) = Some bj" using b assms(2) unfolding moved_def by metis+
    then show ?thesis using b assms(1) unfolding lines_ok_def by blast
  qed
qed

section \<open>Setting and removing breakpoints\<close>

text \<open>The invariant between the operations.\<close>

definition dbg_inv :: "dbg_env \<Rightarrow> debugger \<Rightarrow> bool" where
  "dbg_inv env st = (bp_inv env {} st \<and> lines_ok st)"

lemma toggle_sub_pos:
  assumes "get_bi (toggle_sub r st) q = Some bi"
  shows "\<exists>b0. get_bi st q = Some b0 \<and> pos b0 = pos bi \<and> jits (toggle_sub r st) = jits st"
  using assms
  by (auto simp: toggle_sub_def patch_bi_def unpatch_bi_def Let_def dbg split: option.splits if_splits)

lemma toggle_sub_other: "q \<noteq> r \<Longrightarrow> get_bi (toggle_sub r st) q = get_bi st q"
  by (auto simp: toggle_sub_def patch_bi_def unpatch_bi_def Let_def dbg split: option.splits if_splits)

lemma toggle_sub_used: "map_option used (get_bi (toggle_sub r st) r) = map_option (\<lambda>bi. \<not> used bi) (get_bi st r)"
  by (auto simp: toggle_sub_def patch_bi_def unpatch_bi_def Let_def dbg split: option.splits if_splits)

text \<open>A line is set at an instruction no other breakpoint has, or removed.\<close>

lemma dbg_toggle_sub:
  assumes "dbg_inv env st" "\<And>bd bi. get_bd st U pl = Some bd \<Longrightarrow> get_bi st (U, pl, i) = Some bi \<Longrightarrow> used bi \<or> alone env st U pl (bd_addr bd)"
  shows "dbg_inv env (toggle_sub (U, pl, i) st)" "same_shape st (toggle_sub (U, pl, i) st)"
proof -
  have "used bi \<or> dt st (pos bi) = None" if bi: "get_bi st (U, pl, i) = Some bi" for bi
  proof -
    obtain bd where bd: "get_bd st U pl = Some bd" using bi by (auto simp: get_bi_def split: option.splits)
    have "\<not> used bi \<Longrightarrow> dt st (pos bi) = None"
      using assms(1) assms(2) [OF bd bi] by (intro free_line [OF _ _ bi _ bd]) (auto simp: dbg_inv_def)
    then show ?thesis by (cases "used bi") simp_all
  qed
  then have t: "bp_inv env {} (toggle_sub (U, pl, i) st) \<and> same_shape st (toggle_sub (U, pl, i) st)"
    using assms(1) unfolding dbg_inv_def by (intro inv_toggle_sub) auto
  moreover have "lines_ok (toggle_sub (U, pl, i) st)"
  proof (rule lines_pos)
    show "lines_ok st" using assms(1) by (simp add: dbg_inv_def)
    fix q bi assume "get_bi (toggle_sub (U, pl, i) st) q = Some bi"
    from toggle_sub_pos [OF this] show "\<exists>b0. get_bi st q = Some b0 \<and> pos b0 = pos bi" by blast
  qed
  ultimately show "dbg_inv env (toggle_sub (U, pl, i) st)" "same_shape st (toggle_sub (U, pl, i) st)"
    by (simp_all add: dbg_inv_def)
qed

lemma dbg_update:
  assumes "dbg_inv env st" "good_distorm env" "get_bd st U pl = Some bd" "alone env st U pl (bd_addr bd)"
    "\<And>i bi. get_bi st (U, pl, i) = Some bi \<Longrightarrow> \<not> used bi"
  shows "dbg_inv env (update_breakdata env U pl st)" "moved U pl st (update_breakdata env U pl st)"
proof -
  have i: "bp_inv env {} st" "lines_ok st" using assms(1) by (simp_all add: dbg_inv_def)
  have np: "\<not> patched bi" if "get_bi st (U, pl, i) = Some bi" for i bi using inv_used [OF i(1) that] assms(5) that by simp
  then have "unarmed env st U (bd_addr bd)" by (intro unarmed_alone [OF i(1) assms(4)]) blast
  from inv_update [OF i(1) assms(2,3) this] np
  have u: "bp_inv env {} (update_breakdata env U pl st)" "moved U pl st (update_breakdata env U pl st)"
    "own_lines U pl (update_breakdata env U pl st)" by auto
  then show "dbg_inv env (update_breakdata env U pl st)" "moved U pl st (update_breakdata env U pl st)"
    using lines_moved [OF i(2)] by (auto simp: dbg_inv_def)
qed


text \<open>A breakpoint none of whose lines is set may be created, moved or deleted.\<close>

lemma dbg_put_unused:
  assumes "dbg_inv env st" "\<And>i bi. get_bi st (U, pl, i) = Some bi \<Longrightarrow> \<not> used bi"
    "length (jit_line bd) = MAX_SUBINSTRUCTIONS" "\<And>p. pl = Regular p \<Longrightarrow> physical env (bd_addr bd) = p"
    "\<And>bi. bi \<in> set (jit_line bd) \<Longrightarrow> \<not> patched bi \<and> \<not> used bi"
    "\<And>i j. i < length (jit_line bd) \<Longrightarrow> j < length (jit_line bd) \<Longrightarrow> pos (jit_line bd ! i) \<noteq> 0 \<Longrightarrow>
      pos (jit_line bd ! j) = pos (jit_line bd ! i) \<Longrightarrow> j = i"
  shows "bp_inv env {(U, pl, i) | i. True} (put_bd U pl bd st)" (is "bp_inv env ?X ?st")
    and "lines_ok (put_bd U pl bd st)" and "\<And>i bi. get_bi (put_bd U pl bd st) (U, pl, i) = Some bi \<Longrightarrow> \<not> used bi \<and> \<not> patched bi"
proof -
  have i: "blocks_ok st" "table_ok st" "code_ok st" "shapes_ok env st" "lines_ok st" and inv: "bp_inv env {} st"
    using assms(1) by (simp_all add: dbg_inv_def bp_inv_def)
  have g: "get_bi ?st (V, ql, k) = (if V = U \<and> ql = pl then (if k < length (jit_line bd) then Some (jit_line bd ! k) else None)
    else get_bi st (V, ql, k))" for V ql k by (simp add: get_bi_def dbg)
  have e: "emitted_at ?st = emitted_at st" by (simp add: emitted_at_def dbg fun_eq_iff)
  show u: "\<not> used bi \<and> \<not> patched bi" if "get_bi ?st (U, pl, i) = Some bi" for i bi
    using that assms(5) by (auto simp: g split: if_splits)
  have np: "\<not> patched bi" if "get_bi st (U, pl, i) = Some bi" for i bi
    using inv_used [OF inv that] assms(2) [OF that] by simp
  have "table_ok ?st" unfolding table_ok_def
  proof (intro allI iffI)
    fix a r assume "dt ?st a = Some r"
    then have "dt st a = Some r" by (simp add: dbg)
    then obtain bi where bi: "get_bi st r = Some bi" "patched bi" "pos bi = a" using inv_table [OF inv] by blast
    obtain V ql k where r: "r = (V, ql, k)" by (cases r)
    then have "\<not> (V = U \<and> ql = pl)" using np bi by blast
    then have "get_bi ?st r = Some bi" using bi(1) by (simp only: r g if_False)
    with bi show "\<exists>bi. get_bi ?st r = Some bi \<and> patched bi \<and> pos bi = a" by blast
  next
    fix a r assume "\<exists>bi. get_bi ?st r = Some bi \<and> patched bi \<and> pos bi = a"
    then obtain bi where bi: "get_bi ?st r = Some bi" "patched bi" "pos bi = a" by blast
    obtain V ql k where r: "r = (V, ql, k)" by (cases r)
    then have "\<not> (V = U \<and> ql = pl)" using u bi by blast
    then have "get_bi st r = Some bi" using bi(1) by (simp only: r g if_False)
    then have "dt st a = Some r" using bi inv_table [OF inv] by blast
    then show "dt ?st a = Some r" by (simp add: dbg)
  qed
  moreover have "info_ok env ?X ?st r bi" if r: "get_bi ?st r = Some bi" for r bi
  proof -
    obtain V ql k where rk: "r = (V, ql, k)" by (cases r)
    show ?thesis
    proof (cases "V = U \<and> ql = pl")
      case True
      then show ?thesis using u r by (auto simp: info_ok_def rk)
    next
      case False
      then have "info_ok env {} st r bi" using r inv_info [OF inv] by (auto simp: rk g)
      moreover have "stands env ?st r a v" if "stands env st r a v" for a v
        using that False by (auto simp: stands_def rk e dbg inst_range_def)
      ultimately show ?thesis using False by (auto simp: info_ok_def rk)
    qed
  qed
  ultimately show "bp_inv env ?X ?st"
    using i assms(3,4) by (auto simp: bp_inv_def blocks_ok_def code_ok_def shapes_ok_def e dbg split: if_splits)
  show "lines_ok ?st" using i(5) assms(6) unfolding lines_ok_def g by (auto split: if_splits)
qed

text \<open>A new or moved breakpoint is decoded.\<close>

lemma dbg_decode:
  assumes "good_distorm env" "bp_inv env {(U, pl, i) | i. True} st" "lines_ok st"
    "\<forall>i bi. get_bi st (U, pl, i) = Some bi \<longrightarrow> \<not> used bi \<and> \<not> patched bi"
    "get_bd st U pl = Some bd" "alone env st U pl (bd_addr bd)"
  shows "dbg_inv env (update_breakdata env U pl st)" "moved U pl st (update_breakdata env U pl st)"
    "decoded_lines env st U pl (bd_addr bd) (update_breakdata env U pl st)"
proof -
  have "unarmed env st U (bd_addr bd)" using assms(4) by (intro unarmed_alone [OF assms(2,6)]) blast
  from inv_update [OF assms(2,1,5) this] assms(4)
  have u: "bp_inv env {} (update_breakdata env U pl st)" "moved U pl st (update_breakdata env U pl st)"
    "own_lines U pl (update_breakdata env U pl st)" "decoded_lines env st U pl (bd_addr bd) (update_breakdata env U pl st)" by auto
  then show "dbg_inv env (update_breakdata env U pl st)" "moved U pl st (update_breakdata env U pl st)"
    "decoded_lines env st U pl (bd_addr bd) (update_breakdata env U pl st)"
    using lines_moved [OF assms(3)] by (auto simp: dbg_inv_def)
qed

end
