(* ===== verification/Break_Steps.thy ===== *)
theory Break_Steps
  imports Break_Ops
begin

text \<open>
  The public operations of the debugger keep its invariant: breakpoints set and removed, single
  steps placed and taken away, and traps.
\<close>

section \<open>Regular breakpoints\<close>

lemma any_used_iff:
  assumes "get_bd st U pl = Some bd"
  shows "any_used bd \<longleftrightarrow> (\<exists>i bi. get_bi st (U, pl, i) = Some bi \<and> used bi)"
proof
  assume "any_used bd"
  then obtain i where "i < length (jit_line bd)" "used (jit_line bd ! i)"
    unfolding any_used_def by (metis in_set_conv_nth)
  then show "\<exists>i bi. get_bi st (U, pl, i) = Some bi \<and> used bi" using assms by (auto simp: get_bi_def)
next
  assume "\<exists>i bi. get_bi st (U, pl, i) = Some bi \<and> used bi"
  then obtain i bi where "get_bi st (U, pl, i) = Some bi" "used bi" by blast
  then show "any_used bd" unfolding any_used_def by (intro bexI [of _ bi]) (use assms in \<open>auto simp: get_bi_def split: if_splits\<close>)
qed

lemma new_data_lines:
  "length (jit_line (new_data addr n junk)) = MAX_SUBINSTRUCTIONS"
  "bi \<in> set (jit_line (new_data addr n junk)) \<Longrightarrow> \<not> patched bi \<and> \<not> used bi \<and> pos bi = 0" "bd_addr (new_data addr n junk) = addr"
  "i < MAX_SUBINSTRUCTIONS \<Longrightarrow> jit_line (new_data addr n junk) ! i = new_info junk"
  by (auto simp: new_data_def new_info_def)

lemma dbg_add_bp:
  assumes "dbg_inv env st" "good_distorm env" "breaks st U (physical env addr) = None"
    "alone env st U (Regular (physical env addr)) addr"
  shows "dbg_inv env (add_bp env U addr subcode st)"
    and "inst_range env st U addr = Some (start, sz) \<Longrightarrow>
      distorm_decode env (map (code_mem st) [start..<start + sz]) MAX_SUBINSTRUCTIONS_DISTORM = Some szs \<Longrightarrow> subcode < length szs \<Longrightarrow>
      dt (add_bp env U addr subcode st) (start + sum_list (take subcode szs)) = Some (U, Regular (physical env addr), subcode)"
    and "map_option bd_addr (breaks (add_bp env U addr subcode st) U (physical env addr)) = (if subcode < MAX_SUBINSTRUCTIONS then Some addr else None)"
    and "V \<noteq> U \<or> ql \<noteq> Regular (physical env addr) \<Longrightarrow> get_bi (add_bp env U addr subcode st) (V, ql, j) = get_bi st (V, ql, j)"
    and "get_bi (add_bp env U addr subcode st) (U, Regular (physical env addr), j) = Some bj \<Longrightarrow> used bj \<Longrightarrow> j = subcode"
    and "jits (add_bp env U addr subcode st) = jits st"
proof -
  let ?pl = "Regular (physical env addr)" and ?bd = "new_data addr (junk_count env) (junk_byte env)"
  let ?s = "put_bd U ?pl ?bd st" and ?r = "(U, Regular (physical env addr), subcode)"
  let ?u = "update_breakdata env U ?pl ?s"
  have none: "get_bi st (U, ?pl, i) = None" for i using assms(3) by (simp add: get_bi_def get_bd_def)
  have put: "bp_inv env {(U, ?pl, i) | i. True} ?s" "lines_ok ?s" "\<forall>i bi. get_bi ?s (U, ?pl, i) = Some bi \<longrightarrow> \<not> used bi \<and> \<not> patched bi"
    using dbg_put_unused [OF assms(1), where U = U and pl = ?pl and bd = ?bd] none new_data_lines
    by (auto simp: new_info_def)
  have bd: "get_bd ?s U ?pl = Some ?bd" by (simp add: dbg)
  have "alone env ?s U ?pl addr" using assms(4) by (auto simp: alone_def dbg get_bi_def split: if_splits)
  then have al: "alone env ?s U ?pl (bd_addr ?bd)" by (simp add: new_data_lines)
  note d = dbg_decode [OF assms(2) put bd al]
  have addr: "map_option bd_addr (get_bd ?u U ?pl) = Some addr" using d(2) bd by (simp add: moved_def new_data_lines)
  have t: "dbg_inv env (toggle_sub ?r ?u)" "same_shape ?u (toggle_sub ?r ?u)"
    using alone_moved [OF d(2)] al addr by (auto intro!: dbg_toggle_sub [OF d(1)] simp: new_data_lines)
  have add: "add_bp env U addr subcode st = (if subcode \<ge> MAX_SUBINSTRUCTIONS then st else toggle_sub ?r ?u)"
    using assms(3) by (simp add: add_bp_def Let_def)
  show "dbg_inv env (add_bp env U addr subcode st)" unfolding add using t(1) assms(1) by simp
  show "map_option bd_addr (breaks (add_bp env U addr subcode st) U (physical env addr)) = (if subcode < MAX_SUBINSTRUCTIONS then Some addr else None)"
    using same_shape_addr(2) [OF t(2), of U ?pl] addr assms(3) by (simp add: add get_bd_def)
  show "jits (add_bp env U addr subcode st) = jits st"
    using same_shape_addr(1) [OF t(2)] d(2) by (simp add: add moved_def dbg)
  have um: "get_bi ?u (V, ql, j) = get_bi ?s (V, ql, j)" if "V \<noteq> U \<or> ql \<noteq> ?pl" for V ql j using d(2) that unfolding moved_def by blast
  show "get_bi (add_bp env U addr subcode st) (V, ql, j) = get_bi st (V, ql, j)" if v: "V \<noteq> U \<or> ql \<noteq> ?pl"
  proof -
    have "get_bi ?s (V, ql, j) = get_bi st (V, ql, j)" using v by (auto simp: get_bi_def dbg)
    moreover have "(V, ql, j) \<noteq> ?r" using v by auto
    ultimately show ?thesis using um [OF v] by (simp add: add toggle_sub_other)
  qed
  have uu: "\<not> used bi" if "get_bi ?u (U, ?pl, j) = Some bi" for j bi
  proof -
    have "map_option used (get_bi ?u (U, ?pl, j)) = map_option used (get_bi ?s (U, ?pl, j))" using d(2) unfolding moved_def by blast
    then show ?thesis using that put(3) by (cases "get_bi ?s (U, ?pl, j)") auto
  qed
  show "j = subcode" if bj: "get_bi (add_bp env U addr subcode st) (U, ?pl, j) = Some bj" "used bj"
  proof (rule ccontr)
    assume n: "j \<noteq> subcode"
    then have "get_bi ?u (U, ?pl, j) = Some bj" using bj(1) none by (auto simp: add toggle_sub_other split: if_splits)
    then show False using uu bj(2) by blast
  qed
  assume ir: "inst_range env st U addr = Some (start, sz)" and
    dec: "distorm_decode env (map (code_mem st) [start..<start + sz]) MAX_SUBINSTRUCTIONS_DISTORM = Some szs" and sub: "subcode < length szs"
  from assms(2) [unfolded good_distorm_def, rule_format, OF dec] sub have l: "subcode < MAX_SUBINSTRUCTIONS"
    by (simp add: MAX_SUBINSTRUCTIONS_def MAX_SUBINSTRUCTIONS_DISTORM_def)
  have ir': "inst_range env ?s U addr = Some (start, sz)" "code_mem ?s = code_mem st" using ir by (simp_all add: inst_range_def dbg)
  obtain bu where bu: "get_bd ?u U ?pl = Some bu" using addr by auto
  then have "length (jit_line bu) = MAX_SUBINSTRUCTIONS" using d(1) by (simp add: dbg_inv_def bp_inv_def shapes_ok_def)
  then obtain bi where bi: "get_bi ?u ?r = Some bi" using bu l by (simp add: get_bi_def)
  have p: "pos bi = start + sum_list (take subcode szs)"
    using d(3) ir' dec sub bi unfolding decoded_lines_def by (simp add: new_data_lines)
  have "\<not> used bi" by (rule uu [OF bi])
  then have "map_option used (get_bi (toggle_sub ?r ?u) ?r) = Some True" using toggle_sub_used [of ?r ?u] bi by simp
  then obtain bj where bj: "get_bi (toggle_sub ?r ?u) ?r = Some bj" "used bj" by auto
  then have "pos bj = pos bi" using toggle_sub_pos [OF bj(1)] bi by simp
  moreover have "blocks_ok st" using assms(1) by (simp add: dbg_inv_def bp_inv_def)
  then have "0 < start" by (rule inst_range_inside [OF _ ir])
  ultimately have "dt (toggle_sub ?r ?u) (pos bi) = Some ?r"
    using t(1) bj p inv_used [of env "{}" "toggle_sub ?r ?u" ?r bj] inv_table [of env "{}" "toggle_sub ?r ?u" "pos bi" ?r]
    by (auto simp: dbg_inv_def)
  then show "dt (add_bp env U addr subcode st) (start + sum_list (take subcode szs)) = Some ?r" using l by (simp add: add p)
qed

lemma dbg_erase:
  assumes "dbg_inv env st" "breaks st U p = Some bd" "\<not> any_used bd"
  shows "dbg_inv env (st\<lparr>breaks := (breaks st)(U := (breaks st U)(p := None))\<rparr>)" (is "dbg_inv env ?st")
proof -
  have inv: "bp_inv env {} st" and i: "blocks_ok st" "code_ok st" "shapes_ok env st" "lines_ok st"
    using assms(1) by (simp_all add: dbg_inv_def bp_inv_def)
  have gd: "get_bd ?st V ql = (if V = U \<and> ql = Regular p then None else get_bd st V ql)" for V ql
    by (simp add: get_bd_def split: bplace.split)
  have g: "get_bi ?st (V, ql, k) = (if V = U \<and> ql = Regular p then None else get_bi st (V, ql, k))" for V ql k
    by (simp add: get_bi_def gd)
  have e: "emitted_at ?st = emitted_at st" by (simp add: emitted_at_def fun_eq_iff)
  have np: "\<not> patched bi" if "get_bi st (U, Regular p, k) = Some bi" for k bi
    using inv_used [OF inv that] that any_used_iff [of st U "Regular p" bd] assms(2,3) by (auto simp: get_bd_def)
  have "table_ok ?st" unfolding table_ok_def
  proof (intro allI)
    fix a and r :: bref
    obtain V ql k where r: "r = (V, ql, k)" by (cases r)
    have "(dt st a = Some r) = (\<exists>bi. get_bi st r = Some bi \<and> patched bi \<and> pos bi = a)" by (rule inv_table [OF inv])
    then show "(dt ?st a = Some r) = (\<exists>bi. get_bi ?st r = Some bi \<and> patched bi \<and> pos bi = a)"
      using np unfolding r g by (cases "V = U \<and> ql = Regular p") auto
  qed
  moreover have "info_ok env {} ?st r bi" if r: "get_bi ?st r = Some bi" for r bi
  proof -
    obtain V ql k where rk: "r = (V, ql, k)" by (cases r)
    then have n: "\<not> (V = U \<and> ql = Regular p)" "get_bi st r = Some bi" using r by (auto simp: g split: if_splits)
    have "stands env ?st r a v" if "stands env st r a v" for a v
      using that n(1) by (auto simp: stands_def rk e gd inst_range_def)
    then show ?thesis using inv_info [OF inv n(2)] by (auto simp: info_ok_def)
  qed
  moreover have "lines_ok ?st" using i(4) unfolding lines_ok_def g by auto
  ultimately show ?thesis
    using i by (auto simp: dbg_inv_def bp_inv_def blocks_ok_def code_ok_def shapes_ok_def e gd split: if_splits)
qed

text \<open>\<^verbatim>\<open>toggle\<close>, where no other breakpoint of the instruction is set.\<close>

lemma dbg_toggle:
  assumes "dbg_inv env st" "good_distorm env" "alone env st U (Regular (physical env addr)) addr"
    "\<And>bd. breaks st U (physical env addr) = Some bd \<Longrightarrow> same_inst env U (bd_addr bd) addr"
  shows "dbg_inv env (toggle env U addr subcode st)"
proof -
  let ?p = "physical env addr"
  show ?thesis
  proof (cases "breaks st U ?p")
    case None
    then show ?thesis using dbg_add_bp [OF assms(1,2) None assms(3)] assms(1) by (simp add: toggle_def Let_def)
  next
    case (Some bd)
    let ?s = "toggle_sub (U, Regular ?p, subcode) st"
    have "alone env st U (Regular ?p) (bd_addr bd)"
      using assms(3) assms(4) [OF Some] by (auto simp: alone_def same_inst_def)
    then have s: "dbg_inv env ?s" using Some by (intro dbg_toggle_sub [OF assms(1)]) (auto simp: get_bd_def)
    then show ?thesis using Some assms(1) dbg_erase [OF s] by (auto simp: toggle_def Let_def split: option.split)
  qed
qed


section \<open>Single steps\<close>

definition single_unused :: "iset \<Rightarrow> debugger \<Rightarrow> bool" where
  "single_unused U st = (\<forall>k i bi. get_bi st (U, Single k, i) = Some bi \<longrightarrow> \<not> used bi)"

text \<open>Removing single steps: the regular breakpoints are as before.\<close>

definition same_regular :: "debugger \<Rightarrow> debugger \<Rightarrow> bool" where
  "same_regular st st' = (same_shape st st' \<and> (\<forall>U p i. get_bi st' (U, Regular p, i) = get_bi st (U, Regular p, i)))"

lemma dbg_toggle_used:
  assumes "dbg_inv env st"
  shows "dbg_inv env (toggle_used (U, Single k, i) st) \<and> same_regular st (toggle_used (U, Single k, i) st) \<and>
    (\<forall>q. q \<noteq> (U, Single k, i) \<longrightarrow> get_bi (toggle_used (U, Single k, i) st) q = get_bi st q) \<and>
    (\<forall>bi. get_bi (toggle_used (U, Single k, i) st) (U, Single k, i) = Some bi \<longrightarrow> \<not> used bi)"
proof (cases "\<exists>bi. get_bi st (U, Single k, i) = Some bi \<and> used bi")
  case True
  then obtain bi where bi: "get_bi st (U, Single k, i) = Some bi" "used bi" by blast
  then have t: "toggle_used (U, Single k, i) st = toggle_sub (U, Single k, i) st" by (simp add: toggle_used_def)
  have d: "dbg_inv env (toggle_sub (U, Single k, i) st)" "same_shape st (toggle_sub (U, Single k, i) st)"
    using bi by (auto intro!: dbg_toggle_sub [OF assms])
  have "\<not> used bj" if "get_bi (toggle_sub (U, Single k, i) st) (U, Single k, i) = Some bj" for bj
    using that toggle_sub_used [of "(U, Single k, i)" st] bi by simp
  then show ?thesis unfolding t same_regular_def using d toggle_sub_other [of _ "(U, Single k, i)" st] by simp
next
  case False
  then have "toggle_used (U, Single k, i) st = st" by (auto simp: toggle_used_def split: option.split)
  then show ?thesis using False assms by (auto simp: same_regular_def)
qed

lemma same_regular_trans: "same_regular st st' \<Longrightarrow> same_regular st' st'' \<Longrightarrow> same_regular st st''"
  using same_shape_trans by (auto simp: same_regular_def)

lemma dbg_unset:
  assumes "dbg_inv env st"
  shows "dbg_inv env (unset_onetime U st)" "same_regular st (unset_onetime U st)" "single_unused U (unset_onetime U st)"
proof -
  let ?f = "\<lambda>i st. toggle_used (U, Single True, i) (toggle_used (U, Single False, i) st)"
  have f: "dbg_inv env (fold ?f [0..<n] st) \<and> same_regular st (fold ?f [0..<n] st) \<and>
    (\<forall>k i bi. i < n \<longrightarrow> get_bi (fold ?f [0..<n] st) (U, Single k, i) = Some bi \<longrightarrow> \<not> used bi)" for n
  proof (induction n)
    case (Suc n)
    let ?s = "fold ?f [0..<n] st"
    let ?s1 = "toggle_used (U, Single False, n) ?s"
    let ?s2 = "toggle_used (U, Single True, n) ?s1"
    have s1: "dbg_inv env ?s1" "same_regular ?s ?s1" "\<And>q. q \<noteq> (U, Single False, n) \<Longrightarrow> get_bi ?s1 q = get_bi ?s q"
      "\<And>bi. get_bi ?s1 (U, Single False, n) = Some bi \<Longrightarrow> \<not> used bi"
      using dbg_toggle_used [of env ?s U False n] Suc by blast+
    have s2: "dbg_inv env ?s2" "same_regular ?s1 ?s2" "\<And>q. q \<noteq> (U, Single True, n) \<Longrightarrow> get_bi ?s2 q = get_bi ?s1 q"
      "\<And>bi. get_bi ?s2 (U, Single True, n) = Some bi \<Longrightarrow> \<not> used bi"
      using dbg_toggle_used [OF s1(1), of U True n] by blast+
    have "\<not> used bi" if "i < Suc n" "get_bi ?s2 (U, Single k, i) = Some bi" for k i bi
    proof (cases "i = n")
      case True
      then show ?thesis using that s1(4) s2(3,4) by (cases k) auto
    next
      case False
      then have "get_bi ?s (U, Single k, i) = Some bi" "i < n" using that s1(3) s2(3) by auto
      then show ?thesis using Suc by blast
    qed
    moreover have "same_regular st ?s2" using Suc s1(2) s2(2) same_regular_trans by blast
    ultimately show ?case using s2(1) by simp
  qed (simp add: assms same_regular_def)
  show d: "dbg_inv env (unset_onetime U st)" "same_regular st (unset_onetime U st)"
    using f unfolding unset_onetime_def by blast+
  have "i < MAX_SUBINSTRUCTIONS" if "get_bi (unset_onetime U st) (U, Single k, i) = Some bi" for k i bi
    using that d(1) by (auto simp: get_bi_def dbg_inv_def bp_inv_def shapes_ok_def split: option.splits if_splits)
  then show "single_unused U (unset_onetime U st)" using f [of MAX_SUBINSTRUCTIONS] unfolding single_unused_def unset_onetime_def by blast
qed


text \<open>A regular breakpoint of the instruction is set.\<close>

definition regular_at :: "dbg_env \<Rightarrow> debugger \<Rightarrow> iset \<Rightarrow> u32 \<Rightarrow> bool" where
  "regular_at env st U addr = (\<exists>p bd i bi. get_bd st U (Regular p) = Some bd \<and> same_inst env U (bd_addr bd) addr \<and>
     get_bi st (U, Regular p, i) = Some bi \<and> used bi)"

definition keeps_regular :: "debugger \<Rightarrow> debugger \<Rightarrow> bool" where
  "keeps_regular st st' = ((\<forall>U p. map_option bd_addr (get_bd st' U (Regular p)) = map_option bd_addr (get_bd st U (Regular p))) \<and>
     (\<forall>U p i. get_bi st' (U, Regular p, i) = get_bi st (U, Regular p, i)))"

lemma keeps_regular_trans: "keeps_regular st st' \<Longrightarrow> keeps_regular st' st'' \<Longrightarrow> keeps_regular st st''"
  by (simp add: keeps_regular_def)

lemma same_keeps_regular: "same_regular st st' \<Longrightarrow> keeps_regular st st'"
  using same_shape_addr by (simp add: same_regular_def keeps_regular_def)

lemma regular_at_keeps:
  assumes "keeps_regular st st'" "\<not> regular_at env st U addr"
  shows "\<not> regular_at env st' U addr"
proof
  assume "regular_at env st' U addr"
  then obtain p bd i bi where q: "get_bd st' U (Regular p) = Some bd" "same_inst env U (bd_addr bd) addr"
    "get_bi st' (U, Regular p, i) = Some bi" "used bi" by (auto simp: regular_at_def)
  have "map_option bd_addr (get_bd st' U (Regular p)) = map_option bd_addr (get_bd st U (Regular p))"
    "get_bi st' (U, Regular p, i) = get_bi st (U, Regular p, i)" using assms(1) by (simp_all add: keeps_regular_def)
  then obtain bd0 where "get_bd st U (Regular p) = Some bd0" "bd_addr bd0 = bd_addr bd" "get_bi st (U, Regular p, i) = Some bi"
    using q by (cases "get_bd st U (Regular p)") auto
  then show False using assms(2) q unfolding regular_at_def by metis
qed

lemma alone_single:
  assumes "\<not> regular_at env st U addr"
    "\<And>i bi. get_bi st (U, Single (\<not> k), i) = Some bi \<Longrightarrow> \<not> used bi \<or> \<not> same_inst env U (bd_addr (single_step st U (\<not> k))) addr"
  shows "alone env st U (Single k) addr"
  unfolding alone_def
proof (intro allI impI)
  fix ql bd j bj
  assume q: "ql \<noteq> Single k" "get_bd st U ql = Some bd" "same_inst env U (bd_addr bd) addr" "get_bi st (U, ql, j) = Some bj"
  show "\<not> used bj"
  proof (cases ql)
    case (Regular p)
    then show ?thesis using assms(1) q unfolding regular_at_def by blast
  next
    case (Single k')
    then have k': "k' = (\<not> k)" using q(1) by auto
    then have "bd = single_step st U (\<not> k)" using q(2) Single by (simp add: get_bd_def)
    then show ?thesis using assms(2) q Single k' by blast
  qed
qed

lemma dbg_aim:
  assumes "dbg_inv env st" "good_distorm env" "\<forall>i bi. get_bi st (U, Single k, i) = Some bi \<longrightarrow> \<not> used bi"
    "alone env st U (Single k) addr"
  shows "dbg_inv env (aim env U k addr st)" "keeps_regular st (aim env U k addr st)"
    "bd_addr (single_step (aim env U k addr st) U k) = addr" "alone env (aim env U k addr st) U (Single k) addr"
    "\<And>i bi. get_bi (aim env U k addr st) (U, Single k, i) = Some bi \<Longrightarrow> \<not> used bi"
    "\<And>i. get_bi (aim env U k addr st) (U, Single (\<not> k), i) = get_bi st (U, Single (\<not> k), i)"
    "bd_addr (single_step (aim env U k addr st) U (\<not> k)) = bd_addr (single_step st U (\<not> k))"
proof -
  let ?pl = "Single k" and ?bd = "(single_step st U k)\<lparr>bd_addr := addr\<rparr>"
  let ?s = "put_bd U ?pl ?bd st"
  let ?t = "aim env U k addr st"
  have inv: "bp_inv env {} st" "lines_ok st" and sh: "shapes_ok env st" using assms(1) by (simp_all add: dbg_inv_def bp_inv_def)
  have line: "get_bi st (U, ?pl, i) = Some (jit_line ?bd ! i)" if "i < length (jit_line ?bd)" for i
    using that by (simp add: get_bi_def get_bd_def)
  have put: "bp_inv env {(U, ?pl, i) | i. True} ?s" "lines_ok ?s"
    "\<forall>i bi. get_bi ?s (U, ?pl, i) = Some bi \<longrightarrow> \<not> used bi \<and> \<not> patched bi"
  proof -
    have "get_bd st U ?pl = Some (single_step st U k)" by (simp add: get_bd_def)
    then have l: "length (jit_line ?bd) = MAX_SUBINSTRUCTIONS" using sh unfolding shapes_ok_def by simp
    have u: "\<not> patched bi \<and> \<not> used bi" if b: "bi \<in> set (jit_line ?bd)" for bi
    proof -
      obtain i where i: "i < length (jit_line ?bd)" "bi = jit_line ?bd ! i" using b by (metis in_set_conv_nth)
      then have "get_bi st (U, ?pl, i) = Some bi" using line by simp
      then show ?thesis using assms(3) inv_used [OF inv(1)] by blast
    qed
    have d: "j = i" if "i < length (jit_line ?bd)" "j < length (jit_line ?bd)" "pos (jit_line ?bd ! i) \<noteq> 0"
      "pos (jit_line ?bd ! j) = pos (jit_line ?bd ! i)" for i j
      using inv(2) line [OF that(1)] line [OF that(2)] that(3,4) unfolding lines_ok_def by blast
    have r: "physical env (bd_addr ?bd) = p" if "?pl = Regular p" for p using that by simp
    note pu = dbg_put_unused [OF assms(1) _ l]
    show "bp_inv env {(U, ?pl, i) | i. True} ?s" "lines_ok ?s" by (rule pu; use assms(3) r u d in blast)+
    have "\<not> used bi \<and> \<not> patched bi" if "get_bi ?s (U, ?pl, i) = Some bi" for i bi
      by (rule pu(3) [OF _ _ _ _ that]) (use assms(3) r u d in blast)+
    then show "\<forall>i bi. get_bi ?s (U, ?pl, i) = Some bi \<longrightarrow> \<not> used bi \<and> \<not> patched bi" by blast
  qed
  have bd: "get_bd ?s U ?pl = Some ?bd" by (simp add: dbg)
  have gs: "get_bi ?s (V, ql, i) = get_bi st (V, ql, i)" for V ql i
  proof -
    have "get_bd st U ?pl = Some (single_step st U k)" by (simp add: get_bd_def)
    then show ?thesis by (auto simp: get_bi_def dbg)
  qed
  have als: "alone env ?s U ?pl addr" using assms(4) by (auto simp: alone_def gs dbg)
  then have al: "alone env ?s U ?pl (bd_addr ?bd)" by simp
  note d = dbg_decode [OF assms(2) put bd al]
  let ?u = "update_breakdata env U ?pl ?s"
  have m: "map_option bd_addr (get_bd ?u V ql) = map_option bd_addr (get_bd ?s V ql)"
    "map_option used (get_bi ?u q) = map_option used (get_bi ?s q)"
    "V \<noteq> U \<or> ql \<noteq> ?pl \<Longrightarrow> get_bi ?u (V, ql, i) = get_bi ?s (V, ql, i)" for V ql q i
    using d(2) unfolding moved_def by blast+
  have t: "?t = (if bd_addr (single_step st U k) \<noteq> addr then ?u else st)" by (simp add: aim_def)
  show "dbg_inv env ?t" unfolding t using d(1) assms(1) by simp
  show "keeps_regular st ?t" unfolding t using m by (simp add: keeps_regular_def gs dbg)
  show "bd_addr (single_step ?t U k) = addr" unfolding t using m(1) [of U ?pl] by (simp add: get_bd_def put_bd_def)
  show "alone env ?t U ?pl addr" unfolding t using assms(4) als alone_moved [OF d(2)] by simp
  show "\<not> used bi" if "get_bi ?t (U, ?pl, i) = Some bi" for i bi
    using that assms(3) m(2) [of "(U, ?pl, i)"] unfolding t gs by (cases "get_bi st (U, ?pl, i)") (auto split: if_splits)
  show "get_bi ?t (U, Single (\<not> k), i) = get_bi st (U, Single (\<not> k), i)" for i
    unfolding t using m(3) [of U "Single (\<not> k)" i] by (simp add: gs)
  show "bd_addr (single_step ?t U (\<not> k)) = bd_addr (single_step st U (\<not> k))"
    unfolding t using m(1) [of U "Single (\<not> k)"] by (simp add: get_bd_def put_bd_def)
qed


text \<open>\<^verbatim>\<open>set_onetime\<close>, onto instructions without regular breakpoints.\<close>

definition may_step :: "dbg_env \<Rightarrow> debugger \<Rightarrow> iset \<Rightarrow> u32 \<Rightarrow> u32 \<Rightarrow> nat \<Rightarrow> bool" where
  "may_step env st U addr1 addr2 n = (\<not> regular_at env st U addr1 \<and>
     (n > 1 \<longrightarrow> addr2 \<noteq> addr1 \<longrightarrow> \<not> regular_at env st U addr2 \<and> \<not> same_inst env U addr1 addr2))"

lemma dbg_enable_step:
  assumes "dbg_inv env st" "alone env st U (Single k) (bd_addr (single_step st U k))"
  shows "dbg_inv env (enable_step (U, Single k, i) st)" "same_regular st (enable_step (U, Single k, i) st)"
    "\<And>j. get_bi (enable_step (U, Single k, i) st) (U, Single (\<not> k), j) = get_bi st (U, Single (\<not> k), j)"
    "\<And>l. bd_addr (single_step (enable_step (U, Single k, i) st) U l) = bd_addr (single_step st U l)"
proof -
  have "alone env st U (Single k) (bd_addr bd)" if "get_bd st U (Single k) = Some bd" for bd
    using that assms(2) by (simp add: get_bd_def)
  then have t: "dbg_inv env (toggle_sub (U, Single k, i) st)" "same_shape st (toggle_sub (U, Single k, i) st)"
    by (auto intro: dbg_toggle_sub [OF assms(1)])
  then show "dbg_inv env (enable_step (U, Single k, i) st)" "same_regular st (enable_step (U, Single k, i) st)"
    using toggle_sub_other [of _ "(U, Single k, i)" st] by (auto simp: enable_step_def same_regular_def)
  show "get_bi (enable_step (U, Single k, i) st) (U, Single (\<not> k), j) = get_bi st (U, Single (\<not> k), j)" for j
    by (simp add: enable_step_def toggle_sub_other)
  show "bd_addr (single_step (enable_step (U, Single k, i) st) U l) = bd_addr (single_step st U l)" for l
    using same_shape_addr(2) [OF t(2), of U "Single l"] by (simp add: enable_step_def get_bd_def)
qed

lemma dbg_onetime:
  assumes "dbg_inv env st" "good_distorm env" "may_step env st U addr1 addr2 n"
  shows "dbg_inv env (set_onetime env U addr1 sub1 addr2 sub2 n st)"
proof (cases "\<not> check_numsub sub1 \<or> n > 1 \<and> \<not> check_numsub sub2")
  case False
  let ?a = "unset_onetime U st"
  let ?b = "aim env U False addr1 ?a"
  let ?c = "enable_step (U, Single False, sub1) ?b"
  note a = dbg_unset [OF assms(1), of U]
  have free: "\<forall>i bi. get_bi ?a (U, Single k, i) = Some bi \<longrightarrow> \<not> used bi" for k
    using a(3) unfolding single_unused_def by blast
  have ra: "\<not> regular_at env ?a U addr1" "n > 1 \<Longrightarrow> addr2 \<noteq> addr1 \<Longrightarrow> \<not> regular_at env ?a U addr2"
    using assms(3) regular_at_keeps [OF same_keeps_regular [OF a(2)]] by (auto simp: may_step_def)
  have "alone env ?a U (Single False) addr1" using free by (intro alone_single [OF ra(1)]) blast
  note b = dbg_aim [OF a(1) assms(2) free this]
  have "alone env ?b U (Single False) (bd_addr (single_step ?b U False))" using b(3,4) by simp
  note c = dbg_enable_step [OF b(1) this, of sub1]
  have rc: "keeps_regular ?a ?c" using keeps_regular_trans [OF b(2) same_keeps_regular [OF c(2)]] .
  have other: "get_bi ?c (U, Single True, i) = get_bi ?a (U, Single True, i)" for i using c(3) b(6) by simp
  have same: "dbg_inv env (enable_step (U, Single False, sub2) ?c)"
  proof -
    have "alone env ?c U (Single False) (bd_addr (single_step ?c U False))"
      using c(4) b(3) regular_at_keeps [OF rc ra(1)] free other by (intro alone_single) auto
    then show ?thesis by (rule dbg_enable_step [OF c(1)])
  qed
  have two: "dbg_inv env (enable_step (U, Single True, sub2) (aim env U True addr2 ?c))" if n: "n > 1" "addr2 \<noteq> addr1"
  proof -
    have "\<not> same_inst env U addr1 addr2" using assms(3) n by (simp add: may_step_def)
    then have "alone env ?c U (Single True) addr2"
      using c(4) b(3) by (intro alone_single regular_at_keeps [OF rc ra(2) [OF n]]) auto
    from dbg_aim [OF c(1) assms(2) _ this] free other
    have d: "dbg_inv env (aim env U True addr2 ?c)"
      "alone env (aim env U True addr2 ?c) U (Single True) (bd_addr (single_step (aim env U True addr2 ?c) U True))"
      by auto
    then show ?thesis by (rule dbg_enable_step)
  qed
  show ?thesis unfolding set_onetime_def Let_def using False same two c(1) by (auto simp del: One_nat_def)
qed (use assms(1) in \<open>simp add: set_onetime_def\<close>)

section \<open>Traps\<close>

lemma dbg_inv_frame:
  "dbg_inv env (st\<lparr>last_block := lb, last_sub := n, has_last_error := e\<rparr>) = dbg_inv env st"
  "dbg_inv env (st\<lparr>has_last_error := e\<rparr>) = dbg_inv env st"
proof -
  have "dbg_inv env (st\<lparr>last_block := lb, last_sub := n, has_last_error := e\<rparr>) = dbg_inv env st" for lb n e
    by (simp add: dbg_inv_def bp_inv_def blocks_ok_def table_ok_def code_ok_def shapes_ok_def lines_ok_def info_ok_def emitted_at_def
        stands_def inst_range_def dbg)
  from this this [where lb = "last_block st" and n = "last_sub st"]
  show "dbg_inv env (st\<lparr>last_block := lb, last_sub := n, has_last_error := e\<rparr>) = dbg_inv env st"
    "dbg_inv env (st\<lparr>has_last_error := e\<rparr>) = dbg_inv env st" by simp_all
qed

lemma dbg_trigger:
  assumes "dbg_inv env st"
  shows "dbg_inv env (trigger ip st)"
proof (cases "resolve ip st")
  case (Some r)
  obtain U pl i where r: "r = (U, pl, i)" by (cases r)
  show ?thesis
  proof (cases "get_bd st U pl")
    case (Some bd)
    have "dbg_inv env (st\<lparr>last_block := bd, last_sub := i, has_last_error := True\<rparr>)" using assms by (simp only: dbg_inv_frame(1))
    then show ?thesis using dbg_unset(1) Some by (simp add: trigger_def r \<open>resolve ip st = Some r\<close> Let_def)
  qed (simp add: trigger_def r Some assms)
qed (use assms in \<open>simp add: trigger_def dbg_inv_frame\<close>)

end
