(* ===== verification/Break_Reach.thy ===== *)
theory Break_Reach
  imports Break_Steps
begin

text \<open>
  Recompilation, the debugger as a transition system, and what holds in every state of it.
\<close>

section \<open>Recompilation\<close>

text \<open>The bytes of different pages are at different places of the host.\<close>

definition pages_apart :: "dbg_env \<Rightarrow> bool" where
  "pages_apart env = (\<forall>b c x y. x < PAGE_SIZE \<longrightarrow> y < PAGE_SIZE \<longrightarrow> bmem env b + x = bmem env c + y \<longrightarrow> c = b)"

lemma physical_block:
  assumes "pages_apart env" "bmem env b \<le> physical env addr" "physical env addr < bmem env b + PAGE_SIZE"
  shows "block_at env addr = b"
proof -
  let ?x = "physical env addr - bmem env b"
  have "?x < PAGE_SIZE" "bmem env b + ?x = bmem env (block_at env addr) + unat (addr AND ADDRESS_MASK)"
    using assms(2,3) by (auto simp: physical_def)
  then show ?thesis using assms(1) off8_less [of addr] unfolding pages_apart_def off8_def by metis
qed

lemma physical_range: "bmem env (block_at env addr) \<le> physical env addr" "physical env addr < bmem env (block_at env addr) + PAGE_SIZE"
  using off8_less [of addr] by (simp_all add: physical_def off8_def)

lemma physical_inst:
  assumes "pages_apart env" "physical env a = physical env b"
  shows "same_inst env U a b"
proof -
  have b: "block_at env a = block_at env b"
    using physical_block [OF assms(1)] physical_range [of env b] assms(2) by metis
  then have "unat (a AND ADDRESS_MASK) = unat (b AND ADDRESS_MASK)" using assms(2) by (simp add: physical_def)
  then have "a AND ADDRESS_MASK = b AND ADDRESS_MASK" by (simp only: word_unat_eq_iff)
  then show ?thesis using b by (simp add: same_inst_def instruction_no_def)
qed

text \<open>Where the allocator puts the code of page \<open>b\<close>: outside the code of the other pages, and not on a break byte.\<close>

definition fresh :: "debugger \<Rightarrow> iset \<Rightarrow> nat \<Rightarrow> host_block \<Rightarrow> bool" where
  "fresh st U b hb = (\<forall>k < length (hb_bytes hb). dt st (hb_code hb + k) = None \<and>
     (\<forall>V c v. emitted_at st V c (hb_code hb + k) v \<longrightarrow> V = U \<and> c = b))"

text \<open>The breakpoints of a page.\<close>

definition page_refs :: "dbg_env \<Rightarrow> debugger \<Rightarrow> iset \<Rightarrow> nat \<Rightarrow> bref set" where
  "page_refs env st U b = {(U, pl, i) | pl i. \<exists>bd. get_bd st U pl = Some bd \<and> block_at env (bd_addr bd) = b}"

lemma emitted_new_code:
  "emitted_at (new_code U b hb st) V c a v = (if V = U \<and> c = b
     then (\<exists>k. k < length (hb_bytes hb) \<and> a = hb_code hb + k \<and> v = hb_bytes hb ! k) else emitted_at st V c a v)"
  by (auto simp: emitted_at_def new_code_def)

lemma new_code_frame:
  "get_bd (new_code U b hb st) V pl = get_bd st V pl" "get_bi (new_code U b hb st) r = get_bi st r" "dt (new_code U b hb st) = dt st"
  by (auto simp: new_code_def dbg)

lemma write_code_at: "k < length (hb_bytes hb) \<Longrightarrow> write_code hb m (hb_code hb + k) = hb_bytes hb ! k"
  by (simp add: write_code_def)

lemma write_code_other: "(\<And>k. k < length (hb_bytes hb) \<Longrightarrow> a \<noteq> hb_code hb + k) \<Longrightarrow> write_code hb m a = m a"
  by (auto simp: write_code_def) (metis add_less_cancel_left le_add_diff_inverse)

lemma dbg_new_code:
  assumes "dbg_inv env st" "wf_block U hb" "fresh st U b hb"
  shows "bp_inv env (page_refs env st U b) (new_code U b hb st)" "lines_ok (new_code U b hb st)"
proof -
  let ?st = "new_code U b hb st" and ?X = "page_refs env st U b"
  have inv: "bp_inv env {} st" and i: "blocks_ok st" "table_ok st" "code_ok st" "shapes_ok env st" "lines_ok st"
    using assms(1) by (simp_all add: dbg_inv_def bp_inv_def)
  note e = emitted_new_code [of U b hb st] and fr = new_code_frame [of U b hb st]
  have new: "V = U \<and> c = b" if "emitted_at st V c a v" "a = hb_code hb + k" "k < length (hb_bytes hb)" for V c a v k
    using that assms(3) unfolding fresh_def by blast
  have old: "W = V \<and> d = c" if "emitted_at st V c a v" "emitted_at st W d a w" for V c a v W d w
    using i(1) that unfolding blocks_ok_def by blast
  have "W = V \<and> d = c" if em: "emitted_at ?st V c a v" "emitted_at ?st W d a w" for V c a v W d w
  proof (cases "V = U \<and> c = b")
    case True
    then obtain k where "k < length (hb_bytes hb)" "a = hb_code hb + k" using em(1) by (auto simp: e)
    then show ?thesis using True em(2) new [of W d a w k] unfolding e by (auto split: if_splits)
  next
    case False
    then have 1: "emitted_at st V c a v" using em(1) by (simp only: e if_False)
    show ?thesis
    proof (cases "W = U \<and> d = b")
      case True
      then obtain k where "k < length (hb_bytes hb)" "a = hb_code hb + k" using em(2) by (auto simp: e)
      then show ?thesis using 1 new [OF 1] False by blast
    next
      case False
      then show ?thesis using 1 old em(2) by (simp only: e if_False)
    qed
  qed
  moreover have "wf_block V h" if "jits ?st V c = Some h" for V c h
    using that assms(2) i(1) by (auto simp: new_code_def blocks_ok_def split: if_splits)
  ultimately have "blocks_ok ?st" unfolding blocks_ok_def by blast
  moreover have "code_ok ?st" unfolding code_ok_def
  proof (intro allI impI)
    fix V c a v assume em: "emitted_at ?st V c a v"
    show "code_mem ?st a = (if dt ?st a = None then v else DEBUG_BREAK)"
    proof (cases "V = U \<and> c = b")
      case True
      then obtain k where k: "k < length (hb_bytes hb)" "a = hb_code hb + k" "v = hb_bytes hb ! k" using em by (auto simp: e)
      then have "dt st a = None" using assms(3) by (simp add: fresh_def)
      then show ?thesis using k by (simp add: fr) (simp add: new_code_def write_code_at)
    next
      case False
      then have em': "emitted_at st V c a v" using em by (auto simp: e split: if_splits)
      then have "code_mem ?st a = code_mem st a" using new [OF em'] False by (auto simp: new_code_def intro!: write_code_other)
      then show ?thesis using i(3) em' by (simp add: code_ok_def fr)
    qed
  qed
  moreover have "info_ok env ?X ?st r bi" if r: "get_bi ?st r = Some bi" for r bi
  proof -
    obtain V pl k where rk: "r = (V, pl, k)" by (cases r)
    have o: "info_ok env {} st r bi" using inv_info [OF inv] r by (simp add: fr)
    have st: "block_at env (bd_addr bd) \<noteq> b \<or> V \<noteq> U" if "r \<notin> ?X" "get_bd st V pl = Some bd" for bd
      using that by (auto simp: page_refs_def rk)
    have "stands env ?st r a v" if x: "r \<notin> ?X" "stands env st r a v" for a v
    proof -
      obtain bd s n where bd: "get_bd st V pl = Some bd" "k < jit_instructions bd" "inst_range env st V (bd_addr bd) = Some (s, n)"
        "s \<le> a" "a < s + n" "emitted_at st V (block_at env (bd_addr bd)) a v" using x(2) by (auto simp: stands_def rk)
      have n: "\<not> (V = U \<and> block_at env (bd_addr bd) = b)" using st [OF x(1) bd(1)] by blast
      then have "jits ?st V (block_at env (bd_addr bd)) = jits st V (block_at env (bd_addr bd))" by (auto simp: new_code_def)
      then have "inst_range env ?st V (bd_addr bd) = Some (s, n)" using bd(3) by (simp only: inst_range_def)
      moreover have "emitted_at ?st V (block_at env (bd_addr bd)) a v" using bd(6) n by (simp only: e if_False)
      ultimately show ?thesis using bd(1,2,4,5) by (simp add: stands_def rk fr)
    qed
    moreover have "\<not> emitted_at ?st W c (pos bi) v" if x: "r \<in> ?X" "patched bi" for W c v
    proof
      assume em: "emitted_at ?st W c (pos bi) v"
      have d: "dt st (pos bi) = Some r" using inv_table [OF inv] r x(2) by (auto simp: fr)
      have wc: "W \<noteq> U \<or> c \<noteq> b" using em assms(3) d by (auto simp: e fresh_def)
      then have em': "emitted_at st W c (pos bi) v" using em by (auto simp: e)
      have "stands env st r (pos bi) (original_byte bi)" using o x(2) by (auto simp: info_ok_def)
      then have "emitted_at st U b (pos bi) (original_byte bi)" using x(1) by (auto simp: stands_def page_refs_def rk)
      from old [OF this em'] show False using wc by blast
    qed
    ultimately show ?thesis using o by (auto simp: info_ok_def)
  qed
  moreover have "table_ok ?st" "shapes_ok env ?st" using i(2,4) by (simp_all add: table_ok_def shapes_ok_def fr)
  ultimately show "bp_inv env ?X ?st" by (simp add: bp_inv_def)
  show "lines_ok ?st" using i(5) by (simp add: lines_ok_def fr)
qed

text \<open>The breakpoints of some places are moved one after the other.\<close>

lemma bp_update:
  assumes "bp_inv env X st" "lines_ok st" "good_distorm env" "get_bd st U pl = Some bd" "alone env st U pl (bd_addr bd)"
    "\<And>i. (U, pl, i) \<in> X"
  shows "bp_inv env (X - {(U, pl, i) | i. True}) (update_breakdata env U pl st)" "lines_ok (update_breakdata env U pl st)"
    "moved U pl st (update_breakdata env U pl st)"
proof -
  have "unarmed env st U (bd_addr bd)" using assms(6) by (intro unarmed_alone [OF assms(1,5)]) blast
  from inv_update [OF assms(1,3,4) this] assms(6)
  show u: "bp_inv env (X - {(U, pl, i) | i. True}) (update_breakdata env U pl st)" "moved U pl st (update_breakdata env U pl st)"
    by auto
  have "own_lines U pl (update_breakdata env U pl st)"
    using inv_update [OF assms(1,3,4) \<open>unarmed env st U (bd_addr bd)\<close>] assms(6) by blast
  then show "lines_ok (update_breakdata env U pl st)" by (rule lines_moved [OF assms(2) u(2)])
qed

lemma bp_updates:
  assumes "bp_inv env X st" "lines_ok st" "good_distorm env" "distinct pls"
    "\<And>pl. pl \<in> set pls \<Longrightarrow> (\<exists>bd. get_bd st U pl = Some bd \<and> alone env st U pl (bd_addr bd)) \<and> (\<forall>i. (U, pl, i) \<in> X)"
  shows "bp_inv env (X - {(U, pl, i) | pl i. pl \<in> set pls}) (fold (update_breakdata env U) pls st) \<and>
    lines_ok (fold (update_breakdata env U) pls st) \<and>
    (\<forall>V ql. map_option bd_addr (get_bd (fold (update_breakdata env U) pls st) V ql) = map_option bd_addr (get_bd st V ql))"
  using assms
proof (induction pls arbitrary: X st)
  case (Cons pl pls)
  obtain bd where bd: "get_bd st U pl = Some bd" "alone env st U pl (bd_addr bd)" "\<And>i. (U, pl, i) \<in> X"
    using Cons.prems(5) [of pl] by auto
  let ?s = "update_breakdata env U pl st" and ?Y = "X - {(U, pl, i) | i. True}"
  note u = bp_update [OF Cons.prems(1-3) bd]
  have addr: "map_option bd_addr (get_bd ?s V ql) = map_option bd_addr (get_bd st V ql)" for V ql
    using u(3) by (simp add: moved_def)
  have rest: "(\<exists>bd. get_bd ?s U ql = Some bd \<and> alone env ?s U ql (bd_addr bd)) \<and> (\<forall>i. (U, ql, i) \<in> ?Y)" if "ql \<in> set pls" for ql
  proof -
    have ql: "ql \<in> set (pl # pls)" using that by simp
    obtain bq where "get_bd st U ql = Some bq" "alone env st U ql (bd_addr bq)" "\<forall>i. (U, ql, i) \<in> X"
      using Cons.prems(5) [OF ql] by blast
    moreover have "ql \<noteq> pl" using that Cons.prems(4) by auto
    ultimately show ?thesis using addr [of U ql] alone_moved [OF u(3)] by auto
  qed
  have "distinct pls" using Cons.prems(4) by simp
  note ih = Cons.IH [OF u(1,2) Cons.prems(3) this rest]
  have "?Y - {(U, ql, i) | ql i. ql \<in> set pls} = X - {(U, ql, i) | ql i. ql \<in> set (pl # pls)}" by auto
  then show ?case using ih addr by auto
qed simp


text \<open>Every breakpoint is the only one set at its instruction.\<close>

definition separate :: "dbg_env \<Rightarrow> iset \<Rightarrow> debugger \<Rightarrow> bool" where
  "separate env U st = (\<forall>pl bd. get_bd st U pl = Some bd \<longrightarrow> alone env st U pl (bd_addr bd))"

text \<open>The places \<^verbatim>\<open>for_region\<close> visits.\<close>

definition region_places :: "dbg_env \<Rightarrow> debugger \<Rightarrow> iset \<Rightarrow> haddr \<Rightarrow> haddr \<Rightarrow> bplace list" where
  "region_places env st U lo hi = map Regular (filter (\<lambda>p. breaks st U p \<noteq> None) [lo..<hi]) @
     map Single (filter (single_in env st U lo hi) [False, True])"

lemma region_places_set:
  "pl \<in> set (region_places env st U lo hi) \<longleftrightarrow> (case pl of Regular p \<Rightarrow> lo \<le> p \<and> p < hi \<and> breaks st U p \<noteq> None
     | Single k \<Rightarrow> single_in env st U lo hi k)"
proof (cases pl)
  case (Single k)
  then show ?thesis by (cases k) (auto simp: region_places_def)
qed (auto simp: region_places_def)

lemma region_places_distinct: "distinct (region_places env st U lo hi)"
  by (auto simp: region_places_def distinct_map inj_on_def)

text \<open>A callback that keeps the addresses is called on exactly these.\<close>

lemma for_region_fold:
  assumes "\<And>pls V ql. set pls \<subseteq> set (region_places env st U lo hi) \<Longrightarrow> distinct pls \<Longrightarrow>
    map_option bd_addr (get_bd (fold f pls st) V ql) = map_option bd_addr (get_bd st V ql)"
  shows "for_region env U f lo hi st = fold f (region_places env st U lo hi) st"
proof -
  define r where "r = map Regular (filter (\<lambda>p. breaks st U p \<noteq> None) [lo..<hi])"
  let ?s = "fold f r st"
  let ?t = "if single_in env ?s U lo hi False then f (Single False) ?s else ?s"
  have addr: "bd_addr (single_step (fold f pls st) U k) = bd_addr (single_step st U k)"
    if "set pls \<subseteq> set (region_places env st U lo hi)" "distinct pls" for pls k
    using assms [OF that, of U "Single k"] by (simp add: get_bd_def)
  have rs: "set r \<subseteq> set (region_places env st U lo hi)" "distinct r" by (auto simp: r_def region_places_def distinct_map inj_on_def)
  have s: "single_in env ?s U lo hi k = single_in env st U lo hi k" for k using addr [OF rs, of k] by (simp add: single_in_def)
  have "single_in env ?t U lo hi True = single_in env st U lo hi True"
  proof (cases "single_in env st U lo hi False")
    case True
    have "set (r @ [Single False]) \<subseteq> set (region_places env st U lo hi)" "distinct (r @ [Single False])"
      using rs True by (auto simp: r_def region_places_def)
    from addr [OF this, of True] show ?thesis using True s by (simp add: single_in_def)
  qed (simp add: s)
  moreover have "for_region env U f lo hi st = (if single_in env ?t U lo hi True then f (Single True) ?t else ?t)"
    by (simp only: for_region_def r_def fold_map comp_def Let_def)
  ultimately show ?thesis unfolding region_places_def r_def [symmetric] using s by simp
qed


lemma dbg_recompiled:
  assumes "dbg_inv env st" "good_distorm env" "pages_apart env" "wf_block U hb" "fresh st U b hb" "separate env U st"
  shows "dbg_inv env (recompiled env U b hb st)"
proof -
  let ?s = "new_code U b hb st" and ?lo = "bmem env b" and ?hi = "bmem env b + PAGE_SIZE" and ?X = "page_refs env st U b"
  let ?pls = "region_places env ?s U ?lo ?hi"
  note n = dbg_new_code [OF assms(1,4,5)] and fr = new_code_frame [of U b hb st]
  have phys: "\<exists>bd. get_bd st U pl = Some bd \<and> ?lo \<le> physical env (bd_addr bd) \<and> physical env (bd_addr bd) < ?hi"
    if pl: "pl \<in> set ?pls" for pl
  proof (cases pl)
    case (Regular p)
    then obtain bd where bd: "get_bd st U (Regular p) = Some bd" "?lo \<le> p" "p < ?hi"
      using pl by (auto simp: region_places_set get_bd_def new_code_def)
    moreover have "physical env (bd_addr bd) = p" using assms(1) bd(1) by (simp add: dbg_inv_def bp_inv_def shapes_ok_def)
    ultimately show ?thesis using Regular by auto
  next
    case (Single k)
    then show ?thesis using pl unfolding region_places_set by (auto simp: single_in_def Let_def get_bd_def new_code_def)
  qed
  have pl: "(\<exists>bd. get_bd ?s U pl = Some bd \<and> alone env ?s U pl (bd_addr bd)) \<and> (\<forall>i. (U, pl, i) \<in> ?X)" if pls: "pl \<in> set ?pls" for pl
  proof -
    obtain bd where bd: "get_bd st U pl = Some bd" "?lo \<le> physical env (bd_addr bd)" "physical env (bd_addr bd) < ?hi"
      using phys [OF pls] by blast
    have "block_at env (bd_addr bd) = b" by (rule physical_block [OF assms(3) bd(2,3)])
    moreover have "alone env ?s U pl (bd_addr bd)" using assms(6) bd(1) by (simp add: separate_def alone_def fr)
    ultimately show ?thesis using bd(1) by (auto simp: page_refs_def fr)
  qed
  have upd: "bp_inv env (?X - {(U, pl, i) | pl i. pl \<in> set pls}) (fold (update_breakdata env U) pls ?s) \<and>
    lines_ok (fold (update_breakdata env U) pls ?s) \<and>
    (\<forall>V ql. map_option bd_addr (get_bd (fold (update_breakdata env U) pls ?s) V ql) = map_option bd_addr (get_bd ?s V ql))"
    if "set pls \<subseteq> set ?pls" "distinct pls" for pls
    using pl that(1) by (intro bp_updates [OF n assms(2) that(2)]) blast
  have X: "?X - {(U, pl, i) | pl i. pl \<in> set ?pls} = {}"
  proof -
    have "pl \<in> set ?pls" if x: "get_bd st U pl = Some bd" "block_at env (bd_addr bd) = b" for pl bd
    proof (cases pl)
      case (Regular p)
      have "physical env (bd_addr bd) = p" using assms(1) x(1) Regular by (simp add: dbg_inv_def bp_inv_def shapes_ok_def)
      then show ?thesis using physical_range [of env "bd_addr bd"] x Regular
        by (auto simp: region_places_set get_bd_def new_code_def)
    next
      case (Single k)
      then show ?thesis using physical_range [of env "bd_addr bd"] x
        by (auto simp: region_places_set single_in_def Let_def get_bd_def new_code_def)
    qed
    then show ?thesis by (auto simp: page_refs_def)
  qed
  have "recompiled env U b hb st = fold (update_breakdata env U) ?pls ?s"
    unfolding recompiled_def using upd by (intro for_region_fold) blast
  then show ?thesis using upd [OF order_refl region_places_distinct] unfolding X dbg_inv_def by simp
qed


section \<open>The debugger as a transition system\<close>

definition no_data :: break_data where
  "no_data = \<lparr>bd_addr = 0, jit_instructions = 0, jit_line = replicate MAX_SUBINSTRUCTIONS (new_info 0)\<rparr>"

text \<open>At the start nothing is compiled and nothing set.\<close>

definition dbg_start :: "(haddr \<Rightarrow> u8) \<Rightarrow> debugger" where
  "dbg_start m = \<lparr>code_mem = m, dt = (\<lambda>_. None), breaks = (\<lambda>_ _. None), single_step = (\<lambda>_ _. no_data), jits = (\<lambda>_ _. None),
     last_block = no_data, last_sub = 0, has_last_error = False\<rparr>"

text \<open>
  The steps: a page is compiled, a breakpoint is set or removed where no other one is, the next
  stop is planned at instructions without breakpoints, the plan is dropped, the host traps.
\<close>

inductive dbg_step :: "dbg_env \<Rightarrow> debugger \<Rightarrow> debugger \<Rightarrow> bool" for env where
  compile_step: "wf_block U hb \<Longrightarrow> fresh st U b hb \<Longrightarrow> separate env U st \<Longrightarrow> dbg_step env st (recompiled env U b hb st)"
| toggle_step: "alone env st U (Regular (physical env addr)) addr \<Longrightarrow> dbg_step env st (toggle env U addr sub st)"
| onetime_step: "may_step env st U addr1 addr2 n \<Longrightarrow> dbg_step env st (set_onetime env U addr1 sub1 addr2 sub2 n st)"
| unset_step: "dbg_step env st (unset_onetime U st)"
| trap_step: "dbg_step env st (trigger ip st)"
| clear_step: "dbg_step env st (clear_last_error st)"

inductive dbg_reach :: "dbg_env \<Rightarrow> debugger \<Rightarrow> bool" for env where
  reach_start: "dbg_reach env (dbg_start m)"
| reach_step: "dbg_reach env st \<Longrightarrow> dbg_step env st st' \<Longrightarrow> dbg_reach env st'"

lemma dbg_inv_start: "dbg_inv env (dbg_start m)"
proof -
  have g: "get_bi (dbg_start m) (U, pl, i) = (case pl of Regular p \<Rightarrow> None | Single k \<Rightarrow> if i < MAX_SUBINSTRUCTIONS then Some (new_info 0) else None)"
    for U pl i by (simp add: get_bi_def get_bd_def dbg_start_def no_data_def split: bplace.split)
  have i: "bi = new_info 0" if "get_bi (dbg_start m) r = Some bi" for r bi
    using that by (cases r) (auto simp: g split: bplace.splits if_splits)
  have n: "\<not> patched (new_info 0)" "\<not> used (new_info 0)" "pos (new_info 0) = 0" by (simp_all add: new_info_def)
  have e: "\<not> emitted_at (dbg_start m) U b a v" and j: "jits (dbg_start m) U b = None" and d: "dt (dbg_start m) a = None" for U b a v
    by (simp_all add: emitted_at_def dbg_start_def)
  have bd: "get_bd (dbg_start m) U pl = (case pl of Regular p \<Rightarrow> None | Single k \<Rightarrow> Some no_data)" for U pl
    by (simp add: get_bd_def dbg_start_def split: bplace.split)
  have "blocks_ok (dbg_start m)" "code_ok (dbg_start m)" by (simp_all add: blocks_ok_def code_ok_def e j)
  moreover have "\<not> patched bi" if "get_bi (dbg_start m) r = Some bi" for r bi using i [OF that] n(1) by simp
  then have "table_ok (dbg_start m)" by (auto simp: table_ok_def d)
  moreover have "shapes_ok env (dbg_start m)" unfolding shapes_ok_def bd by (auto simp: no_data_def split: bplace.splits)
  moreover have "info_ok env {} (dbg_start m) r bi" if "get_bi (dbg_start m) r = Some bi" for r bi
    using i [OF that] n by (simp add: info_ok_def)
  moreover have "pos bi = 0" if "get_bi (dbg_start m) r = Some bi" for r bi using i [OF that] n(3) by simp
  then have "lines_ok (dbg_start m)" by (auto simp: lines_ok_def)
  ultimately show ?thesis by (simp add: dbg_inv_def bp_inv_def)
qed

lemma dbg_inv_step:
  assumes "dbg_inv env st" "good_distorm env" "pages_apart env" "dbg_step env st st'"
  shows "dbg_inv env st'"
  using assms(4)
proof (cases rule: dbg_step.cases)
  case (compile_step U hb b)
  then show ?thesis using dbg_recompiled [OF assms(1-3)] by simp
next
  case (toggle_step U addr sub)
  have "same_inst env U (bd_addr bd) addr" if "breaks st U (physical env addr) = Some bd" for bd
  proof (rule physical_inst [OF assms(3)])
    have "get_bd st U (Regular (physical env addr)) = Some bd" using that by (simp add: get_bd_def)
    then show "physical env (bd_addr bd) = physical env addr" using assms(1) unfolding dbg_inv_def bp_inv_def shapes_ok_def by blast
  qed
  then show ?thesis using toggle_step dbg_toggle [OF assms(1,2)] by simp
qed (use assms(1,2) dbg_onetime dbg_unset(1) dbg_trigger dbg_inv_frame(2) in \<open>auto simp: clear_last_error_def\<close>)

lemma dbg_reach_inv:
  assumes "dbg_reach env st" "good_distorm env" "pages_apart env"
  shows "dbg_inv env st"
  using assms(1)
proof induction
  case (reach_start m)
  show ?case by (rule dbg_inv_start)
next
  case (reach_step st st')
  then show ?case using dbg_inv_step [OF _ assms(2,3)] by blast
qed

end
