(* ===== verification/Break_Props.thy ===== *)
theory Break_Props
  imports Break_Reach
begin

text \<open>
  The properties of the breakpoints, with a sample of the debugger at work, and what goes
  wrong outside the conditions of the steps.
\<close>

section \<open>What a trap changes\<close>

lemma last_put: "last_block (put_bi r bi st) = last_block st" "last_sub (put_bi r bi st) = last_sub st"
  "has_last_error (put_bi r bi st) = has_last_error st"
  by (auto simp: put_bi_def put_bd_def split: prod.split option.split bplace.split)

lemma get_last_put: "get_last_error (put_bi r bi st) = get_last_error st"
  by (simp add: get_last_error_def last_put)

lemma get_last_toggle: "get_last_error (toggle_used r st) = get_last_error st"
  by (auto simp: get_last_error_def toggle_used_def toggle_sub_def patch_bi_def unpatch_bi_def last_put Let_def split: option.split)

lemma get_last_unset: "get_last_error (unset_onetime U st) = get_last_error st"
proof -
  have "get_last_error (fold (\<lambda>i st. toggle_used (U, Single True, i) (toggle_used (U, Single False, i) st)) is st) = get_last_error st" for "is"
    by (induction "is" arbitrary: st) (simp_all add: get_last_toggle)
  then show ?thesis by (simp add: unset_onetime_def)
qed

section \<open>The listing of the code\<close>

lemma length_unpatch: "length (unpatch_copy code bd buffer) = length buffer"
proof -
  have "length (fold (\<lambda>i buffer. let bi = jit_line bd ! i in if patched bi then buffer[pos bi - code := original_byte bi] else buffer) is buffer)
    = length buffer" for "is" by (induction "is" arbitrary: buffer) (simp_all add: Let_def)
  then show ?thesis by (simp add: unpatch_copy_def)
qed

lemma unpatch_copy_nth:
  assumes "k < length buffer" "\<And>i. i < jit_instructions bd \<Longrightarrow> patched (jit_line bd ! i) \<Longrightarrow> pos (jit_line bd ! i) = code + k \<Longrightarrow>
      original_byte (jit_line bd ! i) = v"
    "\<And>i. i < jit_instructions bd \<Longrightarrow> patched (jit_line bd ! i) \<Longrightarrow> code \<le> pos (jit_line bd ! i)"
    "(\<exists>i < jit_instructions bd. patched (jit_line bd ! i) \<and> pos (jit_line bd ! i) = code + k) \<or> buffer ! k = v"
  shows "unpatch_copy code bd buffer ! k = v"
proof -
  let ?f = "\<lambda>i buffer. let bi = jit_line bd ! i in if patched bi then buffer[pos bi - code := original_byte bi] else buffer"
  have fl: "fold ?f is b ! k = v" if "set is \<subseteq> {..<jit_instructions bd}" "k < length b"
      "(\<exists>i \<in> set is. patched (jit_line bd ! i) \<and> pos (jit_line bd ! i) = code + k) \<or> b ! k = v" for "is" b
    using that
  proof (induction "is" arbitrary: b)
    case (Cons i "is")
    have i: "i < jit_instructions bd" using Cons.prems(1) by simp
    have "(\<exists>j \<in> set is. patched (jit_line bd ! j) \<and> pos (jit_line bd ! j) = code + k) \<or> ?f i b ! k = v"
    proof (cases "patched (jit_line bd ! i) \<and> pos (jit_line bd ! i) = code + k")
      case True
      then show ?thesis using Cons.prems(2) assms(2) [OF i] by (simp add: Let_def)
    next
      case False
      then have "?f i b ! k = b ! k" using assms(3) [OF i] by (auto simp: Let_def nth_list_update)
      then show ?thesis using False Cons.prems(3) by auto
    qed
    moreover have "k < length (?f i b)" using Cons.prems(2) by (simp add: Let_def)
    ultimately show ?case using Cons.IH [of "?f i b"] Cons.prems(1) by simp
  qed simp
  show ?thesis unfolding unpatch_copy_def by (rule fl) (use assms(1,4) in auto)
qed

lemma inst_range_same_inst: "same_inst env U a b \<Longrightarrow> inst_range env st U a = inst_range env st U b"
  by (simp add: same_inst_def inst_range_def split: option.split)

text \<open>While no single step is armed, the listing is the code the compiler emitted.\<close>

lemma jit_listing:
  assumes "dbg_inv env st" "alone env st U (Regular (physical env addr)) addr" "inst_range env st U addr = Some (start, sz)"
    "pages_apart env" "\<And>bd. breaks st U (physical env addr) = Some bd \<Longrightarrow> jit_instructions bd \<le> MAX_SUBINSTRUCTIONS"
  shows "\<exists>bs. get_jit env U addr st = Some (start, bs) \<and> length bs = sz \<and>
    (\<forall>k < sz. emitted_at st U (block_at env addr) (start + k) (bs ! k))"
proof -
  have inv: "bp_inv env {} st" and b: "blocks_ok st" using assms(1) by (simp_all add: dbg_inv_def bp_inv_def)
  let ?p = "physical env addr" and ?buf = "map (code_mem st) [start..<start + sz]"
  obtain hb where "jits st U (block_at env addr) = Some hb" "hb_code hb \<le> start" "start + sz \<le> hb_code hb + length (hb_bytes hb)"
    "0 < start" and e: "\<And>a. start \<le> a \<Longrightarrow> a < start + sz \<Longrightarrow> emitted_at st U (block_at env addr) a (hb_bytes hb ! (a - hb_code hb))"
    by (rule inst_range_inside [OF b assms(3)], rule that)
  let ?v = "\<lambda>k. hb_bytes hb ! (start + k - hb_code hb)"
  have em: "emitted_at st U (block_at env addr) (start + k) (?v k)" if "k < sz" for k using e [of "start + k"] that by simp
  have own: "\<exists>i bd. q = (U, Regular ?p, i) \<and> breaks st U ?p = Some bd \<and> i < jit_instructions bd \<and> i < length (jit_line bd) \<and>
      patched (jit_line bd ! i) \<and> pos (jit_line bd ! i) = a" if q: "dt st a = Some q" "start \<le> a" "a < start + sz" for q a
  proof -
    obtain bi where bi: "get_bi st q = Some bi" "patched bi" "pos bi = a" using inv_table [OF inv] q(1) by blast
    obtain V pl i where qi: "q = (V, pl, i)" by (cases q)
    have u: "used bi" "pos bi \<noteq> 0" using inv_used [OF inv bi(1)] bi(2) by auto
    then have "stands env st (V, pl, i) a (original_byte bi)" using inv_info [OF inv bi(1)] bi(3) by (simp add: info_ok_def qi)
    then obtain bd s n where s: "get_bd st V pl = Some bd" "i < jit_instructions bd" "inst_range env st V (bd_addr bd) = Some (s, n)"
      "s \<le> a" "a < s + n" "emitted_at st V (block_at env (bd_addr bd)) a (original_byte bi)" by (auto simp: stands_def)
    have "U = V \<and> block_at env addr = block_at env (bd_addr bd)" using b e [OF q(2,3)] s(6) unfolding blocks_ok_def by blast
    then have v: "U = V" "block_at env (bd_addr bd) = block_at env addr" by auto
    then have "same_inst env U (bd_addr bd) addr" using ranges_disjoint [OF b s(3) _ _ s(4,5) q(2,3)] assms(3) by blast
    then have "pl = Regular ?p" using assms(2) s(1) bi(1) u(1) v(1) qi unfolding alone_def by blast
    then show ?thesis using s(1,2) bi v(1) by (auto simp: qi get_bi_def get_bd_def split: if_splits)
  qed
  have raw: "?buf ! k = (if dt st (start + k) = None then ?v k else DEBUG_BREAK)" if "k < sz" for k
    using inv_code [OF inv em [OF that]] that by simp
  have org: "original_byte (jit_line bd ! i) = ?v k" if l: "breaks st U ?p = Some bd" "i < length (jit_line bd)" "patched (jit_line bd ! i)"
      "pos (jit_line bd ! i) = start + k" "k < sz" for bd i k
  proof -
    have bi: "get_bi st (U, Regular ?p, i) = Some (jit_line bd ! i)" using l by (simp add: get_bi_def get_bd_def)
    have "pos (jit_line bd ! i) \<noteq> 0" using inv_used [OF inv bi] l(3) by simp
    then have "stands env st (U, Regular ?p, i) (start + k) (original_byte (jit_line bd ! i))"
      using inv_info [OF inv bi] l(4) by (simp add: info_ok_def)
    then have "\<exists>c. emitted_at st U c (start + k) (original_byte (jit_line bd ! i))" by (auto simp: stands_def)
    then show ?thesis using inv_emitted [OF inv em [OF l(5)]] by blast
  qed
  show ?thesis
  proof (cases "breaks st U ?p")
    case None
    then have "dt st (start + k) = None" if "k < sz" for k using own [of "start + k"] that by (cases "dt st (start + k)") auto
    then have "?buf ! k = ?v k" if "k < sz" for k using raw that by simp
    then show ?thesis using em None by (intro exI [of _ ?buf]) (simp add: get_jit_def assms(3))
  next
    case (Some bd)
    have gb: "get_bd st U (Regular ?p) = Some bd" using Some by (simp add: get_bd_def)
    then have len: "jit_instructions bd \<le> length (jit_line bd)" and "physical env (bd_addr bd) = ?p"
      using assms(1) assms(5) [OF Some] by (simp_all add: dbg_inv_def bp_inv_def shapes_ok_def)
    then have ir: "inst_range env st U (bd_addr bd) = Some (start, sz)"
      using physical_inst [OF assms(4)] assms(3) inst_range_same_inst by metis
    have low: "start \<le> pos (jit_line bd ! i)" if "i < jit_instructions bd" "patched (jit_line bd ! i)" for i
    proof -
      have bi: "get_bi st (U, Regular ?p, i) = Some (jit_line bd ! i)" using that len gb by (simp add: get_bi_def)
      have "pos (jit_line bd ! i) \<noteq> 0" using inv_used [OF inv bi] that(2) by simp
      then have "stands env st (U, Regular ?p, i) (pos (jit_line bd ! i)) (original_byte (jit_line bd ! i))"
        using inv_info [OF inv bi] by (simp add: info_ok_def)
      then show ?thesis using gb ir by (auto simp: stands_def)
    qed
    show ?thesis
    proof (intro exI [of _ "unpatch_copy start bd ?buf"] conjI allI impI)
      show "get_jit env U addr st = Some (start, unpatch_copy start bd ?buf)" by (simp add: get_jit_def assms(3) Some)
      show "length (unpatch_copy start bd ?buf) = sz" by (simp add: length_unpatch)
      fix k assume k: "k < sz"
      have "unpatch_copy start bd ?buf ! k = ?v k"
      proof (rule unpatch_copy_nth)
        fix i assume i: "i < jit_instructions bd" "patched (jit_line bd ! i)"
        then show "start \<le> pos (jit_line bd ! i)" by (rule low)
        show "original_byte (jit_line bd ! i) = ?v k" if "pos (jit_line bd ! i) = start + k"
          using org [OF Some _ i(2) that k] i(1) len by simp
      next
        show "(\<exists>i < jit_instructions bd. patched (jit_line bd ! i) \<and> pos (jit_line bd ! i) = start + k) \<or> ?buf ! k = ?v k"
        proof (cases "dt st (start + k)")
          case None
          then show ?thesis using raw [OF k] by simp
        next
          case q: (Some q)
          show ?thesis using own [OF q] k Some by auto
        qed
      qed (use k in simp)
      then show "emitted_at st U (block_at env addr) (start + k) (unpatch_copy start bd ?buf ! k)" using em [OF k] by simp
    qed
  qed
qed


section \<open>A sample\<close>

text \<open>Page one is at \<open>0x10200\<close> in the host; its code is two bytes per instruction from \<open>0x5000\<close>.
  The disassembler takes every byte for an instruction.\<close>

definition one_byte :: "u8 list \<Rightarrow> nat \<Rightarrow> nat list option" where
  "one_byte bs n = (if length bs \<le> n then Some (replicate (length bs) 1) else None)"

definition dbg_sample :: dbg_env where
  "dbg_sample = \<lparr>block_at = (\<lambda>addr. unat (drop_bit 9 addr)), bmem = (\<lambda>b. 0x10000 + 512 * b), distorm_decode = one_byte,
     junk_count = 0, junk_byte = 0\<rparr>"

definition block_sample :: host_block where
  "block_sample = \<lparr>hb_code = 0x5000, hb_remap = map (\<lambda>i. 0x5000 + 2 * i) [0..<128], hb_bytes = replicate 256 0x90\<rparr>"

definition compiled_sample :: debugger where
  "compiled_sample = recompiled dbg_sample IS_ARM 1 block_sample (dbg_start (\<lambda>_. 0))"

lemma sample_env_ok: "good_distorm dbg_sample" "pages_apart dbg_sample"
  by (auto simp: good_distorm_def dbg_sample_def one_byte_def pages_apart_def sum_list_replicate split: if_splits)

lemma for_region_none:
  assumes "breaks st U = (\<lambda>_. None)" "\<not> single_in env st U lo hi False" "\<not> single_in env st U lo hi True"
  shows "for_region env U f lo hi st = st"
  using assms by (simp add: for_region_def)

lemma compiled_sample_eq: "compiled_sample = new_code IS_ARM 1 block_sample (dbg_start (\<lambda>_. 0))"
  unfolding compiled_sample_def recompiled_def
  by (rule for_region_none) (simp_all add: single_in_def new_code_def dbg_start_def no_data_def dbg_sample_def physical_def)

lemma start_unused: "get_bi (dbg_start m) r = Some bi \<Longrightarrow> \<not> used bi"
  by (cases r) (auto simp: get_bi_def get_bd_def dbg_start_def no_data_def new_info_def split: bplace.splits if_splits)

lemma sample_unused: "get_bi compiled_sample r = Some bi \<Longrightarrow> \<not> used bi"
  by (simp add: compiled_sample_eq new_code_frame start_unused)

lemma sample_alone: "alone dbg_sample compiled_sample U pl addr"
  using sample_unused by (auto simp: alone_def)

lemma sample_reach: "dbg_reach dbg_sample compiled_sample"
  unfolding compiled_sample_def
proof (rule reach_step [OF reach_start compile_step])
  show "wf_block IS_ARM block_sample"
    by (auto simp: wf_block_def block_sample_def REMAPS_def sorted_iff_nth_mono)
  show "fresh (dbg_start (\<lambda>_. 0)) IS_ARM 1 block_sample" by (simp add: fresh_def dbg_start_def emitted_at_def)
  show "separate dbg_sample IS_ARM (dbg_start (\<lambda>_. 0))" using start_unused by (auto simp: separate_def alone_def)
qed

lemma sample_range:
  "inst_range dbg_sample compiled_sample IS_ARM 0x204 = Some (0x5002, 2)"
  "distorm_decode dbg_sample (map (code_mem compiled_sample) [0x5002..<0x5002 + 2]) MAX_SUBINSTRUCTIONS_DISTORM = Some [1, 1]"
  "breaks compiled_sample IS_ARM (physical dbg_sample 0x204) = None"
proof -
  have "instruction_no IS_ARM 0x204 = 1" by (simp add: instruction_no_def INSTRUCTION_SIZE_LG2_def)
  then show "inst_range dbg_sample compiled_sample IS_ARM 0x204 = Some (0x5002, 2)"
    by (simp add: inst_range_def compiled_sample_eq new_code_def dbg_sample_def block_sample_def REMAPS_def)
qed (simp_all add: dbg_sample_def one_byte_def MAX_SUBINSTRUCTIONS_DISTORM_def compiled_sample_eq new_code_def dbg_start_def numeral_2_eq_2)

lemma sample_emitted: "emitted_at compiled_sample IS_ARM 1 0x5003 0x90"
  unfolding emitted_at_def
  by (intro exI [of _ block_sample] exI [of _ 3]) (simp add: compiled_sample_eq new_code_def block_sample_def)

lemma sample_set:
  "dbg_reach dbg_sample (toggle dbg_sample IS_ARM 0x204 1 compiled_sample)"
  "dt (toggle dbg_sample IS_ARM 0x204 1 compiled_sample) 0x5003 = Some (IS_ARM, Regular (physical dbg_sample 0x204), 1)"
  "emitted_at (toggle dbg_sample IS_ARM 0x204 1 compiled_sample) IS_ARM 1 0x5003 0x90"
proof -
  note inv = dbg_reach_inv [OF sample_reach sample_env_ok]
  have t: "toggle dbg_sample IS_ARM 0x204 1 compiled_sample = add_bp dbg_sample IS_ARM 0x204 1 compiled_sample"
    by (simp add: toggle_def check_numsub_def MAX_SUBINSTRUCTIONS_def sample_range(3) Let_def)
  note d = dbg_add_bp [OF inv sample_env_ok(1) sample_range(3) sample_alone]
  show "dt (toggle dbg_sample IS_ARM 0x204 1 compiled_sample) 0x5003 = Some (IS_ARM, Regular (physical dbg_sample 0x204), 1)"
    unfolding t using d(2) [OF sample_range(1,2), of 1] by simp
  show "emitted_at (toggle dbg_sample IS_ARM 0x204 1 compiled_sample) IS_ARM 1 0x5003 0x90"
    using sample_emitted unfolding t emitted_at_def d(6) .
  show "dbg_reach dbg_sample (toggle dbg_sample IS_ARM 0x204 1 compiled_sample)"
    by (rule reach_step [OF sample_reach toggle_step [OF sample_alone]])
qed

section \<open>The properties\<close>

text \<open>A trap at an armed breakpoint is reported as its place; a single step is over with it.\<close>

lemma trap_reported:
  assumes "dbg_inv env st" "dt st a = Some (U, pl, i)" "get_bd st U pl = Some bd"
  shows "get_last_error (trigger a st) = Some (bd_addr bd, i)" "pl = Single k \<Longrightarrow> single_unused U (trigger a st)"
    "pl = Regular p \<Longrightarrow> code_mem (trigger a st) = code_mem st"
proof -
  let ?s = "st\<lparr>last_block := bd, last_sub := i, has_last_error := True\<rparr>"
  have s: "dbg_inv env ?s" "get_last_error ?s = Some (bd_addr bd, i)"
    using assms(1) by (simp_all only: dbg_inv_frame(1)) (simp add: get_last_error_def)
  have t: "trigger a st = (case pl of Regular p \<Rightarrow> ?s | Single k \<Rightarrow> unset_onetime U ?s)"
    using assms(2,3) by (cases U) (simp_all add: trigger_def resolve_def is_singlestep_def Let_def split: bplace.split)
  then show "get_last_error (trigger a st) = Some (bd_addr bd, i)" using s(2) by (simp add: get_last_unset split: bplace.split)
  show "single_unused U (trigger a st)" if "pl = Single k" using dbg_unset(3) [OF s(1)] that t by simp
  show "code_mem (trigger a st) = code_mem st" if "pl = Regular p" using that t by simp
qed



text \<open>
  C40: a breakpoint set at the \<open>sub\<close>th host instruction of a compiled instruction without
  one. The break byte is in the code where the disassembler says that instruction starts, and
  a trap there is reported as the guest address and the number; the trap leaves the code alone.
  Every other byte of the code of every page is as it was.
\<close>

theorem breakpoint_hit:
  assumes "good_distorm env" "pages_apart env" "dbg_reach env st" "breaks st U (physical env addr) = None"
    "alone env st U (Regular (physical env addr)) addr" "inst_range env st U addr = Some (start, sz)"
    "distorm_decode env (map (code_mem st) [start..<start + sz]) MAX_SUBINSTRUCTIONS_DISTORM = Some szs" "sub < length szs"
  shows "code_mem (toggle env U addr sub st) (start + sum_list (take sub szs)) = DEBUG_BREAK \<and>
    get_last_error (trigger (start + sum_list (take sub szs)) (toggle env U addr sub st)) = Some (addr, sub) \<and>
    code_mem (trigger (start + sum_list (take sub szs)) (toggle env U addr sub st)) = code_mem (toggle env U addr sub st) \<and>
    (emitted_at st V b a v \<and> a \<noteq> start + sum_list (take sub szs) \<longrightarrow> code_mem (toggle env U addr sub st) a = code_mem st a)"
proof (intro conjI impI)
  let ?a = "start + sum_list (take sub szs)" and ?p = "physical env addr" and ?t = "toggle env U addr sub st"
  have inv: "dbg_inv env st" by (rule dbg_reach_inv [OF assms(3,1,2)])
  from assms(1) [unfolded good_distorm_def, rule_format, OF assms(7)]
  have szs: "length szs \<le> MAX_SUBINSTRUCTIONS" "sum_list szs \<le> sz" "0 \<notin> set szs"
    by (auto simp: MAX_SUBINSTRUCTIONS_def MAX_SUBINSTRUCTIONS_DISTORM_def)
  then have sub: "sub < MAX_SUBINSTRUCTIONS" using assms(8) by simp
  have t: "?t = add_bp env U addr sub st" using assms(4) sub by (simp add: toggle_def check_numsub_def Let_def)
  note d = dbg_add_bp [OF inv assms(1,4,5)]
  have it: "dbg_inv env ?t" unfolding t by (rule d(1))
  have dt: "dt ?t ?a = Some (U, Regular ?p, sub)" unfolding t by (rule d(2) [OF assms(6-8)])
  obtain bd where bd: "get_bd ?t U (Regular ?p) = Some bd" "bd_addr bd = addr" using d(3) [of sub] sub by (auto simp: t get_bd_def)
  show "get_last_error (trigger ?a ?t) = Some (addr, sub)" using trap_reported(1) [OF it dt bd(1)] bd(2) by simp
  show "code_mem (trigger ?a ?t) = code_mem ?t" by (rule trap_reported(3) [OF it dt bd(1) refl])
  have bp: "bp_inv env {} ?t" using it by (simp add: dbg_inv_def)
  obtain bi where bi: "get_bi ?t (U, Regular ?p, sub) = Some bi" "patched bi" "pos bi = ?a" using inv_table [OF bp] dt by blast
  then have "stands env ?t (U, Regular ?p, sub) ?a (original_byte bi)"
    using inv_info [OF bp bi(1)] inv_used [OF bp bi(1)] by (simp add: info_ok_def)
  then obtain c where "emitted_at ?t U c ?a (original_byte bi)" by (auto simp: stands_def)
  from inv_code [OF bp this] show "code_mem ?t ?a = DEBUG_BREAK" using dt by simp
  assume a: "emitted_at st V b a v \<and> a \<noteq> ?a"
  have b0: "bp_inv env {} st" using inv by (simp add: dbg_inv_def)
  have own: "q \<noteq> (U, Regular ?p, j)" if q: "dt ?t a = Some q" for q j
  proof
    assume qj: "q = (U, Regular ?p, j)"
    obtain bj where bj: "get_bi ?t q = Some bj" "patched bj" using inv_table [OF bp] q by blast
    then have "j = sub" using d(5) inv_used [OF bp bj(1)] unfolding t qj by blast
    then show False using q dt inv_table [OF bp] a qj by (metis option.inject)
  qed
  have "dt ?t a = dt st a"
  proof -
    have "dt st a = Some q" if q: "dt ?t a = Some q" for q
    proof -
      obtain W ql j where qj: "q = (W, ql, j)" by (cases q)
      have "W \<noteq> U \<or> ql \<noteq> Regular ?p" using own [OF q] qj by blast
      from d(4) [OF this] show ?thesis using q inv_table [OF bp, of a q] inv_table [OF b0, of a q] unfolding qj t by simp
    qed
    moreover have "dt ?t a = Some q" if q: "dt st a = Some q" for q
    proof -
      obtain W ql j where qj: "q = (W, ql, j)" by (cases q)
      have "\<exists>bi. get_bi st q = Some bi" using inv_table [OF b0, of a q] q by blast
      then have "W \<noteq> U \<or> ql \<noteq> Regular ?p" using assms(4) by (auto simp: qj get_bi_def get_bd_def)
      from d(4) [OF this] show ?thesis using q inv_table [OF bp, of a q] inv_table [OF b0, of a q] unfolding qj t by simp
    qed
    ultimately show ?thesis by (cases "dt ?t a"; cases "dt st a") auto
  qed
  moreover have "emitted_at ?t V b a v" using a by (simp add: t emitted_at_def d(6))
  ultimately show "code_mem ?t a = code_mem st a" using inv_code [OF bp] inv_code [OF b0 conjunct1 [OF a]] by simp
qed


theorem breakpoint_hit_witness:
  "code_mem (toggle dbg_sample IS_ARM 0x204 1 compiled_sample) 0x5003 = DEBUG_BREAK \<and>
   get_last_error (trigger 0x5003 (toggle dbg_sample IS_ARM 0x204 1 compiled_sample)) = Some (0x204, 1)"
  using breakpoint_hit [OF sample_env_ok sample_reach sample_range(3) sample_alone sample_range(1,2), of 1] by simp

end
