(* ===== verification/Stepping.thy ===== *)
theory Stepping
  imports Break_Props
begin

text \<open>
  Execution under the debugger: the choice of the next stop (\<^verbatim>\<open>breakpoints::step\<close> of
  \<^verbatim>\<open>Core/Breakpoint.h\<close>) and the runner (\<^verbatim>\<open>Core/runner.h\<close>), which finds the
  emulated instruction a trap belongs to and resumes the emulated processor over an armed
  breakpoint. The fiber the processor runs in is the host's; resuming it is counted.
\<close>

section \<open>The next stop\<close>

datatype stepmode = STEP_OVER_ARM | STEP_INTO_ARM | STEP_OVER_EMU | STEP_INTO_EMU | STEP_OVER_SRC | STEP_INTO_SRC

definition INSTRUCTION_SIZE :: "iset \<Rightarrow> u32" where
  "INSTRUCTION_SIZE U = (case U of IS_ARM \<Rightarrow> 4 | IS_THUMB \<Rightarrow> 2)"

text \<open>
  What a step looks at: the debugger's surroundings, the bytes of the pages, the registers, the
  line table (the address ranges of the lines at an address), and what an uninitialised decoder
  holds.
\<close>

record step_env =
  s_env :: dbg_env
  s_bytes :: "nat \<Rightarrow> u8 list"
  s_regs :: "u32 list"
  s_line_for :: "u32 \<Rightarrow> (u32 \<times> u32) list option"
  s_ctx :: dctx

definition decode_at :: "step_env \<Rightarrow> iset \<Rightarrow> u32 \<Rightarrow> dctx" where
  "decode_at E U addr =
    (let bs = s_bytes E (block_at (s_env E) addr); i = unat (addr AND ADDRESS_MASK)
     in case U of IS_ARM \<Rightarrow> decode_arm (rd32 bs i) addr (s_ctx E) | IS_THUMB \<Rightarrow> decode_thumb (rd16 bs i) addr (s_ctx E))"

text \<open>\<^verbatim>\<open>branch_pre<T,U>::get\<close>: the first half of a long Thumb branch.\<close>

definition branch_pre :: "step_env \<Rightarrow> iset \<Rightarrow> u32 \<Rightarrow> u32" where
  "branch_pre E U addr = (case U of IS_ARM \<Rightarrow> 0 | IS_THUMB \<Rightarrow>
     let c = decode_at E IS_THUMB (addr - 2) in if c_instruction c = BPRE then c_imm c else 0)"

definition get_branch_dest :: "step_env \<Rightarrow> iset \<Rightarrow> u32 \<Rightarrow> u32 option" where
  "get_branch_dest E U addr =
    (let c = decode_at E U addr
     in if c_instruction c \<in> {B, BL} then Some (c_imm c + branch_pre E U addr)
        else if c_instruction c \<in> {BLX, BX} then Some (s_regs E ! unat (c_rm c))
        else None)"

definition step_in :: "dbg_env \<Rightarrow> iset \<Rightarrow> u32 \<Rightarrow> u32 \<Rightarrow> nat \<Rightarrow> debugger \<Rightarrow> debugger" where
  "step_in env U a1 a2 s2 st = (case U of
     IS_ARM \<Rightarrow> if a1 AND 1 \<noteq> 0
       then set_onetime env IS_ARM a2 s2 0 0 1 (set_onetime env IS_THUMB (a1 AND NOT 1) 0 0 0 1 st)
       else set_onetime env IS_ARM a1 0 a2 s2 2 st
   | IS_THUMB \<Rightarrow> set_onetime env IS_THUMB a1 0 a2 s2 2 st)"

text \<open>\<^verbatim>\<open>step\<close> by instructions of the guest or of the host.\<close>

definition step_code :: "step_env \<Rightarrow> iset \<Rightarrow> stepmode \<Rightarrow> debugger \<Rightarrow> debugger" where
  "step_code E U m st =
    (let env = s_env E
     in case get_last_error st of
       Some (addr, subaddr) \<Rightarrow>
         let next_addr = addr + INSTRUCTION_SIZE U; next_sub = subaddr + 1;
             over = set_onetime env U next_addr 0 0 0 1 st
         in case m of
           STEP_INTO_EMU \<Rightarrow> if next_sub < jit_instructions (last_block st)
             then (case get_branch_dest E U addr of Some dest \<Rightarrow> step_in env U dest addr next_sub st
                   | None \<Rightarrow> set_onetime env U addr next_sub next_addr 0 2 st)
             else over
         | STEP_INTO_ARM \<Rightarrow> (case get_branch_dest E U addr of Some dest \<Rightarrow> step_in env U dest next_addr 0 st | None \<Rightarrow> over)
         | STEP_OVER_EMU \<Rightarrow> if next_sub < jit_instructions (last_block st) then set_onetime env U addr next_sub next_addr 0 2 st else over
         | _ \<Rightarrow> over
     | None \<Rightarrow> let addr = s_regs E ! 15 in set_onetime env U addr 0 (addr + INSTRUCTION_SIZE U) 0 2 st)"

section \<open>The runner\<close>

record runner =
  dbg :: debugger
  repatch :: "bref option"
  eip :: haddr
  trap_flag :: bool
  skipsrc :: "(u32 \<times> u32) list option"
  skipmode :: stepmode
  skip_instructions :: nat
  initialized :: bool
  resumed :: nat
  reported :: nat

text \<open>Resuming: a breakpoint at the current place is taken out of the code for one step.\<close>

definition jit_continue :: "runner \<Rightarrow> runner" where
  "jit_continue R =
    (let R = (case resolve (eip R) (dbg R) of None \<Rightarrow> R | Some r \<Rightarrow>
           case get_bi (dbg R) r of None \<Rightarrow> R | Some bi \<Rightarrow>
             if patched bi
             then R\<lparr>repatch := Some r, dbg := (dbg R)\<lparr>code_mem := (code_mem (dbg R))(pos bi := original_byte bi)\<rparr>, trap_flag := True\<rparr>
             else R)
     in R\<lparr>eip := eip R + skip_instructions R, skip_instructions := 0, resumed := resumed R + 1\<rparr>)"

text \<open>Stepping through a source line: on while the last trap is inside it.\<close>

definition inside_line :: "(u32 \<times> u32) list \<Rightarrow> u32 \<Rightarrow> bool" where
  "inside_line src addr = (\<exists>(lo, hi) \<in> set src. lo \<le> addr \<and> addr < hi)"

definition skipcb :: "step_env \<Rightarrow> runner \<Rightarrow> bool \<times> runner" where
  "skipcb E R = (case (get_last_error (dbg R), skipsrc R) of
     (Some (addr, _), Some src) \<Rightarrow>
       if inside_line src addr
       then let U = (if s_regs E ! 15 AND 1 \<noteq> 0 then IS_THUMB else IS_ARM)
            in (True, jit_continue (R\<lparr>dbg := step_code E U (skipmode R) (dbg R)\<rparr>))
       else (False, R)
   | _ \<Rightarrow> (False, R))"

definition skipline :: "step_env \<Rightarrow> (u32 \<times> u32) list \<Rightarrow> stepmode \<Rightarrow> runner \<Rightarrow> runner" where
  "skipline E src m R = snd (skipcb E (R\<lparr>skipsrc := Some src, skipmode := m\<rparr>))"

text \<open>\<^verbatim>\<open>breakpoints::step\<close>\<close>

definition step :: "step_env \<Rightarrow> iset \<Rightarrow> stepmode \<Rightarrow> runner \<Rightarrow> runner" where
  "step E U m R =
    (let source = (\<lambda>m'. case get_last_error (dbg R) of None \<Rightarrow> R\<lparr>dbg := step_code E U m (dbg R)\<rparr> | Some (addr, _) \<Rightarrow>
           case s_line_for E addr of None \<Rightarrow> R | Some src \<Rightarrow>
             let R = skipline E src m' R
             in R\<lparr>dbg := set_onetime (s_env E) U (addr + INSTRUCTION_SIZE U) 0 0 0 1 (dbg R)\<rparr>)
     in case m of STEP_INTO_SRC \<Rightarrow> source STEP_INTO_ARM | STEP_OVER_SRC \<Rightarrow> source STEP_OVER_ARM
        | _ \<Rightarrow> R\<lparr>dbg := step_code E U m (dbg R)\<rparr>)"

text \<open>
  \<^verbatim>\<open>internal_cb\<close>, what the fiber calls after a trap; \<open>ip\<close> is the trap's place in the code.
\<close>

definition internal_cb :: "step_env \<Rightarrow> haddr \<Rightarrow> runner \<Rightarrow> runner" where
  "internal_cb E ip R = (case repatch R of
     Some r \<Rightarrow> (case get_bi (dbg R) r of None \<Rightarrow> R | Some bi \<Rightarrow>
       R\<lparr>dbg := (dbg R)\<lparr>code_mem := (code_mem (dbg R))(pos bi := DEBUG_BREAK)\<rparr>, repatch := None, resumed := resumed R + 1\<rparr>)
   | None \<Rightarrow>
       let R = (if initialized R then R\<lparr>dbg := trigger ip (dbg R)\<rparr> else R\<lparr>initialized := True\<rparr>);
           (skipped, R) = (if skipsrc R \<noteq> None then skipcb E R else (False, R))
       in if skipped then R else R\<lparr>reported := reported R + 1\<rparr>)"

section \<open>The place of a trap\<close>

text \<open>
  \<^verbatim>\<open>resolve_eip_v2\<close>: the first of the instruction pointer and the readable words of the stack
  that lies in the code of the page.
\<close>

definition in_code :: "host_block option \<Rightarrow> haddr \<Rightarrow> bool" where
  "in_code b ip = (case b of None \<Rightarrow> False | Some hb \<Rightarrow> hb_code hb \<le> ip \<and> ip < hb_code hb + length (hb_bytes hb))"

fun resolve_eip :: "host_block option \<Rightarrow> host_block option \<Rightarrow> haddr list \<Rightarrow> (haddr \<times> iset) option" where
  "resolve_eip ba bt [] = None"
| "resolve_eip ba bt (ip # ps) =
    (if in_code ba ip then Some (ip, IS_ARM) else if in_code bt ip then Some (ip, IS_THUMB) else resolve_eip ba bt ps)"

text \<open>The loops of \<^verbatim>\<open>update_breakinfo\<close>. The entry behind the last one, which the first loop
  compares before it looks at the bound, is \<open>behind\<close>.\<close>

fun find_inst :: "haddr \<Rightarrow> haddr list \<Rightarrow> haddr \<Rightarrow> nat \<Rightarrow> nat \<Rightarrow> nat" where
  "find_inst ip remap behind 0 i = i"
| "find_inst ip remap behind (Suc n) i =
    (let next = (if i + 1 < length remap then remap ! (i + 1) else behind)
     in if ip \<ge> next \<and> i < length remap - 1 then find_inst ip remap behind n (i + 1) else i)"

definition trap_inst :: "haddr \<Rightarrow> haddr list \<Rightarrow> haddr \<Rightarrow> nat" where
  "trap_inst ip remap behind = find_inst ip remap behind (length remap) 0"

text \<open>The guest address of the trap.\<close>

definition arm_pc :: "iset \<Rightarrow> u32 \<Rightarrow> nat \<Rightarrow> u32" where
  "arm_pc U r15 i = (r15 AND NOT ADDRESS_MASK) + push_bit (INSTRUCTION_SIZE_LG2 U) (word_of_nat i)"

text \<open>
  \<^verbatim>\<open>update_breakinfo\<close>: the host instructions of the guest's instruction, as the
  debugger's disassembly places them, and the one the trap is in. \<open>None\<close> where the code leaves
  the number of lines uninitialised, or there are none.
\<close>

definition break_lines :: "dbg_env \<Rightarrow> debugger \<Rightarrow> iset \<Rightarrow> u32 \<Rightarrow> haddr list option" where
  "break_lines env st U addr = (case inst_range env st U addr of None \<Rightarrow> None | Some (start, sz) \<Rightarrow>
     map_option (\<lambda>szs. map (\<lambda>i. start + sum_list (take i szs)) [0..<min (length szs) MAX_SUBINSTRUCTIONS])
       (distorm_decode env (map (code_mem st) [start..<start + sz]) MAX_SUBINSTRUCTIONS_DISTORM))"

definition update_breakinfo :: "dbg_env \<Rightarrow> u32 \<Rightarrow> haddr \<Rightarrow> iset \<Rightarrow> host_block \<Rightarrow> haddr \<Rightarrow> debugger \<Rightarrow> (u32 \<times> nat) option" where
  "update_breakinfo env r15 ip U hb behind st =
    (let pc = arm_pc U r15 (trap_inst ip (hb_remap hb) behind)
     in case break_lines env st U pc of Some (l # ls) \<Rightarrow> Some (pc, trap_inst ip (l # ls) 0) | _ \<Rightarrow> None)"

text \<open>\<^verbatim>\<open>resolve_eip_v2\<close> on the page branched to last: the trap's place, and what is reported.\<close>

definition resolve_eip_v2 :: "dbg_env \<Rightarrow> u32 \<Rightarrow> nat \<Rightarrow> haddr \<Rightarrow> haddr list \<Rightarrow> haddr \<Rightarrow> debugger \<Rightarrow> (haddr \<times> (u32 \<times> nat) option) option" where
  "resolve_eip_v2 env r15 fault_page ip stack behind st =
    (case resolve_eip (jits st IS_ARM fault_page) (jits st IS_THUMB fault_page) (ip # stack) of None \<Rightarrow> None
     | Some (ip, U) \<Rightarrow> Some (ip, case jits st U fault_page of None \<Rightarrow> None | Some hb \<Rightarrow> update_breakinfo env r15 ip U hb behind st))"

section \<open>Entering the code at an address\<close>

text \<open>\<^verbatim>\<open>get_entry\<close>; the page is compiled when it has no code, a dirty page is not compiled
  again. The new value of register 15 is part of the result.\<close>

definition get_entry :: "jit_env \<Rightarrow> cpu \<Rightarrow> iset \<Rightarrow> u32 \<Rightarrow> 's pages \<Rightarrow> (u32 option \<times> u32 \<times> 's pages) res" where
  "get_entry env T U addr s =
    (let r15 = addr AND NOT ADDRESS_MASK; b = addr2page addr (view T s)
     in if has_flag (pmem s) b (PAGE_INVALID OR PAGE_EXECPROT) then Inr (None, r15, s)
        else rbind (if jit s b T U = None then recompile env T U b s else Inr s) (\<lambda>s.
          Inr (Some (cb_remap (the (jit s b T U)) ! unat (drop_bit (INSTRUCTION_SIZE_LG2 U) (addr AND ADDRESS_MASK))), r15, s)))"

text \<open>\<^verbatim>\<open>jit_rebranch\<close>: the place to go on at, or none.\<close>

definition jit_rebranch :: "jit_env \<Rightarrow> cpu \<Rightarrow> u32 \<Rightarrow> 's pages \<Rightarrow> (u32 option \<times> u32 \<times> 's pages) res" where
  "jit_rebranch env T addr s =
    rbind (get_entry env T (if addr AND 1 \<noteq> 0 then IS_THUMB else IS_ARM) addr s) (\<lambda>(jit_code, r15, s).
      case jit_code of None \<Rightarrow> Inr (None, r15, s)
      | Some ip \<Rightarrow> Inr (Some ip, addr, s\<lparr>last_page := (last_page s)(T := addr2page addr (view T s))\<rparr>))"

section \<open>What holds\<close>

text \<open>A breakpoint taken out of the code to step over it is back after the step.\<close>

lemma continue_repatch:
  assumes "dbg_inv env (dbg R)" "dt (dbg R) (eip R) = Some r"
  shows "code_mem (dbg (jit_continue R)) (eip R) = original_byte (the (get_bi (dbg R) r))" (is ?orig)
    and "repatch (jit_continue R) = Some r" (is ?rep)
    and "dbg (internal_cb E ip (jit_continue R)) = dbg R" (is ?restored)
    and "repatch (internal_cb E ip (jit_continue R)) = None" (is ?none)
proof -
  have inv: "bp_inv env {} (dbg R)" using assms(1) by (simp add: dbg_inv_def)
  obtain bi where bi: "get_bi (dbg R) r = Some bi" "patched bi" "pos bi = eip R" using inv_table [OF inv] assms(2) by blast
  have "code_mem (dbg R) (eip R) = DEBUG_BREAK"
  proof -
    have "stands env (dbg R) r (eip R) (original_byte bi)"
      using inv_info [OF inv bi(1)] inv_used [OF inv bi(1)] bi by (simp add: info_ok_def)
    then obtain U b where "emitted_at (dbg R) U b (eip R) (original_byte bi)" by (auto simp: stands_def split: prod.splits)
    from inv_code [OF inv this] show ?thesis using assms(2) by simp
  qed
  then have "(code_mem (dbg R))(eip R := DEBUG_BREAK) = code_mem (dbg R)" by (simp add: fun_upd_idem)
  then show ?orig ?rep ?restored ?none
    by (simp_all add: jit_continue_def internal_cb_def resolve_def assms(2) bi Let_def dbg)
qed

text \<open>The instruction found is the one whose code the address is in.\<close>

lemma find_inst_found:
  assumes "sorted remap" "i < length remap" "remap ! i \<le> ip" "length remap - i \<le> n"
  shows "find_inst ip remap behind n i < length remap \<and> remap ! find_inst ip remap behind n i \<le> ip \<and>
    (find_inst ip remap behind n i + 1 < length remap \<longrightarrow> ip < remap ! (find_inst ip remap behind n i + 1))"
  using assms
proof (induction n arbitrary: i)
  case (Suc n)
  show ?case
  proof (cases "i + 1 < length remap \<and> remap ! (i + 1) \<le> ip")
    case True
    then have "length remap - (i + 1) \<le> n" using Suc.prems(2,4) by linarith
    then have ih: "find_inst ip remap behind n (i + 1) < length remap \<and> remap ! find_inst ip remap behind n (i + 1) \<le> ip \<and>
      (find_inst ip remap behind n (i + 1) + 1 < length remap \<longrightarrow> ip < remap ! (find_inst ip remap behind n (i + 1) + 1))"
      using True by (intro Suc.IH [OF Suc.prems(1)]) auto
    have "find_inst ip remap behind (Suc n) i = find_inst ip remap behind n (i + 1)" using True Suc.prems(2) by (auto simp: Let_def)
    then show ?thesis using ih by metis
  next
    case False
    then have "find_inst ip remap behind (Suc n) i = i" using Suc.prems(2) by (auto simp: Let_def)
    then show ?thesis using Suc.prems(2,3) False by (metis not_le)
  qed
qed simp

lemma trap_inst_found:
  assumes "wf_block U hb" "hb_remap hb ! 0 \<le> ip"
  shows "trap_inst ip (hb_remap hb) behind < REMAPS U \<and> hb_remap hb ! trap_inst ip (hb_remap hb) behind \<le> ip \<and>
    (trap_inst ip (hb_remap hb) behind + 1 < REMAPS U \<longrightarrow> ip < hb_remap hb ! (trap_inst ip (hb_remap hb) behind + 1))"
proof -
  have l: "length (hb_remap hb) = REMAPS U" "0 < REMAPS U" using assms(1) by (cases U; simp add: wf_block_def REMAPS_def)+
  then show ?thesis using assms find_inst_found [of "hb_remap hb" 0 ip "length (hb_remap hb)" behind]
    unfolding trap_inst_def by (simp add: wf_block_def)
qed

text \<open>
  The guest address of a trap in the code of instruction \<open>i\<close> of the page in register 15 is the
  address whose code it is.
\<close>

lemma arm_pc_inst:
  assumes "i < REMAPS U"
  shows "instruction_no U (arm_pc U r15 i) = i" "drop_bit 9 (arm_pc U r15 i) = drop_bit 9 r15"
proof -
  define q where "q = (push_bit (INSTRUCTION_SIZE_LG2 U) (word_of_nat i) :: u32)"
  let ?r = "r15 AND NOT ADDRESS_MASK"
  have lt: "i * 2 ^ INSTRUCTION_SIZE_LG2 U < 512" using assms by (cases U) (simp_all add: REMAPS_def INSTRUCTION_SIZE_LG2_def)
  have "q = word_of_nat (i * 2 ^ INSTRUCTION_SIZE_LG2 U)" by (simp add: q_def push_bit_eq_mult)
  moreover have "unat (word_of_nat (i * 2 ^ INSTRUCTION_SIZE_LG2 U) :: u32) = i * 2 ^ INSTRUCTION_SIZE_LG2 U"
    using lt by (intro unat_of_nat32) simp
  ultimately have o: "unat q = i * 2 ^ INSTRUCTION_SIZE_LG2 U" by (simp only:)
  have m: "(ADDRESS_MASK :: u32) = mask 9" by (simp add: mask_eq_exp_minus_1)
  have "take_bit 9 q = q"
    using lt by (simp only: word_unat_eq_iff unsigned_take_bit_eq o) (simp add: take_bit_nat_eq_self)
  then have bits: "k < 9" if "bit q k" for k using that by (metis bit_take_bit_iff)
  then have "?r AND q = 0" by (intro bit_eqI) (auto simp: m bit_simps)
  then have pc: "arm_pc U r15 i = ?r OR q" by (simp only: arm_pc_def q_def [symmetric] disjunctive_add_eq_or)
  have "arm_pc U r15 i AND ADDRESS_MASK = q"
    unfolding pc m by (rule bit_eqI) (auto simp: bit_simps dest: bits)
  then show "instruction_no U (arm_pc U r15 i) = i"
    by (simp only: instruction_no_def unat_drop_bit_eq o) (simp add: drop_bit_eq_div)
  have "k < 32" if "bit r15 k" for k using bit_imp_le_length [OF that] by simp
  then show "drop_bit 9 (arm_pc U r15 i) = drop_bit 9 r15"
    unfolding pc m by (intro bit_eqI) (fastforce simp: bit_simps dest: bits)
qed

text \<open>On a valid page that is not dirty the debugger goes on where a branch of the guest would.\<close>

lemma recompile_last_page: "recompile env T U b (s\<lparr>last_page := l\<rparr>) = rbind (recompile env T U b s) (\<lambda>s'. Inr (s'\<lparr>last_page := l\<rparr>))"
  by (cases "compile_cb env T U (allocs s) (mem (blk (pmem s) b))") (auto simp: recompile_def Let_def)

lemma recompile_maps: "recompile env T U b s = Inr s' \<Longrightarrow> maps s' = maps s \<and> last_page s' = last_page s"
  by (auto simp: recompile_def Let_def rbind_Inr_iff)

lemma rebranch_is_branch:
  assumes "\<not> has_flag (pmem s) (addr2page addr (view T s)) (PAGE_INVALID OR PAGE_EXECPROT)"
    "\<not> has_flag (pmem s) (addr2page addr (view T s)) PAGE_EXECPROT" "\<not> has_flag (pmem s) (addr2page addr (view T s)) (dirty_flag T)"
  shows "enter_page env T addr s = rbind (jit_rebranch env T addr s) (\<lambda>(ip, _, s). Inr (the ip, s))"
proof -
  let ?b = "addr2page addr (view T s)" and ?U = "if addr AND 1 \<noteq> 0 then IS_THUMB else IS_ARM"
  have b: "addr2page addr (view T s') = ?b" if "maps s' = maps s" for s' :: "'a pages"
    using that by (simp add: addr2page_def view_def)
  show ?thesis
  proof (cases "recompile env T ?U ?b s")
    case (Inr s')
    then have "maps s' = maps s" "last_page s' = last_page s" using recompile_maps by blast+
    then show ?thesis using assms Inr b [of s']
      by (simp add: enter_page_def jit_rebranch_def get_entry_def refresh_def Let_def recompile_last_page cong: if_cong)
  qed (use assms in \<open>simp add: enter_page_def jit_rebranch_def get_entry_def refresh_def Let_def recompile_last_page cong: if_cong\<close>)
qed

end
