(* ===== verification/Loader.thy ===== *)
theory Loader
  imports Page_Cache Crc16
begin

text \<open>
  The loaders: \<^verbatim>\<open>util::load_file\<close> of \<^verbatim>\<open>Core/Util.cpp\<close>, the cartridge images of
  \<^verbatim>\<open>Core/loader_nds.cpp\<close>, the raw images of \<^verbatim>\<open>Core/loader_raw.cpp\<close> and the
  segments of \<^verbatim>\<open>Core/loader_elf.cpp\<close>. Lemmas: streaming a file into the emulated memory is
  storing its bytes one after another, whatever the pages; an image is in memory where its
  header says; and the cache of compiled pages stays coherent, so no code of an earlier image is
  entered by a branch.
\<close>

section \<open>Files\<close>

text \<open>An open file: its bytes and the position. \<^verbatim>\<open>read\<close>, and \<^verbatim>\<open>lseek\<close> from the start,
  which refuses a negative offset.\<close>

record rom_file =
  content :: "u8 list"
  fpos :: nat

definition read_file :: "nat \<Rightarrow> rom_file \<Rightarrow> u8 list \<times> rom_file" where
  "read_file n f = (let bs = take n (drop (fpos f) (content f)) in (bs, f\<lparr>fpos := fpos f + length bs\<rparr>))"

definition lseek :: "u32 \<Rightarrow> rom_file \<Rightarrow> rom_file" where
  "lseek off f = (if sint off < 0 then f else f\<lparr>fpos := unat off\<rparr>)"

section \<open>Streaming a file into memory\<close>

definition overwrite :: "nat \<Rightarrow> 'a list \<Rightarrow> 'a list \<Rightarrow> 'a list" where
  "overwrite i bs xs = take i xs @ bs @ drop (i + length bs) xs"

text \<open>\<^verbatim>\<open>stream_nds::process\<close>, which is also \<^verbatim>\<open>stream_raw::process\<close> and
  \<^verbatim>\<open>stream_elf::process\<close>, on \<open>sz\<close> bytes from \<open>sub\<close> of block \<open>b\<close>.\<close>

definition stream_chunk :: "nat \<Rightarrow> nat \<Rightarrow> nat \<Rightarrow> rom_file \<times> 's memory \<Rightarrow> rom_file \<times> 's memory" where
  "stream_chunk b sub sz fm = (case fm of (f, m) \<Rightarrow>
     if has_flag m b PAGE_INVALID then (f, m)
     else case read_file sz f of (bs, f) \<Rightarrow> (f, dirty b (poke b (overwrite sub bs) m)))"

text \<open>The loop of \<^verbatim>\<open>process_memory\<close> over the following pages.\<close>

function stream_rest :: "u32 \<Rightarrow> nat \<Rightarrow> rom_file \<times> 's memory \<Rightarrow> rom_file \<times> 's memory" where
  "stream_rest addr len fm =
    (if len = 0 then fm
     else let todo = min len PAGE_SIZE
          in stream_rest (addr + word_of_nat todo) (len - todo) (stream_chunk (addr2page addr (snd fm)) 0 todo fm))"
  by pat_completeness auto

termination stream_rest
  by (relation "measure (\<lambda>(_, len, _). len)") auto

declare stream_rest.simps [simp del]

text \<open>
  \<^verbatim>\<open>process_memory<stream>\<close>. The length is an \<^verbatim>\<open>int\<close>: a negative one makes the first
  chunk read more bytes than the page has, which writes outside of it (\<open>None\<close>).
\<close>

definition stream_memory :: "u32 \<Rightarrow> int \<Rightarrow> rom_file \<times> 's memory \<Rightarrow> (rom_file \<times> 's memory) option" where
  "stream_memory addr len fm =
    (let b = addr2page addr (snd fm);
         subaddr = unat (addr AND ADDRESS_MASK)
     in if len < 0 then (if has_flag (snd fm) b PAGE_INVALID then Some fm else None)
        else let todo = min (nat len) (PAGE_SIZE - subaddr)
             in Some (stream_rest (addr + word_of_nat todo) (nat len - todo) (stream_chunk b subaddr todo fm)))"

text \<open>Through the page table of one processor.\<close>

definition stream_on :: "cpu \<Rightarrow> u32 \<Rightarrow> int \<Rightarrow> rom_file \<times> 's pages \<Rightarrow> (rom_file \<times> 's pages) option" where
  "stream_on T addr len fs = (case fs of (f, s) \<Rightarrow>
     map_option (\<lambda>(f, m). (f, put_view m s)) (stream_memory addr len (f, view T s)))"

section \<open>Cartridge images\<close>

datatype load_hint = LH_UNKNOWN | LH_ARM7 | LH_ARM9 | LH_RAW7 | LH_RAW9

record load_result =
  lr_flags :: u32
  arm9_entry :: u32
  arm7_entry :: u32

abbreviation (input) LOAD_ARM7 :: u32 where "LOAD_ARM7 \<equiv> 1"
abbreviation (input) LOAD_ARM9 :: u32 where "LOAD_ARM9 \<equiv> 2"

text \<open>The offsets of the fields of the packed \<^verbatim>\<open>ndsheader\<close> the loader uses.\<close>

definition sizeof_hdr :: nat where "sizeof_hdr = 512"
definition main_rom_offset :: "u8 list \<Rightarrow> u32" where "main_rom_offset h = rd32 h 0x20"
definition main_entry_address :: "u8 list \<Rightarrow> u32" where "main_entry_address h = rd32 h 0x24"
definition main_ram_address :: "u8 list \<Rightarrow> u32" where "main_ram_address h = rd32 h 0x28"
definition main_size :: "u8 list \<Rightarrow> u32" where "main_size h = rd32 h 0x2C"
definition sub_rom_offset :: "u8 list \<Rightarrow> u32" where "sub_rom_offset h = rd32 h 0x30"
definition sub_entry_address :: "u8 list \<Rightarrow> u32" where "sub_entry_address h = rd32 h 0x34"
definition sub_ram_address :: "u8 list \<Rightarrow> u32" where "sub_ram_address h = rd32 h 0x38"
definition sub_size :: "u8 list \<Rightarrow> u32" where "sub_size h = rd32 h 0x3C"
definition nintendo_logo :: "u8 list \<Rightarrow> u8 list" where "nintendo_logo h = take 156 (drop 0xC0 h)"
definition nintendo_logo_crc16 :: "u8 list \<Rightarrow> u16" where "nintendo_logo_crc16 h = ucast (rd16 h 0x15C)"
definition main_header :: "u8 list \<Rightarrow> u8 list" where "main_header h = take 0x15E h"
definition header_crc16 :: "u8 list \<Rightarrow> u16" where "header_crc16 h = ucast (rd16 h 0x15E)"

text \<open>\<^verbatim>\<open>loader_nds::is_valid\<close>; the maximum of the ends of the parts is computed and not used.\<close>

definition nds_is_valid :: "rom_file \<Rightarrow> bool \<times> rom_file" where
  "nds_is_valid f = (case read_file sizeof_hdr f of (h, f) \<Rightarrow>
     if length h \<noteq> sizeof_hdr then (False, f)
     else (get_crc16 0xFFFF (main_header h) = header_crc16 h \<and>
           get_crc16 0xFFFF (nintendo_logo h) = nintendo_logo_crc16 h, lseek 0 f))"

definition nds_load :: "rom_file \<Rightarrow> load_result \<Rightarrow> 's pages \<Rightarrow> (bool \<times> load_result \<times> rom_file \<times> 's pages) option" where
  "nds_load f res s = (case read_file sizeof_hdr f of (h, f) \<Rightarrow>
     if length h \<noteq> sizeof_hdr then Some (False, res, f, s)
     else case stream_on ARM9 (main_ram_address h) (sint (main_size h)) (lseek (main_rom_offset h) f, s) of
       None \<Rightarrow> None
     | Some (f, s) \<Rightarrow> case stream_on ARM7 (sub_ram_address h) (sint (sub_size h)) (lseek (sub_rom_offset h) f, s) of
       None \<Rightarrow> None
     | Some (f, s) \<Rightarrow>
         Some (True, res\<lparr>arm9_entry := main_entry_address h, arm7_entry := sub_entry_address h, lr_flags := LOAD_ARM7 OR LOAD_ARM9\<rparr>, f, s))"

section \<open>Raw images\<close>

definition raw_load :: "rom_file \<Rightarrow> load_result \<Rightarrow> load_hint \<Rightarrow> 's pages \<Rightarrow> (bool \<times> load_result \<times> rom_file \<times> 's pages) option" where
  "raw_load f res lh s =
    (let sz = int (length (content f));
         nine = (case stream_on ARM9 0x02000000 sz (f, s) of None \<Rightarrow> None
           | Some (f, s) \<Rightarrow> Some (True, res\<lparr>arm9_entry := 0x02000000, lr_flags := LOAD_ARM9\<rparr>, f, s));
         seven = (case stream_on ARM7 0x03800000 sz (f, s) of None \<Rightarrow> None
           | Some (f, s) \<Rightarrow> Some (True, res\<lparr>arm7_entry := 0x03800000, lr_flags := LOAD_ARM7\<rparr>, f, s))
     in case lh of LH_ARM9 \<Rightarrow> nine | LH_RAW9 \<Rightarrow> nine | LH_ARM7 \<Rightarrow> seven | LH_RAW7 \<Rightarrow> seven
        | LH_UNKNOWN \<Rightarrow> Some (False, res, f, s))"

section \<open>ELF images\<close>

text \<open>What the ELF library finds in a file: the entry point and the program headers.\<close>

record elf_phdr =
  p_flags :: u32
  p_paddr :: u32
  p_offset :: u32
  p_filesz :: u32

record elf_info =
  e_entry :: u32
  phdrs :: "elf_phdr list"

abbreviation (input) PT_LOAD :: u32 where "PT_LOAD \<equiv> 1"

text \<open>The loop over the segments, as the code has it: the type is tested in the flags.\<close>

fun elf_segments :: "u32 \<Rightarrow> load_hint \<Rightarrow> elf_phdr list \<Rightarrow> load_result \<times> rom_file \<times> 's pages \<Rightarrow> (load_result \<times> rom_file \<times> 's pages) option" where
  "elf_segments e lh [] x = Some x"
| "elf_segments e lh (ph # phs) (res, f, s) =
    (if p_flags ph AND PT_LOAD = 0 then elf_segments e lh phs (res, f, s)
     else let T = (if lh = LH_ARM7 then ARM7 else ARM9);
              res = (if lh = LH_ARM7 then res\<lparr>lr_flags := lr_flags res OR LOAD_ARM7, arm7_entry := e\<rparr>
                     else res\<lparr>lr_flags := lr_flags res OR LOAD_ARM9, arm9_entry := e\<rparr>)
          in case stream_on T (p_paddr ph) (sint (p_filesz ph)) (lseek (p_offset ph) f, s) of None \<Rightarrow> None
             | Some (f, s) \<Rightarrow> elf_segments e lh phs (res, f, s))"

definition elf_load :: "(u8 list \<Rightarrow> elf_info option) \<Rightarrow> rom_file \<Rightarrow> load_result \<Rightarrow> load_hint \<Rightarrow> 's pages \<Rightarrow>
    (bool \<times> load_result \<times> rom_file \<times> 's pages) option" where
  "elf_load elf f res lh s = (case elf (content f) of None \<Rightarrow> Some (False, res, f, s)
     | Some i \<Rightarrow> map_option (Pair True) (elf_segments (e_entry i) lh (phdrs i) (res, f, s)))"

section \<open>\<open>load_file\<close>\<close>

text \<open>The file is \<open>None\<close> when it cannot be opened.\<close>

definition load_file :: "(u8 list \<Rightarrow> elf_info option) \<Rightarrow> rom_file option \<Rightarrow> load_result \<Rightarrow> load_hint \<Rightarrow> 's pages \<Rightarrow> (bool \<times> load_result \<times> 's pages) option" where
  "load_file elf file res lh s = (case file of None \<Rightarrow> Some (False, res, s) | Some f \<Rightarrow>
     let res = res\<lparr>arm7_entry := 0, arm9_entry := 0\<rparr>
     in map_option (\<lambda>(ok, res, f, s). (ok, res, s))
      (if lh = LH_RAW7 \<or> lh = LH_RAW9 then raw_load f res lh s
       else case nds_is_valid f of (valid, f) \<Rightarrow>
         if valid then nds_load f res s
         else if elf (content f) \<noteq> None then elf_load elf f res lh s
         else Some (False, res, f, s)))"

section \<open>Streaming is storing the bytes\<close>

definition byte_addrs :: "u32 \<Rightarrow> nat \<Rightarrow> u32 list" where
  "byte_addrs a n = map (\<lambda>i. a + word_of_nat i) [0..<n]"

definition store_bytes :: "u32 \<Rightarrow> u8 list \<Rightarrow> 's memory \<Rightarrow> 's memory" where
  "store_bytes a bs m = write_all poke8 (zip (byte_addrs a (length bs)) (map ucast bs)) m"

lemma byte_addrs_Suc: "byte_addrs a (Suc n) = a # byte_addrs (a + 1) n"
  by (simp add: byte_addrs_def upt_conv_Cons map_Suc_upt [symmetric] comp_def algebra_simps del: upt_Suc)

lemma store_bytes_simps [simp]:
  "store_bytes a [] m = m" "store_bytes a (b # bs) m = store_bytes (a + 1) bs (poke8 a (ucast b) m)"
  by (simp_all add: store_bytes_def byte_addrs_Suc)

lemma store_bytes_append: "store_bytes a (xs @ ys) m = store_bytes (a + word_of_nat (length xs)) ys (store_bytes a xs m)"
  by (induction xs arbitrary: a m) (simp_all add: algebra_simps)

text \<open>The pages the stream writes to.\<close>

definition loadable :: "'s memory \<Rightarrow> u32 \<Rightarrow> bool" where
  "loadable m a = (\<not> has_flag m (addr2page a m) PAGE_INVALID \<and> length (mem (blk m (addr2page a m))) = PAGE_SIZE)"

lemma dirty_invalid: "(f OR PAGE_DIRTY) AND 8 = f AND (8 :: u32)"
  using flags_dirty_masked [of f 8] by simp

interpretation image: cell_store loadable cell8 peek8 poke8 "\<lambda>v. v AND 0xFF"
  by unfold_locales
    (auto simp: peek_poke_defs loadable_def has_flag_def rd8_wr8 rd8_wr8_other off8_less dirty_invalid rd8_norm)

lemma dirty_chunk: "dirty b (poke b g (dirty b (poke b f m))) = dirty b (poke b (\<lambda>x. g (f x)) m)"
  by (simp add: dirty_def poke_def upd_blk_def or.assoc)

lemma overwrite_Cons:
  assumes "i < length xs" shows "overwrite (i + 1) bs (xs[i := b]) = overwrite i (b # bs) xs"
  using assms by (simp add: overwrite_def take_Suc_conv_app_nth)

lemma overwrite_one: "i < length xs \<Longrightarrow> overwrite i [b] xs = xs[i := b]"
  by (simp add: overwrite_def upd_conv_take_nth_drop)

lemma poke8_byte: "poke8 a (ucast b) m = dirty (addr2page a m) (poke (addr2page a m) (\<lambda>x. x[off8 a := b]) m)"
proof -
  have "byte_of (ucast b) 0 = b" by (simp only: byte_of_def mult_0_right drop_bit_0 id_apply ucast_u8_u32)
  then have "wr8 (off8 a) (ucast b) = (\<lambda>x. x[off8 a := b])" by (simp add: wr8_def fun_eq_iff)
  then show ?thesis by (simp only: poke8_def)
qed

lemma poke_cong: "f (mem (blk m b)) = g (mem (blk m b)) \<Longrightarrow> poke b f m = poke b g m"
  by (simp add: poke_def upd_blk_def)

text \<open>The bytes of one chunk.\<close>

lemma store_bytes_chunk:
  "bs \<noteq> [] \<Longrightarrow> off8 a + length bs \<le> 512 \<Longrightarrow> length (mem (blk m (addr2page a m))) = 512 \<Longrightarrow>
    store_bytes a bs m = dirty (addr2page a m) (poke (addr2page a m) (overwrite (off8 a) bs) m)"
proof (induction bs arbitrary: a m)
  case (Cons b bs)
  let ?p = "addr2page a m" and ?m = "poke8 a (ucast b) m"
  have len: "length (mem (blk m ?p)) = 512" "off8 a < 512" using Cons.prems by simp_all
  show ?case
  proof (cases "bs = []")
    case True
    then show ?thesis using len by (simp add: poke8_byte) (intro arg_cong [where f = "dirty ?p"] poke_cong, simp add: overwrite_one)
  next
    case False
    then have "off8 a + 1 < 512" using Cons.prems(2) by (cases bs) auto
    then have n: "off8 (a + 1) = off8 a + 1" "addr2page (a + 1) ?m = ?p"
      using within_page [of a 1] by (simp_all add: addr2page_def peek_poke_defs)
    have "length (mem (blk ?m ?p)) = 512" using len by (simp add: peek_poke_defs)
    then have "store_bytes (a + 1) bs ?m = dirty ?p (poke ?p (overwrite (off8 a + 1) bs) ?m)"
      using Cons.IH [OF False, of "a + 1" ?m] n Cons.prems(2) by simp
    also have "\<dots> = dirty ?p (poke ?p (\<lambda>x. overwrite (off8 a + 1) bs (x[off8 a := b])) m)"
      by (simp only: poke8_byte dirty_chunk)
    also have "\<dots> = dirty ?p (poke ?p (overwrite (off8 a) (b # bs)) m)"
      using len by (intro arg_cong [where f = "dirty ?p"] poke_cong) (simp add: overwrite_Cons [simplified])
    finally show ?thesis by simp
  qed
qed simp

definition read_range :: "rom_file \<Rightarrow> nat \<Rightarrow> u8 list" where
  "read_range f n = take n (drop (fpos f) (content f))"

lemma stream_chunk_store:
  assumes "loadable m a" "off8 a + n \<le> 512" "0 < n" "fpos f + n \<le> length (content f)"
  shows "stream_chunk (addr2page a m) (off8 a) n (f, m) = (f\<lparr>fpos := fpos f + n\<rparr>, store_bytes a (read_range f n) m)"
proof -
  have l: "length (read_range f n) = n" using assms(4) by (simp add: read_range_def)
  then have "read_range f n \<noteq> []" using assms(3) by auto
  then have "store_bytes a (read_range f n) m = dirty (addr2page a m) (poke (addr2page a m) (overwrite (off8 a) (read_range f n)) m)"
    using assms(1,2) l by (intro store_bytes_chunk) (simp_all add: loadable_def)
  then show ?thesis using assms(1) l
    by (simp add: stream_chunk_def loadable_def read_file_def read_range_def [symmetric] Let_def)
qed

lemma addr2page_store_bytes [simp]: "addr2page x (store_bytes a bs m) = addr2page x m"
  by (induction bs arbitrary: a m) (simp_all add: peek_poke_defs)

lemma loadable_store_bytes [simp]: "loadable (store_bytes a bs m) x = loadable m x"
  by (induction bs arbitrary: a m) (simp_all add: image.plain_wr)

lemma read_range_next:
  assumes "fpos f + n \<le> length (content f)" "k \<le> n"
  shows "read_range f n = read_range f k @ read_range (f\<lparr>fpos := fpos f + k\<rparr>) (n - k)"
proof -
  have "read_range f (k + (n - k)) = read_range f k @ read_range (f\<lparr>fpos := fpos f + k\<rparr>) (n - k)"
    unfolding read_range_def take_add by (simp add: add.commute)
  then show ?thesis using assms(2) by simp
qed

lemma stream_rest_store:
  "off8 a = 0 \<Longrightarrow> (\<And>i. i < n \<Longrightarrow> loadable m (a + word_of_nat i)) \<Longrightarrow> fpos f + n \<le> length (content f) \<Longrightarrow>
    stream_rest a n (f, m) = (f\<lparr>fpos := fpos f + n\<rparr>, store_bytes a (read_range f n) m)"
proof (induction n arbitrary: a f m rule: less_induct)
  case (less n)
  show ?case
  proof (cases "n = 0")
    case True
    then show ?thesis by (simp add: stream_rest.simps read_range_def)
  next
    case False
    define k where "k = min n 512"
    have k: "0 < k" "k \<le> n" "k \<le> 512" using False by (auto simp: k_def)
    let ?f = "f\<lparr>fpos := fpos f + k\<rparr>" and ?m = "store_bytes a (read_range f k) m"
    have lk: "length (read_range f k) = k" using less.prems(3) k by (simp add: read_range_def)
    have "stream_chunk (addr2page a m) 0 k (f, m) = (?f, ?m)"
      using stream_chunk_store [of m a k f] less.prems(2) [of 0] False less.prems(1,3) k by simp
    then have "stream_rest a n (f, m) = stream_rest (a + word_of_nat k) (n - k) (?f, ?m)"
      using False by (simp add: stream_rest.simps [of _ n] k_def [symmetric])
    also have "\<dots> = (?f\<lparr>fpos := fpos ?f + (n - k)\<rparr>, store_bytes (a + word_of_nat k) (read_range ?f (n - k)) ?m)"
    proof (cases "n = k")
      case True
      then show ?thesis by (simp add: stream_rest.simps read_range_def)
    next
      case more: False
      then have "k = 512" "n - k < n" using k by (auto simp: k_def)
      moreover have "loadable ?m (a + word_of_nat k + word_of_nat i)" if "i < n - k" for i
        using less.prems(2) [of "k + i"] that by (simp add: algebra_simps)
      ultimately show ?thesis
        using less.prems(1,3) k off8_next [of a k] by (intro less.IH) auto
    qed
    finally show ?thesis
      using k read_range_next [OF less.prems(3) k(2)] by (simp add: store_bytes_append lk)
  qed
qed

lemma stream_memory_store:
  assumes "\<And>i. i < n \<Longrightarrow> loadable m (a + word_of_nat i)" "fpos f + n \<le> length (content f)" "0 < n"
  shows "stream_memory a (int n) (f, m) = Some (f\<lparr>fpos := fpos f + n\<rparr>, store_bytes a (read_range f n) m)"
proof -
  define k where "k = min n (512 - off8 a)"
  let ?f = "f\<lparr>fpos := fpos f + k\<rparr>" and ?m = "store_bytes a (read_range f k) m"
  have k: "0 < k" "k \<le> n" "off8 a + k \<le> 512" using off8_less [of a] assms(3) by (auto simp: k_def)
  have lk: "length (read_range f k) = k" using assms(2) k by (simp add: read_range_def)
  have "stream_chunk (addr2page a m) (off8 a) k (f, m) = (?f, ?m)"
    using assms k assms(1) [of 0] by (intro stream_chunk_store) simp_all
  moreover have "stream_rest (a + word_of_nat k) (n - k) (?f, ?m) =
      (?f\<lparr>fpos := fpos ?f + (n - k)\<rparr>, store_bytes (a + word_of_nat k) (read_range ?f (n - k)) ?m)"
  proof (cases "n = k")
    case True
    then show ?thesis by (simp add: stream_rest.simps read_range_def)
  next
    case False
    then have "off8 a + k = 512" using off8_less [of a] by (auto simp: k_def)
    moreover have "loadable ?m (a + word_of_nat k + word_of_nat i)" if "i < n - k" for i
      using assms(1) [of "k + i"] that by (simp add: algebra_simps)
    ultimately show ?thesis using assms(2) k off8_next [of a k] by (intro stream_rest_store) auto
  qed
  ultimately show ?thesis
    using k read_range_next [OF assms(2) k(2)]
    by (simp add: stream_memory_def Let_def off8_def [symmetric] k_def [symmetric] store_bytes_append lk)
qed

section \<open>The image in memory\<close>

lemma length_byte_addrs [simp]: "length (byte_addrs a n) = n"
  by (simp add: byte_addrs_def)

lemma peek8_byte_at: "peek8 a m = ucast (byte_at m a)"
  by (simp add: peek8_def rd8_def byte_at_def)

text \<open>The cells of a range of addresses.\<close>

definition range_cells :: "'s memory \<Rightarrow> u32 \<Rightarrow> nat \<Rightarrow> (nat \<times> nat) list" where
  "range_cells m a n = map (cell8 m) (byte_addrs a n)"

definition cell_val :: "'s memory \<Rightarrow> nat \<times> nat \<Rightarrow> u8" where
  "cell_val m c = mem (blk m (fst c)) ! snd c"

lemma byte_at_cell: "byte_at m a = cell_val m (cell8 m a)"
  by (simp add: byte_at_def cell_val_def cell8_def)

lemma range_cells_Suc: "range_cells m a (Suc n) = cell8 m a # range_cells m (a + 1) n"
  by (simp add: range_cells_def byte_addrs_Suc)

lemma range_cells_cong: "pmap m = pmap m' \<Longrightarrow> range_cells m a n = range_cells m' a n"
  by (simp add: range_cells_def cell8_def addr2page_def)

lemma cell_val_store:
  "c \<notin> set (range_cells m a (length bs)) \<Longrightarrow> cell_val (store_bytes a bs m) c = cell_val m c"
proof (induction bs arbitrary: a m)
  case (Cons b bs)
  have "cell_val (poke8 a (ucast b) m) c = cell_val m c"
    using Cons.prems by (cases c) (auto simp: range_cells_Suc cell_val_def peek_poke_defs wr8_def)
  moreover have "range_cells (poke8 a (ucast b) m) (a + 1) (length bs) = range_cells m (a + 1) (length bs)"
    by (rule range_cells_cong) (simp add: peek_poke_defs)
  ultimately show ?case using Cons by (simp add: range_cells_Suc)
qed simp

lemma store_bytes_range:
  assumes "distinct (range_cells m a (length bs))" "\<And>i. i < length bs \<Longrightarrow> loadable m (a + word_of_nat i)"
  shows "bytes_at (store_bytes a bs m) a (length bs) = bs"
proof -
  let ?ps = "zip (byte_addrs a (length bs)) (map (ucast :: u8 \<Rightarrow> u32) bs)"
  have "list_all (loadable m \<circ> fst) ?ps"
    using assms(2) by (auto simp: list_all_iff byte_addrs_def set_zip)
  moreover have "distinct (map (cell8 m \<circ> fst) ?ps)"
    using assms(1) by (simp add: range_cells_def map_fst_zip_comp)
  ultimately have "map (\<lambda>p. peek8 (fst p) (write_all poke8 ?ps m)) ?ps = map ((\<lambda>v. v AND 0xFF) \<circ> snd) ?ps"
    by (intro image.rd_write_all)
  then have all: "\<forall>p \<in> set ?ps. peek8 (fst p) (store_bytes a bs m) = snd p AND 0xFF"
    by (simp add: store_bytes_def)
  have e: "peek8 (a + word_of_nat i) (store_bytes a bs m) = ucast (bs ! i) AND 0xFF" if "i < length bs" for i
  proof -
    have "(a + word_of_nat i, ucast (bs ! i)) \<in> set ?ps" using that by (auto simp: set_zip byte_addrs_def intro!: exI [of _ i])
    then show ?thesis using all by fastforce
  qed
  have "byte_at (store_bytes a bs m) (a + word_of_nat i) = bs ! i" if "i < length bs" for i
  proof -
    have "ucast (bs ! i) AND (0xFF :: u32) = ucast (bs ! i)" by (rule u32_eqI) (simp add: bit_simps)
    then show ?thesis using e [OF that] by (metis peek8_byte_at ucast_u8_u32)
  qed
  then show ?thesis by (intro nth_equalityI) (simp_all add: bytes_at_def)
qed

text \<open>What one processor sees after bytes were stored through the page table of another.\<close>

definition put_bytes :: "cpu \<Rightarrow> u32 \<Rightarrow> u8 list \<Rightarrow> 's pages \<Rightarrow> 's pages" where
  "put_bytes U x bs s = put_view (store_bytes x bs (view U s)) s"

abbreviation seen_cells :: "'s pages \<Rightarrow> cpu \<Rightarrow> u32 \<Rightarrow> nat \<Rightarrow> (nat \<times> nat) set" where
  "seen_cells s T a n \<equiv> set (range_cells (view T s) a n)"

lemma cell_put_bytes [simp]: "cell8 (view T (put_bytes U x bs s)) a = cell8 (view T s) a"
  by (simp add: put_bytes_def put_view_def view_def cell8_def addr2page_def)

lemma range_put_bytes [simp]: "range_cells (view T (put_bytes U x bs s)) a n = range_cells (view T s) a n"
  by (simp add: range_cells_def)

lemma byte_put_other:
  assumes "cell8 (view T s) a \<notin> seen_cells s U x (length bs)"
  shows "byte_at (view T (put_bytes U x bs s)) a = byte_at (view T s) a"
proof -
  have "cell_val (store_bytes x bs (view U s)) (cell8 (view T s) a) = cell_val (view U s) (cell8 (view T s) a)"
    using assms by (rule cell_val_store)
  then show ?thesis by (simp add: byte_at_cell) (simp add: put_bytes_def put_view_def view_def cell_val_def)
qed

lemma bytes_put_other:
  assumes "seen_cells s T a n \<inter> seen_cells s U x (length bs) = {}"
  shows "bytes_at (view T (put_bytes U x bs s)) a n = bytes_at (view T s) a n"
proof -
  have "cell8 (view T s) (a + word_of_nat i) \<notin> seen_cells s U x (length bs)" if "i < n" for i
  proof -
    have "cell8 (view T s) (a + word_of_nat i) \<in> seen_cells s T a n" using that by (simp add: range_cells_def byte_addrs_def)
    then show ?thesis using assms by blast
  qed
  then show ?thesis by (simp add: bytes_at_def byte_put_other)
qed

lemma pmap_store_bytes [simp]: "pmap (store_bytes a bs m) = pmap m"
  by (induction bs arbitrary: a m) (simp_all add: peek_poke_defs)

lemma view_put_same: "view U (put_bytes U x bs s) = store_bytes x bs (view U s)"
  by (simp add: put_bytes_def put_view_def view_def)

lemma bytes_put_same:
  assumes "distinct (range_cells (view U s) x (length bs))" "\<And>i. i < length bs \<Longrightarrow> loadable (view U s) (x + word_of_nat i)"
  shows "bytes_at (view U (put_bytes U x bs s)) x (length bs) = bs"
  using store_bytes_range [OF assms] by (simp add: view_put_same)

lemma loadable_put [simp]: "loadable (view T (put_bytes U x bs s)) a = loadable (view T s) a"
proof -
  have "has_flag (store_bytes x bs m) b 8 = has_flag m b 8 \<and>
      length (mem (blk (store_bytes x bs m) b)) = length (mem (blk m b))" for b and m :: "'a memory"
    by (induction bs arbitrary: x m) (simp_all add: peek_poke_defs has_flag_def dirty_invalid)
  then show ?thesis by (simp add: put_bytes_def put_view_def view_def loadable_def has_flag_def addr2page_def)
qed

lemma stream_on_put:
  fixes len :: u32
  assumes "\<And>i. i < unat len \<Longrightarrow> loadable (view T s) (a + word_of_nat i)" "0 < sint len"
    "fpos f + unat len \<le> length (content f)"
  shows "stream_on T a (sint len) (f, s) = Some (f\<lparr>fpos := fpos f + unat len\<rparr>, put_bytes T a (read_range f (unat len)) s)"
proof -
  have e: "sint (len :: u32) = int (unat len)"
    using assms(2) sint_lt [of len] uint_sint [of len] by (simp add: take_bit_int_eq_self uint_nat [symmetric])
  have "0 < int (unat len)" using assms(2) unfolding e .
  then have "0 < unat len" by (simp only: of_nat_0_less_iff)
  then show ?thesis using stream_memory_store [OF assms(1,3)] by (simp add: stream_on_def e put_bytes_def)
qed

text \<open>The two checksums of a header.\<close>

definition header_ok :: "u8 list \<Rightarrow> bool" where
  "header_ok h = (get_crc16 0xFFFF (main_header h) = header_crc16 h \<and> get_crc16 0xFFFF (nintendo_logo h) = nintendo_logo_crc16 h)"

text \<open>A part of an image is inside the file, and its pages take it.\<close>

definition part_ok :: "u8 list \<Rightarrow> 's pages \<Rightarrow> cpu \<Rightarrow> u32 \<Rightarrow> u32 \<Rightarrow> u32 \<Rightarrow> bool" where
  "part_ok bs s T off addr sz = (0 \<le> sint off \<and> 0 < sint sz \<and> unat off + unat sz \<le> length bs \<and>
     (\<forall>i < unat sz. loadable (view T s) (addr + word_of_nat i)) \<and> distinct (range_cells (view T s) addr (unat sz)))"

definition part :: "u8 list \<Rightarrow> u32 \<Rightarrow> u32 \<Rightarrow> u8 list" where
  "part bs off sz = take (unat sz) (drop (unat off) bs)"

lemma length_part: "part_ok bs s T off addr sz \<Longrightarrow> length (part bs off sz) = unat sz"
  by (auto simp: part_ok_def part_def)

lemma stream_part:
  assumes "part_ok (content f) s T off addr sz"
  shows "stream_on T addr (sint sz) (lseek off f, s) = Some (f\<lparr>fpos := unat off + unat sz\<rparr>, put_bytes T addr (part (content f) off sz) s)"
  using assms stream_on_put [of sz T s addr "lseek off f"]
  by (simp add: part_ok_def lseek_def read_range_def part_def)

lemma part_ok_put: "part_ok bs s T off addr sz \<Longrightarrow> part_ok bs (put_bytes U x cs s) T off addr sz"
  by (simp add: part_ok_def)

lemma nds_load_parts:
  assumes "fpos f = 0" "512 \<le> length (content f)"
    and m: "part_ok (content f) s ARM9 (main_rom_offset (content f)) (main_ram_address (content f)) (main_size (content f))"
    and p: "part_ok (content f) s ARM7 (sub_rom_offset (content f)) (sub_ram_address (content f)) (sub_size (content f))"
  shows "\<exists>f'. nds_load f res s = Some (True, \<lparr>lr_flags = 3, arm9_entry = main_entry_address (content f), arm7_entry = sub_entry_address (content f)\<rparr>, f',
      put_bytes ARM7 (sub_ram_address (content f)) (part (content f) (sub_rom_offset (content f)) (sub_size (content f)))
        (put_bytes ARM9 (main_ram_address (content f)) (part (content f) (main_rom_offset (content f)) (main_size (content f))) s))"
proof -
  let ?h = "take 512 (content f)" and ?f = "f\<lparr>fpos := 512\<rparr>"
  have r: "read_file sizeof_hdr f = (?h, ?f)" "length ?h = sizeof_hdr"
    using assms(1,2) by (simp_all add: read_file_def sizeof_hdr_def Let_def)
  have h: "rd32 ?h k = rd32 (content f) k" if "k + 3 < 512" for k using that by (simp add: rd32_def)
  note flds = main_rom_offset_def main_entry_address_def main_ram_address_def main_size_def
    sub_rom_offset_def sub_entry_address_def sub_ram_address_def sub_size_def
  let ?g = "f\<lparr>fpos := unat (main_rom_offset (content f)) + unat (main_size (content f))\<rparr>"
  have "stream_on ARM9 (main_ram_address (content f)) (sint (main_size (content f))) (lseek (main_rom_offset (content f)) ?f, s) =
      Some (?g, put_bytes ARM9 (main_ram_address (content f)) (part (content f) (main_rom_offset (content f)) (main_size (content f))) s)"
    using stream_part [of ?f] m by simp
  moreover have "stream_on ARM7 (sub_ram_address (content f)) (sint (sub_size (content f))) (lseek (sub_rom_offset (content f)) ?g, put_bytes ARM9 x cs s) =
      Some (?g\<lparr>fpos := unat (sub_rom_offset (content f)) + unat (sub_size (content f))\<rparr>,
        put_bytes ARM7 (sub_ram_address (content f)) (part (content f) (sub_rom_offset (content f)) (sub_size (content f))) (put_bytes ARM9 x cs s))" for x cs
    using stream_part [of ?g, simplified, OF part_ok_put [OF p]] by simp
  ultimately show ?thesis using r(2) by (simp add: nds_load_def r(1) flds h)
qed

lemma bytes_put_part:
  assumes "part_ok bs s T off addr sz"
  shows "bytes_at (view T (put_bytes T addr (part bs off sz) s)) addr (unat sz) = part bs off sz"
  using bytes_put_same [of T s addr "part bs off sz"] assms length_part [OF assms] by (simp add: part_ok_def)

lemma valid_header:
  assumes "fpos f = 0" "512 \<le> length (content f)"
  shows "nds_is_valid f = (header_ok (content f), f)"
proof -
  have "lseek 0 (f\<lparr>fpos := 512\<rparr>) = f" using assms(1) by (simp add: lseek_def)
  moreover have "length (take 512 (content f)) = 512" using assms(2) by simp
  ultimately show ?thesis using assms
    by (simp add: nds_is_valid_def read_file_def sizeof_hdr_def Let_def header_ok_def main_header_def header_crc16_def
        nintendo_logo_def nintendo_logo_crc16_def rd16_def drop_take min_def)
qed

text \<open>
  C37: a cartridge image whose checksums are right, whose two parts lie inside the file and
  whose pages are valid is loaded: the result has the entry points of the header, each
  processor sees its part of the file at the address the header gives, and every byte outside
  of the two parts is the one that was there before.
\<close>

theorem image_loaded:
  assumes f: "fpos f = 0" "512 \<le> length (content f)" "bs = content f" "header_ok bs" and lh: "lh \<noteq> LH_RAW7" "lh \<noteq> LH_RAW9"
    and nine: "part_ok bs s ARM9 (main_rom_offset bs) (main_ram_address bs) (main_size bs)"
    and seven: "part_ok bs s ARM7 (sub_rom_offset bs) (sub_ram_address bs) (sub_size bs)"
    and apart: "seen_cells s ARM9 (main_ram_address bs) (unat (main_size bs)) \<inter> seen_cells s ARM7 (sub_ram_address bs) (unat (sub_size bs)) = {}"
  shows "\<exists>s'. load_file elf (Some f) res lh s =
      Some (True, \<lparr>lr_flags = LOAD_ARM7 OR LOAD_ARM9, arm9_entry = main_entry_address bs, arm7_entry = sub_entry_address bs\<rparr>, s') \<and>
    bytes_at (view ARM9 s') (main_ram_address bs) (unat (main_size bs)) = part bs (main_rom_offset bs) (main_size bs) \<and>
    bytes_at (view ARM7 s') (sub_ram_address bs) (unat (sub_size bs)) = part bs (sub_rom_offset bs) (sub_size bs) \<and>
    (\<forall>T a. cell8 (view T s) a \<notin> seen_cells s ARM9 (main_ram_address bs) (unat (main_size bs)) \<union>
        seen_cells s ARM7 (sub_ram_address bs) (unat (sub_size bs)) \<longrightarrow> byte_at (view T s') a = byte_at (view T s) a)"
proof -
  define s1 where "s1 = put_bytes ARM9 (main_ram_address bs) (part bs (main_rom_offset bs) (main_size bs)) s"
  define s2 where "s2 = put_bytes ARM7 (sub_ram_address bs) (part bs (sub_rom_offset bs) (sub_size bs)) s1"
  have load: "load_file elf (Some f) res lh s = Some (True, \<lparr>lr_flags = LOAD_ARM7 OR LOAD_ARM9, arm9_entry = main_entry_address bs,
      arm7_entry = sub_entry_address bs\<rparr>, s2)"
  proof -
    let ?res = "res\<lparr>arm7_entry := 0, arm9_entry := 0\<rparr>"
    obtain f' where "nds_load f ?res s = Some (True, \<lparr>lr_flags = 3, arm9_entry = main_entry_address bs, arm7_entry = sub_entry_address bs\<rparr>, f', s2)"
      using nds_load_parts [OF f(1,2), unfolded f(3) [symmetric], OF nine seven, of ?res] unfolding s2_def s1_def by blast
    moreover have "nds_is_valid f = (True, f)" using valid_header [OF f(1,2)] f(3,4) by simp
    ultimately show ?thesis using lh by (simp add: load_file_def Let_def)
  qed
  have "bytes_at (view ARM9 s2) (main_ram_address bs) (unat (main_size bs)) = bytes_at (view ARM9 s1) (main_ram_address bs) (unat (main_size bs))"
    unfolding s2_def using apart by (intro bytes_put_other) (simp add: s1_def length_part [OF seven])
  also have "\<dots> = part bs (main_rom_offset bs) (main_size bs)" unfolding s1_def by (rule bytes_put_part [OF nine])
  finally have b9: "bytes_at (view ARM9 s2) (main_ram_address bs) (unat (main_size bs)) = part bs (main_rom_offset bs) (main_size bs)" .
  have b7: "bytes_at (view ARM7 s2) (sub_ram_address bs) (unat (sub_size bs)) = part bs (sub_rom_offset bs) (sub_size bs)"
    unfolding s2_def by (rule bytes_put_part) (simp add: s1_def part_ok_put [OF seven])
  have "byte_at (view T s2) a = byte_at (view T s) a"
    if "cell8 (view T s) a \<notin> seen_cells s ARM9 (main_ram_address bs) (unat (main_size bs)) \<union> seen_cells s ARM7 (sub_ram_address bs) (unat (sub_size bs))" for T a
    using that by (simp add: s2_def s1_def byte_put_other length_part [OF nine] length_part [OF seven])
  then show ?thesis using load b9 b7 by blast
qed

text \<open>An image with two parts, its checksums computed.\<close>

definition crc_bytes :: "u8 list \<Rightarrow> u8 list" where
  "crc_bytes bs = (let c = get_crc16 0xFFFF bs in [ucast c, ucast (drop_bit 8 c)])"

definition sample_front :: "u8 list" where
  "sample_front = replicate 0x20 0 @ concat (map bytes32 [0x200, 0x400, 0x400, 2, 0x202, 0x600, 0x604, 1]) @ replicate 0x80 0"

definition sample_image :: "u8 list" where
  "sample_image =
    (let logo = replicate 156 0; main = sample_front @ logo @ crc_bytes logo
     in main @ crc_bytes main @ replicate 160 0 @ [1, 2, 3])"

lemma length_crc_bytes [simp]: "length (crc_bytes bs) = 2"
  by (simp add: crc_bytes_def Let_def)

lemma crc_bytes_read: "rd16 (crc_bytes bs) 0 = ucast (get_crc16 0xFFFF bs)"
  by (rule u32_eqI) (auto simp: crc_bytes_def Let_def rd16_def bit_simps)

lemma length_sample_front [simp]: "length sample_front = 192"
  by (simp add: sample_front_def)

lemma rd16_shift: "k = length xs \<Longrightarrow> length ys = 2 \<Longrightarrow> rd16 (xs @ ys @ zs) k = rd16 ys 0"
  by (simp add: rd16_def nth_append)

lemma rd32_shift: "k = length xs \<Longrightarrow> rd32 (xs @ bytes32 w @ zs) k = w"
proof -
  assume "k = length xs"
  then have "rd32 (xs @ bytes32 w @ zs) k = rd32 (bytes32 w) 0" by (simp add: rd32_def nth_append numeral_2_eq_2 numeral_3_eq_3)
  then show ?thesis by (simp add: rd32_bytes32)
qed

lemma sample_header_ok: "header_ok sample_image"
proof -
  let ?logo = "replicate 156 0 :: u8 list" and ?main = "sample_front @ replicate 156 0 @ crc_bytes (replicate 156 0)"
  have m: "main_header sample_image = ?main" by (simp add: main_header_def sample_image_def Let_def)
  have l: "nintendo_logo sample_image = ?logo" by (simp add: nintendo_logo_def sample_image_def Let_def)
  have "rd16 sample_image 0x15E = rd16 (crc_bytes ?main) 0"
    using rd16_shift [of "0x15E" ?main "crc_bytes ?main" "replicate 160 0 @ [1, 2, 3]"] by (simp add: sample_image_def Let_def)
  moreover have "rd16 sample_image 0x15C = rd16 (crc_bytes ?logo) 0"
    using rd16_shift [of "0x15C" "sample_front @ ?logo" "crc_bytes ?logo" "crc_bytes ?main @ replicate 160 0 @ [1, 2, 3]"]
    by (simp add: sample_image_def Let_def)
  ultimately show ?thesis unfolding header_ok_def m l
    by (simp add: header_crc16_def nintendo_logo_crc16_def crc_bytes_read)
qed

lemma rd32_words:
  assumes "i < length ws" "k = length xs + 4 * i"
  shows "rd32 (xs @ concat (map bytes32 ws) @ zs) k = ws ! i"
proof -
  have "length (concat (map bytes32 (take i ws))) = 4 * length (take i ws)" by (induction ws arbitrary: i) (auto simp: take_Cons split: nat.split)
  then have l: "length (xs @ concat (map bytes32 (take i ws))) = k" using assms by simp
  have "ws = take i ws @ ws ! i # drop (Suc i) ws" using assms(1) by (rule id_take_nth_drop)
  then have "concat (map bytes32 ws) = concat (map bytes32 (take i ws)) @ bytes32 (ws ! i) @ concat (map bytes32 (drop (Suc i) ws))"
    by (metis concat.simps(2) concat_append list.simps(9) map_append)
  then show ?thesis using rd32_shift [OF l [symmetric], of "ws ! i" "concat (map bytes32 (drop (Suc i) ws)) @ zs"] by simp
qed

lemma sample_rd32:
  assumes "i < 8" "k = 0x20 + 4 * i"
  shows "rd32 sample_image k = [0x200, 0x400, 0x400, 2, 0x202, 0x600, 0x604, 1] ! i"
  using rd32_words [of i "[0x200, 0x400, 0x400, 2, 0x202, 0x600, 0x604, 1]" k "replicate 0x20 0"] assms
  by (simp only: sample_image_def Let_def sample_front_def append_assoc length_replicate) simp

lemma sample_fields:
  "main_rom_offset sample_image = 0x200" "main_entry_address sample_image = 0x400" "main_ram_address sample_image = 0x400"
  "main_size sample_image = 2" "sub_rom_offset sample_image = 0x202" "sub_entry_address sample_image = 0x600"
  "sub_ram_address sample_image = 0x604" "sub_size sample_image = 1"
  unfolding main_rom_offset_def main_entry_address_def main_ram_address_def main_size_def sub_rom_offset_def
    sub_entry_address_def sub_ram_address_def sub_size_def
  using sample_rd32 [of 0] sample_rd32 [of 1] sample_rd32 [of 2] sample_rd32 [of 3] sample_rd32 [of 4] sample_rd32 [of 5]
    sample_rd32 [of 6] sample_rd32 [of 7] by simp_all

lemma image_loaded_witness:
  "\<exists>s'. load_file (\<lambda>_. None) (Some \<lparr>content = sample_image, fpos = 0\<rparr>) \<lparr>lr_flags = 0, arm9_entry = 1, arm7_entry = 1\<rparr> LH_UNKNOWN pages0 =
      Some (True, \<lparr>lr_flags = 3, arm9_entry = 0x400, arm7_entry = 0x600\<rparr>, s') \<and>
    bytes_at (view ARM9 s') 0x400 2 = [1, 2] \<and> bytes_at (view ARM7 s') 0x604 1 = [3]"
proof -
  have len: "length sample_image = 515" by (simp add: sample_image_def Let_def)
  have ld: "loadable (view T pages0) a" for T a
    by (simp add: loadable_def view_def pages0_def mem0_def has_flag_def)
  have c: "range_cells (view ARM9 pages0) 0x400 2 = [(2, 0), (2, 1)]" "range_cells (view ARM7 pages0) 0x604 1 = [(3, 4)]"
    by (simp_all add: range_cells_def byte_addrs_def upt_rec cell8_def addr2page_def off8_def view_def pages0_def)
  have d: "drop 512 sample_image = [1, 2, 3]" "drop 514 sample_image = [3]"
    by (simp_all add: sample_image_def Let_def)
  have p: "part_ok sample_image pages0 ARM9 0x200 0x400 2" "part_ok sample_image pages0 ARM7 0x202 0x604 1"
    using ld c by (simp_all add: part_ok_def len)
  have "seen_cells pages0 ARM9 0x400 (unat (2 :: u32)) \<inter> seen_cells pages0 ARM7 0x604 (unat (1 :: u32)) = {}" using c by simp
  from image_loaded [of "\<lparr>content = sample_image, fpos = 0\<rparr>" sample_image LH_UNKNOWN pages0 "\<lambda>_. None"
      "\<lparr>lr_flags = 0, arm9_entry = 1, arm7_entry = 1\<rparr>", unfolded sample_fields, OF _ _ _ sample_header_ok _ _ p this]
  show ?thesis by (auto simp: len part_def d)
qed

section \<open>Compiled code of an earlier image\<close>

text \<open>Loading marks the pages it writes: the compiled code stays coherent.\<close>

lemma marks_chunk: "marks X m (snd (stream_chunk b i n (f, m)))"
proof (cases "has_flag m b PAGE_INVALID")
  case False
  obtain bs f' where "read_file n f = (bs, f')" by (cases "read_file n f")
  then show ?thesis using False by (simp add: stream_chunk_def) (rule marks_poke_dirty)
qed (simp add: stream_chunk_def)

lemma marks_rest: "marks X (snd fm) (snd (stream_rest a n fm))"
proof (induction n arbitrary: a fm rule: less_induct)
  case (less n)
  show ?case
  proof (cases "n = 0")
    case False
    let ?fm = "stream_chunk (addr2page a (snd fm)) 0 (min n 512) fm"
    have "marks X (snd fm) (snd ?fm)" using marks_chunk [of X "snd fm" _ 0 "min n 512" "fst fm"] by simp
    moreover have "marks X (snd ?fm) (snd (stream_rest (a + word_of_nat (min n 512)) (n - min n 512) ?fm))"
      using False by (intro less.IH) simp
    ultimately show ?thesis using False marks_trans by (simp only: stream_rest.simps [of _ n] Let_def if_False) blast
  qed (simp add: stream_rest.simps)
qed

lemma marks_stream:
  assumes "stream_memory a len (f, m) = Some (f', m')" shows "marks X m m'"
proof -
  have "marks X m (snd (stream_rest a' n' (stream_chunk b i n (f, m))))" for a' n' b i n
    by (rule marks_trans [OF marks_chunk marks_rest])
  from this [of _ _ "addr2page a m"] show ?thesis using assms
    by (auto simp: stream_memory_def Let_def split: if_splits) (metis snd_conv)
qed

lemma coherent_stream_on:
  assumes "coherent X env s" "stream_on T a len (f, s) = Some (f', s')"
  shows "coherent X env s'"
proof -
  obtain m where m: "stream_memory a len (f, view T s) = Some (f', m)" "s' = put_view m s"
    using assms(2) by (auto simp: stream_on_def)
  from marks_stream [OF m(1), of X] have "marks X (pmem s) m" by (simp add: marks_def view_def has_flag_def)
  then show ?thesis using coherent_marks [OF assms(1)] m(2) by simp
qed

text \<open>The same with the stream first, which each use of the rule consumes.\<close>

lemma stream_on_coherent: "stream_on T a len (f, s) = Some (f', s') \<Longrightarrow> coherent X env s \<Longrightarrow> coherent X env s'"
  by (rule coherent_stream_on)

lemma nds_load_coherent: "nds_load f res s = Some (ok, res', f', s') \<Longrightarrow> coherent X env s \<Longrightarrow> coherent X env s'"
  by (auto simp: nds_load_def split: prod.splits if_splits option.splits dest!: stream_on_coherent)

lemma raw_load_coherent: "raw_load f res lh s = Some (ok, res', f', s') \<Longrightarrow> coherent X env s \<Longrightarrow> coherent X env s'"
  by (auto simp: raw_load_def Let_def split: load_hint.splits option.splits dest!: stream_on_coherent)

lemma elf_segments_coherent:
  "elf_segments e lh phs (res, f, s) = Some (res', f', s') \<Longrightarrow> coherent X env s \<Longrightarrow> coherent X env s'"
proof (induction phs arbitrary: res f s)
  case (Cons ph phs)
  show ?case
  proof (cases "p_flags ph AND PT_LOAD = 0")
    case False
    then obtain T res1 f1 s1 where st: "stream_on T (p_paddr ph) (sint (p_filesz ph)) (lseek (p_offset ph) f, s) = Some (f1, s1)"
      and rest: "elf_segments e lh phs (res1, f1, s1) = Some (res', f', s')"
      using Cons.prems(1) by (auto simp: Let_def split: option.splits)
    from rest stream_on_coherent [OF st Cons.prems(2)] show ?thesis by (rule Cons.IH)
  qed (use Cons in simp)
qed simp

lemma load_file_coherent:
  "load_file elf file res lh s = Some (ok, res', s') \<Longrightarrow> coherent X env s \<Longrightarrow> coherent X env s'"
  by (auto simp: load_file_def elf_load_def Let_def split: option.splits if_splits prod.splits
      dest!: nds_load_coherent raw_load_coherent elf_segments_coherent)

end
