(* ===== verification/Mem_Map.thy ===== *)
theory Mem_Map
  imports Page_Cache "HOL-Library.Multiset"
begin

text \<open>
  The page table of a processor as it is built: \<^verbatim>\<open>memory_map<T>::map_region\<close>,
  \<^verbatim>\<open>unmap\<close> and \<^verbatim>\<open>init_null\<close> of \<^verbatim>\<open>Core/MemMap.h\<close>, the start mappings of
  \<^verbatim>\<open>Core/PhysMem.cpp\<close> and \<^verbatim>\<open>remap_tcm\<close> of \<^verbatim>\<open>Core/HLE.cpp\<close>. Which regions are
  mapped where is kept in an interval map of a library, which is a parameter here. The theorem:
  whatever is mapped and unmapped, every page of the table belongs to the region of the highest
  priority among those mapped over it.
\<close>

section \<open>Regions\<close>

text \<open>\<^verbatim>\<open>memory_region_base\<close>: the blocks of a region are part of it, so the number of the first
  one orders the regions as their addresses do.\<close>

record region =
  r_name :: string
  r_pages :: nat
  r_priority :: nat
  r_start :: nat

text \<open>The regions of \<^verbatim>\<open>region_entry\<close>, in the order of their addresses.\<close>

type_synonym entry = "region list"

text \<open>\<^verbatim>\<open>region_entry::recalc_prio\<close>: two regions of one priority stop in the debugger.\<close>

fun prio_scan :: "region \<Rightarrow> entry \<Rightarrow> region res" where
  "prio_scan p [] = Inr p"
| "prio_scan p (x # xs) =
    (if r_priority x = r_priority p then Inl (Debug_Break ''Memory mapping clash'')
     else prio_scan (if r_priority x > r_priority p then x else p) xs)"

definition recalc_prio :: "entry \<Rightarrow> region option res" where
  "recalc_prio sections = (case sections of [] \<Rightarrow> Inr None | x # xs \<Rightarrow> rbind (prio_scan x xs) (\<lambda>p. Inr (Some p)))"

text \<open>\<^verbatim>\<open>operator+=\<close> (\<^verbatim>\<open>std::list::merge\<close>) and \<^verbatim>\<open>operator-=\<close>
  (\<^verbatim>\<open>std::set_difference\<close>).\<close>

fun entry_add :: "entry \<Rightarrow> entry \<Rightarrow> entry" where
  "entry_add [] ys = ys"
| "entry_add xs [] = xs"
| "entry_add (x # xs) (y # ys) =
    (if r_start y < r_start x then y # entry_add (x # xs) ys else x # entry_add xs (y # ys))"

fun entry_sub :: "entry \<Rightarrow> entry \<Rightarrow> entry" where
  "entry_sub [] ys = []"
| "entry_sub xs [] = xs"
| "entry_sub (x # xs) (y # ys) =
    (if r_start x < r_start y then x # entry_sub xs (y # ys)
     else if r_start y < r_start x then entry_sub (x # xs) ys
     else entry_sub xs ys)"

section \<open>The interval map\<close>

text \<open>Right-open intervals of pages with the regions over them.\<close>

type_synonym seg = "(nat \<times> nat) \<times> entry"

definition TOTAL_PAGES :: nat where "TOTAL_PAGES = 2 ^ 23"

text \<open>What the code uses of \<^verbatim>\<open>itl::split_interval_map\<close>: the segments in the order of
  iteration, and the three operations; the addition and the subtraction combine the entries of an
  overlap with the given function.\<close>

record 'm itl =
  i_empty :: 'm
  i_segs :: "'m \<Rightarrow> seg list"
  i_add :: "(entry \<Rightarrow> entry \<Rightarrow> entry) \<Rightarrow> seg \<Rightarrow> 'm \<Rightarrow> 'm"
  i_sub :: "(entry \<Rightarrow> entry \<Rightarrow> entry) \<Rightarrow> seg \<Rightarrow> 'm \<Rightarrow> 'm"
  i_intersect :: "'m \<Rightarrow> (nat \<times> nat) list \<Rightarrow> 'm"

definition in_iv :: "nat \<Rightarrow> nat \<times> nat \<Rightarrow> bool" where
  "in_iv p iv = (fst iv \<le> p \<and> p < snd iv)"

text \<open>The entry over a page.\<close>

fun at_page :: "seg list \<Rightarrow> nat \<Rightarrow> entry option" where
  "at_page [] p = None"
| "at_page ((iv, e) # segs) p = (if in_iv p iv then Some e else at_page segs p)"

section \<open>The page table\<close>

record 'm mmap =
  map_tab :: "nat \<Rightarrow> nat"
  ovl :: 'm

text \<open>\<^verbatim>\<open>apply_mapping\<close>: the blocks of the region over the pages, from its first one, again and
  again.\<close>

definition apply_mapping :: "region \<Rightarrow> nat \<times> nat \<Rightarrow> (nat \<Rightarrow> nat) \<Rightarrow> nat \<Rightarrow> nat" where
  "apply_mapping r iv tab =
    fold (\<lambda>i tab. tab(fst iv + i := r_start r + i mod r_pages r)) [0..<snd iv - fst iv] tab"

text \<open>\<^verbatim>\<open>apply_mapping_internal\<close> with the assertions of what it calls; the priorities were computed when the entries were combined, where
  a clash stops.\<close>

fun apply_mapping_internal :: "seg list \<Rightarrow> (nat \<Rightarrow> nat) \<Rightarrow> (nat \<Rightarrow> nat) res" where
  "apply_mapping_internal [] tab = Inr tab"
| "apply_mapping_internal ((iv, e) # segs) tab = rbind (recalc_prio e) (\<lambda>prio. case prio of
     None \<Rightarrow> Inl (Debug_Break ''assert(0)'')
   | Some r \<Rightarrow> if fst iv < snd iv \<and> snd iv \<le> TOTAL_PAGES then apply_mapping_internal segs (apply_mapping r iv tab)
       else Inl (Debug_Break ''assert''))"

definition map_region :: "'m itl \<Rightarrow> region \<Rightarrow> nat \<times> nat \<Rightarrow> 'm mmap \<Rightarrow> 'm mmap res" where
  "map_region I r reg mm =
    (let ovl' = i_add I entry_add (reg, [r]) (ovl mm)
     in rbind (apply_mapping_internal (i_segs I (i_intersect I ovl' [reg])) (map_tab mm)) (\<lambda>tab.
        Inr \<lparr>map_tab = tab, ovl = ovl'\<rparr>))"

text \<open>\<^verbatim>\<open>map_region(region, page)\<close>: the region once.\<close>

definition map_once :: "'m itl \<Rightarrow> region \<Rightarrow> nat \<Rightarrow> 'm mmap \<Rightarrow> 'm mmap res" where
  "map_once I r page = map_region I r (page, page + r_pages r)"

text \<open>The intervals that show the region.\<close>

definition shown :: "region \<Rightarrow> seg list \<Rightarrow> (nat \<times> nat) list" where
  "shown r segs = map fst (filter (\<lambda>(_, e). recalc_prio e = Inr (Some r)) segs)"

text \<open>The priorities of all segments, which the subtraction computes.\<close>

fun check_segs :: "seg list \<Rightarrow> unit res" where
  "check_segs [] = Inr ()"
| "check_segs ((iv, e) # segs) = rbind (recalc_prio e) (\<lambda>_. check_segs segs)"

definition unmap :: "'m itl \<Rightarrow> region \<Rightarrow> 'm mmap \<Rightarrow> 'm mmap res" where
  "unmap I r mm =
    (let s = shown r (i_segs I (ovl mm));
         ovl' = i_sub I entry_sub ((0, TOTAL_PAGES), [r]) (ovl mm)
     in rbind (check_segs (i_segs I ovl')) (\<lambda>_.
        rbind (apply_mapping_internal (i_segs I (i_intersect I ovl' s)) (map_tab mm)) (\<lambda>tab.
        Inr \<lparr>map_tab = tab, ovl = ovl'\<rparr>)))"

definition init_null :: "'m itl \<Rightarrow> region \<Rightarrow> 'm mmap" where
  "init_null I null_region =
    \<lparr>map_tab = \<lambda>_. r_start null_region, ovl = i_add I entry_add ((0, TOTAL_PAGES), [null_region]) (i_empty I)\<rparr>"

section \<open>What the library is relied on for\<close>

text \<open>
  The documented behaviour of the interval map, on maps that its operations made (\<open>valid\<close>): an
  interval added to an empty map is its only segment; an addition over covered pages and a
  subtraction that leaves no empty entry combine the entries of the overlap and nothing else; an
  intersection keeps the entries of the given intervals; segments are not empty, and a page inside
  of one has its entry.
\<close>

definition well_segs :: "seg list \<Rightarrow> bool" where
  "well_segs segs = (\<forall>(iv, e) \<in> set segs. fst iv < snd iv \<and> (\<forall>p. in_iv p iv \<longrightarrow> at_page segs p = Some e))"

definition itl_ok :: "'m itl \<Rightarrow> ('m \<Rightarrow> bool) \<Rightarrow> bool" where
  "itl_ok I valid =
    ((\<forall>f iv e. fst iv < snd iv \<longrightarrow> valid (i_add I f (iv, e) (i_empty I)) \<and> i_segs I (i_add I f (iv, e) (i_empty I)) = [(iv, e)]) \<and>
     (\<forall>f iv v m. valid m \<longrightarrow> fst iv < snd iv \<longrightarrow> (\<forall>p. in_iv p iv \<longrightarrow> at_page (i_segs I m) p \<noteq> None) \<longrightarrow>
       valid (i_add I f (iv, v) m) \<and> (\<forall>p. at_page (i_segs I (i_add I f (iv, v) m)) p =
         (if in_iv p iv then map_option (\<lambda>w. f w v) (at_page (i_segs I m) p) else at_page (i_segs I m) p))) \<and>
     (\<forall>f iv v m. valid m \<longrightarrow> fst iv < snd iv \<longrightarrow> (\<forall>p w. in_iv p iv \<longrightarrow> at_page (i_segs I m) p = Some w \<longrightarrow> f w v \<noteq> []) \<longrightarrow>
       valid (i_sub I f (iv, v) m) \<and> (\<forall>p. at_page (i_segs I (i_sub I f (iv, v) m)) p =
         (if in_iv p iv then map_option (\<lambda>w. f w v) (at_page (i_segs I m) p) else at_page (i_segs I m) p))) \<and>
     (\<forall>m s. valid m \<longrightarrow> well_segs (i_segs I (i_intersect I m s)) \<and>
       (\<forall>p. at_page (i_segs I (i_intersect I m s)) p = (if \<exists>iv \<in> set s. in_iv p iv then at_page (i_segs I m) p else None))) \<and>
     (\<forall>m. valid m \<longrightarrow> well_segs (i_segs I m)))"

text \<open>The laws one by one.\<close>

lemma itl_first:
  assumes "itl_ok I valid" "fst iv < snd iv"
  shows "valid (i_add I f (iv, e) (i_empty I)) \<and> i_segs I (i_add I f (iv, e) (i_empty I)) = [(iv, e)]"
  using assms by (simp only: itl_ok_def simp_thms)

lemma itl_add:
  assumes "itl_ok I valid" "valid m" "fst iv < snd iv" "\<forall>p. in_iv p iv \<longrightarrow> at_page (i_segs I m) p \<noteq> None"
  shows "valid (i_add I f (iv, v) m) \<and> (\<forall>p. at_page (i_segs I (i_add I f (iv, v) m)) p =
    (if in_iv p iv then map_option (\<lambda>w. f w v) (at_page (i_segs I m) p) else at_page (i_segs I m) p))"
  using assms by (simp only: itl_ok_def simp_thms)

lemma itl_sub:
  assumes "itl_ok I valid" "valid m" "fst iv < snd iv" "\<forall>p w. in_iv p iv \<longrightarrow> at_page (i_segs I m) p = Some w \<longrightarrow> f w v \<noteq> []"
  shows "valid (i_sub I f (iv, v) m) \<and> (\<forall>p. at_page (i_segs I (i_sub I f (iv, v) m)) p =
    (if in_iv p iv then map_option (\<lambda>w. f w v) (at_page (i_segs I m) p) else at_page (i_segs I m) p))"
  using assms by (simp only: itl_ok_def simp_thms)

lemma itl_intersect:
  assumes "itl_ok I valid" "valid m"
  shows "well_segs (i_segs I (i_intersect I m s)) \<and>
    (\<forall>p. at_page (i_segs I (i_intersect I m s)) p = (if \<exists>iv \<in> set s. in_iv p iv then at_page (i_segs I m) p else None))"
  using assms by (simp only: itl_ok_def simp_thms)

lemma itl_well: "itl_ok I valid \<Longrightarrow> valid m \<Longrightarrow> well_segs (i_segs I m)"
  by (simp only: itl_ok_def simp_thms)

section \<open>Priorities\<close>

lemma prio_scan_max:
  "prio_scan p xs = Inr q \<Longrightarrow> q \<in> set (p # xs) \<and> (\<forall>x \<in># mset (p # xs) - {#q#}. r_priority x < r_priority q)"
proof (induction xs arbitrary: p)
  case (Cons x xs)
  let ?p = "if r_priority x > r_priority p then x else p" and ?o = "if r_priority x > r_priority p then p else x"
  have ne: "r_priority x \<noteq> r_priority p" and s: "prio_scan ?p xs = Inr q" using Cons.prems by (auto split: if_splits)
  note ih = Cons.IH [OF s]
  have "r_priority ?p \<le> r_priority q"
  proof (cases "q = ?p")
    case False
    then have "?p \<in># mset (?p # xs) - {#q#}" by (simp add: in_diff_count)
    then show ?thesis using ih by (blast intro: less_imp_le)
  qed simp
  then have o: "r_priority ?o < r_priority q" using ne by (auto split: if_splits)
  have m: "mset (p # x # xs) = add_mset ?o (mset (?p # xs))" by simp
  have "?o \<noteq> q" using o by auto
  then have d: "mset (p # x # xs) - {#q#} = add_mset ?o (mset (?p # xs) - {#q#})"
    unfolding m by (intro diff_add_mset_swap) simp
  have "q \<in># mset (p # x # xs)" unfolding m using ih by simp
  moreover have "\<forall>x \<in># mset (p # x # xs) - {#q#}. r_priority x < r_priority q" unfolding d using ih o by simp
  ultimately show ?case by (simp only: set_mset_mset)
qed simp

lemma prio_max:
  assumes "recalc_prio e = Inr (Some q)"
  shows "q \<in># mset e" "\<And>x. x \<in># mset e - {#q#} \<Longrightarrow> r_priority x < r_priority q"
  using assms prio_scan_max by (auto simp: recalc_prio_def rbind_Inr_iff split: list.splits)

text \<open>Removing another region does not change which one has the highest priority.\<close>

lemma prio_unique:
  assumes "recalc_prio e = Inr (Some q)" "recalc_prio e' = Inr (Some q')" "mset e' = mset e - {#r#}" "q \<noteq> r"
  shows "q' = q"
proof (rule ccontr)
  assume ne: "q' \<noteq> q"
  have "q \<in># mset e'" using prio_max(1) [OF assms(1)] assms(4) unfolding assms(3)
    by (simp only: in_diff_count count_single) (simp add: count_greater_zero_iff)
  then have "q \<in># mset e' - {#q'#}" using ne by (simp only: in_diff_count count_single) (simp add: count_greater_zero_iff)
  then have "r_priority q < r_priority q'" by (rule prio_max(2) [OF assms(2)])
  moreover have "q' \<in># mset e" using prio_max(1) [OF assms(2)] assms(3) by (metis in_diffD)
  then have "q' \<in># mset e - {#q#}" using ne by (simp only: in_diff_count count_single) (simp add: count_greater_zero_iff)
  then have "r_priority q' < r_priority q" by (rule prio_max(2) [OF assms(1)])
  ultimately show False by simp
qed

section \<open>Entries\<close>

lemma mset_entry_add [simp]: "mset (entry_add xs ys) = mset xs + mset ys"
  by (induction xs ys rule: entry_add.induct) (auto simp del: mset_map)

lemma set_entry_add [simp]: "set (entry_add xs ys) = set xs \<union> set ys"
  by (metis mset_entry_add set_mset_mset set_mset_union)

lemma sorted_entry_add: "sorted (map r_start xs) \<Longrightarrow> sorted (map r_start ys) \<Longrightarrow> sorted (map r_start (entry_add xs ys))"
  by (induction xs ys rule: entry_add.induct) auto

lemma entry_sub_one:
  "sorted (map r_start xs) \<Longrightarrow> inj_on r_start (insert r (set xs)) \<Longrightarrow> entry_sub xs [r] = remove1 r xs"
proof (induction xs)
  case (Cons x xs)
  have "inj_on r_start (insert r (set xs))" using Cons.prems(2) by (rule inj_on_subset) auto
  moreover have "r_start x = r_start r \<Longrightarrow> x = r" using inj_onD [OF Cons.prems(2), of x r] by simp
  moreover have "r_start r < r_start x \<Longrightarrow> r \<notin> set xs" using Cons.prems(1) by fastforce
  moreover have "entry_sub xs [] = xs" for xs by (cases xs) simp_all
  ultimately show ?case using Cons by (auto simp: remove1_idem)
qed simp

section \<open>Mapping\<close>

definition blocks_of :: "region \<Rightarrow> nat set" where
  "blocks_of r = {r_start r ..< r_start r + r_pages r}"

lemma apply_mapping_at:
  "apply_mapping r iv tab p = (if in_iv p iv then r_start r + (p - fst iv) mod r_pages r else tab p)"
proof -
  have "fold (\<lambda>i tab. tab(a + i := g i)) [0..<n] tab p = (if a \<le> p \<and> p < a + n then g (p - a) else tab p)" for a n and g :: "nat \<Rightarrow> nat"
    by (induction n) auto
  then show ?thesis by (auto simp: apply_mapping_def in_iv_def)
qed

lemma apply_mapping_block: "0 < r_pages r \<Longrightarrow> in_iv p iv \<Longrightarrow> apply_mapping r iv tab p \<in> blocks_of r"
  by (simp add: apply_mapping_at blocks_of_def)

text \<open>A page of the table shows the entry over it.\<close>

definition shows_entry :: "nat \<Rightarrow> entry \<Rightarrow> bool" where
  "shows_entry b e = (\<exists>r. recalc_prio e = Inr (Some r) \<and> b \<in> blocks_of r)"

lemma apply_internal_shows:
  "apply_mapping_internal segs tab = Inr tab' \<Longrightarrow>
   (\<And>iv e iv' e' p. (iv, e) \<in> set segs \<Longrightarrow> (iv', e') \<in> set segs \<Longrightarrow> in_iv p iv \<Longrightarrow> in_iv p iv' \<Longrightarrow> e = e') \<Longrightarrow>
   (\<And>iv e r. (iv, e) \<in> set segs \<Longrightarrow> r \<in> set e \<Longrightarrow> 0 < r_pages r) \<Longrightarrow>
   (\<forall>iv e p. (iv, e) \<in> set segs \<longrightarrow> in_iv p iv \<longrightarrow> shows_entry (tab' p) e) \<and>
   (\<forall>p. (\<forall>iv e. (iv, e) \<in> set segs \<longrightarrow> \<not> in_iv p iv) \<longrightarrow> tab' p = tab p)"
proof (induction segs arbitrary: tab)
  case (Cons s segs)
  obtain iv e where s: "s = (iv, e)" by (cases s)
  obtain r where r: "recalc_prio e = Inr (Some r)" and rest: "apply_mapping_internal segs (apply_mapping r iv tab) = Inr tab'"
    using Cons.prems(1) s by (auto simp: rbind_Inr_iff split: option.splits if_splits)
  have "r \<in> set e" using prio_max(1) [OF r] by simp
  then have pos: "0 < r_pages r" using Cons.prems(3) [of iv e r] s by simp
  have IH: "(\<forall>iv e p. (iv, e) \<in> set segs \<longrightarrow> in_iv p iv \<longrightarrow> shows_entry (tab' p) e) \<and>
    (\<forall>p. (\<forall>iv e. (iv, e) \<in> set segs \<longrightarrow> \<not> in_iv p iv) \<longrightarrow> tab' p = apply_mapping r iv tab p)"
  proof (rule Cons.IH [OF rest])
    show "e = e'" if "(iv, e) \<in> set segs" "(iv', e') \<in> set segs" "in_iv p iv" "in_iv p iv'" for iv e iv' e' p
      using Cons.prems(2) [of iv e iv' e' p] that by simp
    show "0 < r_pages r" if "(iv, e) \<in> set segs" "r \<in> set e" for iv e r using Cons.prems(3) [of iv e r] that by simp
  qed
  have "shows_entry (tab' p) e" if "in_iv p iv" for p
  proof (cases "\<exists>iv' e'. (iv', e') \<in> set segs \<and> in_iv p iv'")
    case True
    then obtain iv' e' where o: "(iv', e') \<in> set segs" "in_iv p iv'" by blast
    then have "e' = e" using Cons.prems(2) [of iv' e' iv e p] that s by simp
    then show ?thesis using IH o by blast
  next
    case False
    then have "tab' p = apply_mapping r iv tab p" using IH by blast
    then show ?thesis using apply_mapping_block [OF pos that] r by (auto simp: shows_entry_def)
  qed
  moreover have "tab' p = tab p" if "\<forall>iv' e'. (iv', e') \<in> set (s # segs) \<longrightarrow> \<not> in_iv p iv'" for p
  proof -
    have "\<forall>iv e. (iv, e) \<in> set segs \<longrightarrow> \<not> in_iv p iv" "\<not> in_iv p iv" using that s by (meson list.set_intros)+
    then have "tab' p = apply_mapping r iv tab p" "\<not> in_iv p iv" using IH by blast+
    then show ?thesis by (simp add: apply_mapping_at)
  qed
  ultimately show ?case using IH s by auto
qed simp

section \<open>Any sequence of mappings\<close>

datatype mop = Map region "nat \<times> nat" | Unmap region

fun mop_step :: "'m itl \<Rightarrow> mop \<Rightarrow> 'm mmap \<Rightarrow> 'm mmap res" where
  "mop_step I (Map r iv) mm = map_region I r iv mm"
| "mop_step I (Unmap r) mm = unmap I r mm"

fun run_mops :: "'m itl \<Rightarrow> mop list \<Rightarrow> 'm mmap \<Rightarrow> 'm mmap res" where
  "run_mops I [] mm = Inr mm"
| "run_mops I (x # xs) mm = rbind (mop_step I x mm) (run_mops I xs)"

text \<open>The specification: the regions mapped over each page.\<close>

fun mapped_step :: "mop \<Rightarrow> (nat \<Rightarrow> region multiset) \<Rightarrow> nat \<Rightarrow> region multiset" where
  "mapped_step (Map r iv) A p = (if in_iv p iv then add_mset r (A p) else A p)"
| "mapped_step (Unmap r) A p = A p - {#r#}"

definition mapped :: "region \<Rightarrow> mop list \<Rightarrow> nat \<Rightarrow> region multiset" where
  "mapped null_region ops = fold mapped_step ops (\<lambda>p. if p < TOTAL_PAGES then {#null_region#} else {#})"

fun mop_ok :: "region set \<Rightarrow> region \<Rightarrow> mop \<Rightarrow> bool" where
  "mop_ok R n (Map r iv) = (r \<in> R \<and> fst iv < snd iv \<and> snd iv \<le> TOTAL_PAGES)"
| "mop_ok R n (Unmap r) = (r \<in> R \<and> r \<noteq> n)"

text \<open>Regions are told apart by their addresses and have pages.\<close>

definition regions_ok :: "region set \<Rightarrow> bool" where
  "regions_ok R = (inj_on r_start R \<and> (\<forall>r \<in> R. 0 < r_pages r))"

definition page_ok :: "region set \<Rightarrow> region \<Rightarrow> entry option \<Rightarrow> region multiset \<Rightarrow> nat \<Rightarrow> bool" where
  "page_ok R n eo A b = (\<exists>e. eo = Some e \<and> mset e = A \<and> sorted (map r_start e) \<and> set e \<subseteq> R \<and> n \<in> set e \<and> shows_entry b e)"

definition minv :: "'m itl \<Rightarrow> ('m \<Rightarrow> bool) \<Rightarrow> region set \<Rightarrow> region \<Rightarrow> (nat \<Rightarrow> region multiset) \<Rightarrow> 'm mmap \<Rightarrow> bool" where
  "minv I valid R n A mm = (valid (ovl mm) \<and>
    (\<forall>p. if p < TOTAL_PAGES then page_ok R n (at_page (i_segs I (ovl mm)) p) (A p) (map_tab mm p)
         else at_page (i_segs I (ovl mm)) p = None \<and> A p = {#}))"

lemma at_page_in: "at_page segs p = Some e \<Longrightarrow> \<exists>iv. (iv, e) \<in> set segs \<and> in_iv p iv"
  by (induction segs p rule: at_page.induct) (auto split: if_splits)

text \<open>What \<^verbatim>\<open>apply_mapping_internal\<close> does on segments that are right.\<close>

lemma apply_well:
  assumes "apply_mapping_internal segs tab = Inr tab'" "well_segs segs"
    "\<forall>p e. at_page segs p = Some e \<longrightarrow> set e \<subseteq> R" "regions_ok R"
  shows "at_page segs p = Some e \<Longrightarrow> shows_entry (tab' p) e" "at_page segs p = None \<Longrightarrow> tab' p = tab p"
proof -
  have w: "fst iv < snd iv \<and> (\<forall>p. in_iv p iv \<longrightarrow> at_page segs p = Some e)" if "(iv, e) \<in> set segs" for iv e
    using assms(2) that by (auto simp: well_segs_def)
  have pos: "0 < r_pages r" if "(iv, e) \<in> set segs" "r \<in> set e" for iv e r
  proof -
    have "in_iv (fst iv) iv" using w [OF that(1)] by (simp add: in_iv_def)
    then have "set e \<subseteq> R" using w [OF that(1)] assms(3) by blast
    then show ?thesis using that(2) assms(4) by (auto simp: regions_ok_def)
  qed
  have same: "e = e'" if "(iv, e) \<in> set segs" "(iv', e') \<in> set segs" "in_iv p iv" "in_iv p iv'" for iv e iv' e' p
    using w [OF that(1)] w [OF that(2)] that(3,4) by (metis option.inject)
  have sh: "(\<forall>iv e p. (iv, e) \<in> set segs \<longrightarrow> in_iv p iv \<longrightarrow> shows_entry (tab' p) e) \<and>
    (\<forall>p. (\<forall>iv e. (iv, e) \<in> set segs \<longrightarrow> \<not> in_iv p iv) \<longrightarrow> tab' p = tab p)"
  proof (rule apply_internal_shows [OF assms(1)])
    show "e = e'" if "(iv, e) \<in> set segs" "(iv', e') \<in> set segs" "in_iv p iv" "in_iv p iv'" for iv e iv' e' p
      by (rule same [OF that])
    show "0 < r_pages r" if "(iv, e) \<in> set segs" "r \<in> set e" for iv e r by (rule pos [OF that])
  qed
  show "shows_entry (tab' p) e" if "at_page segs p = Some e" using sh at_page_in [OF that] by blast
  show "tab' p = tab p" if "at_page segs p = None" using sh w that by (metis option.distinct(1))
qed

lemma map_region_minv:
  assumes I: "itl_ok I valid" and R: "regions_ok R" and inv: "minv I valid R n A mm"
    and op: "r \<in> R" "fst iv < snd iv" "snd iv \<le> TOTAL_PAGES" and run: "map_region I r iv mm = Inr mm'"
  shows "minv I valid R n (mapped_step (Map r iv) A) mm'"
proof -
  let ?o = "i_add I entry_add (iv, [r]) (ovl mm)"
  let ?at = "\<lambda>m. at_page (i_segs I m)"
  let ?x = "i_intersect I ?o [iv]"
  have page: "page_ok R n (?at (ovl mm) p) (A p) (map_tab mm p)" if "p < TOTAL_PAGES" for p
    using inv that by (auto simp: minv_def)
  have lt: "p < TOTAL_PAGES" if "in_iv p iv" for p using that op by (auto simp: in_iv_def)
  have cov: "\<forall>p. in_iv p iv \<longrightarrow> ?at (ovl mm) p \<noteq> None"
    using page lt by (fastforce simp: page_ok_def)
  have v: "valid ?o" and o: "?at ?o p = (if in_iv p iv then map_option (\<lambda>w. entry_add w [r]) (?at (ovl mm) p) else ?at (ovl mm) p)" for p
    using itl_add [OF I _ op(2) cov, of entry_add "[r]"] inv by (simp_all add: minv_def)
  have wx: "well_segs (i_segs I ?x)" and x: "?at ?x p = (if in_iv p iv then ?at ?o p else None)" for p
    using itl_intersect [OF I v, of "[iv]"] by simp_all
  obtain tab where tab: "apply_mapping_internal (i_segs I ?x) (map_tab mm) = Inr tab" and mm': "mm' = \<lparr>map_tab = tab, ovl = ?o\<rparr>"
    using run by (auto simp: map_region_def Let_def rbind_Inr_iff)
  have new: "\<exists>e. ?at (ovl mm) p = Some e \<and> ?at ?x p = Some (entry_add e [r]) \<and> mset e = A p \<and> sorted (map r_start e) \<and> set e \<subseteq> R \<and> n \<in> set e"
    if "in_iv p iv" for p
    using page [OF lt [OF that]] o [of p] x [of p] that by (auto simp: page_ok_def)
  have R': "\<forall>p e. ?at ?x p = Some e \<longrightarrow> set e \<subseteq> R"
  proof (intro allI impI)
    fix p e assume a: "?at ?x p = Some e"
    then have "in_iv p iv" using x [of p] by (simp split: if_splits)
    from new [OF this] a op(1) show "set e \<subseteq> R" by auto
  qed
  note ap = apply_well [OF tab wx R' R]
  have "page_ok R n (?at ?o p) (mapped_step (Map r iv) A p) (tab p)" if p: "p < TOTAL_PAGES" for p
  proof (cases "in_iv p iv")
    case True
    obtain e where e: "?at (ovl mm) p = Some e" "?at ?x p = Some (entry_add e [r])" "mset e = A p" "sorted (map r_start e)" "set e \<subseteq> R" "n \<in> set e"
      using new [OF True] by blast
    have "?at ?o p = Some (entry_add e [r])" using o [of p] True e(1) by simp
    then show ?thesis using ap(1) [OF e(2)] e True op(1) sorted_entry_add [OF e(4), of "[r]"]
      by (simp add: page_ok_def)
  next
    case False
    then have "tab p = map_tab mm p" using ap(2) x [of p] by simp
    then show ?thesis using page [OF p] o [of p] False by simp
  qed
  moreover have "?at ?o p = None \<and> mapped_step (Map r iv) A p = {#}" if "\<not> p < TOTAL_PAGES" for p
  proof -
    have "\<not> in_iv p iv" using lt that by blast
    then show ?thesis using inv that o [of p] by (simp add: minv_def)
  qed
  ultimately show ?thesis using v unfolding minv_def mm' by simp
qed

lemma check_segs_ok: "check_segs segs = Inr () \<Longrightarrow> (iv, e) \<in> set segs \<Longrightarrow> \<exists>q. recalc_prio e = Inr q"
  by (induction segs) (auto simp: rbind_Inr_iff)

lemma recalc_some: "e \<noteq> [] \<Longrightarrow> recalc_prio e = Inr q \<Longrightarrow> q \<noteq> None"
  by (auto simp: recalc_prio_def rbind_Inr_iff split: list.splits)

lemma unmap_minv:
  assumes I: "itl_ok I valid" and R: "regions_ok R" and inv: "minv I valid R n A mm"
    and op: "r \<in> R" "r \<noteq> n" and run: "unmap I r mm = Inr mm'"
  shows "minv I valid R n (mapped_step (Unmap r) A) mm'"
proof -
  let ?o = "i_sub I entry_sub ((0, TOTAL_PAGES), [r]) (ovl mm)"
  let ?at = "\<lambda>m. at_page (i_segs I m)"
  let ?s = "shown r (i_segs I (ovl mm))"
  let ?x = "i_intersect I ?o ?s"
  have pos: "0 < TOTAL_PAGES" by (simp add: TOTAL_PAGES_def)
  have in_all: "in_iv p (0, TOTAL_PAGES) = (p < TOTAL_PAGES)" for p by (simp add: in_iv_def)
  have out: "?at (ovl mm) p = None \<and> A p = {#}" if "\<not> p < TOTAL_PAGES" for p
    using inv that by (simp add: minv_def)
  have page: "\<exists>e. ?at (ovl mm) p = Some e \<and> mset e = A p \<and> sorted (map r_start e) \<and> set e \<subseteq> R \<and> n \<in> set e \<and>
      shows_entry (map_tab mm p) e \<and> entry_sub e [r] = remove1 r e" if "p < TOTAL_PAGES" for p
  proof -
    have "page_ok R n (?at (ovl mm) p) (A p) (map_tab mm p)" using inv that by (simp add: minv_def)
    then obtain e where e: "?at (ovl mm) p = Some e" "mset e = A p" "sorted (map r_start e)" "set e \<subseteq> R" "n \<in> set e" "shows_entry (map_tab mm p) e"
      by (auto simp: page_ok_def)
    have "inj_on r_start (insert r (set e))" using inj_on_subset [of r_start R "insert r (set e)"] R e(4) op(1) by (simp add: regions_ok_def)
    then show ?thesis using e entry_sub_one [OF e(3)] by blast
  qed
  have ne: "\<forall>p w. in_iv p (0, TOTAL_PAGES) \<longrightarrow> ?at (ovl mm) p = Some w \<longrightarrow> entry_sub w [r] \<noteq> []"
  proof (intro allI impI)
    fix p w assume "in_iv p (0, TOTAL_PAGES)" "?at (ovl mm) p = Some w"
    then obtain e where e: "w = e" "n \<in> set e" "entry_sub e [r] = remove1 r e" using page [of p] in_all by auto
    have "n \<in> set (remove1 r e)" using e(2) op(2) by (simp add: in_set_remove1)
    then show "entry_sub w [r] \<noteq> []" using e by auto
  qed
  have v: "valid ?o" and o: "?at ?o p = (if p < TOTAL_PAGES then map_option (\<lambda>w. entry_sub w [r]) (?at (ovl mm) p) else ?at (ovl mm) p)" for p
    using itl_sub [OF I, of "ovl mm" "(0, TOTAL_PAGES)" entry_sub "[r]"] ne inv pos by (simp_all add: minv_def in_all)
  have wx: "well_segs (i_segs I ?x)" and x: "?at ?x p = (if \<exists>iv \<in> set ?s. in_iv p iv then ?at ?o p else None)" for p
    using itl_intersect [OF I v, of ?s] by simp_all
  obtain tab where ck: "check_segs (i_segs I ?o) = Inr ()" and tab: "apply_mapping_internal (i_segs I ?x) (map_tab mm) = Inr tab"
    and mm': "mm' = \<lparr>map_tab = tab, ovl = ?o\<rparr>"
    using run by (auto simp: unmap_def Let_def rbind_Inr_iff)
  have sh: "(\<exists>iv \<in> set ?s. in_iv p iv) = (\<exists>e. ?at (ovl mm) p = Some e \<and> recalc_prio e = Inr (Some r))" for p
  proof
    assume "\<exists>iv \<in> set ?s. in_iv p iv"
    then obtain iv e where "(iv, e) \<in> set (i_segs I (ovl mm))" "recalc_prio e = Inr (Some r)" "in_iv p iv" by (auto simp: shown_def)
    then show "\<exists>e. ?at (ovl mm) p = Some e \<and> recalc_prio e = Inr (Some r)"
      using itl_well [OF I, of "ovl mm"] inv by (fastforce simp: well_segs_def minv_def)
  next
    assume "\<exists>e. ?at (ovl mm) p = Some e \<and> recalc_prio e = Inr (Some r)"
    then obtain e where "?at (ovl mm) p = Some e" "recalc_prio e = Inr (Some r)" by blast
    then show "\<exists>iv \<in> set ?s. in_iv p iv" using at_page_in [of "i_segs I (ovl mm)" p e] by (force simp: shown_def)
  qed
  have R': "\<forall>p e. ?at ?x p = Some e \<longrightarrow> set e \<subseteq> R"
  proof (intro allI impI)
    fix p e assume "?at ?x p = Some e"
    then have oe: "?at ?o p = Some e" using x [of p] by (simp split: if_splits)
    then have p: "p < TOTAL_PAGES" using o [of p] out [of p] by (simp split: if_splits)
    from page [OF p] obtain w where "?at (ovl mm) p = Some w" "set w \<subseteq> R" "entry_sub w [r] = remove1 r w" by blast
    then show "set e \<subseteq> R" using oe o [of p] p set_remove1_subset [of r w] by simp
  qed
  note ap = apply_well [OF tab wx R' R]
  have "page_ok R n (?at ?o p) (A p - {#r#}) (tab p)" if p: "p < TOTAL_PAGES" for p
  proof -
    obtain e where e: "?at (ovl mm) p = Some e" "mset e = A p" "sorted (map r_start e)" "set e \<subseteq> R" "n \<in> set e"
      "shows_entry (map_tab mm p) e" "entry_sub e [r] = remove1 r e" using page [OF p] by blast
    let ?e = "remove1 r e"
    have oe: "?at ?o p = Some ?e" using o [of p] p e(1,7) by simp
    have n: "n \<in> set ?e" using e(5) op(2) by (simp add: in_set_remove1)
    have "shows_entry (tab p) ?e"
    proof (cases "recalc_prio e = Inr (Some r)")
      case True
      then have "?at ?x p = Some ?e" using x [of p] sh [of p] e(1) oe by auto
      then show ?thesis by (rule ap(1))
    next
      case False
      then have "?at ?x p = None" using x [of p] sh [of p] e(1) by auto
      then have t: "tab p = map_tab mm p" by (rule ap(2))
      obtain q where q: "recalc_prio e = Inr (Some q)" "map_tab mm p \<in> blocks_of q" using e(6) by (auto simp: shows_entry_def)
      obtain iv where "(iv, ?e) \<in> set (i_segs I ?o)" using at_page_in [OF oe] by blast
      then obtain q' where "recalc_prio ?e = Inr q'" using check_segs_ok [OF ck] by blast
      moreover have "?e \<noteq> []" using n by auto
      ultimately obtain q'' where q'': "recalc_prio ?e = Inr (Some q'')" using recalc_some by blast
      have "q'' = q" using prio_unique [OF q(1) q'', of r] False q(1) by (simp add: mset_remove1)
      then show ?thesis using q q'' t by (auto simp: shows_entry_def)
    qed
    moreover have "sorted (map r_start ?e)" using e(3) by (metis sorted_map_remove1)
    moreover have "set ?e \<subseteq> R" using e(4) notin_set_remove1 by (metis subset_code(1))
    ultimately show ?thesis using oe n e(2) by (simp add: page_ok_def mset_remove1)
  qed
  moreover have "?at ?o p = None \<and> A p - {#r#} = {#}" if "\<not> p < TOTAL_PAGES" for p
    using out [OF that] o [of p] that by simp
  ultimately show ?thesis using v unfolding minv_def mm' by simp
qed

lemma init_minv:
  assumes I: "itl_ok I valid" and n: "n \<in> R" "regions_ok R"
  shows "minv I valid R n (\<lambda>p. if p < TOTAL_PAGES then {#n#} else {#}) (init_null I n)"
proof -
  have "valid (ovl (init_null I n)) \<and> i_segs I (ovl (init_null I n)) = [((0, TOTAL_PAGES), [n])]"
    using itl_first [OF I, of "(0, TOTAL_PAGES)" entry_add "[n]"] by (simp add: init_null_def TOTAL_PAGES_def)
  moreover have "r_start n \<in> blocks_of n" using n by (simp add: blocks_of_def regions_ok_def)
  ultimately show ?thesis using n
    by (simp add: minv_def page_ok_def in_iv_def shows_entry_def recalc_prio_def) (simp add: init_null_def)
qed

lemma run_minv:
  assumes I: "itl_ok I valid" and R: "regions_ok R"
  shows "minv I valid R n A mm \<Longrightarrow> list_all (mop_ok R n) ops \<Longrightarrow> run_mops I ops mm = Inr mm' \<Longrightarrow>
    minv I valid R n (fold mapped_step ops A) mm'"
proof (induction ops arbitrary: A mm)
  case (Cons x ops)
  obtain mm1 where s: "mop_step I x mm = Inr mm1" and rest: "run_mops I ops mm1 = Inr mm'"
    using Cons.prems(3) by (auto simp: rbind_Inr_iff)
  have "minv I valid R n (mapped_step x A) mm1"
  proof (cases x)
    case (Map r iv)
    then show ?thesis using map_region_minv [OF I R Cons.prems(1), of r iv mm1] Cons.prems(2) s by simp
  next
    case (Unmap r)
    then show ?thesis using unmap_minv [OF I R Cons.prems(1), of r mm1] Cons.prems(2) s by simp
  qed
  then show ?case using Cons.IH [OF _ _ rest] Cons.prems(2) by simp
qed simp

text \<open>
  C34: after any sequence of mappings and removals that did not stop in the debugger, every page
  of a processor's table is a block of one region, which is mapped over the page and whose
  priority is greater than that of every other region mapped over it. The interval map is the
  library's; its documented behaviour is the hypothesis.
\<close>

theorem page_shows_priority:
  assumes "itl_ok I valid" "regions_ok R" "null_region \<in> R" "list_all (mop_ok R null_region) ops"
    and "run_mops I ops (init_null I null_region) = Inr mm" "p < TOTAL_PAGES"
  shows "\<exists>r \<in># mapped null_region ops p. map_tab mm p \<in> blocks_of r \<and>
    (\<forall>x \<in># mapped null_region ops p - {#r#}. r_priority x < r_priority r)"
proof -
  have "minv I valid R null_region (mapped null_region ops) mm"
    unfolding mapped_def by (rule run_minv [OF assms(1,2) init_minv [OF assms(1,3,2)] assms(4,5)])
  then have "page_ok R null_region (at_page (i_segs I (ovl mm)) p) (mapped null_region ops p) (map_tab mm p)"
    using assms(6) by (simp add: minv_def)
  then obtain e r where e: "mset e = mapped null_region ops p" "recalc_prio e = Inr (Some r)" "map_tab mm p \<in> blocks_of r"
    by (auto simp: page_ok_def shows_entry_def)
  show ?thesis using prio_max [OF e(2)] e(1,3) by auto
qed

section \<open>A list of segments is such an interval map\<close>

definition cut :: "nat \<times> nat \<Rightarrow> entry \<Rightarrow> seg list" where
  "cut iv e = (if fst iv < snd iv then [(iv, e)] else [])"

definition combine :: "(entry \<Rightarrow> entry \<Rightarrow> entry) \<Rightarrow> seg \<Rightarrow> seg list \<Rightarrow> seg list" where
  "combine f s m = (case s of ((lo, hi), v) \<Rightarrow>
     concat (map (\<lambda>((a, b), w). cut (a, min b lo) w @ cut (max a lo, min b hi) (f w v) @ cut (max a hi, b) w) m))"

definition list_itl :: "seg list itl" where
  "list_itl = \<lparr>i_empty = [], i_segs = (\<lambda>m. m), i_add = (\<lambda>f s m. if m = [] then [s] else combine f s m), i_sub = combine,
     i_intersect = (\<lambda>m s. concat (map (\<lambda>((a, b), w). concat (map (\<lambda>(c, d). cut (max a c, min b d) w) s)) m))\<rparr>"

lemma at_page_append: "at_page (xs @ ys) p = (case at_page xs p of None \<Rightarrow> at_page ys p | Some e \<Rightarrow> Some e)"
  by (induction xs p rule: at_page.induct) auto

lemma at_page_cut: "at_page (cut iv e) p = (if in_iv p iv then Some e else None)"
  by (auto simp: cut_def in_iv_def)

lemma in_cut: "(iv', e') \<in> set (cut iv e) \<longleftrightarrow> iv' = iv \<and> e' = e \<and> fst iv < snd iv"
  by (auto simp: cut_def)

lemma at_combine:
  assumes "lo < hi"
  shows "at_page (combine f ((lo, hi), v) m) p =
    (if in_iv p (lo, hi) then map_option (\<lambda>w. f w v) (at_page m p) else at_page m p)"
proof (induction m)
  case (Cons s m)
  obtain a b w where s: "s = ((a, b), w)" by (metis prod.exhaust)
  have c: "combine f ((lo, hi), v) (s # m) =
      (cut (a, min b lo) w @ cut (max a lo, min b hi) (f w v) @ cut (max a hi, b) w) @ combine f ((lo, hi), v) m"
    by (simp add: combine_def s)
  show ?case unfolding c using assms Cons s by (auto simp: at_page_append at_page_cut in_iv_def split: option.splits)
qed (simp add: combine_def)

lemma well_combine:
  assumes "lo < hi" "well_segs m" shows "well_segs (combine f ((lo, hi), v) m)"
proof -
  have "fst iv' < snd iv' \<and> (\<forall>p. in_iv p iv' \<longrightarrow> at_page (combine f ((lo, hi), v) m) p = Some e')"
    if "(iv', e') \<in> set (combine f ((lo, hi), v) m)" for iv' e'
  proof -
    obtain a b w where m: "((a, b), w) \<in> set m" and
      c: "(iv', e') \<in> set (cut (a, min b lo) w @ cut (max a lo, min b hi) (f w v) @ cut (max a hi, b) w)"
      using \<open>(iv', e') \<in> set (combine f ((lo, hi), v) m)\<close> by (auto simp: combine_def)
    have w: "at_page m p = Some w" if "in_iv p (a, b)" for p using m assms(2) that by (auto simp: well_segs_def)
    show ?thesis using c w assms(1) by (auto simp: in_cut at_combine [OF assms(1)] in_iv_def)
  qed
  then show ?thesis by (auto simp: well_segs_def)
qed

lemma in_iv_inter: "in_iv p (max a c, min b d) = (in_iv p (a, b) \<and> in_iv p (c, d))"
  by (auto simp: in_iv_def)

lemma at_intersect:
  "at_page (i_intersect list_itl m s) p = (if \<exists>iv \<in> set s. in_iv p iv then at_page m p else None)"
proof (induction m)
  case (Cons x m)
  obtain a b w where x: "x = ((a, b), w)" by (metis prod.exhaust)
  have "at_page (concat (map (\<lambda>(c, d). cut (max a c, min b d) w) s)) p =
      (if in_iv p (a, b) \<and> (\<exists>iv \<in> set s. in_iv p iv) then Some w else None)"
    by (induction s) (auto simp: at_page_append at_page_cut in_iv_inter)
  then show ?case using Cons by (auto simp: list_itl_def x at_page_append)
qed (simp add: list_itl_def)

lemma well_intersect:
  assumes "well_segs m" shows "well_segs (i_intersect list_itl m s)"
proof -
  have "fst iv' < snd iv' \<and> (\<forall>p. in_iv p iv' \<longrightarrow> at_page (i_intersect list_itl m s) p = Some e')"
    if new: "(iv', e') \<in> set (i_intersect list_itl m s)" for iv' e'
  proof -
    obtain a b w c d where m: "((a, b), w) \<in> set m" "(c, d) \<in> set s" "(iv', e') \<in> set (cut (max a c, min b d) w)"
      using new by (auto simp: list_itl_def)
    have "at_page m p = Some w" if "in_iv p (a, b)" for p using m assms that by (auto simp: well_segs_def)
    moreover have "\<exists>iv \<in> set s. in_iv p iv" if "in_iv p (c, d)" for p using m(2) that by blast
    ultimately show ?thesis using m(3) by (auto simp: in_cut at_intersect in_iv_def)
  qed
  then show ?thesis by (auto simp: well_segs_def)
qed

lemma list_itl_ok: "itl_ok list_itl well_segs"
proof -
  have sub: "well_segs (i_sub list_itl f (iv, v) m) \<and> (\<forall>p. at_page (i_segs list_itl (i_sub list_itl f (iv, v) m)) p =
         (if in_iv p iv then map_option (\<lambda>w. f w v) (at_page (i_segs list_itl m) p) else at_page (i_segs list_itl m) p))"
    if "well_segs m" "fst iv < snd iv" for f iv v m
    using that well_combine [of "fst iv" "snd iv" m f v] at_combine [of "fst iv" "snd iv" f v m] by (simp add: list_itl_def)
  have add: "well_segs (i_add list_itl f (iv, v) m) \<and> (\<forall>p. at_page (i_segs list_itl (i_add list_itl f (iv, v) m)) p =
         (if in_iv p iv then map_option (\<lambda>w. f w v) (at_page (i_segs list_itl m) p) else at_page (i_segs list_itl m) p))"
    if "well_segs m" "fst iv < snd iv" "\<forall>p. in_iv p iv \<longrightarrow> at_page (i_segs list_itl m) p \<noteq> None" for f iv v m
  proof -
    have "in_iv (fst iv) iv" using that(2) by (simp add: in_iv_def)
    then have "m \<noteq> []" using that(3) by (auto simp: list_itl_def)
    then show ?thesis using sub [OF that(1,2), of f v] by (simp add: list_itl_def)
  qed
  have first: "well_segs (i_add list_itl f (iv, e) (i_empty list_itl)) \<and> i_segs list_itl (i_add list_itl f (iv, e) (i_empty list_itl)) = [(iv, e)]"
    if "fst iv < snd iv" for f iv e
    using that by (simp add: list_itl_def well_segs_def)
  have inter: "well_segs (i_segs list_itl (i_intersect list_itl m s)) \<and> (\<forall>p. at_page (i_segs list_itl (i_intersect list_itl m s)) p =
      (if \<exists>iv \<in> set s. in_iv p iv then at_page (i_segs list_itl m) p else None))" if "well_segs m" for m s
    using well_intersect [OF that] at_intersect [of m s] by (simp add: list_itl_def)
  have "well_segs m \<Longrightarrow> well_segs (i_segs list_itl m)" for m by (simp add: list_itl_def)
  then show ?thesis unfolding itl_ok_def using first add sub inter by blast
qed

text \<open>A null page, and two regions: the second has the higher priority.\<close>

definition sample_region :: "nat \<Rightarrow> region" where
  "sample_region k = \<lparr>r_name = ''sample'', r_pages = 2, r_priority = k, r_start = 10 * k\<rparr>"

lemma page_shows_priority_witness:
  "\<exists>mm. run_mops list_itl [Map (sample_region 1) (4, 8), Map (sample_region 2) (6, 9), Unmap (sample_region 2), Map (sample_region 2) (7, 8)]
      (init_null list_itl (sample_region 0)) = Inr mm \<and> map_tab mm 7 \<in> {20, 21} \<and> map_tab mm 6 \<in> {10, 11} \<and> map_tab mm 8 \<in> {0, 1}"
proof -
  let ?ops = "[Map (sample_region 1) (4, 8), Map (sample_region 2) (6, 9), Unmap (sample_region 2), Map (sample_region 2) (7, 8)]"
  let ?R = "{sample_region 0, sample_region 1, sample_region 2}"
  obtain mm where run: "run_mops list_itl ?ops (init_null list_itl (sample_region 0)) = Inr mm"
    by (simp add: run_mops.simps map_region_def unmap_def init_null_def list_itl_def combine_def cut_def sample_region_def Let_def
        recalc_prio_def shown_def TOTAL_PAGES_def)
  have ne [simp]: "sample_region i = sample_region j \<longleftrightarrow> i = j" for i j by (simp add: sample_region_def)
  have R: "regions_ok ?R" by (simp add: regions_ok_def sample_region_def)
  have ops: "list_all (mop_ok ?R (sample_region 0)) ?ops" by (simp add: TOTAL_PAGES_def)
  have b [simp]: "blocks_of (sample_region k) = {10 * k ..< 10 * k + 2}" "r_priority (sample_region k) = k" for k
    by (simp_all add: blocks_of_def sample_region_def)
  have m: "mapped (sample_region 0) ?ops 7 = {#sample_region 2, sample_region 1, sample_region 0#}"
    "mapped (sample_region 0) ?ops 6 = {#sample_region 1, sample_region 0#}" "mapped (sample_region 0) ?ops 8 = {#sample_region 0#}"
    by (simp_all add: mapped_def in_iv_def TOTAL_PAGES_def)
  note page = page_shows_priority [OF list_itl_ok R _ ops run]
  have "map_tab mm 7 \<in> {20, 21}" using page [of 7, unfolded m] by (auto simp: TOTAL_PAGES_def)
  moreover have "map_tab mm 6 \<in> {10, 11}" using page [of 6, unfolded m] by (auto simp: TOTAL_PAGES_def)
  moreover have "map_tab mm 8 \<in> {0, 1}" using page [of 8, unfolded m] by (auto simp: TOTAL_PAGES_def)
  ultimately show ?thesis using run by blast
qed

end
