(* ===== verification/Phys_Mem.thy ===== *)
theory Phys_Mem
  imports Mem_Map
begin

text \<open>
  The regions of the machine and the mappings it starts with (\<^verbatim>\<open>Core/PhysMem.cpp\<close>),
  the remapping of the tightly coupled memories (\<^verbatim>\<open>HLE<T>::remap_tcm\<close>) and the video
  memory banks of \<^verbatim>\<open>Core/vram.cpp\<close> and \<^verbatim>\<open>vram.h\<close>. Lemmas: the mappings are
  sequences of the operations of the page table, so their pages show the region of the highest
  priority; the banks are mapped as their control registers say, once, and a bank that is
  switched off is gone.
\<close>

section \<open>Regions\<close>

datatype mem_region = null_region | hle_bios | accessory_ram | accessory_rom | oam_ab | obj_vram_b | obj_vram_a
  | bg_vram_b | bg_vram_a | palettes | arm7_shared | data_tcm | ram | inst_tcm | exp_wram | arm7_wram | system_rom
  | registers9_1 | transfer9 | registers7_1 | transfer7
  | vram_a | vram_b | vram_c | vram_d | vram_e | vram_f | vram_g | vram_h | vram_i

text \<open>Name, size in bytes and priority. The sizes of the register pages are in their classes.\<close>

fun region_info :: "mem_region \<Rightarrow> string \<times> nat \<times> nat" where
  "region_info null_region = (''(NULL)'', 512, 0)"
| "region_info hle_bios = (''HLE BIOS'', 512, 1)"
| "region_info accessory_ram = (''DS Accessory RAM'', 64 * 1024, 1)"
| "region_info accessory_rom = (''DS Accessorry ROM'', 32 * 1024, 1)"
| "region_info oam_ab = (''2D Graphics Engine A/B OAM'', 2 * 1024, 1)"
| "region_info obj_vram_b = (''2D Graphics Engine B OBJ-VRAM'', 128 * 1024, 1)"
| "region_info obj_vram_a = (''2D Graphics Engine A OBJ-VRAM'', 256 * 1024, 1)"
| "region_info bg_vram_b = (''2D Graphics Engine B BG-VRAM'', 128 * 1024, 1)"
| "region_info bg_vram_a = (''2D Graphics Engine A BG-VRAM'', 512 * 1024, 1)"
| "region_info palettes = (''Palette Memory'', 2048, 1)"
| "region_info arm7_shared = (''Shared Internal Work RAM'', 32 * 1024, 1)"
| "region_info data_tcm = (''Data TCM'', 16 * 1024, 1000)"
| "region_info ram = (''Main Memory'', 4 * 1048576, 1)"
| "region_info inst_tcm = (''Instruction TCM'', 32 * 1024, 1001)"
| "region_info exp_wram = (''Internal Expanded Work RAM'', 256 * 1024, 1)"
| "region_info arm7_wram = (''ARM7 Exclusive Internal Work RAM'', 64 * 1024, 1)"
| "region_info system_rom = (''System ROM'', 0x10400, 1)"
| "region_info registers9_1 = (''IO registers 9.0'', 8 * 1024, 1)"
| "region_info transfer9 = (''IPC transfer region 9'', 512, 1)"
| "region_info registers7_1 = (''IO registers 7.0'', 8 * 1024, 1)"
| "region_info transfer7 = (''IPC transfer region 9'', 512, 1)"
| "region_info vram_a = (''VRAM-A'', 128 * 1024, 2)"
| "region_info vram_b = (''VRAM-B'', 128 * 1024, 3)"
| "region_info vram_c = (''VRAM-C'', 128 * 1024, 4)"
| "region_info vram_d = (''VRAM-D'', 128 * 1024, 5)"
| "region_info vram_e = (''VRAM-E'', 64 * 1024, 6)"
| "region_info vram_f = (''VRAM-F'', 16 * 1024, 7)"
| "region_info vram_g = (''VRAM-G'', 16 * 1024, 8)"
| "region_info vram_h = (''VRAM-H'', 32 * 1024, 9)"
| "region_info vram_i = (''VRAM-I'', 16 * 1024, 10)"

text \<open>Where the regions' blocks are, by the number of the first one.\<close>

type_synonym layout = "mem_region \<Rightarrow> nat"

definition region_of :: "layout \<Rightarrow> mem_region \<Rightarrow> region" where
  "region_of L r = (case region_info r of (name, sz, priority) \<Rightarrow>
     \<lparr>r_name = name, r_pages = sz div PAGE_SIZE, r_priority = priority, r_start = L r\<rparr>)"

text \<open>\<^verbatim>\<open>PAGING::REGION(low, high)\<close>, \<^verbatim>\<open>PAGING::PAGES<n>::PAGE\<close>, and the mapping of a
  region once from a page.\<close>

definition REGION :: "nat \<Rightarrow> nat \<Rightarrow> nat \<times> nat" where
  "REGION low high = (low div PAGE_SIZE, high div PAGE_SIZE)"

definition Map_to :: "layout \<Rightarrow> mem_region \<Rightarrow> nat \<times> nat \<Rightarrow> mop" where
  "Map_to L r iv = Map (region_of L r) iv"

definition Map_at :: "layout \<Rightarrow> mem_region \<Rightarrow> nat \<Rightarrow> mop" where
  "Map_at L r addr = Map (region_of L r) (addr div PAGE_SIZE, addr div PAGE_SIZE + r_pages (region_of L r))"

definition initial_map :: "layout \<Rightarrow> cpu \<Rightarrow> mop list" where
  "initial_map L T = (case T of
     ARM7 \<Rightarrow> [Map_at L hle_bios 0xEFEF0000, Map_to L accessory_ram (REGION 0x0A000000 0x0A100000),
       Map_to L accessory_rom (REGION 0x08000000 0x0A000000), Map_to L exp_wram (REGION 0x06000000 0x07000000),
       Map_at L registers7_1 0x04000000, Map_at L transfer7 0x04100000, Map_to L arm7_wram (REGION 0x03800000 0x04000000),
       Map_to L arm7_shared (REGION 0x03000000 0x03800000), Map_to L ram (REGION 0x02000000 0x03000000),
       Map_to L system_rom (REGION 0x00000000 0x00010400)]
   | ARM9 \<Rightarrow> [Map_at L hle_bios 0xEFEF0000, Map_at L oam_ab 0x07000000, Map_at L palettes 0x05000000,
       Map_at L registers9_1 0x04000000, Map_at L transfer9 0x04100000, Map_to L ram (REGION 0x02000000 0x03000000)])"

definition initialize_mapping :: "'m itl \<Rightarrow> layout \<Rightarrow> cpu \<Rightarrow> 'm mmap res" where
  "initialize_mapping I L T = run_mops I (initial_map L T) (init_null I (region_of L null_region))"

section \<open>Tightly coupled memories\<close>

text \<open>\<^verbatim>\<open>remap_tcm\<close>: the size is a power of two from 512 bytes on, the end wraps around.\<close>

definition tcm_base :: "u32 \<Rightarrow> u32" where "tcm_base value = value AND 0xFFFFF000"
definition tcm_end :: "u32 \<Rightarrow> u32" where
  "tcm_end value = tcm_base value + push_bit (unat (drop_bit 1 value AND 0x1F)) 512"

definition remap_tcm :: "'m itl \<Rightarrow> layout \<Rightarrow> cpu \<Rightarrow> u32 \<Rightarrow> u32 \<Rightarrow> 'm mmap \<Rightarrow> 'm mmap res" where
  "remap_tcm I L T value mode mm = (case T of
     ARM7 \<Rightarrow> Inl (Debug_Break ''Invalid TCM command (ARM7?)'')
   | ARM9 \<Rightarrow>
     (let iv = REGION (unat (tcm_base value)) (unat (tcm_end value));
          remap = (\<lambda>r. rbind (unmap I (region_of L r) mm) (map_region I (region_of L r) iv))
      in if mode = 0 then remap data_tcm
         else if mode = 1 then (if tcm_base value \<noteq> 0 then Inl (Debug_Break ''ITCM base must be 0'') else remap inst_tcm)
         else Inl (Debug_Break ''Invalid TCM command'')))"

section \<open>Video memory banks\<close>

text \<open>The page tables of both processors and \<^verbatim>\<open>cur_maps\<close>, where a bank is mapped (0: not).\<close>

record 'm vstate =
  tables :: "cpu \<Rightarrow> 'm mmap"
  cur_maps :: "cpu \<Rightarrow> nat \<Rightarrow> u32"

definition put_table :: "cpu \<Rightarrow> 'm mmap \<Rightarrow> 'm vstate \<Rightarrow> 'm vstate" where
  "put_table T mm v = v\<lparr>tables := (tables v)(T := mm)\<rparr>"

definition put_cur :: "cpu \<Rightarrow> nat \<Rightarrow> u32 \<Rightarrow> 'm vstate \<Rightarrow> 'm vstate" where
  "put_cur T idx addr v = v\<lparr>cur_maps := (cur_maps v)(T := (cur_maps v T)(idx := addr))\<rparr>"

definition unmap_bank :: "'m itl \<Rightarrow> layout \<Rightarrow> cpu \<Rightarrow> nat \<Rightarrow> mem_region \<Rightarrow> 'm vstate \<Rightarrow> 'm vstate res" where
  "unmap_bank I L T idx b v =
    (if cur_maps v T idx \<noteq> 0
     then rbind (unmap I (region_of L b) (tables v T)) (\<lambda>mm. Inr (put_cur T idx 0 (put_table T mm v)))
     else Inr v)"

definition map_bank :: "'m itl \<Rightarrow> layout \<Rightarrow> cpu \<Rightarrow> nat \<Rightarrow> mem_region \<Rightarrow> u32 \<Rightarrow> 'm vstate \<Rightarrow> 'm vstate res" where
  "map_bank I L T idx b addr v =
    (if cur_maps v T idx \<noteq> addr
     then rbind (unmap_bank I L T idx b v) (\<lambda>v.
          rbind (map_once I (region_of L b) (unat (drop_bit 9 addr)) (tables v T)) (\<lambda>mm.
          Inr (put_cur T idx addr (put_table T mm v))))
     else Inr v)"

text \<open>\<open>junk\<close> is what follows \<^verbatim>\<open>lut_fg\<close> in the host's memory.\<close>

definition lut_fg :: "(nat \<Rightarrow> u32) \<Rightarrow> u32 \<Rightarrow> u32" where
  "lut_fg junk ofs = (if unat ofs < 4 then [0, 0x4000, 0x10000, 0x14000] ! unat ofs else junk (unat ofs))"

text \<open>Where a bank is mapped by its mode and offset: the processor and the address.\<close>

definition vcnt_target :: "(nat \<Rightarrow> u32) \<Rightarrow> nat \<Rightarrow> u32 \<Rightarrow> u32 \<Rightarrow> (cpu \<times> mem_region \<times> u32) option" where
  "vcnt_target junk idx mst ofs =
    (let o14 = push_bit 14 ofs;
         ab = (\<lambda>r lcdc. if mst = 0 then Some (ARM9, r, lcdc) else if mst = 1 then Some (ARM9, r, 0x06000000 OR o14)
           else if mst = 2 then Some (ARM9, r, 0x06400000 OR o14) else None);
         cd = (\<lambda>r lcdc four. if mst = 0 then Some (ARM9, r, lcdc) else if mst = 1 then Some (ARM9, r, 0x06000000 OR o14)
           else if mst = 2 then Some (ARM7, r, 0x06000000 OR o14) else if mst = 4 then Some (ARM9, r, four) else None);
         fg = (\<lambda>r lcdc. if mst = 0 then Some (ARM9, r, lcdc) else if mst = 1 then Some (ARM9, r, 0x06000000 OR lut_fg junk ofs)
           else if mst = 2 then Some (ARM9, r, 0x06400000 OR lut_fg junk ofs) else None)
     in if idx = 0 then ab vram_a 0x06800000 else if idx = 1 then ab vram_b 0x06820000
        else if idx = 2 then cd vram_c 0x06840000 0x06200000 else if idx = 3 then cd vram_d 0x06860000 0x06600000
        else if idx = 4 then (if mst = 0 then Some (ARM9, vram_e, 0x06880000) else if mst = 1 then Some (ARM9, vram_e, 0x06000000)
          else if mst = 2 then Some (ARM9, vram_e, 0x06400000) else None)
        else if idx = 5 then fg vram_f 0x06890000 else if idx = 6 then fg vram_g 0x06894000
        else if idx = 8 then (if mst = 0 then Some (ARM9, vram_h, 0x06898000) else if mst = 1 then Some (ARM9, vram_h, 0x06200000) else None)
        else if idx = 9 then (if mst = 0 then Some (ARM9, vram_i, 0x068A0000) else if mst = 1 then Some (ARM9, vram_i, 0x06208000)
          else if mst = 2 then Some (ARM9, vram_i, 0x06600000) else None)
        else None)"

definition vram_banks :: "nat \<Rightarrow> mem_region" where
  "vram_banks idx = [vram_a, vram_b, vram_c, vram_d, vram_e, vram_f, vram_g, vram_h, vram_i] ! idx"

text \<open>A mode of bank C that is not in its list falls through into the list of bank D, which has
  the same modes.\<close>

definition map_vcnt :: "'m itl \<Rightarrow> layout \<Rightarrow> (nat \<Rightarrow> u32) \<Rightarrow> u32 \<Rightarrow> u32 \<Rightarrow> u32 \<Rightarrow> nat \<Rightarrow> 'm vstate \<Rightarrow> 'm vstate res" where
  "map_vcnt I L junk cnt mst_mask ofs_mask idx v =
    (if cnt AND 0x80 \<noteq> 0
     then (case vcnt_target junk idx (cnt AND mst_mask) (cnt AND ofs_mask) of
         Some (T, b, addr) \<Rightarrow> map_bank I L T idx b addr v
       | None \<Rightarrow> Inr v)
     else rbind (unmap_bank I L ARM7 idx (vram_banks idx) v) (unmap_bank I L ARM9 idx (vram_banks idx)))"

definition remap :: "'m itl \<Rightarrow> layout \<Rightarrow> (nat \<Rightarrow> u32) \<Rightarrow> (nat \<Rightarrow> u32) \<Rightarrow> 'm vstate \<Rightarrow> 'm vstate res" where
  "remap I L junk vramcnt v =
    rbind (map_vcnt I L junk (vramcnt 0) 0x3 0x18 0 v) (\<lambda>v.
    rbind (map_vcnt I L junk (vramcnt 1) 0x3 0x18 1 v) (\<lambda>v.
    rbind (map_vcnt I L junk (vramcnt 2) 0x7 0x18 2 v) (\<lambda>v.
    rbind (map_vcnt I L junk (vramcnt 3) 0x7 0x18 3 v) (\<lambda>v.
    rbind (map_vcnt I L junk (vramcnt 4) 0x7 0x00 4 v) (\<lambda>v.
    rbind (map_vcnt I L junk (vramcnt 5) 0x7 0x18 5 v) (\<lambda>v.
    rbind (map_vcnt I L junk (vramcnt 6) 0x7 0x18 6 v) (\<lambda>v.
    rbind (map_vcnt I L junk (vramcnt 8) 0x3 0x00 7 v) (\<lambda>v.
    map_vcnt I L junk (vramcnt 9) 0x3 0x00 8 v))))))))"

definition vram_init :: "'m vstate \<Rightarrow> 'm vstate" where
  "vram_init v = v\<lparr>cur_maps := \<lambda>_ _. 0\<rparr>"

text \<open>The control bytes: \<^verbatim>\<open>reg_at(0x240)\<close> in the registers of the ARM9.\<close>

definition vramcnt_of :: "layout \<Rightarrow> 's memory \<Rightarrow> nat \<Rightarrow> u32" where
  "vramcnt_of L m i = rd8 (mem (blk m (L registers9_1 + 0x240 div PAGE_SIZE))) (0x240 mod PAGE_SIZE + i)"

section \<open>The accesses of a bank's pages\<close>

text \<open>The virtual functions of \<^verbatim>\<open>vram_region\<close> on the ARM9's page table. No page asks for them:
  the constructor leaves the access handler switched off and protects the pages against single
  bytes.\<close>

definition vram_handlers :: "'s handlers" where
  "vram_handlers =
    \<lparr>h_load32 = \<lambda>_ a m. Inr (word_rotr (unat (push_bit 3 (a AND 3))) (rd32 (mem (blk m (addr2page a m))) (unat (a AND (ADDRESS_MASK AND NOT 3)))), m),
     h_load16u = \<lambda>_ a m. Inr (rd16 (mem (blk m (addr2page a m))) (unat (a AND (ADDRESS_MASK AND NOT 1))), m),
     h_load16s = \<lambda>_ a m. Inr (sext16 (rd16 (mem (blk m (addr2page a m))) (unat (a AND (ADDRESS_MASK AND NOT 1)))), m),
     h_load8u = \<lambda>_ a m. Inr (rd8 (mem (blk m (addr2page a m))) (unat (a AND ADDRESS_MASK)), m),
     h_load32_array = \<lambda>_ a _ m. Inl (Debug_Break ''Store multiple not supported to VRAM''),
     h_store32 = \<lambda>_ a v m. Inr (dirty (addr2page a m) (poke (addr2page a m) (wr32 (unat (a AND (ADDRESS_MASK AND NOT 3))) v) m)),
     h_store16 = \<lambda>_ a v m. Inr (dirty (addr2page a m) (poke (addr2page a m) (wr16 (unat (a AND (ADDRESS_MASK AND NOT 1))) v) m)),
     h_store8 = \<lambda>_ a v m. Inl (Debug_Break ''Warning DS doesnt allow 8bit stores to VRAM!''),
     h_store32_array = \<lambda>_ a ws m. Inl (Debug_Break ''Store multiple not supported to VRAM'')\<rparr>"

text \<open>The constructor: every block of the bank is protected against single bytes.\<close>

definition vram_region :: "layout \<Rightarrow> mem_region \<Rightarrow> 's memory \<Rightarrow> 's memory" where
  "vram_region L r m = fold (\<lambda>i. upd_blk (L r + i) (\<lambda>p. p\<lparr>flags := flags p OR PAGE_WRITEPROT8\<rparr>)) [0..<r_pages (region_of L r)] m"

section \<open>What holds\<close>

text \<open>The remapping of a tightly coupled memory is a removal and a mapping.\<close>

lemma remap_tcm_mops:
  assumes "remap_tcm I L T value mode mm = Inr mm'"
  shows "T = ARM9 \<and> (\<exists>r \<in> {data_tcm, inst_tcm}. run_mops I [Unmap (region_of L r),
    Map_to L r (REGION (unat (tcm_base value)) (unat (tcm_end value)))] mm = Inr mm')"
  using assms by (auto simp: remap_tcm_def Let_def Map_to_def rbind_Inr_iff split: cpu.splits if_splits)

text \<open>The regions are apart, and the start mappings are proper operations.\<close>

lemma layout_regions_ok: "inj L \<Longrightarrow> regions_ok (range (region_of L))"
proof -
  assume L: "inj L"
  have s: "r_start (region_of L r) = L r" for r by (simp add: region_of_def split: prod.split)
  have "0 < r_pages (region_of L r)" for r by (cases r) (simp_all add: region_of_def)
  moreover have "inj_on r_start (range (region_of L))" using L s by (auto intro!: inj_onI dest: injD)
  ultimately show ?thesis by (auto simp: regions_ok_def)
qed

lemma region_of_inject: "inj L \<Longrightarrow> region_of L r = region_of L q \<longleftrightarrow> r = q"
proof -
  assume L: "inj L"
  have s: "r_start (region_of L r) = L r" for r by (simp add: region_of_def split: prod.split)
  show ?thesis using L s by (metis injD)
qed

lemma region_of_fields [simp]:
  "r_pages (region_of L r) = fst (snd (region_info r)) div PAGE_SIZE" "r_priority (region_of L r) = snd (snd (region_info r))"
  "r_start (region_of L r) = L r"
  by (simp_all add: region_of_def split: prod.split)

lemma initial_map_ok: "inj L \<Longrightarrow> list_all (mop_ok (range (region_of L)) (region_of L null_region)) (initial_map L T)"
  by (cases T) (simp_all add: initial_map_def Map_to_def Map_at_def REGION_def TOTAL_PAGES_def region_of_inject)

text \<open>On the list of segments the start mappings meet no clash.\<close>

lemma entry_pair: "recalc_prio (entry_add [region_of L null_region] [region_of L r]) =
    Inr (Some (region_of L r))" if "r \<noteq> null_region"
  using that by (cases r) (simp_all add: recalc_prio_def)

lemma initial_mapping_runs: "\<exists>mm. initialize_mapping list_itl L T = Inr mm"
  by (cases T) (simp_all add: initialize_mapping_def initial_map_def Map_to_def Map_at_def REGION_def map_region_def init_null_def
      list_itl_def combine_def cut_def Let_def entry_pair TOTAL_PAGES_def del: entry_add.simps)

text \<open>Both processors start with the main memory in the same pages.\<close>

lemma initial_main_memory:
  assumes "itl_ok I valid" "inj L" "initialize_mapping I L T = Inr mm" "0x02000000 div 512 \<le> p" "p < 0x03000000 div 512"
  shows "map_tab mm p \<in> blocks_of (region_of L ram)"
proof -
  have p: "p < TOTAL_PAGES" using assms(5) by (simp add: TOTAL_PAGES_def)
  have m: "mapped (region_of L null_region) (initial_map L T) p = {#region_of L ram, region_of L null_region#}"
    using assms(4,5) p
    by (cases T) (simp_all add: mapped_def initial_map_def Map_to_def Map_at_def REGION_def in_iv_def)
  from page_shows_priority [OF assms(1) layout_regions_ok [OF assms(2)] _ initial_map_ok [OF assms(2)] assms(3) [unfolded initialize_mapping_def] p]
  obtain r where r: "r \<in># mapped (region_of L null_region) (initial_map L T) p" "map_tab mm p \<in> blocks_of r"
    "\<forall>x \<in># mapped (region_of L null_region) (initial_map L T) p - {#r#}. r_priority x < r_priority r" by auto
  have "r = region_of L ram"
  proof (rule ccontr)
    assume "r \<noteq> region_of L ram"
    then have "r = region_of L null_region" using r(1) unfolding m by simp
    then have "region_of L ram \<in># {#region_of L ram, region_of L null_region#} - {#r#}" by simp
    then have "r_priority (region_of L ram) < r_priority (region_of L null_region)"
      using r(3) \<open>r = region_of L null_region\<close> unfolding m by blast
    then show False by simp
  qed
  then show ?thesis using r(2) by simp
qed

text \<open>Writing the same control byte again changes nothing.\<close>

lemma put_cur_same: "cur_maps (put_cur T idx a v) T idx = a"
  by (simp add: put_cur_def)

lemma unmap_bank_cur:
  "unmap_bank I L T idx b v = Inr v' \<Longrightarrow> cur_maps v' T idx = 0 \<and> (\<forall>U. U \<noteq> T \<longrightarrow> cur_maps v' U = cur_maps v U)"
  by (auto simp: unmap_bank_def rbind_Inr_iff put_cur_def put_table_def split: if_splits)

lemma map_vcnt_again:
  assumes "map_vcnt I L junk cnt mst_mask ofs_mask idx v = Inr v'"
  shows "map_vcnt I L junk cnt mst_mask ofs_mask idx v' = Inr v'"
proof (cases "cnt AND 0x80 \<noteq> 0")
  case True
  show ?thesis
  proof (cases "vcnt_target junk idx (cnt AND mst_mask) (cnt AND ofs_mask)")
    case None
    then show ?thesis using True by (simp add: map_vcnt_def)
  next
    case (Some t)
    obtain T b addr where t: "t = (T, b, addr)" by (cases t)
    have "map_bank I L T idx b addr v = Inr v'" using assms True Some t by (simp add: map_vcnt_def)
    then have "cur_maps v' T idx = addr" by (auto simp: map_bank_def rbind_Inr_iff put_cur_same split: if_splits)
    then show ?thesis using True Some t by (simp add: map_vcnt_def map_bank_def)
  qed
next
  case False
  then obtain v1 where 7: "unmap_bank I L ARM7 idx (vram_banks idx) v = Inr v1" and 9: "unmap_bank I L ARM9 idx (vram_banks idx) v1 = Inr v'"
    using assms by (auto simp: map_vcnt_def rbind_Inr_iff)
  have "cur_maps v' ARM7 idx = 0" "cur_maps v' ARM9 idx = 0" using unmap_bank_cur [OF 7] unmap_bank_cur [OF 9] by simp_all
  then show ?thesis using False by (simp add: map_vcnt_def unmap_bank_def)
qed

text \<open>A bank that is switched off is in neither table's record.\<close>

lemma bank_off:
  assumes "map_vcnt I L junk cnt mst_mask ofs_mask idx v = Inr v'" "cnt AND 0x80 = 0"
  shows "cur_maps v' T idx = 0"
proof -
  obtain v1 where 7: "unmap_bank I L ARM7 idx (vram_banks idx) v = Inr v1" and 9: "unmap_bank I L ARM9 idx (vram_banks idx) v1 = Inr v'"
    using assms by (auto simp: map_vcnt_def rbind_Inr_iff)
  then show ?thesis using unmap_bank_cur [OF 7] unmap_bank_cur [OF 9] by (cases T) simp_all
qed

text \<open>Bank H is configured with the index 7, which the list of modes does not have.\<close>

lemma bank_h_never_mapped: "cnt AND 0x80 \<noteq> 0 \<Longrightarrow> map_vcnt I L junk cnt 0x3 0 7 v = Inr v"
  by (simp add: map_vcnt_def vcnt_target_def Let_def)

text \<open>Bank I has the index 8, under which the list has bank H.\<close>

lemma bank_i_maps_h: "vcnt_target junk 8 0 0 = Some (ARM9, vram_h, 0x06898000)"
  by (simp add: vcnt_target_def)

text \<open>A bank given from one processor to the other stays in the first one's table.\<close>

lemma bank_c_in_both:
  assumes "map_vcnt I L junk 0x82 0x7 0x18 2 v = Inr v'"
  shows "tables v' ARM9 = tables v ARM9"
proof -
  have t: "vcnt_target junk 2 2 0 = Some (ARM7, vram_c, 0x06000000)" by (simp add: vcnt_target_def)
  then have "map_bank I L ARM7 2 vram_c 0x06000000 v = Inr v'" using assms by (simp add: map_vcnt_def)
  then show ?thesis
    by (auto simp: map_bank_def unmap_bank_def rbind_Inr_iff put_cur_def put_table_def split: if_splits)
qed

text \<open>On a plain page the functions of a bank load what the direct access loads.\<close>

lemma vram_loads:
  assumes "plain_page m a"
  shows "h_load32 vram_handlers b a m = load32 hs a m" "h_load16u vram_handlers b a m = load16u hs a m"
    "h_load16s vram_handlers b a m = load16s hs a m" "h_load8u vram_handlers b a m = load8u hs a m"
    "h_store32 vram_handlers b a v m = store32 hs a v m" "h_store16 vram_handlers b a v m = store16 hs a v m"
  using plain_no_flag [OF assms]
  by (simp_all add: vram_handlers_def load32_def load16u_def load16s_def load8u_def store32_def store16_def Let_def)

end
