(* ===== verification/Source_Debug.thy ===== *)
theory Source_Debug
  imports Phys_Mem
begin

text \<open>
  Source level debugging (\<^verbatim>\<open>Core/SourceDebug.cpp\<close>, \<^verbatim>\<open>SourceDebug.h\<close>) and the
  queries the front end makes (\<^verbatim>\<open>Core/NDSE.cpp\<close>): which lines are at an address, which
  addresses are on a line, the numbering of the files. The interval map of the library is seen
  through its segments in the order of iteration.
\<close>

section \<open>Lines at an address\<close>

record source_info =
  lineno :: int
  fileno :: int
  colno :: int
  lopc :: u32
  hipc :: u32
  symbol :: string

text \<open>\<^verbatim>\<open>source_set\<close>: the pointers to the infos, by number.\<close>

type_synonym source_set = "nat list"

definition set_add :: "source_set \<Rightarrow> source_set \<Rightarrow> source_set" where
  "set_add xs other = xs @ other"

definition set_sub :: "source_set \<Rightarrow> source_set \<Rightarrow> source_set" where
  "set_sub xs other = fold removeAll other xs"

text \<open>An interval with the kinds of its bounds, as \<^verbatim>\<open>add\<close> makes it.\<close>

record pc_interval =
  pc_lower :: u32
  pc_upper :: u32
  pc_closed :: bool

definition pc_contains :: "pc_interval \<Rightarrow> u32 \<Rightarrow> bool" where
  "pc_contains iv addr = (pc_lower iv \<le> addr \<and> (if pc_closed iv then addr \<le> pc_upper iv else addr < pc_upper iv))"

definition source_add :: "((source_set \<Rightarrow> source_set \<Rightarrow> source_set) \<Rightarrow> pc_interval \<times> source_set \<Rightarrow> 'm \<Rightarrow> 'm) \<Rightarrow>
    u32 \<Rightarrow> u32 \<Rightarrow> nat \<Rightarrow> bool \<Rightarrow> 'm \<Rightarrow> 'm" where
  "source_add insert_iv start end' info include_end m =
    insert_iv set_add (\<lparr>pc_lower = start, pc_upper = end', pc_closed = include_end\<rparr>, [info]) m"

fun line_for :: "(pc_interval \<times> source_set) list \<Rightarrow> u32 \<Rightarrow> source_set option" where
  "line_for [] addr = None"
| "line_for ((iv, s) # m) addr =
    (if pc_lower iv > addr then None else if pc_contains iv addr then Some s else line_for m addr)"

section \<open>Files\<close>

text \<open>\<^verbatim>\<open>source_fileinfo\<close>: for each line the infos on it, where there are any.\<close>

record source_fileinfo =
  filename :: string
  lineinfo :: "source_set option list"

fun find_file :: "string \<Rightarrow> source_fileinfo list \<Rightarrow> nat \<Rightarrow> nat option" where
  "find_file name [] idx = None"
| "find_file name (f # fs) idx = (if filename f = name then Some idx else find_file name fs (idx + 1))"

definition add_source :: "string \<Rightarrow> source_fileinfo list \<Rightarrow> nat \<times> source_fileinfo list" where
  "add_source name files = (case find_file name files 0 of Some idx \<Rightarrow> (idx, files)
     | None \<Rightarrow> (length files, files @ [\<lparr>filename = name, lineinfo = []\<rparr>]))"

definition DEBUGGER_GetFilename :: "source_fileinfo list \<Rightarrow> int \<Rightarrow> string option" where
  "DEBUGGER_GetFilename files n = (if n < 0 \<or> n \<ge> int (length files) then None else Some (filename (files ! nat n)))"

text \<open>A file number equal to the number of files passes the test and reads behind the last
  file, \<open>behind\<close>.\<close>

definition DEBUGGER_SourceLine :: "source_fileinfo \<Rightarrow> source_fileinfo list \<Rightarrow> int \<Rightarrow> int \<Rightarrow> int \<Rightarrow> nat option" where
  "DEBUGGER_SourceLine behind files n line idx =
    (if n < 0 \<or> n > int (length files) \<or> line < 0 \<or> idx < 0 then None
     else let sil = lineinfo ((files @ [behind]) ! nat n)
          in if line \<ge> int (length sil) then None
             else case sil ! nat line of None \<Rightarrow> None
               | Some sis \<Rightarrow> if idx \<ge> int (length sis) then None else Some (sis ! nat idx))"

section \<open>The lines at an address, by index\<close>

text \<open>The loops of \<^verbatim>\<open>ARM9_SourceLine\<close>; a set is not empty. The second one does not change the
  index it tests.\<close>

fun forward_by :: "nat \<Rightarrow> source_set \<Rightarrow> nat option" where
  "forward_by n [] = None"
| "forward_by 0 (x # xs) = Some x"
| "forward_by (Suc n) (x # xs) = forward_by n xs"

fun backward_by :: "int \<Rightarrow> source_set \<Rightarrow> nat option" where
  "backward_by idx [] = None"
| "backward_by idx (x # xs) = (if idx < 0 then backward_by idx xs else Some x)"

definition ARM9_SourceLine :: "(pc_interval \<times> source_set) list \<Rightarrow> u32 \<Rightarrow> int \<Rightarrow> nat option" where
  "ARM9_SourceLine m addr idx = (case line_for m addr of None \<Rightarrow> None
     | Some s \<Rightarrow> if idx \<ge> 0 then forward_by (nat idx) s else backward_by (idx + 1) (rev s))"

text \<open>\<^verbatim>\<open>MEM_GetVRAM\<close>\<close>

definition MEM_GetVRAM :: "int \<Rightarrow> mem_region option" where
  "MEM_GetVRAM bank = (if 0 \<le> bank \<and> bank \<le> 8 then Some (vram_banks (nat bank)) else None)"

section \<open>What holds\<close>

lemma find_file_bound: "find_file name fs i = Some j \<Longrightarrow> i \<le> j \<and> j < i + length fs \<and> filename (fs ! (j - i)) = name"
proof (induction fs arbitrary: i)
  case (Cons f fs)
  show ?case
  proof (cases "filename f = name")
    case False
    then have "i + 1 \<le> j \<and> j < i + 1 + length fs \<and> filename (fs ! (j - (i + 1))) = name"
      by (intro Cons.IH) (use Cons.prems in simp)
    then show ?thesis by (auto simp: nth_Cons')
  qed (use Cons.prems in simp)
qed simp

lemma find_file_none: "find_file name fs i = None \<Longrightarrow> name \<notin> filename ` set fs"
  by (induction fs arbitrary: i) (auto split: if_splits)

lemma find_file_append: "find_file name (fs @ gs) i = (case find_file name fs i of Some j \<Rightarrow> Some j | None \<Rightarrow> find_file name gs (i + length fs))"
  by (induction fs arbitrary: i) (simp_all split: option.split)

text \<open>The number of a file stays: its name is there, and adding the name again gives it again.\<close>

lemma add_source_number:
  assumes "add_source name files = (n, files')"
  shows "n < length files' \<and> filename (files' ! n) = name \<and> take (length files) files' = files \<and> add_source name files' = (n, files')"
proof (cases "find_file name files 0")
  case None
  then show ?thesis using assms by (auto simp: add_source_def find_file_append)
next
  case (Some j)
  then show ?thesis using assms find_file_bound [OF Some] by (auto simp: add_source_def)
qed

lemma add_source_distinct:
  assumes "distinct (map filename files)" shows "distinct (map filename (snd (add_source name files)))"
  using assms find_file_none [of name files 0] by (auto simp: add_source_def split: option.splits)

text \<open>On ascending segments the early stop loses nothing.\<close>

lemma line_for_found:
  assumes "sorted (map (pc_lower \<circ> fst) m)"
  shows "line_for m addr = map_option snd (find (\<lambda>(iv, _). pc_contains iv addr) m)"
  using assms
proof (induction m)
  case (Cons x m)
  obtain iv s where x: "x = (iv, s)" by (cases x)
  have "find (\<lambda>(iv, _). pc_contains iv addr) m = None" if "addr < pc_lower iv"
    using that Cons.prems x by (fastforce simp: find_None_iff pc_contains_def)
  then show ?case using Cons x by (auto simp: pc_contains_def)
qed simp

text \<open>The first line by index, the last one with -1, and nothing with a smaller index.\<close>

lemma forward_by_nth: "forward_by n xs = (if n < length xs then Some (xs ! n) else None)"
  by (induction n xs rule: forward_by.induct) auto

lemma backward_by_none: "idx < 0 \<Longrightarrow> backward_by idx xs = None"
  by (induction xs) auto

lemma source_line_index:
  assumes "line_for m addr = Some s" "s \<noteq> []"
  shows "ARM9_SourceLine m addr idx =
    (if idx \<ge> 0 then (if nat idx < length s then Some (s ! nat idx) else None) else if idx = -1 then Some (last s) else None)"
proof -
  have "backward_by 0 (rev s) = Some (last s)" using assms(2) by (cases s rule: rev_cases) auto
  then show ?thesis using assms(1) by (auto simp: ARM9_SourceLine_def forward_by_nth backward_by_none)
qed

end
