(* ===== verification/Spec2Isabelle.thy ===== *)
theory Spec2Isabelle
  imports Decode_Text_Arm Decode_Text_Thumb Interrupt Decomp Io_Regs Dma Jit_Block Callstack Page_Cache Debug_Magic Stubs
    Hl_Calls Jit_Clz Stepping Loader Source_Debug
begin

text \<open>
  A verification development for NDSE-Core, an emulator core for a handheld console with two
  ARM processors. The sources are in \<^verbatim>\<open>src/Core\<close>; file names below are relative to it.

  \<^bold>\<open>The program.\<close> Guest memory is a table of pages of 512 bytes per processor, mapped onto physical
  regions by priority (\<^verbatim>\<open>MemMap.h\<close>, \<^verbatim>\<open>PhysMem.cpp\<close>, \<^verbatim>\<open>vram.cpp\<close>). A page
  of guest code is decoded (\<^verbatim>\<open>Disassembler.h\<close>) and compiled to 32-bit x86 code
  (\<^verbatim>\<open>Compiler.cpp\<close>), with a table that maps each guest instruction to its host code. A
  branch out of a page (\<^verbatim>\<open>HLE.cpp\<close>) polls the interrupts, finds the page, compiles it
  again when it is marked dirty, and returns the host address to go on at. Loads and stores call
  \<^verbatim>\<open>HLE.cpp\<close>, which checks the page's protection, marks it dirty, or calls the virtual
  functions of the register pages (\<^verbatim>\<open>IORegs.cpp\<close>), which drive DMA, the serial port and the
  message queues between the processors. Software interrupts implement BIOS routines. A debugger
  patches break instructions into the compiled code (\<^verbatim>\<open>Breakpoint.h\<close>) and resumes it
  (\<^verbatim>\<open>runner.h\<close>). Images are loaded by \<^verbatim>\<open>Util.cpp\<close> and the loaders.

  \<^bold>\<open>Conventions.\<close> \<^verbatim>\<open>unsigned long\<close> is a 32-bit word, as in the build the code
  generator is for. Records are the structs, datatypes the enumerations; the static members of the
  class templates are fields of a state record, with a value of type \<open>cpu\<close> or \<open>iset\<close> for the template's
  argument. A stop in the host's debugger (\<^verbatim>\<open>DebugBreak_\<close>), an invalid access and a failed
  assertion are the left values of \<open>res\<close>. Logging is left out. What an uninitialised variable or
  the memory behind an array holds is an argument, and the theorems hold for each. Code outside the
  repository is an argument too: the x86 disassembler, the interval map and the ELF library,
  the host's allocator, the guest's interrupt handlers and callbacks.

  \<^bold>\<open>Theories and sources.\<close>
  \<^item> \<open>Prelude\<close>, \<open>Bytes\<close>: words, bit fields, the result type; bytes of words in memory
    (\<^verbatim>\<open>endian_access\<close> of \<^verbatim>\<open>IORegs.cpp\<close>).
  \<^item> \<open>Isa\<close>, \<open>Decode_Arm\<close>, \<open>Decode_Thumb\<close>, \<open>Disasm_Text\<close>, \<open>Decode_Text\<close>, \<open>Decode_Text_Arm\<close>,
    \<open>Decode_Text_Thumb\<close>: the decoder and the text formatter (\<^verbatim>\<open>Disassembler.h\<close>,
    \<^verbatim>\<open>Disassembler.cpp\<close>). One definition per sub-decoder on the context record. The text of
    every instruction is defined by the instruction word alone and fits the buffer.
  \<^item> \<open>Cpsr\<close>: contexts, modes, the status register and the register banks (\<^verbatim>\<open>ArmContext.h\<close>,
    \<^verbatim>\<open>CPUMode.h\<close>, \<^verbatim>\<open>Processor.h\<close>, \<^verbatim>\<open>HLE.cpp\<close>). \<open>Interrupt\<close>: signals and
    polling (\<^verbatim>\<open>Interrupt.h\<close>).
  \<^item> \<open>Fifo\<close>, \<open>Ipc\<close>: the ring buffer (\<^verbatim>\<open>fifo.h\<close>), its contract as a locale, and the
    messages between the processors as a transition system (\<^verbatim>\<open>IORegs.cpp\<close>).
  \<^item> \<open>Memory\<close>: pages, protection, accesses, transfers of several words and streaming
    (\<^verbatim>\<open>Mem.h\<close>, \<^verbatim>\<open>HLE.cpp\<close>, \<^verbatim>\<open>MemMap.h\<close>); the locale \<open>cell_store\<close> is what
    clients rely on, interpreted for words, halfwords, bytes, the units of DMA and the loader's bytes.
  \<^item> \<open>Mem_Map\<close>, \<open>Phys_Mem\<close>: the page tables, the regions and start mappings, the tightly coupled
    memories and the video memory banks (\<^verbatim>\<open>MemMap.h\<close>, \<^verbatim>\<open>PhysMem.cpp\<close>, \<^verbatim>\<open>HLE.cpp\<close>,
    \<^verbatim>\<open>vram.cpp\<close>, \<^verbatim>\<open>vram.h\<close>).
  \<^item> \<open>Io_Regs\<close>, \<open>Dma\<close>: the register and transfer pages (\<^verbatim>\<open>IORegs.cpp\<close>) and transfers
    (\<^verbatim>\<open>dma.cpp\<close>).
  \<^item> \<open>Lz77\<close>, \<open>Crc16\<close>, \<open>Decomp\<close>: decompressor over a mixin locale (\<^verbatim>\<open>lz77.h\<close>), checksum
    (\<^verbatim>\<open>Util.cpp\<close>), and the software interrupts that use them (\<^verbatim>\<open>HLE.cpp\<close>).
  \<^item> \<open>Jit_Emit\<close>, \<open>Jit_Cases\<close>, \<open>Jit_Page\<close>: the code generator (\<^verbatim>\<open>Compiler.cpp\<close>,
    \<^verbatim>\<open>Compiler.h\<close>): the stream, one definition per case, pages and relocation.
  \<^item> \<open>X86\<close>, \<open>Arm_Sem\<close>: what the emitted host instructions and the guest instructions mean, from the
    processors' manuals; the references of the next group.
  \<^item> \<open>Jit_Exec\<close>, \<open>Jit_Alu\<close>, \<open>Jit_Code\<close>, \<open>Jit_Data\<close>, \<open>Jit_Cond\<close>, \<open>Jit_Block\<close>, \<open>Jit_Clz\<close>: the
    emitted bytes, run by the host, compute what the guest instruction means.
  \<^item> \<open>Page_Cache\<close>, \<open>Callstack\<close>, \<open>Stubs\<close>, \<open>Debug_Magic\<close>: recompilation and branches, the tracer of
    calls, the hand-written host code, the debugging instruction (\<^verbatim>\<open>Mem.cpp\<close>,
    \<^verbatim>\<open>HLE.cpp\<close>, \<^verbatim>\<open>HLE.h\<close>).
  \<^item> \<open>Hl_Core\<close>, \<open>Hl_Calls\<close>: the interpreter core (\<^verbatim>\<open>HLCore.cpp\<close>) and the calls generated for
    it, an alternative that the build switches off.
  \<^item> \<open>Breakpoint\<close>, \<open>Break_Inv\<close>, \<open>Break_Ops\<close>, \<open>Break_Steps\<close>, \<open>Break_Reach\<close>, \<open>Break_Props\<close>: the
    debugger (\<^verbatim>\<open>Breakpoint.h\<close>, \<^verbatim>\<open>Breakpoint.cpp\<close>, \<^verbatim>\<open>BreakpointBase.h\<close>).
    \<open>Stepping\<close>: steps and the runner (\<^verbatim>\<open>Breakpoint.h\<close>, \<^verbatim>\<open>runner.h\<close>).
  \<^item> \<open>Loader\<close>, \<open>Source_Debug\<close>: images (\<^verbatim>\<open>Util.cpp\<close>, \<^verbatim>\<open>loader_nds.cpp\<close>,
    \<^verbatim>\<open>loader_raw.cpp\<close>, \<^verbatim>\<open>loader_elf.cpp\<close>), source lines and queries
    (\<^verbatim>\<open>SourceDebug.cpp\<close>, \<^verbatim>\<open>NDSE.cpp\<close>).

  \<^bold>\<open>What is shown.\<close> Abstract specifications and the refinements that meet them: the ring buffer and
  the tracer of calls against a queue and a stack; the register pages against the message protocol;
  the decompressor against the meaning of its tokens; the checksum against polynomial division; the page
  table against the set of regions mapped over a page; the code of a block of data processing
  instructions against the ARM processor. Invariants of every reachable state: messages arrive in
  order, the interrupt of the receiver is pending when it has to be, compiled code that is not marked
  dirty is the compilation of the present bytes, and the live code is what the compiler emitted with
  the break byte exactly at the armed breakpoints. Round trips of the status register and of transfers
  of several words. Safety: decoded fields index their tables, relocated calls reach routines of the
  emulator, the debugging instruction changes nothing it must not.

  \<^bold>\<open>Bounds.\<close> Every function is total: recursion is structural or on a length that decreases. The search
  for the instruction of a trap counts the entries of the table, of which each is visited once. A page has 128 ARM or 256 Thumb instructions of at most 135 bytes of host code each; host
  programs are run by a step relation, and the one emitted loop (CLZ) is shown to end for every
  operand. The tracer of calls keeps 1023 frames. A loop that waits for the guest (handlers,
  callbacks of the decompressor) is one application of a parameter.

  \<^bold>\<open>Where the code differs from what it means.\<close> The theorems about the generated code are stated for the
  instructions whose code is exact (\<open>Jit_Data\<close> says which); the others, and the defects met elsewhere,
  are recorded as lemmas next to the definitions they are about: for example
  \<open>upper_half_clobbers\<close>, \<open>array_end_touches_next_page\<close>, \<open>poll_drops_disabled\<close>,
  \<open>fastint_to_irq_loses_registers\<close>, \<open>bank_h_never_mapped\<close>.

  \<^bold>\<open>Not modelled.\<close> The fiber the processor runs in, its signal handlers and threads
  (\<^verbatim>\<open>osdep.h\<close>, \<^verbatim>\<open>runner.cpp\<close>, \<^verbatim>\<open>signal2\<close>) and the sleeps of the waiting software
  interrupts: they are the host's. The import of debug information (\<^verbatim>\<open>loader_elf.cpp\<close> from
  the DWARF library on): what it does is calls of that library. The exported one-line wrappers of
  \<^verbatim>\<open>NDSE.cpp\<close>, logging, the tables of names for the log, and the constructors of the
  register pages that fill them. Interleaving within one access of the two processors, which the
  code leaves to the host's atomic instructions: the transition systems interleave whole accesses. The
  coprocessor and multiply instructions beyond those named in \<open>Jit_Data\<close> are modelled as emitted code
  and not compared with the processor.
\<close>

end
